(* ===== verification/Vex_Prelude.thy ===== *)
theory Vex_Prelude
  imports Main "HOL-Library.Word" "HOL-Library.Monad_Syntax"
begin

unbundle bit_operations_syntax

text \<open>
  What every theory of the development shares: the names of the machine integers, the outcome
  of a Rust call (a value, an \<open>Err\<close>, or a panic), Rust's checked and saturating additions,
  indexed removal from a \<open>VecDeque\<close>, and the lemmas on words, lists and association lists
  that the components use. The named collections are \<open>wordsimps\<close> (reading words as naturals)
  and \<open>outsimps\<close> (evaluating outcomes).

  Integer arithmetic follows the release profile of \<^verbatim>\<open>Cargo.toml\<close> (no overflow checks): the operators
  \<open>+\<close>, \<open>-\<close>, \<open>*\<close> wrap around, as they do on \<open>'a word\<close>.
\<close>

named_theorems wordsimps "reading word operations as operations on naturals"
named_theorems outsimps "evaluation of outcomes"

section \<open>Machine integers\<close>

type_synonym u8 = "8 word"
type_synonym u16 = "16 word"
type_synonym u32 = "32 word"
type_synonym u64 = "64 word"
type_synonym u128 = "128 word"
type_synonym i32 = "32 word" \<comment> \<open>two's complement, read by \<open>sint\<close>\<close>
type_synonym i64 = "64 word"

abbreviation u64_MAX :: u64 where
  "u64_MAX \<equiv> 18446744073709551615"

definition checked_add :: "'a::len word \<Rightarrow> 'a word \<Rightarrow> 'a word option" where
  "checked_add a b = (if unat a + unat b < 2 ^ LENGTH('a) then Some (a + b) else None)"

definition saturating_add :: "'a::len word \<Rightarrow> 'a word \<Rightarrow> 'a word" where
  "saturating_add a b = (if unat a + unat b < 2 ^ LENGTH('a) then a + b else - 1)"

lemma unat_add_no_overflow [wordsimps]:
  fixes a b :: "'a::len word"
  shows "unat a + unat b < 2 ^ LENGTH('a) \<Longrightarrow> unat (a + b) = unat a + unat b"
  using unat_add_lem [of a b] by simp

lemma unat_sub_no_underflow [wordsimps]:
  fixes a b :: "'a::len word"
  shows "b \<le> a \<Longrightarrow> unat (a - b) = unat a - unat b"
  by (rule unat_sub)

lemma unat_min [wordsimps]:
  fixes a b :: "'a::len word"
  shows "unat (min a b) = min (unat a) (unat b)"
  by (simp add: min_def word_le_nat_alt)

lemma unat_lt_2p: "unat (a::'a::len word) < 2 ^ LENGTH('a)"
  by (rule unsigned_less)

lemma checked_add_SomeD:
  "checked_add a b = Some c \<Longrightarrow> unat c = unat a + unat b"
  by (auto simp: checked_add_def unat_add_no_overflow split: if_splits)

lemma checked_add_None_iff:
  fixes a b :: "'a::len word"
  shows "checked_add a b = None \<longleftrightarrow> 2 ^ LENGTH('a) \<le> unat a + unat b"
  by (auto simp: checked_add_def)

lemma word_pos_iff: "(a::'a::len word) \<noteq> 0 \<longleftrightarrow> 0 < unat a"
  by (simp add: unat_gt_0)

lemma word_diff_eq_0_iff: "(a::'a::len word) - b = 0 \<longleftrightarrow> a = b"
  by simp

lemma min_le_words: "min a b \<le> (a::'a::len word)" "min a b \<le> (b::'a::len word)"
  by simp_all

section \<open>Outcomes of a call\<close>

text \<open>
  A Rust function returning \<open>Result\<close> ends in \<open>Ok\<close>, in \<open>Err\<close>, or unwinds. Where a function has
  no \<open>Err\<close> the model uses \<open>'a option\<close> with \<open>None\<close> for the panic, and where it cannot panic the
  sum type \<open>'e + 'a\<close> with \<open>Inl\<close> for the error.
\<close>

datatype ('e, 'a) outcome = Panic | Err 'e | Ok 'a

fun obind :: "('e, 'a) outcome \<Rightarrow> ('a \<Rightarrow> ('e, 'b) outcome) \<Rightarrow> ('e, 'b) outcome" where
  "obind Panic f = Panic"
| "obind (Err e) f = Err e"
| "obind (Ok a) f = f a"

definition or_panic :: "'a option \<Rightarrow> ('e, 'a) outcome" where
  "or_panic m = (case m of None \<Rightarrow> Panic | Some a \<Rightarrow> Ok a)"

definition of_result :: "'e + 'a \<Rightarrow> ('e, 'a) outcome" where
  "of_result r = (case r of Inl e \<Rightarrow> Err e | Inr a \<Rightarrow> Ok a)"

definition rbind :: "'e + 'a \<Rightarrow> ('a \<Rightarrow> 'e + 'b) \<Rightarrow> 'e + 'b" where
  "rbind r f = (case r of Inl e \<Rightarrow> Inl e | Inr a \<Rightarrow> f a)"

lemma or_panic_simps [simp, outsimps]:
  "or_panic None = Panic"
  "or_panic (Some a) = Ok a"
  by (simp_all add: or_panic_def)

lemma of_result_simps [simp, outsimps]:
  "of_result (Inl e) = Err e"
  "of_result (Inr a) = Ok a"
  by (simp_all add: of_result_def)

lemma rbind_simps [simp, outsimps]:
  "rbind (Inl e) f = Inl e"
  "rbind (Inr a) f = f a"
  by (simp_all add: rbind_def)

lemma rbind_Inr_iff: "rbind r f = Inr b \<longleftrightarrow> (\<exists>a. r = Inr a \<and> f a = Inr b)"
  by (cases r) auto

lemma obind_Ok_iff: "obind m f = Ok b \<longleftrightarrow> (\<exists>a. m = Ok a \<and> f a = Ok b)"
  by (cases m) auto

section \<open>Removing by index\<close>

text \<open>
  \<open>VecDeque::remove(i)\<close> returns the element and closes the gap, \<open>None\<close> out of range. The
  matching loop removes a list of indices from the highest to the lowest.
\<close>

definition vd_remove :: "nat \<Rightarrow> 'a list \<Rightarrow> ('a \<times> 'a list) option" where
  "vd_remove i xs = (if i < length xs then Some (xs ! i, take i xs @ drop (Suc i) xs) else None)"

fun vd_remove_all :: "nat list \<Rightarrow> 'a list \<Rightarrow> 'a list option" where
  "vd_remove_all [] xs = Some xs"
| "vd_remove_all (i # is) xs =
     (case vd_remove i xs of None \<Rightarrow> None | Some (_, xs') \<Rightarrow> vd_remove_all is xs')"

lemma vd_remove_Suc:
  "vd_remove (Suc i) (x # xs) = map_option (\<lambda>(y, ys). (y, x # ys)) (vd_remove i xs)"
  by (simp add: vd_remove_def)

lemma vd_remove_0: "vd_remove 0 (x # xs) = Some (x, xs)"
  by (simp add: vd_remove_def)

lemma vd_remove_all_append:
  "vd_remove_all (is @ js) xs =
     (case vd_remove_all is xs of None \<Rightarrow> None | Some ys \<Rightarrow> vd_remove_all js ys)"
  by (induction "is" arbitrary: xs) (auto split: option.splits)

lemma vd_remove_all_map_Suc:
  "vd_remove_all (map Suc is) (x # xs) = map_option (Cons x) (vd_remove_all is xs)"
  by (induction "is" arbitrary: xs) (auto simp: vd_remove_Suc split: option.splits)

lemma vd_remove_all_snoc_0:
  "vd_remove_all (map Suc is @ [0]) (x # xs) = vd_remove_all is xs"
  by (auto simp: vd_remove_all_append vd_remove_all_map_Suc vd_remove_0 split: option.splits)

section \<open>Sums\<close>

lemma sum_list_word_unat:
  fixes f :: "'b \<Rightarrow> 'a::len word"
  shows "sum_list (map (\<lambda>x. unat (f x)) xs) < 2 ^ LENGTH('a) \<Longrightarrow>
    unat (sum_list (map f xs)) = sum_list (map (\<lambda>x. unat (f x)) xs)"
proof (induction xs)
  case Nil
  show ?case by simp
next
  case (Cons x xs)
  then have "unat (sum_list (map f xs)) = sum_list (map (\<lambda>x. unat (f x)) xs)"
    by simp
  with Cons.prems show ?case
    by (simp add: unat_add_no_overflow)
qed

lemma sum_list_take_le: "sum_list (take n xs) \<le> sum_list (xs :: nat list)"
proof -
  have "sum_list (take n xs @ drop n xs) = sum_list (take n xs) + sum_list (drop n xs)"
    by (rule sum_list_append)
  then show ?thesis by simp
qed

lemma sum_list_filter_split:
  "sum_list (map f (filter P xs)) + sum_list (map f (filter (\<lambda>x. \<not> P x) xs)) =
   (sum_list (map f xs) :: 'a::comm_monoid_add)"
  by (induction xs) (auto simp: ac_simps)

end
