(* ===== verification/Vex_Types.thy ===== *)
theory Vex_Types
  imports Vex_Prelude
begin

text \<open>
  The enums of the system: those of \<^verbatim>\<open>lib.rs\<close> and \<^verbatim>\<open>cmd.rs\<close>, the
  SBE enums of \<^verbatim>\<open>order/src\<close> and the conversions between the two.
\<close>

section \<open>Enums of the core\<close>

datatype market_type = FuturesContract | Spot | MarketOption

datatype matcher_event_type = ME_Trade | ME_Rejected | ME_Cancelled | ME_Placed

datatype order_command_type = PlaceOrder | CancelOrder | DepositFunds | WithdrawFunds

datatype time_in_force = Gtc | Ioc | Fok

datatype side = Ask | Bid

datatype status = Rejected | Placed | Cancelled | PartiallyFilled | Filled | Processing | Processed

fun market_type_code :: "market_type \<Rightarrow> u8" where
  "market_type_code FuturesContract = 0"
| "market_type_code Spot = 1"
| "market_type_code MarketOption = 2"

fun op_side :: "side \<Rightarrow> side" where
  "op_side Ask = Bid"
| "op_side Bid = Ask"

lemma op_side_involutive [simp]: "op_side (op_side s) = s"
  by (cases s) simp_all

lemma op_side_neq [simp]: "op_side s \<noteq> s" "s \<noteq> op_side s"
  by (cases s; simp)+

text \<open>The derived \<^verbatim>\<open>PartialOrd\<close> and \<^verbatim>\<open>Ord\<close> of an enum compare discriminants.\<close>

fun side_discriminant :: "side \<Rightarrow> nat" where
  "side_discriminant Ask = 0"
| "side_discriminant Bid = 1"

lemma side_discriminant_inject: "side_discriminant a = side_discriminant b \<longleftrightarrow> a = b"
  by (cases a; cases b) simp_all

lemma market_type_code_inject: "market_type_code a = market_type_code b \<longleftrightarrow> a = b"
  by (cases a; cases b) simp_all

instantiation side :: linorder
begin

definition less_eq_side :: "side \<Rightarrow> side \<Rightarrow> bool" where
  "less_eq_side a b \<longleftrightarrow> side_discriminant a \<le> side_discriminant b"

definition less_side :: "side \<Rightarrow> side \<Rightarrow> bool" where
  "less_side a b \<longleftrightarrow> side_discriminant a < side_discriminant b"

instance
  by standard
    (auto simp: less_eq_side_def less_side_def simp flip: side_discriminant_inject)

end

instantiation market_type :: linorder
begin

definition less_eq_market_type :: "market_type \<Rightarrow> market_type \<Rightarrow> bool" where
  "less_eq_market_type a b \<longleftrightarrow> market_type_code a \<le> market_type_code b"

definition less_market_type :: "market_type \<Rightarrow> market_type \<Rightarrow> bool" where
  "less_market_type a b \<longleftrightarrow> market_type_code a < market_type_code b"

instance
  by standard
    (auto simp: less_eq_market_type_def less_market_type_def simp flip: market_type_code_inject)

end

section \<open>Enums of the wire format\<close>

datatype sbe_order_command_type =
  SbePlaceOrder | SbeCancelOrder | SbeDepositFunds | SbeWithdrawFunds | SbeCommandNull

datatype sbe_side = SbeAsk | SbeBid | SbeSideNull

datatype sbe_time_in_force = SbeGtc | SbeIoc | SbeFok | SbeTifNull

datatype sbe_status =
  SbeRejected | SbePlaced | SbeCancelled | SbePartiallyFilled | SbeFilled | SbeProcessing
| SbeProcessed | SbeStatusNull

definition sbe_command_from_u8 :: "u8 \<Rightarrow> sbe_order_command_type" where
  "sbe_command_from_u8 v =
     (if v = 0 then SbePlaceOrder else if v = 1 then SbeCancelOrder
      else if v = 2 then SbeDepositFunds else if v = 3 then SbeWithdrawFunds else SbeCommandNull)"

fun sbe_command_to_u8 :: "sbe_order_command_type \<Rightarrow> u8" where
  "sbe_command_to_u8 SbePlaceOrder = 0"
| "sbe_command_to_u8 SbeCancelOrder = 1"
| "sbe_command_to_u8 SbeDepositFunds = 2"
| "sbe_command_to_u8 SbeWithdrawFunds = 3"
| "sbe_command_to_u8 SbeCommandNull = 255"

definition sbe_side_from_u8 :: "u8 \<Rightarrow> sbe_side" where
  "sbe_side_from_u8 v = (if v = 0 then SbeAsk else if v = 1 then SbeBid else SbeSideNull)"

fun sbe_side_to_u8 :: "sbe_side \<Rightarrow> u8" where
  "sbe_side_to_u8 SbeAsk = 0"
| "sbe_side_to_u8 SbeBid = 1"
| "sbe_side_to_u8 SbeSideNull = 255"

definition sbe_tif_from_u8 :: "u8 \<Rightarrow> sbe_time_in_force" where
  "sbe_tif_from_u8 v =
     (if v = 0 then SbeGtc else if v = 1 then SbeIoc else if v = 2 then SbeFok else SbeTifNull)"

fun sbe_tif_to_u8 :: "sbe_time_in_force \<Rightarrow> u8" where
  "sbe_tif_to_u8 SbeGtc = 0"
| "sbe_tif_to_u8 SbeIoc = 1"
| "sbe_tif_to_u8 SbeFok = 2"
| "sbe_tif_to_u8 SbeTifNull = 255"

definition sbe_status_from_u8 :: "u8 \<Rightarrow> sbe_status" where
  "sbe_status_from_u8 v =
     (if v = 0 then SbeRejected else if v = 1 then SbePlaced else if v = 2 then SbeCancelled
      else if v = 3 then SbePartiallyFilled else if v = 4 then SbeFilled
      else if v = 5 then SbeProcessing else if v = 6 then SbeProcessed else SbeStatusNull)"

fun sbe_status_to_u8 :: "sbe_status \<Rightarrow> u8" where
  "sbe_status_to_u8 SbeRejected = 0"
| "sbe_status_to_u8 SbePlaced = 1"
| "sbe_status_to_u8 SbeCancelled = 2"
| "sbe_status_to_u8 SbePartiallyFilled = 3"
| "sbe_status_to_u8 SbeFilled = 4"
| "sbe_status_to_u8 SbeProcessing = 5"
| "sbe_status_to_u8 SbeProcessed = 6"
| "sbe_status_to_u8 SbeStatusNull = 255"

lemma sbe_command_from_to [simp]: "sbe_command_from_u8 (sbe_command_to_u8 c) = c"
  by (cases c) (simp_all add: sbe_command_from_u8_def)

lemma sbe_side_from_to [simp]: "sbe_side_from_u8 (sbe_side_to_u8 s) = s"
  by (cases s) (simp_all add: sbe_side_from_u8_def)

lemma sbe_tif_from_to [simp]: "sbe_tif_from_u8 (sbe_tif_to_u8 t) = t"
  by (cases t) (simp_all add: sbe_tif_from_u8_def)

lemma sbe_status_from_to [simp]: "sbe_status_from_u8 (sbe_status_to_u8 s) = s"
  by (cases s) (simp_all add: sbe_status_from_u8_def)

text \<open>
  \<^verbatim>\<open>FromStr\<close> never fails (an unknown name is the null value) and \<^verbatim>\<open>Display\<close> writes the variant's name.
\<close>

definition sbe_command_from_str :: "string \<Rightarrow> sbe_order_command_type" where
  "sbe_command_from_str v =
     (if v = ''PlaceOrder'' then SbePlaceOrder else if v = ''CancelOrder'' then SbeCancelOrder
      else if v = ''DepositFunds'' then SbeDepositFunds
      else if v = ''WithdrawFunds'' then SbeWithdrawFunds else SbeCommandNull)"

fun sbe_command_display :: "sbe_order_command_type \<Rightarrow> string" where
  "sbe_command_display SbePlaceOrder = ''PlaceOrder''"
| "sbe_command_display SbeCancelOrder = ''CancelOrder''"
| "sbe_command_display SbeDepositFunds = ''DepositFunds''"
| "sbe_command_display SbeWithdrawFunds = ''WithdrawFunds''"
| "sbe_command_display SbeCommandNull = ''NullVal''"

definition sbe_side_from_str :: "string \<Rightarrow> sbe_side" where
  "sbe_side_from_str v =
     (if v = ''Ask'' then SbeAsk else if v = ''Bid'' then SbeBid else SbeSideNull)"

fun sbe_side_display :: "sbe_side \<Rightarrow> string" where
  "sbe_side_display SbeAsk = ''Ask''"
| "sbe_side_display SbeBid = ''Bid''"
| "sbe_side_display SbeSideNull = ''NullVal''"

definition sbe_tif_from_str :: "string \<Rightarrow> sbe_time_in_force" where
  "sbe_tif_from_str v =
     (if v = ''Gtc'' then SbeGtc else if v = ''Ioc'' then SbeIoc else if v = ''Fok'' then SbeFok
      else SbeTifNull)"

fun sbe_tif_display :: "sbe_time_in_force \<Rightarrow> string" where
  "sbe_tif_display SbeGtc = ''Gtc''"
| "sbe_tif_display SbeIoc = ''Ioc''"
| "sbe_tif_display SbeFok = ''Fok''"
| "sbe_tif_display SbeTifNull = ''NullVal''"

definition sbe_status_from_str :: "string \<Rightarrow> sbe_status" where
  "sbe_status_from_str v =
     (if v = ''Rejected'' then SbeRejected else if v = ''Placed'' then SbePlaced
      else if v = ''Cancelled'' then SbeCancelled
      else if v = ''PartiallyFilled'' then SbePartiallyFilled
      else if v = ''Filled'' then SbeFilled else if v = ''Processing'' then SbeProcessing
      else if v = ''Processed'' then SbeProcessed else SbeStatusNull)"

fun sbe_status_display :: "sbe_status \<Rightarrow> string" where
  "sbe_status_display SbeRejected = ''Rejected''"
| "sbe_status_display SbePlaced = ''Placed''"
| "sbe_status_display SbeCancelled = ''Cancelled''"
| "sbe_status_display SbePartiallyFilled = ''PartiallyFilled''"
| "sbe_status_display SbeFilled = ''Filled''"
| "sbe_status_display SbeProcessing = ''Processing''"
| "sbe_status_display SbeProcessed = ''Processed''"
| "sbe_status_display SbeStatusNull = ''NullVal''"

section \<open>Conversions between the two\<close>

type_synonym serde_error = string

fun command_try_from_sbe :: "sbe_order_command_type \<Rightarrow> serde_error + order_command_type" where
  "command_try_from_sbe SbePlaceOrder = Inr PlaceOrder"
| "command_try_from_sbe SbeCancelOrder = Inr CancelOrder"
| "command_try_from_sbe SbeDepositFunds = Inr DepositFunds"
| "command_try_from_sbe SbeWithdrawFunds = Inr WithdrawFunds"
| "command_try_from_sbe SbeCommandNull = Inl ''NullVal''"

fun command_to_sbe :: "order_command_type \<Rightarrow> sbe_order_command_type" where
  "command_to_sbe PlaceOrder = SbePlaceOrder"
| "command_to_sbe CancelOrder = SbeCancelOrder"
| "command_to_sbe DepositFunds = SbeDepositFunds"
| "command_to_sbe WithdrawFunds = SbeWithdrawFunds"

fun tif_try_from_sbe :: "sbe_time_in_force \<Rightarrow> serde_error + time_in_force" where
  "tif_try_from_sbe SbeGtc = Inr Gtc"
| "tif_try_from_sbe SbeIoc = Inr Ioc"
| "tif_try_from_sbe SbeFok = Inr Fok"
| "tif_try_from_sbe _ = Inl ''Unknown TimeInForce variant''"

fun tif_to_sbe :: "time_in_force \<Rightarrow> sbe_time_in_force" where
  "tif_to_sbe Gtc = SbeGtc"
| "tif_to_sbe Ioc = SbeIoc"
| "tif_to_sbe Fok = SbeFok"

fun side_try_from_sbe :: "sbe_side \<Rightarrow> serde_error + side" where
  "side_try_from_sbe SbeAsk = Inr Ask"
| "side_try_from_sbe SbeBid = Inr Bid"
| "side_try_from_sbe SbeSideNull = Inl ''NullVal''"

fun side_to_sbe :: "side \<Rightarrow> sbe_side" where
  "side_to_sbe Ask = SbeAsk"
| "side_to_sbe Bid = SbeBid"

fun status_try_from_sbe :: "sbe_status \<Rightarrow> serde_error + status" where
  "status_try_from_sbe SbeRejected = Inr Rejected"
| "status_try_from_sbe SbePlaced = Inr Placed"
| "status_try_from_sbe SbeCancelled = Inr Cancelled"
| "status_try_from_sbe SbePartiallyFilled = Inr PartiallyFilled"
| "status_try_from_sbe SbeFilled = Inr Filled"
| "status_try_from_sbe SbeProcessing = Inr Processing"
| "status_try_from_sbe SbeProcessed = Inr Processed"
| "status_try_from_sbe SbeStatusNull = Inl ''Invalid status: NullVal''"

fun status_to_sbe :: "status \<Rightarrow> sbe_status" where
  "status_to_sbe Rejected = SbeRejected"
| "status_to_sbe Placed = SbePlaced"
| "status_to_sbe Cancelled = SbeCancelled"
| "status_to_sbe PartiallyFilled = SbePartiallyFilled"
| "status_to_sbe Filled = SbeFilled"
| "status_to_sbe Processing = SbeProcessing"
| "status_to_sbe Processed = SbeProcessed"

lemma command_sbe_roundtrip [simp]: "command_try_from_sbe (command_to_sbe c) = Inr c"
  by (cases c) simp_all

lemma tif_sbe_roundtrip [simp]: "tif_try_from_sbe (tif_to_sbe t) = Inr t"
  by (cases t) simp_all

lemma side_sbe_roundtrip [simp]: "side_try_from_sbe (side_to_sbe s) = Inr s"
  by (cases s) simp_all

lemma status_sbe_roundtrip [simp]: "status_try_from_sbe (status_to_sbe s) = Inr s"
  by (cases s) simp_all

end
