(* ===== verification/Vex_Data.thy ===== *)
theory Vex_Data
  imports Vex_Types
begin

text \<open>
  The data that flows through the pipeline (\<^verbatim>\<open>common/src\<close>): orders, balances, the linked list of
  trade events, the L2 snapshot and the order command with its constructors and setters.

  A struct is a record whose fields carry a prefix (\<open>c_\<close> for \<^verbatim>\<open>OrderCommand\<close>, \<open>o_\<close> for \<^verbatim>\<open>Order\<close>, \<open>e_\<close> for
  \<^verbatim>\<open>MatcherTradeEvent\<close>, \<open>l2_\<close> for \<^verbatim>\<open>L2MarketData\<close>); the getters of the code are the record's selectors and
  its setters the record updates. A fixed array of two balances is a pair. The field \<^verbatim>\<open>next_event\<close> of a
  trade event is the tail of the chain that holds the event.
\<close>

section \<open>Balances, orders, trade events\<close>

record user_balance =
  available :: u64
  locked :: u64

definition balance_default :: user_balance where
  "balance_default = \<lparr>available = 0, locked = 0\<rparr>"

definition balance_total :: "user_balance \<Rightarrow> u64" where
  "balance_total b = saturating_add (available b) (locked b)"

record order =
  o_order_id :: u64
  o_user_id :: u64
  o_price :: u64
  o_size :: u64
  o_original_size :: u64
  o_side :: side
  o_time_in_force :: time_in_force
  o_status :: status
  o_timestamp :: u64

record trade_event =
  e_active_order_completed :: bool
  e_matched_order_id :: u64
  e_maker_user_id :: u64
  e_matched_order_completed :: bool
  e_price :: u64
  e_size :: u64
  e_maker_balance :: "user_balance \<times> user_balance"
  e_maker_remaining_size :: u64
  e_maker_original_size :: u64

datatype event_chain = Event trade_event "event_chain option"

fun chain_list :: "event_chain \<Rightarrow> trade_event list" where
  "chain_list (Event e None) = [e]"
| "chain_list (Event e (Some rest)) = e # chain_list rest"

definition events_list :: "event_chain option \<Rightarrow> trade_event list" where
  "events_list es = (case es of None \<Rightarrow> [] | Some c \<Rightarrow> chain_list c)"

fun chain_head :: "event_chain \<Rightarrow> trade_event" where
  "chain_head (Event e _) = e"

text \<open>The loop of \<^verbatim>\<open>attach_event\<close> walks to the tail and hangs the new event there.\<close>

fun attach_to_tail :: "event_chain \<Rightarrow> event_chain \<Rightarrow> event_chain" where
  "attach_to_tail (Event e None) new = Event e (Some new)"
| "attach_to_tail (Event e (Some rest)) new = Event e (Some (attach_to_tail rest new))"

text \<open>The loop of \<^verbatim>\<open>calc_filled_size\<close> adds up the sizes of a chain.\<close>

fun calc_filled_size :: "event_chain \<Rightarrow> u64" where
  "calc_filled_size (Event e None) = e_size e"
| "calc_filled_size (Event e (Some rest)) = e_size e + calc_filled_size rest"

lemma events_list_simps [simp]:
  "events_list None = []"
  "events_list (Some c) = chain_list c"
  by (simp_all add: events_list_def)

lemma chain_list_not_Nil [simp]: "chain_list c \<noteq> []"
  by (cases c rule: chain_list.cases) simp_all

lemma events_list_Nil_iff [simp]: "events_list es = [] \<longleftrightarrow> es = None"
  by (cases es) simp_all

lemma chain_list_attach: "chain_list (attach_to_tail c new) = chain_list c @ chain_list new"
  by (induction c new rule: attach_to_tail.induct) simp_all

lemma hd_chain_list: "hd (chain_list c) = chain_head c"
  by (cases c rule: chain_list.cases) simp_all

lemma calc_filled_size_sum: "calc_filled_size c = sum_list (map e_size (chain_list c))"
  by (induction c rule: calc_filled_size.induct) simp_all

section \<open>The L2 snapshot\<close>

record l2_market_data =
  l2_ask_prices :: "u64 list"
  l2_ask_volumes :: "u64 list"
  l2_ask_orders :: "u64 list"
  l2_bid_prices :: "u64 list"
  l2_bid_volumes :: "u64 list"
  l2_bid_orders :: "u64 list"
  l2_timestamp :: u64
  l2_reference_seq :: u64

definition L2SIZE :: nat where
  "L2SIZE = 10"

definition l2_new :: l2_market_data where
  "l2_new = \<lparr>l2_ask_prices = [], l2_ask_volumes = [], l2_ask_orders = [], l2_bid_prices = [],
     l2_bid_volumes = [], l2_bid_orders = [], l2_timestamp = 0, l2_reference_seq = 0\<rparr>"

definition bid_depth :: "l2_market_data \<Rightarrow> nat" where
  "bid_depth d = length (l2_bid_prices d)"

definition ask_depth :: "l2_market_data \<Rightarrow> nat" where
  "ask_depth d = length (l2_ask_prices d)"

definition total_ask_volume :: "l2_market_data \<Rightarrow> u64" where
  "total_ask_volume d = sum_list (l2_ask_volumes d)"

definition total_bid_volume :: "l2_market_data \<Rightarrow> u64" where
  "total_bid_volume d = sum_list (l2_bid_volumes d)"

section \<open>The order command\<close>

record order_command =
  c_command :: order_command_type
  c_client_order_id :: u64
  c_order_id :: u64
  c_user_id :: u64
  c_market_id :: u32
  c_price :: u64
  c_size :: u64
  c_side :: side
  c_time_in_force :: time_in_force
  c_timestamp :: u64
  c_status :: status
  c_events :: "event_chain option"
  c_balance :: "user_balance \<times> user_balance"
  c_l2_data :: "l2_market_data option"
  c_route_gateway_id :: u8
  c_original_size :: u64

definition order_command_default :: order_command where
  "order_command_default =
     \<lparr>c_command = PlaceOrder, c_client_order_id = 0, c_order_id = 0, c_user_id = 0, c_market_id = 0,
      c_price = 0, c_size = 0, c_side = Ask, c_time_in_force = Gtc, c_timestamp = 0,
      c_status = Processing, c_events = None, c_balance = (balance_default, balance_default),
      c_l2_data = None, c_route_gateway_id = 0, c_original_size = 0\<rparr>"

definition mk_place_order ::
    "time_in_force \<Rightarrow> u64 \<Rightarrow> u64 \<Rightarrow> u64 \<Rightarrow> side \<Rightarrow> u32 \<Rightarrow> u64 \<Rightarrow> order_command" where
  "mk_place_order tif user_id price sz s market_id client_order_id =
     \<lparr>c_command = PlaceOrder, c_client_order_id = client_order_id, c_order_id = 0,
      c_user_id = user_id, c_market_id = market_id, c_price = price, c_size = sz, c_side = s,
      c_time_in_force = tif, c_timestamp = 0, c_status = Processing, c_events = None,
      c_balance = (balance_default, balance_default), c_l2_data = None, c_route_gateway_id = 0,
      c_original_size = 0\<rparr>"

definition mk_cancel_order :: "u64 \<Rightarrow> side \<Rightarrow> u32 \<Rightarrow> order_command" where
  "mk_cancel_order order_id s market_id =
     \<lparr>c_command = CancelOrder, c_client_order_id = 0, c_order_id = order_id, c_user_id = 0,
      c_market_id = market_id, c_price = 0, c_size = 0, c_side = s, c_time_in_force = Gtc,
      c_timestamp = 0, c_status = Processing, c_events = None,
      c_balance = (balance_default, balance_default), c_l2_data = None, c_route_gateway_id = 0,
      c_original_size = 0\<rparr>"

definition mk_deposit_funds :: "u64 \<Rightarrow> u64 \<Rightarrow> u16 \<Rightarrow> order_command" where
  "mk_deposit_funds user_id amount asset =
     \<lparr>c_command = DepositFunds, c_client_order_id = 0, c_order_id = 0, c_user_id = user_id,
      c_market_id = ucast asset, c_price = 0, c_size = amount, c_side = Ask, c_time_in_force = Gtc,
      c_timestamp = 0, c_status = Processing, c_events = None,
      c_balance = (balance_default, balance_default), c_l2_data = None, c_route_gateway_id = 0,
      c_original_size = 0\<rparr>"

definition mk_withdraw_funds :: "u64 \<Rightarrow> u64 \<Rightarrow> u16 \<Rightarrow> order_command" where
  "mk_withdraw_funds user_id amount asset =
     \<lparr>c_command = WithdrawFunds, c_client_order_id = 0, c_order_id = 0, c_user_id = user_id,
      c_market_id = ucast asset, c_price = 0, c_size = amount, c_side = Ask, c_time_in_force = Gtc,
      c_timestamp = 0, c_status = Processing, c_events = None,
      c_balance = (balance_default, balance_default), c_l2_data = None, c_route_gateway_id = 0,
      c_original_size = 0\<rparr>"

definition set_size :: "u64 \<Rightarrow> order_command \<Rightarrow> order_command" where
  "set_size s cmd = cmd\<lparr>c_size := s\<rparr>"

definition set_price :: "u64 \<Rightarrow> order_command \<Rightarrow> order_command" where
  "set_price p cmd = cmd\<lparr>c_price := p\<rparr>"

definition set_user_id :: "u64 \<Rightarrow> order_command \<Rightarrow> order_command" where
  "set_user_id u cmd = cmd\<lparr>c_user_id := u\<rparr>"

definition set_side :: "side \<Rightarrow> order_command \<Rightarrow> order_command" where
  "set_side s cmd = cmd\<lparr>c_side := s\<rparr>"

definition set_status :: "status \<Rightarrow> order_command \<Rightarrow> order_command" where
  "set_status s cmd = cmd\<lparr>c_status := s\<rparr>"

definition attach_event :: "event_chain \<Rightarrow> order_command \<Rightarrow> order_command" where
  "attach_event ev cmd =
     (case c_events cmd of
        Some c \<Rightarrow> cmd\<lparr>c_events := Some (attach_to_tail c ev)\<rparr>
      | None \<Rightarrow> cmd\<lparr>c_events := Some ev\<rparr>)"

lemmas setter_defs =
  set_size_def set_price_def set_user_id_def set_side_def set_status_def

lemma events_list_attach_event [simp]:
  "events_list (c_events (attach_event ev cmd)) = events_list (c_events cmd) @ chain_list ev"
  by (simp add: attach_event_def chain_list_attach split: option.split)

lemma attach_event_frame [simp]:
  "c_command (attach_event ev cmd) = c_command cmd"
  "c_order_id (attach_event ev cmd) = c_order_id cmd"
  "c_client_order_id (attach_event ev cmd) = c_client_order_id cmd"
  "c_user_id (attach_event ev cmd) = c_user_id cmd"
  "c_market_id (attach_event ev cmd) = c_market_id cmd"
  "c_price (attach_event ev cmd) = c_price cmd"
  "c_size (attach_event ev cmd) = c_size cmd"
  "c_side (attach_event ev cmd) = c_side cmd"
  "c_time_in_force (attach_event ev cmd) = c_time_in_force cmd"
  "c_timestamp (attach_event ev cmd) = c_timestamp cmd"
  "c_status (attach_event ev cmd) = c_status cmd"
  "c_balance (attach_event ev cmd) = c_balance cmd"
  "c_l2_data (attach_event ev cmd) = c_l2_data cmd"
  "c_route_gateway_id (attach_event ev cmd) = c_route_gateway_id cmd"
  "c_original_size (attach_event ev cmd) = c_original_size cmd"
  by (simp_all add: attach_event_def split: option.split)

lemma attach_event_as_update:
  "attach_event ev cmd = cmd\<lparr>c_events := c_events (attach_event ev cmd)\<rparr>"
  by (simp add: attach_event_def split: option.split)

end
