(* ===== verification/Sbe_Codec.thy ===== *)
theory Sbe_Codec
  imports Vex_Data
begin

text \<open>
  The wire format of a command: the byte buffers of \<^verbatim>\<open>order/src/lib.rs\<close>, the message header codec, the
  message codec, and \<^verbatim>\<open>encode_order_command\<close> and \<^verbatim>\<open>decode_order_command\<close> of \<^verbatim>\<open>common/src/cmd.rs\<close>. A buffer
  is a list of bytes; an access out of range panics (\<open>None\<close>). The flyweight encoders and decoders are
  records; a setter that writes through the buffer returns the encoder updated. An encoder that wraps
  a parent owns it, so the buffer is reached through the parent.
\<close>

section \<open>Little-endian words\<close>

fun to_le_bytes :: "nat \<Rightarrow> 'a::len word \<Rightarrow> u8 list" where
  "to_le_bytes 0 w = []"
| "to_le_bytes (Suc n) w = ucast w # to_le_bytes n (drop_bit 8 w)"

fun from_le_bytes :: "u8 list \<Rightarrow> 'a::len word" where
  "from_le_bytes [] = 0"
| "from_le_bytes (b # bs) = ucast b OR push_bit 8 (from_le_bytes bs)"

lemma length_to_le_bytes [simp]: "length (to_le_bytes n w) = n"
  by (induction n w rule: to_le_bytes.induct) simp_all

lemma from_to_le: "from_le_bytes (to_le_bytes n (w :: 'a::len word)) = take_bit (8 * n) w"
proof (induction n w rule: to_le_bytes.induct)
  case (2 n w)
  have "ucast (ucast w :: u8) OR push_bit 8 (take_bit (8 * n) (drop_bit 8 w)) = take_bit (8 * Suc n) w"
    by (rule bit_word_eqI) (auto simp: bit_simps not_le)
  with 2 show ?case by simp
qed simp

lemma from_to_le_full [simp]:
  "from_le_bytes (to_le_bytes 2 (w16 :: u16)) = w16"
  "from_le_bytes (to_le_bytes 4 (w32 :: u32)) = w32"
  "from_le_bytes (to_le_bytes 8 (w64 :: u64)) = w64"
  using take_bit_length_eq [of w16] take_bit_length_eq [of w32] take_bit_length_eq [of w64]
  by (simp_all add: from_to_le)

section \<open>Buffers\<close>

definition get_bytes_at :: "nat \<Rightarrow> u8 list \<Rightarrow> nat \<Rightarrow> u8 list option" where
  "get_bytes_at n data index =
     (if index + n \<le> length data then Some (take n (drop index data)) else None)"

definition get_u8_at :: "u8 list \<Rightarrow> nat \<Rightarrow> u8 option" where
  "get_u8_at data index = (if index < length data then Some (data ! index) else None)"

definition get_u16_at :: "u8 list \<Rightarrow> nat \<Rightarrow> u16 option" where
  "get_u16_at data index = map_option from_le_bytes (get_bytes_at 2 data index)"

definition get_u32_at :: "u8 list \<Rightarrow> nat \<Rightarrow> u32 option" where
  "get_u32_at data index = map_option from_le_bytes (get_bytes_at 4 data index)"

definition get_u64_at :: "u8 list \<Rightarrow> nat \<Rightarrow> u64 option" where
  "get_u64_at data index = map_option from_le_bytes (get_bytes_at 8 data index)"

definition get_slice_at :: "u8 list \<Rightarrow> nat \<Rightarrow> nat \<Rightarrow> u8 list option" where
  "get_slice_at data index len = get_bytes_at len data index"

definition put_bytes_at :: "nat \<Rightarrow> u8 list \<Rightarrow> u8 list \<Rightarrow> u8 list option" where
  "put_bytes_at index bytes data =
     (if index + length bytes \<le> length data
      then Some (take index data @ bytes @ drop (index + length bytes) data) else None)"

definition put_u8_at :: "nat \<Rightarrow> u8 \<Rightarrow> u8 list \<Rightarrow> u8 list option" where
  "put_u8_at index v data = (if index < length data then Some (data[index := v]) else None)"

definition put_u16_at :: "nat \<Rightarrow> u16 \<Rightarrow> u8 list \<Rightarrow> u8 list option" where
  "put_u16_at index v data = put_bytes_at index (to_le_bytes 2 v) data"

definition put_u32_at :: "nat \<Rightarrow> u32 \<Rightarrow> u8 list \<Rightarrow> u8 list option" where
  "put_u32_at index v data = put_bytes_at index (to_le_bytes 4 v) data"

definition put_u64_at :: "nat \<Rightarrow> u64 \<Rightarrow> u8 list \<Rightarrow> u8 list option" where
  "put_u64_at index v data = put_bytes_at index (to_le_bytes 8 v) data"

definition put_slice_at :: "nat \<Rightarrow> u8 list \<Rightarrow> u8 list \<Rightarrow> u8 list option" where
  "put_slice_at index src data = put_bytes_at index src data"

section \<open>Encoders\<close>

definition ENCODED_LENGTH :: nat where "ENCODED_LENGTH = 8"
definition SBE_SCHEMA_ID :: u16 where "SBE_SCHEMA_ID = 1"
definition SBE_SCHEMA_VERSION :: u16 where "SBE_SCHEMA_VERSION = 1"
definition SBE_BLOCK_LENGTH :: u16 where "SBE_BLOCK_LENGTH = 64"
definition SBE_TEMPLATE_ID :: u16 where "SBE_TEMPLATE_ID = 1"
definition ORDERCOMMANDSIZE :: nat where "ORDERCOMMANDSIZE = 64"

datatype sbe_err = ParentNotSet

record msg_encoder =
  en_buf :: "u8 list"
  en_initial_offset :: nat
  en_offset :: nat
  en_limit :: nat

definition msg_encoder_default :: msg_encoder where
  "msg_encoder_default = \<lparr>en_buf = [], en_initial_offset = 0, en_offset = 0, en_limit = 0\<rparr>"

record header_encoder =
  he_parent :: "msg_encoder option"
  he_offset :: nat

definition header_encoder_wrap :: "msg_encoder \<Rightarrow> nat \<Rightarrow> header_encoder" where
  "header_encoder_wrap parent off = \<lparr>he_parent = Some parent, he_offset = off\<rparr>"

definition header_encoder_parent :: "header_encoder \<Rightarrow> sbe_err + msg_encoder" where
  "header_encoder_parent h = (case he_parent h of None \<Rightarrow> Inl ParentNotSet | Some p \<Rightarrow> Inr p)"

text \<open>\<^verbatim>\<open>get_buf_mut\<close> of the header encoder panics when there is no parent.\<close>

definition he_get_buf_mut :: "(u8 list \<Rightarrow> u8 list option) \<Rightarrow> header_encoder \<Rightarrow> header_encoder option" where
  "he_get_buf_mut put h =
     (case he_parent h of
        None \<Rightarrow> None
      | Some p \<Rightarrow> map_option (\<lambda>b. h\<lparr>he_parent := Some (p\<lparr>en_buf := b\<rparr>)\<rparr>) (put (en_buf p)))"

definition he_block_length :: "u16 \<Rightarrow> header_encoder \<Rightarrow> header_encoder option" where
  "he_block_length v h = he_get_buf_mut (put_u16_at (he_offset h) v) h"

definition he_template_id :: "u16 \<Rightarrow> header_encoder \<Rightarrow> header_encoder option" where
  "he_template_id v h = he_get_buf_mut (put_u16_at (he_offset h + 2) v) h"

definition he_schema_id :: "u16 \<Rightarrow> header_encoder \<Rightarrow> header_encoder option" where
  "he_schema_id v h = he_get_buf_mut (put_u16_at (he_offset h + 4) v) h"

definition he_version :: "u16 \<Rightarrow> header_encoder \<Rightarrow> header_encoder option" where
  "he_version v h = he_get_buf_mut (put_u16_at (he_offset h + 6) v) h"

definition en_wrap :: "msg_encoder \<Rightarrow> u8 list \<Rightarrow> nat \<Rightarrow> msg_encoder" where
  "en_wrap e buf off = e\<lparr>en_buf := buf, en_initial_offset := off, en_offset := off,
     en_limit := off + unat SBE_BLOCK_LENGTH\<rparr>"

definition en_header :: "msg_encoder \<Rightarrow> nat \<Rightarrow> header_encoder option" where
  "en_header e off =
     Option.bind (he_block_length SBE_BLOCK_LENGTH (header_encoder_wrap e off)) (\<lambda>h.
     Option.bind (he_template_id SBE_TEMPLATE_ID h) (\<lambda>h.
     Option.bind (he_schema_id SBE_SCHEMA_ID h) (\<lambda>h.
     he_version SBE_SCHEMA_VERSION h)))"

text \<open>A field setter writes at its offset in the body.\<close>

definition en_put :: "(nat \<Rightarrow> u8 list \<Rightarrow> u8 list option) \<Rightarrow> nat \<Rightarrow> msg_encoder \<Rightarrow> msg_encoder option" where
  "en_put put k e = map_option (\<lambda>b. e\<lparr>en_buf := b\<rparr>) (put (en_offset e + k) (en_buf e))"

definition en_command :: "sbe_order_command_type \<Rightarrow> msg_encoder \<Rightarrow> msg_encoder option" where
  "en_command v = en_put (\<lambda>i. put_u8_at i (sbe_command_to_u8 v)) 0"

definition en_client_order_id :: "u64 \<Rightarrow> msg_encoder \<Rightarrow> msg_encoder option" where
  "en_client_order_id v = en_put (\<lambda>i. put_u64_at i v) 1"

definition en_order_id :: "u64 \<Rightarrow> msg_encoder \<Rightarrow> msg_encoder option" where
  "en_order_id v = en_put (\<lambda>i. put_u64_at i v) 9"

definition en_user_id :: "u64 \<Rightarrow> msg_encoder \<Rightarrow> msg_encoder option" where
  "en_user_id v = en_put (\<lambda>i. put_u64_at i v) 17"

definition en_market_id :: "u32 \<Rightarrow> msg_encoder \<Rightarrow> msg_encoder option" where
  "en_market_id v = en_put (\<lambda>i. put_u32_at i v) 25"

definition en_price :: "u64 \<Rightarrow> msg_encoder \<Rightarrow> msg_encoder option" where
  "en_price v = en_put (\<lambda>i. put_u64_at i v) 29"

definition en_size :: "u64 \<Rightarrow> msg_encoder \<Rightarrow> msg_encoder option" where
  "en_size v = en_put (\<lambda>i. put_u64_at i v) 37"

definition en_side :: "sbe_side \<Rightarrow> msg_encoder \<Rightarrow> msg_encoder option" where
  "en_side v = en_put (\<lambda>i. put_u8_at i (sbe_side_to_u8 v)) 45"

definition en_time_in_force :: "sbe_time_in_force \<Rightarrow> msg_encoder \<Rightarrow> msg_encoder option" where
  "en_time_in_force v = en_put (\<lambda>i. put_u8_at i (sbe_tif_to_u8 v)) 46"

definition en_timestamp :: "u64 \<Rightarrow> msg_encoder \<Rightarrow> msg_encoder option" where
  "en_timestamp v = en_put (\<lambda>i. put_u64_at i v) 47"

definition en_status :: "sbe_status \<Rightarrow> msg_encoder \<Rightarrow> msg_encoder option" where
  "en_status v = en_put (\<lambda>i. put_u8_at i (sbe_status_to_u8 v)) 55"

definition encode_fields :: "order_command \<Rightarrow> msg_encoder \<Rightarrow> msg_encoder option" where
  "encode_fields cmd e =
     Option.bind (en_command (command_to_sbe (c_command cmd)) e) (\<lambda>e.
     Option.bind (en_client_order_id (c_client_order_id cmd) e) (\<lambda>e.
     Option.bind (en_order_id (c_order_id cmd) e) (\<lambda>e.
     Option.bind (en_market_id (c_market_id cmd) e) (\<lambda>e.
     Option.bind (en_user_id (c_user_id cmd) e) (\<lambda>e.
     Option.bind (en_price (c_price cmd) e) (\<lambda>e.
     Option.bind (en_size (c_size cmd) e) (\<lambda>e.
     Option.bind (en_side (side_to_sbe (c_side cmd)) e) (\<lambda>e.
     Option.bind (en_time_in_force (tif_to_sbe (c_time_in_force cmd)) e) (\<lambda>e.
     Option.bind (en_timestamp (c_timestamp cmd) e) (\<lambda>e.
     en_status (status_to_sbe (c_status cmd)) e))))))))))"

definition encode_order_command :: "order_command \<Rightarrow> u8 list \<Rightarrow> (sbe_err, u8 list) outcome" where
  "encode_order_command cmd buf =
     obind (or_panic (en_header (en_wrap msg_encoder_default buf ENCODED_LENGTH) 0)) (\<lambda>h.
     obind (of_result (header_encoder_parent h)) (\<lambda>e.
     obind (or_panic (encode_fields cmd e)) (\<lambda>e.
     Ok (en_buf e))))"

section \<open>Decoders\<close>

record header_decoder =
  hd_parent :: "u8 list option"
  hd_offset :: nat

definition header_decoder_wrap :: "u8 list \<Rightarrow> nat \<Rightarrow> header_decoder" where
  "header_decoder_wrap buf off = \<lparr>hd_parent = Some buf, hd_offset = off\<rparr>"

definition hd_get_u16 :: "nat \<Rightarrow> header_decoder \<Rightarrow> u16 option" where
  "hd_get_u16 k h = (case hd_parent h of None \<Rightarrow> None | Some b \<Rightarrow> get_u16_at b (hd_offset h + k))"

definition hd_block_length :: "header_decoder \<Rightarrow> u16 option" where
  "hd_block_length = hd_get_u16 0"

definition hd_template_id :: "header_decoder \<Rightarrow> u16 option" where
  "hd_template_id = hd_get_u16 2"

definition hd_schema_id :: "header_decoder \<Rightarrow> u16 option" where
  "hd_schema_id = hd_get_u16 4"

definition hd_version :: "header_decoder \<Rightarrow> u16 option" where
  "hd_version = hd_get_u16 6"

record msg_decoder =
  de_buf :: "u8 list"
  de_initial_offset :: nat
  de_offset :: nat
  de_limit :: nat
  de_acting_block_length :: u16
  de_acting_version :: u16

definition de_wrap :: "u8 list \<Rightarrow> nat \<Rightarrow> u16 \<Rightarrow> u16 \<Rightarrow> msg_decoder" where
  "de_wrap buf off acting_block_length acting_version =
     \<lparr>de_buf = buf, de_initial_offset = off, de_offset = off,
      de_limit = off + unat acting_block_length, de_acting_block_length = acting_block_length,
      de_acting_version = acting_version\<rparr>"

text \<open>The template id is only checked by a \<^verbatim>\<open>debug_assert\<close>, absent from the release profile.\<close>

definition de_header :: "header_decoder \<Rightarrow> nat \<Rightarrow> msg_decoder option" where
  "de_header h off =
     Option.bind (hd_block_length h) (\<lambda>bl.
     Option.bind (hd_version h) (\<lambda>v.
     Option.bind (hd_parent h) (\<lambda>b. Some (de_wrap b (off + ENCODED_LENGTH) bl v))))"

definition de_command :: "msg_decoder \<Rightarrow> sbe_order_command_type option" where
  "de_command d = map_option sbe_command_from_u8 (get_u8_at (de_buf d) (de_offset d))"

definition de_client_order_id :: "msg_decoder \<Rightarrow> u64 option" where
  "de_client_order_id d = get_u64_at (de_buf d) (de_offset d + 1)"

definition de_order_id :: "msg_decoder \<Rightarrow> u64 option" where
  "de_order_id d = get_u64_at (de_buf d) (de_offset d + 9)"

definition de_user_id :: "msg_decoder \<Rightarrow> u64 option" where
  "de_user_id d = get_u64_at (de_buf d) (de_offset d + 17)"

definition de_market_id :: "msg_decoder \<Rightarrow> u32 option" where
  "de_market_id d = get_u32_at (de_buf d) (de_offset d + 25)"

definition de_price :: "msg_decoder \<Rightarrow> u64 option" where
  "de_price d = get_u64_at (de_buf d) (de_offset d + 29)"

definition de_size :: "msg_decoder \<Rightarrow> u64 option" where
  "de_size d = get_u64_at (de_buf d) (de_offset d + 37)"

definition de_side :: "msg_decoder \<Rightarrow> sbe_side option" where
  "de_side d = map_option sbe_side_from_u8 (get_u8_at (de_buf d) (de_offset d + 45))"

definition de_time_in_force :: "msg_decoder \<Rightarrow> sbe_time_in_force option" where
  "de_time_in_force d = map_option sbe_tif_from_u8 (get_u8_at (de_buf d) (de_offset d + 46))"

definition de_timestamp :: "msg_decoder \<Rightarrow> u64 option" where
  "de_timestamp d = get_u64_at (de_buf d) (de_offset d + 47)"

definition de_status :: "msg_decoder \<Rightarrow> sbe_status option" where
  "de_status d = map_option sbe_status_from_u8 (get_u8_at (de_buf d) (de_offset d + 55))"

text \<open>The struct literal evaluates its fields in the order they are written.\<close>

definition decode_order_command :: "u8 list \<Rightarrow> (serde_error, order_command) outcome" where
  "decode_order_command buf =
     obind (or_panic (de_header (header_decoder_wrap buf 0) 0)) (\<lambda>d.
     obind (or_panic (de_command d)) (\<lambda>c. obind (of_result (command_try_from_sbe c)) (\<lambda>command.
     obind (or_panic (de_order_id d)) (\<lambda>order_id.
     obind (or_panic (de_client_order_id d)) (\<lambda>client_order_id.
     obind (or_panic (de_market_id d)) (\<lambda>market_id.
     obind (or_panic (de_user_id d)) (\<lambda>user_id.
     obind (or_panic (de_price d)) (\<lambda>price.
     obind (or_panic (de_size d)) (\<lambda>sz.
     obind (or_panic (de_side d)) (\<lambda>s. obind (of_result (side_try_from_sbe s)) (\<lambda>sd.
     obind (or_panic (de_time_in_force d)) (\<lambda>t. obind (of_result (tif_try_from_sbe t)) (\<lambda>tif.
     obind (or_panic (de_timestamp d)) (\<lambda>timestamp.
     obind (or_panic (de_status d)) (\<lambda>st. obind (of_result (status_try_from_sbe st)) (\<lambda>status.
     Ok \<lparr>c_command = command, c_client_order_id = client_order_id, c_order_id = order_id,
         c_user_id = user_id, c_market_id = market_id, c_price = price, c_size = sz, c_side = sd,
         c_time_in_force = tif, c_timestamp = timestamp, c_status = status, c_events = None,
         c_balance = (balance_default, balance_default), c_l2_data = None, c_route_gateway_id = 0,
         c_original_size = 0\<rparr>))))))))))))))))"

section \<open>Reading back what was written\<close>

definition overwrite :: "nat \<Rightarrow> u8 list \<Rightarrow> u8 list \<Rightarrow> u8 list" where
  "overwrite i bs d = take i d @ bs @ drop (i + length bs) d"

lemma length_overwrite [simp]: "i + length bs \<le> length d \<Longrightarrow> length (overwrite i bs d) = length d"
  by (simp add: overwrite_def)

lemma put_overwrite:
  "i + length bs \<le> length d \<Longrightarrow> put_bytes_at i bs d = Some (overwrite i bs d)"
  "i < length d \<Longrightarrow> put_u8_at i v d = Some (overwrite i [v] d)"
  by (simp_all add: put_bytes_at_def put_u8_at_def overwrite_def upd_conv_take_nth_drop)

lemma nth_overwrite:
  "i + length bs \<le> length d \<Longrightarrow> j < length d \<Longrightarrow>
   overwrite i bs d ! j = (if i \<le> j \<and> j < i + length bs then bs ! (j - i) else d ! j)"
  by (auto simp: overwrite_def nth_append min_def)

lemma get_overwrite_same:
  assumes "i + length bs \<le> length d" "n = length bs"
  shows "get_bytes_at n (overwrite i bs d) i = Some bs"
proof -
  have "take n (drop i (overwrite i bs d)) = bs"
    using assms by (intro nth_equalityI) (auto simp: nth_overwrite)
  with assms show ?thesis by (simp add: get_bytes_at_def)
qed

lemma get_overwrite_other:
  assumes "i + length bs \<le> length d" "i + length bs \<le> j \<or> j + n \<le> i"
  shows "get_bytes_at n (overwrite i bs d) j = get_bytes_at n d j"
proof -
  have "take n (drop j (overwrite i bs d)) = take n (drop j d)" if "j + n \<le> length d"
    using assms that by (intro nth_equalityI) (auto simp: nth_overwrite)
  with assms(1) show ?thesis by (simp add: get_bytes_at_def)
qed

lemma get_u8_bytes: "get_u8_at d i = map_option hd (get_bytes_at 1 d i)"
proof (cases "i < length d")
  case True
  then have "hd (take 1 (drop i d)) = d ! i" by (simp add: hd_drop_conv_nth take_Suc)
  with True show ?thesis by (simp add: get_u8_at_def get_bytes_at_def)
qed (simp add: get_u8_at_def get_bytes_at_def)

text \<open>The same with the bound of a full-size buffer, which chains along nested writes.\<close>

lemma overwrite_64:
  assumes "i + length bs \<le> 64" "64 \<le> length d"
  shows "64 \<le> length (overwrite i bs d)"
    and "n = length bs \<Longrightarrow> get_bytes_at n (overwrite i bs d) i = Some bs"
    and "i + length bs \<le> j \<or> j + n \<le> i \<Longrightarrow>
      get_bytes_at n (overwrite i bs d) j = get_bytes_at n d j"
    and "drop 64 (overwrite i bs d) = drop 64 d"
  using assms get_overwrite_same [of i bs d n] get_overwrite_other [of i bs d j n]
  by (simp_all add: overwrite_def)

lemmas read_back = overwrite_64(1-3) get_u8_bytes get_u16_at_def get_u32_at_def get_u64_at_def

lemma put_overwrite_64:
  assumes "64 \<le> length d"
  shows "i + length bs \<le> 64 \<Longrightarrow> put_bytes_at i bs d = Some (overwrite i bs d)"
    and "i < 64 \<Longrightarrow> put_u8_at i v d = Some (overwrite i [v] d)"
  using assms by (simp_all add: put_overwrite)

text \<open>The bytes \<^verbatim>\<open>encode_order_command\<close> leaves in the buffer.\<close>

definition header_image :: "u8 list \<Rightarrow> u8 list" where
  "header_image buf =
     overwrite 6 (to_le_bytes 2 SBE_SCHEMA_VERSION) (overwrite 4 (to_le_bytes 2 SBE_SCHEMA_ID)
       (overwrite 2 (to_le_bytes 2 SBE_TEMPLATE_ID) (overwrite 0 (to_le_bytes 2 SBE_BLOCK_LENGTH) buf)))"

definition body_image :: "order_command \<Rightarrow> u8 list \<Rightarrow> u8 list" where
  "body_image cmd buf =
     overwrite 63 [sbe_status_to_u8 (status_to_sbe (c_status cmd))]
       (overwrite 55 (to_le_bytes 8 (c_timestamp cmd))
       (overwrite 54 [sbe_tif_to_u8 (tif_to_sbe (c_time_in_force cmd))]
       (overwrite 53 [sbe_side_to_u8 (side_to_sbe (c_side cmd))]
       (overwrite 45 (to_le_bytes 8 (c_size cmd))
       (overwrite 37 (to_le_bytes 8 (c_price cmd))
       (overwrite 25 (to_le_bytes 8 (c_user_id cmd))
       (overwrite 33 (to_le_bytes 4 (c_market_id cmd))
       (overwrite 17 (to_le_bytes 8 (c_order_id cmd))
       (overwrite 9 (to_le_bytes 8 (c_client_order_id cmd))
       (overwrite 8 [sbe_command_to_u8 (command_to_sbe (c_command cmd))] buf))))))))))"

lemma length_overwrite_64:
  "i + length bs \<le> 64 \<Longrightarrow> 64 \<le> length d \<Longrightarrow> length (overwrite i bs d) = length d"
  by simp

lemma length_images:
  "64 \<le> length buf \<Longrightarrow> length (header_image buf) = length buf"
  "64 \<le> length buf \<Longrightarrow> length (body_image cmd buf) = length buf"
  by (simp_all add: header_image_def body_image_def length_overwrite_64 overwrite_64(1)
      del: length_overwrite)

lemmas encoder_defs = en_command_def en_client_order_id_def en_order_id_def en_user_id_def
  en_market_id_def en_price_def en_size_def en_side_def en_time_in_force_def en_timestamp_def
  en_status_def en_put_def put_u16_at_def put_u32_at_def put_u64_at_def

lemma en_header_image:
  assumes "64 \<le> length buf"
  shows "en_header (en_wrap msg_encoder_default buf 8) 0 = Some (header_encoder_wrap
    ((en_wrap msg_encoder_default buf 8)\<lparr>en_buf := header_image buf\<rparr>) 0)"
  using assms
  by (simp add: en_header_def he_block_length_def he_template_id_def he_schema_id_def he_version_def
      he_get_buf_mut_def header_encoder_wrap_def en_wrap_def put_u16_at_def put_overwrite
      header_image_def numeral_2_eq_2)

lemma encode_fields_image:
  assumes "64 \<le> length (en_buf e)" "en_offset e = 8"
  shows "encode_fields cmd e = Some (e\<lparr>en_buf := body_image cmd (en_buf e)\<rparr>)"
  using assms
  by (simp add: encode_fields_def encoder_defs put_overwrite_64 overwrite_64(1) body_image_def
      del: length_overwrite)

lemma encode_image:
  assumes "64 \<le> length buf"
  shows "encode_order_command cmd buf = Ok (body_image cmd (header_image buf))"
proof -
  let ?e = "(en_wrap msg_encoder_default buf 8)\<lparr>en_buf := header_image buf\<rparr>"
  have "encode_fields cmd ?e = Some (?e\<lparr>en_buf := body_image cmd (header_image buf)\<rparr>)"
    using encode_fields_image [of ?e cmd] assms by (simp add: length_images en_wrap_def)
  with en_header_image [OF assms] show ?thesis
    by (simp add: encode_order_command_def ENCODED_LENGTH_def header_encoder_wrap_def
        header_encoder_parent_def)
qed

lemmas decoder_defs = de_command_def de_client_order_id_def de_order_id_def de_user_id_def
  de_market_id_def de_price_def de_size_def de_side_def de_time_in_force_def de_timestamp_def
  de_status_def

definition reader :: "u8 list \<Rightarrow> u16 \<Rightarrow> u16 \<Rightarrow> msg_decoder" where
  "reader buf bl v = de_wrap buf 8 bl v"

lemma reader_simps [simp]: "de_buf (reader buf bl v) = buf" "de_offset (reader buf bl v) = 8"
  by (simp_all add: reader_def de_wrap_def)

lemma de_header_reader:
  assumes "8 \<le> length buf"
  obtains bl v where "de_header (header_decoder_wrap buf 0) 0 = Some (reader buf bl v)"
  using assms that
  by (fastforce simp: de_header_def hd_block_length_def hd_version_def hd_get_u16_def header_decoder_wrap_def
      get_u16_at_def get_bytes_at_def reader_def ENCODED_LENGTH_def)

text \<open>Each field read from the image of a command.\<close>

lemma fields_of_image:
  fixes cmd :: order_command
  assumes "64 \<le> length buf"
  defines "d \<equiv> body_image cmd buf"
  shows "get_u8_at d 8 = Some (sbe_command_to_u8 (command_to_sbe (c_command cmd)))"
    and "get_u64_at d 9 = Some (c_client_order_id cmd)"
    and "get_u64_at d 17 = Some (c_order_id cmd)"
    and "get_u64_at d 25 = Some (c_user_id cmd)"
    and "get_u32_at d 33 = Some (c_market_id cmd)"
    and "get_u64_at d 37 = Some (c_price cmd)"
    and "get_u64_at d 45 = Some (c_size cmd)"
    and "get_u8_at d 53 = Some (sbe_side_to_u8 (side_to_sbe (c_side cmd)))"
    and "get_u8_at d 54 = Some (sbe_tif_to_u8 (tif_to_sbe (c_time_in_force cmd)))"
    and "get_u64_at d 55 = Some (c_timestamp cmd)"
    and "get_u8_at d 63 = Some (sbe_status_to_u8 (status_to_sbe (c_status cmd)))"
  using assms(1) unfolding d_def body_image_def
  by (simp_all add: read_back del: One_nat_def length_overwrite)

section \<open>Properties\<close>

text \<open>What the wire keeps of a command.\<close>

definition wire_view :: "order_command \<Rightarrow> order_command" where
  "wire_view cmd = cmd\<lparr>c_events := None, c_balance := (balance_default, balance_default),
     c_l2_data := None, c_route_gateway_id := 0, c_original_size := 0\<rparr>"

lemma decode_image:
  assumes "64 \<le> length buf"
  shows "decode_order_command (body_image cmd buf) = Ok (wire_view cmd)"
proof -
  obtain bl v where "de_header (header_decoder_wrap (body_image cmd buf) 0) 0 =
      Some (reader (body_image cmd buf) bl v)"
    by (rule de_header_reader [of "body_image cmd buf"]) (use assms in \<open>simp add: length_images\<close>)
  then show ?thesis
    by (simp add: decode_order_command_def decoder_defs fields_of_image [OF assms] wire_view_def)
qed

lemma encode_decode:
  assumes "ORDERCOMMANDSIZE \<le> length buf"
  shows "\<exists>buf'. encode_order_command cmd buf = Ok buf' \<and> length buf' = length buf \<and>
    drop ORDERCOMMANDSIZE buf' = drop ORDERCOMMANDSIZE buf \<and>
    decode_order_command buf' = Ok (wire_view cmd)"
proof -
  have len: "64 \<le> length buf" using assms by (simp add: ORDERCOMMANDSIZE_def)
  have "drop 64 (body_image cmd (header_image buf)) = drop 64 buf"
    using len by (simp add: body_image_def header_image_def overwrite_64 del: length_overwrite)
  then show ?thesis
    using encode_image [OF len, of cmd] decode_image [of "header_image buf" cmd] len
    by (simp add: length_images ORDERCOMMANDSIZE_def)
qed

text \<open>C13. Wire round trip: a buffer of at least 64 bytes is enough for every command, only its first 64
  bytes change, and decoding gives the command back except for the fields that are not on the wire
  (events, balances, L2 data, route gateway, original size), which are reset.\<close>

theorem wire_roundtrip:
  assumes "ORDERCOMMANDSIZE \<le> length buf"
  shows "\<exists>buf'. encode_order_command cmd buf = Ok buf' \<and> length buf' = length buf \<and>
    drop ORDERCOMMANDSIZE buf' = drop ORDERCOMMANDSIZE buf \<and>
    decode_order_command buf' = Ok (wire_view cmd)"
  by (rule encode_decode [OF assms])

theorem wire_roundtrip_witness:
  "\<exists>buf'. encode_order_command (mk_place_order Gtc 7 100 5 Bid 3 11) (replicate 64 0) = Ok buf' \<and>
     decode_order_command buf' = Ok (mk_place_order Gtc 7 100 5 Bid 3 11)"
  using wire_roundtrip [of "replicate 64 0" "mk_place_order Gtc 7 100 5 Bid 3 11"]
  by (auto simp: ORDERCOMMANDSIZE_def wire_view_def mk_place_order_def)

text \<open>Decoding a buffer of full size, as a chain over its four enum bytes.\<close>

lemma get_in_range:
  "i < length d \<Longrightarrow> get_u8_at d i = Some (d ! i)"
  "i + 4 \<le> length d \<Longrightarrow> \<exists>w. get_u32_at d i = Some w"
  "i + 8 \<le> length d \<Longrightarrow> \<exists>w. get_u64_at d i = Some w"
  by (simp_all add: get_u8_at_def get_u32_at_def get_u64_at_def get_bytes_at_def)

lemma decode_enum_bytes:
  assumes "64 \<le> length buf"
  shows "\<exists>f. decode_order_command buf =
    obind (of_result (command_try_from_sbe (sbe_command_from_u8 (buf ! 8)))) (\<lambda>command.
    obind (of_result (side_try_from_sbe (sbe_side_from_u8 (buf ! 53)))) (\<lambda>sd.
    obind (of_result (tif_try_from_sbe (sbe_tif_from_u8 (buf ! 54)))) (\<lambda>tif.
    obind (of_result (status_try_from_sbe (sbe_status_from_u8 (buf ! 63)))) (\<lambda>status.
    Ok (f command sd tif status)))))"
proof -
  obtain bl v where h: "de_header (header_decoder_wrap buf 0) 0 = Some (reader buf bl v)"
    by (rule de_header_reader [of buf]) (use assms in simp)
  have w: "get_u64_at buf i = Some (the (get_u64_at buf i))" if "i + 8 \<le> 64" for i
    using get_in_range(3) [of i buf] that assms by (cases "get_u64_at buf i") auto
  have m: "get_u32_at buf 33 = Some (the (get_u32_at buf 33))"
    using get_in_range(2) [of 33 buf] assms by (cases "get_u32_at buf 33") auto
  obtain oid cid uid p sz ts mid where w: "get_u64_at buf 17 = Some oid" "get_u64_at buf 9 = Some cid"
    "get_u64_at buf 25 = Some uid" "get_u64_at buf 37 = Some p" "get_u64_at buf 45 = Some sz"
    "get_u64_at buf 55 = Some ts" "get_u32_at buf 33 = Some mid"
    using w [of 17] w [of 9] w [of 25] w [of 37] w [of 45] w [of 55] m by simp
  show ?thesis
    using assms
    by (intro exI) (simp add: decode_order_command_def h decoder_defs w get_in_range(1))
qed

text \<open>Decoding a full-size buffer never panics: it fails, with an error, exactly when the command,
  side, time-in-force or status byte is not the code of a variant, and otherwise gives a command with
  those enums. (The template id in the header is not checked in a release build.)\<close>

lemma decode_total:
  assumes "ORDERCOMMANDSIZE \<le> length buf"
  shows "decode_order_command buf \<noteq> Panic \<and>
    ((\<exists>e. decode_order_command buf = Err e) \<longleftrightarrow>
       sbe_command_from_u8 (buf ! 8) = SbeCommandNull \<or> sbe_side_from_u8 (buf ! 53) = SbeSideNull \<or>
       sbe_tif_from_u8 (buf ! 54) = SbeTifNull \<or> sbe_status_from_u8 (buf ! 63) = SbeStatusNull)"
proof -
  have len: "64 \<le> length buf" using assms by (simp add: ORDERCOMMANDSIZE_def)
  from decode_enum_bytes [OF len] obtain f where d: "decode_order_command buf =
    obind (of_result (command_try_from_sbe (sbe_command_from_u8 (buf ! 8)))) (\<lambda>command.
    obind (of_result (side_try_from_sbe (sbe_side_from_u8 (buf ! 53)))) (\<lambda>sd.
    obind (of_result (tif_try_from_sbe (sbe_tif_from_u8 (buf ! 54)))) (\<lambda>tif.
    obind (of_result (status_try_from_sbe (sbe_status_from_u8 (buf ! 63)))) (\<lambda>status.
    Ok (f command sd tif status)))))" by blast
  have c: "(\<exists>v. command_try_from_sbe x = Inr v) \<or> x = SbeCommandNull \<and> (\<exists>e. command_try_from_sbe x = Inl e)" for x
    by (cases x) simp_all
  have s: "(\<exists>v. side_try_from_sbe x = Inr v) \<or> x = SbeSideNull \<and> (\<exists>e. side_try_from_sbe x = Inl e)" for x
    by (cases x) simp_all
  have t: "(\<exists>v. tif_try_from_sbe x = Inr v) \<or> x = SbeTifNull \<and> (\<exists>e. tif_try_from_sbe x = Inl e)" for x
    by (cases x) simp_all
  have st: "(\<exists>v. status_try_from_sbe x = Inr v) \<or> x = SbeStatusNull \<and> (\<exists>e. status_try_from_sbe x = Inl e)" for x
    by (cases x) simp_all
  show ?thesis
    using c [of "sbe_command_from_u8 (buf ! 8)"] s [of "sbe_side_from_u8 (buf ! 53)"]
      t [of "sbe_tif_from_u8 (buf ! 54)"] st [of "sbe_status_from_u8 (buf ! 63)"]
    unfolding d by auto
qed

theorem decode_total_witness:
  "\<exists>e. decode_order_command ((replicate 64 0)[53 := 9]) = Err e"
proof -
  have "sbe_side_from_u8 9 = SbeSideNull" by (simp add: sbe_side_from_u8_def)
  with decode_total [of "(replicate 64 0)[53 := 9]"] show ?thesis
    by (simp add: ORDERCOMMANDSIZE_def)
qed

text \<open>A buffer that ends before the byte of the command is a panic: the readers index out of range.\<close>

lemma decode_short_panics:
  assumes "length buf < 9"
  shows "decode_order_command buf = Panic"
proof -
  have "or_panic (de_header (header_decoder_wrap buf 0) 0) = (Panic :: (serde_error, _) outcome) \<or>
      (\<exists>d. de_header (header_decoder_wrap buf 0) 0 = Some d \<and> de_buf d = buf \<and> de_offset d = 8)"
    by (auto simp: de_header_def de_wrap_def header_decoder_wrap_def ENCODED_LENGTH_def or_panic_def
        split: option.splits bind_splits)
  then show ?thesis
    using assms by (auto simp: decode_order_command_def de_command_def get_u8_at_def)
qed

end
