(* ===== verification/Publications.thy ===== *)
theory Publications
  imports Sbe_Codec
begin

text \<open>
  The table of outgoing publications of \<^verbatim>\<open>networking/src/server/gateway_publications.rs\<close>: one slot per
  gateway and one for the archive, at index \<open>MAX_GATEWAYS\<close>. An Aeron publication is an opaque value of
  type \<open>'p\<close>; offering a buffer to it is recorded as the pair of the publication and the bytes, and the
  result of the offer decides only what is logged. Indexing out of range is a panic, \<open>None\<close>.
\<close>

definition MAX_GATEWAYS :: nat where "MAX_GATEWAYS = 16"

type_synonym 'p publications = "'p option list"

type_synonym 'p offers = "('p \<times> u8 list) list"

definition publications_new :: "'p publications" where
  "publications_new = replicate (MAX_GATEWAYS + 1) None"

definition store_slot :: "nat \<Rightarrow> 'p option \<Rightarrow> 'p publications \<Rightarrow> 'p publications option" where
  "store_slot i v pubs = (if i < length pubs then Some (pubs[i := v]) else None)"

definition set_archive_publication :: "'p \<Rightarrow> 'p publications \<Rightarrow> 'p publications option" where
  "set_archive_publication p pubs = store_slot MAX_GATEWAYS (Some p) pubs"

definition set_publication :: "u8 \<Rightarrow> 'p \<Rightarrow> 'p publications \<Rightarrow> 'p publications option" where
  "set_publication gateway_id p pubs = store_slot (unat gateway_id) (Some p) pubs"

definition get_publication :: "u8 \<Rightarrow> 'p publications \<Rightarrow> 'p option option" where
  "get_publication gateway_id pubs =
     (if unat gateway_id < length pubs then Some (pubs ! unat gateway_id) else None)"

definition remove_publication :: "u8 \<Rightarrow> 'p publications \<Rightarrow> 'p publications option" where
  "remove_publication gateway_id pubs = store_slot (unat gateway_id) None pubs"

text \<open>Encoding into a fresh buffer and offering it; an encoding error is only logged.\<close>

definition offer_encoded :: "'p \<Rightarrow> order_command \<Rightarrow> 'p offers option" where
  "offer_encoded publication cmd =
     (case encode_order_command cmd (replicate ORDERCOMMANDSIZE 0) of
        Panic \<Rightarrow> None
      | Ok response_buffer \<Rightarrow> Some [(publication, response_buffer)]
      | Err _ \<Rightarrow> Some [])"

definition publish_response :: "'p publications \<Rightarrow> order_command \<Rightarrow> 'p offers option" where
  "publish_response pubs cmd =
     (let gateway_id = c_route_gateway_id cmd
      in if MAX_GATEWAYS \<le> unat gateway_id then Some []
         else (case get_publication gateway_id pubs of
                 None \<Rightarrow> None
               | Some None \<Rightarrow> Some []
               | Some (Some publication) \<Rightarrow> offer_encoded publication cmd))"

definition publish_to_archive :: "'p publications \<Rightarrow> order_command \<Rightarrow> 'p offers option" where
  "publish_to_archive pubs cmd =
     (case get_publication (of_nat MAX_GATEWAYS) pubs of
        None \<Rightarrow> None
      | Some None \<Rightarrow> Some []
      | Some (Some publication) \<Rightarrow> offer_encoded publication cmd)"

section \<open>The table\<close>

definition pubs_wf :: "'p publications \<Rightarrow> bool" where
  "pubs_wf pubs \<longleftrightarrow> length pubs = MAX_GATEWAYS + 1"

lemma pubs_wf_new: "pubs_wf publications_new"
  by (simp add: pubs_wf_def publications_new_def)

lemma pubs_wf_store: "pubs_wf pubs \<Longrightarrow> store_slot i v pubs = Some pubs' \<Longrightarrow> pubs_wf pubs'"
  by (auto simp: pubs_wf_def store_slot_def split: if_splits)

lemma get_after_store:
  "store_slot i v pubs = Some pubs' \<Longrightarrow>
     get_publication g pubs' = (if unat g = i then Some v else get_publication g pubs)"
  by (auto simp: store_slot_def get_publication_def split: if_splits)

lemma store_in_range: "pubs_wf pubs \<Longrightarrow> i \<le> MAX_GATEWAYS \<Longrightarrow> \<exists>pubs'. store_slot i v pubs = Some pubs'"
  by (simp add: store_slot_def pubs_wf_def)

lemma get_in_table: "pubs_wf pubs \<Longrightarrow> unat g \<le> MAX_GATEWAYS \<Longrightarrow> \<exists>s. get_publication g pubs = Some s"
  by (simp add: get_publication_def pubs_wf_def)

text \<open>What is offered decodes to the command, up to the fields the wire does not carry.\<close>

lemma encode_fresh:
  obtains bytes where "encode_order_command cmd (replicate ORDERCOMMANDSIZE 0) = Ok bytes"
    "length bytes = ORDERCOMMANDSIZE" "decode_order_command bytes = Ok (wire_view cmd)"
  using encode_decode [of "replicate ORDERCOMMANDSIZE 0" cmd] by auto

lemma offer_encoded_bytes:
  obtains bytes where "\<And>p. offer_encoded p cmd = Some [(p, bytes)]" "length bytes = ORDERCOMMANDSIZE"
    "decode_order_command bytes = Ok (wire_view cmd)"
  by (rule encode_fresh [of cmd]) (simp add: offer_encoded_def)

lemma publish_response_result:
  fixes pubs :: "'p publications"
  assumes "pubs_wf pubs"
  shows "\<exists>offers. publish_response pubs cmd = Some offers \<and>
    (case offers of
       [] \<Rightarrow> MAX_GATEWAYS \<le> unat (c_route_gateway_id cmd) \<or> get_publication (c_route_gateway_id cmd) pubs = Some None
     | (p, bytes) # rest \<Rightarrow> rest = [] \<and> get_publication (c_route_gateway_id cmd) pubs = Some (Some p) \<and>
         decode_order_command bytes = Ok (wire_view cmd))"
proof (cases "MAX_GATEWAYS \<le> unat (c_route_gateway_id cmd)")
  case False
  then obtain s where s: "get_publication (c_route_gateway_id cmd) pubs = Some s"
    using get_in_table [OF assms, of "c_route_gateway_id cmd"] by auto
  obtain bytes where "\<And>p :: 'p. offer_encoded p cmd = Some [(p, bytes)]"
    "decode_order_command bytes = Ok (wire_view cmd)" using offer_encoded_bytes [where cmd = cmd] by blast
  with False s show ?thesis by (cases s) (auto simp: publish_response_def Let_def)
qed (simp add: publish_response_def)

lemma publish_to_archive_result:
  fixes pubs :: "'p publications"
  assumes "pubs_wf pubs"
  shows "\<exists>offers. publish_to_archive pubs cmd = Some offers \<and>
    (case pubs ! MAX_GATEWAYS of
       None \<Rightarrow> offers = []
     | Some p \<Rightarrow> \<exists>bytes. offers = [(p, bytes)] \<and> decode_order_command bytes = Ok (wire_view cmd))"
proof -
  obtain bytes where "\<And>p :: 'p. offer_encoded p cmd = Some [(p, bytes)]"
    "decode_order_command bytes = Ok (wire_view cmd)" using offer_encoded_bytes [where cmd = cmd] by blast
  with assms show ?thesis
    by (auto simp: publish_to_archive_def get_publication_def pubs_wf_def MAX_GATEWAYS_def split: option.split)
qed

end
