(* ===== verification/Snowflake_Ids.thy ===== *)
theory Snowflake_Ids
  imports Vex_Prelude
begin

text \<open>
  The id generator of \<^verbatim>\<open>common/src/snowflake.rs\<close>. The monotonic clock is the argument
  \<open>clock :: nat \<Rightarrow> nat\<close>: the \<open>k\<close>-th reading of \<^verbatim>\<open>Instant\<close>, in nanoseconds since \<^verbatim>\<open>start_time\<close>; the index
  of the next reading is threaded through the calls. The wall clock is an argument too, \<open>None\<close> for a
  time before the Unix epoch. \<^verbatim>\<open>wait_next_tick\<close> spins until the tick changes or its deadline passes,
  so it is a \<open>partial_function (option)\<close>: \<open>None\<close> is a call that never returns.
\<close>

definition NODE_BITS :: nat where "NODE_BITS = 4"
definition STEP_BITS :: nat where "STEP_BITS = 12"
definition TIMESTAMP_BITS :: nat where "TIMESTAMP_BITS = 48"
definition TIME_GRANULARITY_SHIFT :: nat where "TIME_GRANULARITY_SHIFT = 10"

definition NODE_MAX :: u64 where "NODE_MAX = push_bit NODE_BITS 1 - 1"
definition STEP_MAX :: u16 where "STEP_MAX = push_bit STEP_BITS 1 - 1"
definition TIMESTAMP_MAX :: u64 where "TIMESTAMP_MAX = push_bit TIMESTAMP_BITS 1 - 1"

definition TIMESTAMP_SHIFT :: nat where "TIMESTAMP_SHIFT = STEP_BITS + NODE_BITS"
definition SEQUENCE_SHIFT :: nat where "SEQUENCE_SHIFT = NODE_BITS"

definition DEFAULT_EPOCH :: u64 where "DEFAULT_EPOCH = 1735689600000000000"

lemmas snowflake_consts =
  NODE_BITS_def STEP_BITS_def TIMESTAMP_BITS_def TIME_GRANULARITY_SHIFT_def NODE_MAX_def
  STEP_MAX_def TIMESTAMP_MAX_def TIMESTAMP_SHIFT_def SEQUENCE_SHIFT_def

datatype snowflake_error =
  MachineIdOutOfRange | SequenceOverflow | EpochInTheFuture | EpochTooOld | TimeBackwards | TimestampOverflow

fun snowflake_error_display :: "snowflake_error \<Rightarrow> string" where
  "snowflake_error_display MachineIdOutOfRange = ''Machine ID is out of range (must be 0-15)''"
| "snowflake_error_display SequenceOverflow = ''Sequence overflow: cannot generate a unique ID''"
| "snowflake_error_display EpochInTheFuture = ''Epoch is set in the future''"
| "snowflake_error_display EpochTooOld = ''Epoch is too old for Shift-10 (Max ~9 years)''"
| "snowflake_error_display TimeBackwards = ''System time moved backwards''"
| "snowflake_error_display TimestampOverflow = ''Critical: Timestamp limit reached (Redeploy needed)''"

record snowflake =
  start_system_ns :: u64
  epoch_ns :: u64
  last_tick :: u64
  sequence_no :: u16

section \<open>Construction\<close>

definition snowflake_new :: "nat option \<Rightarrow> u64 option \<Rightarrow> (snowflake_error, snowflake) outcome" where
  "snowflake_new wall epoch =
     (case wall of
        None \<Rightarrow> Panic
      | Some ns \<Rightarrow>
          (let current_unix_ns = of_nat ns;
               epoch = (case epoch of None \<Rightarrow> DEFAULT_EPOCH | Some e \<Rightarrow> e)
           in if current_unix_ns < epoch then Err EpochInTheFuture
              else if TIMESTAMP_MAX < drop_bit TIME_GRANULARITY_SHIFT (current_unix_ns - epoch)
              then Err EpochTooOld
              else Ok \<lparr>start_system_ns = current_unix_ns, epoch_ns = epoch, last_tick = 0,
                       sequence_no = 0\<rparr>))"

section \<open>Ticks\<close>

definition current_tick :: "nat \<Rightarrow> snowflake \<Rightarrow> snowflake_error + u64" where
  "current_tick elapsed s =
     (let current_ns = start_system_ns s + of_nat elapsed
      in if current_ns < epoch_ns s then Inl TimeBackwards
         else let shifted_time = drop_bit TIME_GRANULARITY_SHIFT (current_ns - epoch_ns s)
              in if TIMESTAMP_MAX < shifted_time then Inl TimestampOverflow else Inr shifted_time)"

text \<open>The 64 spins between two looks at the deadline: an error, the new tick, or no change.\<close>

fun spin :: "(nat \<Rightarrow> nat) \<Rightarrow> snowflake \<Rightarrow> u64 \<Rightarrow> nat \<Rightarrow> nat \<Rightarrow> (snowflake_error + u64) option \<times> nat" where
  "spin clock s tick0 0 k = (None, k)"
| "spin clock s tick0 (Suc n) k =
     (case current_tick (clock k) s of
        Inl e \<Rightarrow> (Some (Inl e), Suc k)
      | Inr current \<Rightarrow>
          if tick0 < current then (Some (Inr current), Suc k) else spin clock s tick0 n (Suc k))"

partial_function (option) wait_loop ::
    "(nat \<Rightarrow> nat) \<Rightarrow> snowflake \<Rightarrow> u64 \<Rightarrow> nat \<Rightarrow> nat \<Rightarrow> ((snowflake_error + u64) \<times> nat) option" where
  "wait_loop clock s tick0 deadline k =
     (case spin clock s tick0 64 k of
        (Some r, k') \<Rightarrow> Some (r, k')
      | (None, k') \<Rightarrow>
          if deadline < clock k' then Some (Inl SequenceOverflow, Suc k')
          else wait_loop clock s tick0 deadline (Suc k'))"

definition wait_next_tick ::
    "(nat \<Rightarrow> nat) \<Rightarrow> snowflake \<Rightarrow> u64 \<Rightarrow> nat \<Rightarrow> ((snowflake_error + u64) \<times> nat) option" where
  "wait_next_tick clock s tick0 k = wait_loop clock s tick0 (clock k + 100000) (Suc k)"

section \<open>Ids\<close>

definition create_id :: "u64 \<Rightarrow> u16 \<Rightarrow> u64 \<Rightarrow> u64" where
  "create_id timestamp sequence gateway =
     push_bit TIMESTAMP_SHIFT timestamp OR push_bit SEQUENCE_SHIFT (ucast sequence) OR gateway"

definition parse_id :: "u64 \<Rightarrow> u64 \<times> u8 \<times> u16" where
  "parse_id i =
     (drop_bit TIMESTAMP_SHIFT i AND TIMESTAMP_MAX, ucast (i AND NODE_MAX),
      ucast (drop_bit SEQUENCE_SHIFT i AND ucast STEP_MAX))"

definition gateway_from_id :: "u64 \<Rightarrow> u8" where
  "gateway_from_id i = ucast (i AND NODE_MAX)"

definition snowflake_timestamp :: "nat option \<Rightarrow> u64" where
  "snowflake_timestamp wall = (case wall of None \<Rightarrow> 0 | Some ns \<Rightarrow> of_nat ns)"

text \<open>
  \<open>generate\<close> returns the result, the generator after the call and the index of the next reading. The
  early returns of \<^verbatim>\<open>?\<close> keep what was assigned before them: after a failed wait the sequence stays
  incremented.
\<close>

definition generate ::
    "(nat \<Rightarrow> nat) \<Rightarrow> u64 \<Rightarrow> snowflake \<Rightarrow> nat \<Rightarrow>
     ((snowflake_error + u64) \<times> snowflake \<times> nat) option" where
  "generate clock gateway s k =
     (if NODE_MAX < gateway then Some (Inl MachineIdOutOfRange, s, k)
      else
        (case current_tick (clock k) s of
           Inl e \<Rightarrow> Some (Inl e, s, Suc k)
         | Inr tick \<Rightarrow>
             if tick = last_tick s then
               (let s = s\<lparr>sequence_no := sequence_no s + 1\<rparr>
                in if STEP_MAX < sequence_no s then
                     (case wait_next_tick clock s tick (Suc k) of
                        None \<Rightarrow> None
                      | Some (Inl e, k) \<Rightarrow> Some (Inl e, s, k)
                      | Some (Inr tick, k) \<Rightarrow>
                          Some (Inr (create_id tick 0 gateway),
                                s\<lparr>last_tick := tick, sequence_no := 0\<rparr>, k))
                   else Some (Inr (create_id tick (sequence_no s) gateway),
                              s\<lparr>last_tick := tick\<rparr>, Suc k))
             else Some (Inr (create_id tick 0 gateway),
                        s\<lparr>last_tick := tick, sequence_no := 0\<rparr>, Suc k)))"

section \<open>Bit layout\<close>

lemma STEP_MAX_val: "STEP_MAX = 4095" "NODE_MAX = 15" "TIMESTAMP_MAX = 281474976710655"
  by (simp_all add: snowflake_consts)

lemma masks: "STEP_MAX = mask 12" "NODE_MAX = mask 4" "TIMESTAMP_MAX = mask 48"
  by (simp_all add: STEP_MAX_val mask_eq_exp_minus_1)

lemma bit_below:
  assumes "unat (w :: 'a::len word) < 2 ^ n" "bit w i"
  shows "i < n"
proof -
  have "unat (take_bit n w) = unat w"
    using assms(1) by (simp add: unsigned_take_bit_eq take_bit_nat_eq_self)
  then have "take_bit n w = w" by (simp add: word_unat_eq_iff)
  with assms(2) show ?thesis by (metis bit_take_bit_iff)
qed

definition id_fits :: "u64 \<Rightarrow> u16 \<Rightarrow> u64 \<Rightarrow> bool" where
  "id_fits ts sq gw \<longleftrightarrow> ts \<le> TIMESTAMP_MAX \<and> sq \<le> STEP_MAX \<and> gw \<le> NODE_MAX"

lemma id_fits_bits:
  assumes "id_fits ts sq gw"
  shows "bit ts i \<Longrightarrow> i < 48" "bit sq i \<Longrightarrow> i < 12" "bit gw i \<Longrightarrow> i < 4"
  using assms bit_below [of ts 48 i] bit_below [of sq 12 i] bit_below [of gw 4 i]
  by (simp_all add: id_fits_def word_le_nat_alt STEP_MAX_val)

lemma create_id_sum:
  assumes "id_fits ts sq gw"
  shows "create_id ts sq gw = push_bit 16 ts + (push_bit 4 (ucast sq) + gw)"
proof -
  note b = id_fits_bits [OF assms]
  have "push_bit 4 (ucast sq :: u64) AND gw = 0"
    by (rule bit_eqI) (auto simp: bit_simps dest: b(3))
  moreover have "push_bit 16 ts AND (push_bit 4 (ucast sq) OR gw) = 0"
    by (rule bit_eqI) (auto simp: bit_simps dest: b)
  ultimately show ?thesis
    by (simp add: create_id_def snowflake_consts disjunctive_add_eq_or)
qed

lemma create_id_arith:
  assumes "id_fits ts sq gw"
  shows "unat (create_id ts sq gw) = unat ts * 65536 + unat sq * 16 + unat gw"
proof -
  have b: "unat ts < 2 ^ 48" "unat sq < 2 ^ 12" "unat gw < 2 ^ 4"
    using assms by (simp_all add: id_fits_def word_le_nat_alt STEP_MAX_val)
  have sq: "unat (ucast sq :: u64) = unat sq"
    using b(2) by (simp add: unsigned_ucast_eq take_bit_nat_eq_self)
  have p: "unat (push_bit 16 ts) = unat ts * 65536" "unat (push_bit 4 (ucast sq :: u64)) = unat sq * 16"
    using b sq unat_mult_lem [of ts 65536] unat_mult_lem [of "ucast sq :: u64" 16]
    by (simp_all add: push_bit_eq_mult)
  have "unat (push_bit 4 (ucast sq :: u64) + gw) = unat sq * 16 + unat gw"
    using b p by (simp add: unat_add_no_overflow)
  then show ?thesis
    unfolding create_id_sum [OF assms] using b p by (simp add: unat_add_no_overflow)
qed

lemma parse_create:
  assumes "id_fits ts sq gw"
  shows "parse_id (create_id ts sq gw) = (ts, ucast gw, sq)"
proof -
  note b = id_fits_bits [OF assms]
  have "drop_bit 16 (create_id ts sq gw) AND mask 48 = ts"
    by (rule bit_eqI) (auto simp: create_id_def snowflake_consts bit_simps dest: b)
  moreover have "create_id ts sq gw AND mask 4 = gw"
    by (rule bit_eqI) (auto simp: create_id_def snowflake_consts bit_simps dest: b)
  moreover have "ucast (drop_bit 4 (create_id ts sq gw) AND ucast (mask 12 :: u16)) = sq"
    by (rule bit_eqI) (auto simp: create_id_def snowflake_consts bit_simps dest: b)
  ultimately show ?thesis
    by (simp add: parse_id_def masks TIMESTAMP_SHIFT_def SEQUENCE_SHIFT_def STEP_BITS_def NODE_BITS_def)
qed

lemma create_id_less:
  assumes "id_fits ts sq gw" "id_fits ts' sq' gw'"
    and "ts < ts' \<or> ts = ts' \<and> sq < sq'"
  shows "create_id ts sq gw < create_id ts' sq' gw'"
proof -
  have b: "unat sq < 4096" "unat gw < 16"
    using assms(1) by (simp_all add: id_fits_def word_le_nat_alt STEP_MAX_val)
  have "unat ts < unat ts' \<or> unat ts = unat ts' \<and> unat sq < unat sq'"
    using assms(3) by (auto simp: word_less_nat_alt)
  then show ?thesis
    using b by (auto simp: word_less_nat_alt create_id_arith assms(1,2))
qed

section \<open>Increasing ids\<close>

text \<open>What a successful call did: the new tick and sequence are later than those of the generator.\<close>

lemma current_tick_le: "current_tick e s = Inr t \<Longrightarrow> t \<le> TIMESTAMP_MAX"
  by (auto simp: current_tick_def Let_def split: if_splits)

lemma spin_tick:
  "spin clock s tick0 n k = (Some (Inr t), k') \<Longrightarrow>
   tick0 < t \<and> t \<le> TIMESTAMP_MAX \<and> k < k' \<and> current_tick (clock (k' - 1)) s = Inr t"
proof (induction n arbitrary: k)
  case (Suc n)
  show ?case
  proof (cases "current_tick (clock k) s")
    case (Inr c)
    show ?thesis
    proof (cases "tick0 < c")
      case True
      with Suc.prems Inr current_tick_le [OF Inr] show ?thesis by auto
    next
      case False
      with Suc.prems Inr have "spin clock s tick0 n (Suc k) = (Some (Inr t), k')" by simp
      from Suc.IH [OF this] show ?thesis by auto
    qed
  qed (use Suc.prems in auto)
qed simp

lemma spin_mono: "spin clock s tick0 n k = (r, k') \<Longrightarrow> k \<le> k'"
  by (induction n arbitrary: k) (fastforce split: sum.splits if_splits)+

definition later_tick :: "(nat \<Rightarrow> nat) \<Rightarrow> snowflake \<Rightarrow> u64 \<Rightarrow> nat \<Rightarrow> (snowflake_error + u64) \<times> nat \<Rightarrow> bool" where
  "later_tick clock s tick0 k y \<longleftrightarrow>
     (\<forall>t k'. y = (Inr t, k') \<longrightarrow>
       tick0 < t \<and> t \<le> TIMESTAMP_MAX \<and> k < k' \<and> current_tick (clock (k' - 1)) s = Inr t)"

lemma wait_loop_result:
  assumes "wait_loop clock s tick0 deadline k = Some y"
  shows "later_tick clock s tick0 k y"
proof (rule wait_loop.raw_induct [where P = "\<lambda>clock s tick0 deadline k y. later_tick clock s tick0 k y", OF _ assms])
  fix loop clock s tick0 deadline k y
  assume IH: "\<And>clock s tick0 deadline k y.
      loop clock s tick0 deadline k = Some y \<Longrightarrow> later_tick clock s tick0 k y"
    and run: "(case spin clock s tick0 64 k of
        (None, k') \<Rightarrow> if deadline < clock k' then Some (Inl SequenceOverflow, Suc k')
          else loop clock s tick0 deadline (Suc k')
      | (Some r, k') \<Rightarrow> Some (r, k')) = Some y"
  obtain r k1 where sp: "spin clock s tick0 64 k = (r, k1)" by (rule prod.exhaust)
  have le: "k \<le> k1" by (rule spin_mono [OF sp])
  show "later_tick clock s tick0 k y"
  proof (cases r)
    case (Some a)
    with run sp have "y = (a, k1)" by simp
    with Some sp spin_tick [of clock s tick0 64 k] show ?thesis by (auto simp: later_tick_def)
  next
    case None
    show ?thesis
    proof (cases "deadline < clock k1")
      case True
      with run sp None show ?thesis by (auto simp: later_tick_def)
    next
      case False
      with run sp None have "loop clock s tick0 deadline (Suc k1) = Some y" by simp
      from IH [OF this] le show ?thesis by (auto simp: later_tick_def)
    qed
  qed
qed

lemma wait_next_tick_result:
  "wait_next_tick clock s tick0 k = Some y \<Longrightarrow> later_tick clock s tick0 k y"
  using wait_loop_result by (fastforce simp: wait_next_tick_def later_tick_def)

text \<open>The wait returns once the clock passes its deadline.\<close>

lemma spin_bound: "spin clock s tick0 n k = (None, k') \<Longrightarrow> k' = k + n"
proof (induction n arbitrary: k)
  case (Suc n)
  then have "spin clock s tick0 n (Suc k) = (None, k')"
    by (auto split: sum.splits if_splits)
  from Suc.IH [OF this] show ?case by simp
qed simp

lemma wait_loop_returns:
  assumes "deadline < clock j" "mono clock"
  shows "\<exists>y. wait_loop clock s tick0 deadline k = Some y"
proof (induction "j - k" arbitrary: k rule: less_induct)
  case less
  obtain r k1 where sp: "spin clock s tick0 64 k = (r, k1)" by (rule prod.exhaust)
  show ?case
  proof (cases r)
    case None
    with sp have k1: "k1 = k + 64" by (metis spin_bound)
    show ?thesis
    proof (cases "deadline < clock k1")
      case True
      with sp None show ?thesis by (simp add: wait_loop.simps)
    next
      case False
      then have "k1 < j" using assms monoD [OF assms(2), of j k1] by (cases "j \<le> k1") auto
      then have "j - Suc k1 < j - k" using k1 by simp
      from less [OF this] False sp None show ?thesis by (simp add: wait_loop.simps [of clock s tick0 deadline k])
    qed
  qed (use sp in \<open>simp add: wait_loop.simps\<close>)
qed

text \<open>One successful call: the id is built from a tick read from the clock, and (tick, sequence)
  moves forward lexicographically when the reading is not older than the last tick.\<close>

lemma generate_step:
  assumes run: "generate clock gw s k = Some (Inr i, s', k')" and sq: "sequence_no s \<le> STEP_MAX"
  shows "i = create_id (last_tick s') (sequence_no s') gw \<and>
    id_fits (last_tick s') (sequence_no s') gw \<and> k < k' \<and>
    current_tick (clock (k' - 1)) s = Inr (last_tick s') \<and>
    start_system_ns s' = start_system_ns s \<and> epoch_ns s' = epoch_ns s \<and>
    (last_tick s = last_tick s' \<longrightarrow> sequence_no s < sequence_no s') \<and>
    (current_tick (clock k) s = Inr (last_tick s) \<longrightarrow> last_tick s \<le> last_tick s')"
proof -
  have ngw: "\<not> NODE_MAX < gw" using run by (auto simp: generate_def)
  then have gw: "gw \<le> NODE_MAX" by simp
  obtain tick where tick: "current_tick (clock k) s = Inr tick"
    using run ngw by (cases "current_tick (clock k) s") (auto simp: generate_def)
  have le: "tick \<le> TIMESTAMP_MAX" by (rule current_tick_le [OF tick])
  have z: "0 \<le> STEP_MAX" by simp
  show ?thesis
  proof (cases "tick = last_tick s")
    case False
    with run ngw tick have "i = create_id tick 0 gw" "s' = s\<lparr>last_tick := tick, sequence_no := 0\<rparr>"
      "k' = Suc k" by (auto simp: generate_def)
    with gw tick le show ?thesis using False by (simp add: id_fits_def)
  next
    case True
    show ?thesis
    proof (cases "STEP_MAX < sequence_no s + 1")
      case False
      have "sequence_no s < sequence_no s + 1"
        using sq by (auto simp: word_less_nat_alt word_le_nat_alt STEP_MAX_val unat_add_no_overflow)
      moreover from True False run ngw tick have "i = create_id tick (sequence_no s + 1) gw"
        "s' = s\<lparr>sequence_no := sequence_no s + 1, last_tick := tick\<rparr>" "k' = Suc k"
        by (auto simp: generate_def Let_def)
      ultimately show ?thesis using True gw tick le False by (simp add: id_fits_def not_less)
    next
      case over: True
      with True run ngw tick obtain t where w: "wait_next_tick clock (s\<lparr>sequence_no := sequence_no s + 1\<rparr>) tick (Suc k) = Some (Inr t, k')"
        "i = create_id t 0 gw" "s' = s\<lparr>last_tick := t, sequence_no := 0\<rparr>"
        by (auto simp: generate_def Let_def split: option.splits sum.splits)
      from wait_next_tick_result [OF w(1)] have "tick < t" "t \<le> TIMESTAMP_MAX" "Suc k < k'"
        "current_tick (clock (k' - 1)) (s\<lparr>sequence_no := sequence_no s + 1\<rparr>) = Inr t"
        by (auto simp: later_tick_def)
      moreover have "current_tick e (s\<lparr>sequence_no := q\<rparr>) = current_tick e s" for e q
        by (simp add: current_tick_def Let_def)
      ultimately show ?thesis using w True gw tick by (auto simp: id_fits_def)
    qed
  qed
qed

section \<open>A run of the generator\<close>

text \<open>
  The journaling processor unwraps every result, so a run stops at the first error. \<open>generate_many\<close> is
  the list of ids it hands out for a list of gateways.
\<close>

fun generate_many ::
    "(nat \<Rightarrow> nat) \<Rightarrow> u64 list \<Rightarrow> snowflake \<Rightarrow> nat \<Rightarrow> (u64 list \<times> snowflake \<times> nat) option" where
  "generate_many clock [] s k = Some ([], s, k)"
| "generate_many clock (gw # gws) s k =
     (case generate clock gw s k of
        Some (Inr i, s', k') \<Rightarrow>
          (case generate_many clock gws s' k' of
             Some (is, s'', k'') \<Rightarrow> Some (i # is, s'', k'')
           | None \<Rightarrow> None)
      | _ \<Rightarrow> None)"

definition clock_fits :: "(nat \<Rightarrow> nat) \<Rightarrow> snowflake \<Rightarrow> nat \<Rightarrow> bool" where
  "clock_fits clock s k \<longleftrightarrow> unat (start_system_ns s) + clock k < 2 ^ 64"

lemma current_tick_mono:
  assumes "a \<le> b" "unat (start_system_ns s) + b < 2 ^ 64"
    and "current_tick a s = Inr t" "current_tick b s = Inr u"
  shows "t \<le> u"
proof -
  have n: "unat (start_system_ns s + of_nat e) = unat (start_system_ns s) + e" if "e \<le> b" for e
  proof -
    have e: "unat (of_nat e :: u64) = e"
      using that assms(2) by (simp add: unsigned_of_nat take_bit_nat_eq_self)
    with that assms(2) show ?thesis by (subst unat_add_no_overflow) simp_all
  qed
  have t: "\<not> start_system_ns s + of_nat a < epoch_ns s"
      "t = drop_bit 10 (start_system_ns s + of_nat a - epoch_ns s)"
    and u: "u = drop_bit 10 (start_system_ns s + of_nat b - epoch_ns s)"
    and ub: "\<not> start_system_ns s + of_nat b < epoch_ns s"
    using assms(3,4) by (auto simp: current_tick_def TIME_GRANULARITY_SHIFT_def Let_def split: if_splits)
  have "unat (start_system_ns s + of_nat a - epoch_ns s) \<le> unat (start_system_ns s + of_nat b - epoch_ns s)"
    using t(1) ub n [of a] n [of b] assms(1) by (simp add: unat_sub not_less word_le_nat_alt)
  then show ?thesis
    unfolding t(2) u by (simp add: word_le_nat_alt drop_bit_eq_div unat_div div_le_mono)
qed

text \<open>The generator's last tick is not in the future of the clock.\<close>

definition gen_wf :: "(nat \<Rightarrow> nat) \<Rightarrow> nat \<Rightarrow> snowflake \<Rightarrow> bool" where
  "gen_wf clock k s \<longleftrightarrow> sequence_no s \<le> STEP_MAX \<and>
     (\<forall>j\<ge>k. \<forall>t. clock_fits clock s j \<longrightarrow> current_tick (clock j) s = Inr t \<longrightarrow> last_tick s \<le> t)"

lemma gen_wf_new:
  "snowflake_new wall epoch = Ok s \<Longrightarrow> gen_wf clock k s"
  by (auto simp: snowflake_new_def gen_wf_def Let_def split: option.splits if_splits)

lemma generate_gen_wf:
  assumes wf: "gen_wf clock k s" and m: "mono clock"
    and run: "generate clock gw s k = Some (Inr i, s', k')"
  shows "gen_wf clock k' s'" and "k < k'"
    and "clock_fits clock s (k' - 1) \<Longrightarrow>
      last_tick s < last_tick s' \<or> last_tick s = last_tick s' \<and> sequence_no s < sequence_no s'"
proof -
  have sq: "sequence_no s \<le> STEP_MAX" using wf by (simp add: gen_wf_def)
  from generate_step [OF run sq] have st: "id_fits (last_tick s') (sequence_no s') gw" "k < k'"
    "current_tick (clock (k' - 1)) s = Inr (last_tick s')"
    "start_system_ns s' = start_system_ns s" "epoch_ns s' = epoch_ns s"
    "last_tick s = last_tick s' \<longrightarrow> sequence_no s < sequence_no s'" by blast+
  have tick: "current_tick e s' = current_tick e s" for e by (simp add: current_tick_def st Let_def)
  show "k < k'" by (rule st(2))
  show "gen_wf clock k' s'"
    unfolding gen_wf_def
  proof (intro conjI allI impI)
    show "sequence_no s' \<le> STEP_MAX" using st(1) by (simp add: id_fits_def)
    fix j t assume j: "k' \<le> j" "clock_fits clock s' j" "current_tick (clock j) s' = Inr t"
    have le: "clock (k' - 1) \<le> clock j" using j(1) by (intro monoD [OF m]) simp
    show "last_tick s' \<le> t"
      by (rule current_tick_mono [OF le _ st(3)]) (use j in \<open>simp_all add: tick clock_fits_def st(4)\<close>)
  qed
  assume fits: "clock_fits clock s (k' - 1)"
  have "k \<le> k' - 1" using st(2) by simp
  with wf fits st(3) have "last_tick s \<le> last_tick s'" by (auto simp: gen_wf_def)
  with st(6) show "last_tick s < last_tick s' \<or>
      last_tick s = last_tick s' \<and> sequence_no s < sequence_no s'" by auto
qed

lemma generate_many_increasing:
  assumes "mono clock" "gen_wf clock k s" "generate_many clock gws s k = Some (is, s', k')"
    and "clock_fits clock s (k' - 1)"
  shows "sorted_wrt (<) is \<and> k \<le> k' \<and>
    (\<forall>i\<in>set is. \<exists>ts sq gw. i = create_id ts sq gw \<and> id_fits ts sq gw \<and>
      (last_tick s < ts \<or> last_tick s = ts \<and> sequence_no s < sq))"
  using assms
proof (induction clock gws s k arbitrary: "is" rule: generate_many.induct)
  case (2 clock gw gws s k)
  from "2.prems"(3) obtain i s1 k1 is1 where g: "generate clock gw s k = Some (Inr i, s1, k1)"
    and rest: "generate_many clock gws s1 k1 = Some (is1, s', k')" "is = i # is1"
    by (auto split: option.splits prod.splits sum.splits)
  from generate_step [OF g] "2.prems"(2) have st: "i = create_id (last_tick s1) (sequence_no s1) gw"
    "id_fits (last_tick s1) (sequence_no s1) gw" "start_system_ns s1 = start_system_ns s"
    by (auto simp: gen_wf_def)
  have fits1: "clock_fits clock s1 (k' - 1)" using "2.prems"(4) by (simp add: clock_fits_def st(3))
  note IH = "2.IH" [OF g refl refl refl "2.prems"(1) generate_gen_wf(1) [OF "2.prems"(2,1) g] rest(1) fits1]
  have "k1 - 1 \<le> k' - 1" using IH by auto
  then have "clock_fits clock s (k1 - 1)"
    using "2.prems"(4) monoD [OF "2.prems"(1), of "k1 - 1" "k' - 1"] by (auto simp: clock_fits_def)
  note fwd = generate_gen_wf(3) [OF "2.prems"(2,1) g this]
  have "i < i'" if "i' \<in> set is1" for i'
  proof -
    from IH that obtain ts sq g' where "i' = create_id ts sq g'" "id_fits ts sq g'"
      "last_tick s1 < ts \<or> last_tick s1 = ts \<and> sequence_no s1 < sq" by blast
    with create_id_less [OF st(2)] st(1) show ?thesis by simp
  qed
  moreover have "\<exists>ts sq gw. i' = create_id ts sq gw \<and> id_fits ts sq gw \<and>
      (last_tick s < ts \<or> last_tick s = ts \<and> sequence_no s < sq)" if "i' \<in> set is" for i'
  proof (cases "i' = i")
    case True
    with st fwd show ?thesis by blast
  next
    case False
    with that rest(2) IH obtain ts sq g' where "i' = create_id ts sq g'" "id_fits ts sq g'"
      "last_tick s1 < ts \<or> last_tick s1 = ts \<and> sequence_no s1 < sq" by auto
    with fwd have "last_tick s < ts \<or> last_tick s = ts \<and> sequence_no s < sq" by auto
    with \<open>i' = create_id ts sq g'\<close> \<open>id_fits ts sq g'\<close> show ?thesis by blast
  qed
  ultimately show ?case
    using IH generate_gen_wf(2) [OF "2.prems"(2,1) g] rest(2) by auto
qed simp

section \<open>Properties\<close>

text \<open>C19. Order ids strictly increase: whatever gateways ask, a generator made by \<^verbatim>\<open>new\<close> and driven by a
  monotone clock (with no wrap of the nanosecond count during the run) hands out strictly increasing
  ids, also across bursts of more than 4096 requests within one tick.\<close>

theorem snowflake_ids_increasing:
  assumes "mono clock" "snowflake_new wall epoch = Ok s"
    and "generate_many clock gws s k = Some (ids, s', k')"
    and "unat (start_system_ns s) + clock (k' - 1) < 2 ^ 64"
  shows "sorted_wrt (<) ids"
  using generate_many_increasing [OF assms(1) gen_wf_new [OF assms(2)] assms(3)] assms(4)
  by (simp add: clock_fits_def)

theorem snowflake_ids_increasing_witness:
  "\<exists>s ids s' k'. snowflake_new (Some 1735689600000000000) None = Ok s \<and>
     generate_many (\<lambda>k. 700 * k) [3, 5, 3] s 0 = Some (ids, s', k') \<and>
     sorted_wrt (<) ids \<and> ids = [create_id 0 1 3, create_id 0 2 5, create_id 1 0 3]"
proof -
  let ?s = "\<lparr>start_system_ns = 1735689600000000000, epoch_ns = 1735689600000000000, last_tick = 0,
    sequence_no = 0\<rparr>"
  have new: "snowflake_new (Some 1735689600000000000) None = Ok ?s"
    by (simp add: snowflake_new_def DEFAULT_EPOCH_def)
  have run: "generate_many (\<lambda>k. 700 * k) [3, 5, 3] ?s 0 =
      Some ([create_id 0 1 3, create_id 0 2 5, create_id 1 0 3], ?s\<lparr>last_tick := 1\<rparr>, 3)"
    by (simp add: generate_def current_tick_def STEP_MAX_val TIME_GRANULARITY_SHIFT_def)
  have "mono (\<lambda>k::nat. 700 * k)" by (simp add: mono_def)
  from snowflake_ids_increasing [OF this new run] new run show ?thesis by simp
qed

text \<open>The layout is lossless: an id built from a 48-bit tick, a 12-bit sequence and a 4-bit gateway
  parses back to the three, and \<^verbatim>\<open>gateway_from_id\<close> reads the gateway.\<close>

theorem snowflake_parse_roundtrip:
  assumes "ts \<le> TIMESTAMP_MAX" "sq \<le> STEP_MAX" "gw \<le> NODE_MAX"
  shows "parse_id (create_id ts sq gw) = (ts, ucast gw, sq) \<and>
    gateway_from_id (create_id ts sq gw) = ucast gw"
  using parse_create [of ts sq gw] assms by (simp add: id_fits_def parse_id_def gateway_from_id_def)

theorem snowflake_parse_roundtrip_witness:
  "parse_id (create_id 77 12 9) = (77, 9, 12) \<and> gateway_from_id (create_id 77 12 9) = 9"
  using snowflake_parse_roundtrip [of 77 12 9] by (simp add: STEP_MAX_val)

lemma generate_result:
  assumes "mono clock" "\<And>n. \<exists>j. n < clock j" "sequence_no s \<le> STEP_MAX"
  shows "\<exists>r s' k'. generate clock gw s k = Some (r, s', k') \<and>
    (r = Inl MachineIdOutOfRange \<longleftrightarrow> NODE_MAX < gw) \<and>
    (\<forall>i. r = Inr i \<longrightarrow> gateway_from_id i = ucast gw)"
proof -
  have wait: "\<exists>y. wait_next_tick clock s' t j = Some y" for s' t j
    using wait_loop_returns [OF _ assms(1)] assms(2) unfolding wait_next_tick_def by blast
  have ct: "current_tick e s' \<noteq> Inl MachineIdOutOfRange" for e s'
    by (simp add: current_tick_def Let_def)
  have sp: "fst (spin clock s' t n j) \<noteq> Some (Inl MachineIdOutOfRange)" for s' t n j
    using ct by (induction n arbitrary: j) (auto split: sum.split)
  have wl: "fst y \<noteq> Inl MachineIdOutOfRange" if "wait_loop clock s' t d j = Some y" for s' t d j y
  proof (rule wait_loop.raw_induct [where P = "\<lambda>c s t d j y. c = clock \<longrightarrow> fst y \<noteq> Inl MachineIdOutOfRange",
        OF _ that, THEN mp, OF _ refl], intro impI)
    fix loop c s t d j y
    assume IH: "\<And>c s t d j y. loop c s t d j = Some y \<Longrightarrow> c = clock \<longrightarrow> fst y \<noteq> Inl MachineIdOutOfRange"
      and run: "(case spin c s t 64 j of
          (None, k') \<Rightarrow> if d < c k' then Some (Inl SequenceOverflow, Suc k') else loop c s t d (Suc k')
        | (Some r, k') \<Rightarrow> Some (r, k')) = Some y" and c: "c = clock"
    obtain r k1 where "spin c s t 64 j = (r, k1)" by (rule prod.exhaust)
    with run sp [of s t 64 j] IH c show "fst y \<noteq> Inl MachineIdOutOfRange"
      by (auto split: option.splits if_splits)
  qed
  show ?thesis
  proof (cases "NODE_MAX < gw")
    case False
    have "\<exists>r s' k'. generate clock gw s k = Some (r, s', k') \<and> r \<noteq> Inl MachineIdOutOfRange"
    proof (cases "current_tick (clock k) s")
      case (Inl e)
      with False ct show ?thesis by (simp add: generate_def) metis
    next
      case (Inr t)
      obtain y where "wait_next_tick clock (s\<lparr>sequence_no := sequence_no s + 1\<rparr>) t (Suc k) = Some y"
        using wait by blast
      moreover from wl this have "fst y \<noteq> Inl MachineIdOutOfRange" by (simp add: wait_next_tick_def)
      ultimately show ?thesis using False Inr
        by (auto simp: generate_def Let_def split: sum.split prod.split)
    qed
    then obtain r s' k' where g: "generate clock gw s k = Some (r, s', k')" "r \<noteq> Inl MachineIdOutOfRange"
      by blast
    moreover have "gateway_from_id i = ucast gw" if "r = Inr i" for i
      using generate_step [OF _ assms(3)] g that parse_create
      by (metis (no_types, lifting) fst_conv gateway_from_id_def parse_id_def snd_conv)
    ultimately show ?thesis using False by blast
  qed (simp add: generate_def)
qed

text \<open>C20. \<^verbatim>\<open>generate\<close> returns: with a monotone clock that does not stand still for ever every call ends; it
  refuses exactly the gateways above 15 with MachineIdOutOfRange, and an id it returns carries the
  gateway it was asked for.\<close>

theorem generate_returns:
  assumes "mono clock" "\<And>n. \<exists>j. n < clock j" "sequence_no s \<le> STEP_MAX"
  shows "\<exists>r s' k'. generate clock gw s k = Some (r, s', k') \<and>
    (r = Inl MachineIdOutOfRange \<longleftrightarrow> NODE_MAX < gw) \<and>
    (\<forall>i. r = Inr i \<longrightarrow> gateway_from_id i = ucast gw)"
  by (rule generate_result [OF assms])

theorem generate_returns_witness:
  "\<exists>r s' k'. generate (\<lambda>k. 700 * k) 16 \<lparr>start_system_ns = 5, epoch_ns = 5, last_tick = 0, sequence_no = 0\<rparr> 0 =
     Some (r, s', k') \<and> r = Inl MachineIdOutOfRange"
proof -
  have grows: "\<exists>j. n < 700 * j" for n :: nat
    by (rule exI [of _ "Suc n"]) simp
  have "mono (\<lambda>k::nat. 700 * k)" by (simp add: mono_def)
  from generate_returns [OF this grows, of "\<lparr>start_system_ns = 5, epoch_ns = 5, last_tick = 0, sequence_no = 0\<rparr>" 16 0]
  show ?thesis by (auto simp: STEP_MAX_val)
qed

end
