(* ===== verification/Journaling.thy ===== *)
theory Journaling
  imports Publications Snowflake_Ids
begin

text \<open>
  The journaling processor of \<^verbatim>\<open>processors/src/journaling.rs\<close>: it stamps a command with an order id of
  the snowflake generator and the time, and publishes it to the archive. The replay flag is shared with
  other threads, so the processor reads it from its arguments; its orderings are all sequentially
  consistent. \<open>journal_command\<close> returns the generator, the command, what was offered to the archive and
  the index of the next clock reading. A refused id is a panic (\<^verbatim>\<open>unwrap\<close>); \<open>None\<close> would mean that the
  generator's busy wait never ends.
\<close>

record 'p journaling_processor =
  jp_snowflake :: snowflake
  jp_publications :: "'p publications"

type_synonym replay_control = bool

definition replay_new_enabled :: replay_control where "replay_new_enabled = True"
definition replay_new_disabled :: replay_control where "replay_new_disabled = False"
definition replay_enable :: "replay_control \<Rightarrow> replay_control" where "replay_enable r = True"
definition replay_disable :: "replay_control \<Rightarrow> replay_control" where "replay_disable r = False"
definition replay_set :: "bool \<Rightarrow> replay_control \<Rightarrow> replay_control" where "replay_set enabled r = enabled"
definition is_enabled :: "replay_control \<Rightarrow> bool" where "is_enabled r = r"

definition journaling_new ::
    "nat option \<Rightarrow> 'p publications \<Rightarrow> (snowflake_error, 'p journaling_processor) outcome" where
  "journaling_new wall pubs =
     (case snowflake_new wall None of
        Ok s \<Rightarrow> Ok \<lparr>jp_snowflake = s, jp_publications = pubs\<rparr>
      | _ \<Rightarrow> Panic)"

text \<open>The last two statements: the time stamp and the archive.\<close>

definition stamp_and_archive ::
    "nat option \<Rightarrow> 'p publications \<Rightarrow> order_command \<Rightarrow> (order_command \<times> 'p offers) option" where
  "stamp_and_archive wall pubs cmd =
     (let cmd = cmd\<lparr>c_timestamp := snowflake_timestamp wall\<rparr>
      in map_option (\<lambda>offers. (cmd, offers)) (publish_to_archive pubs cmd))"

definition journal_command ::
    "(nat \<Rightarrow> nat) \<Rightarrow> nat option \<Rightarrow> replay_control \<Rightarrow> 'p journaling_processor \<Rightarrow> order_command \<Rightarrow> nat \<Rightarrow>
     (unit, 'p journaling_processor \<times> order_command \<times> 'p offers \<times> nat) outcome option" where
  "journal_command clock wall replay jp cmd k =
     (if is_enabled replay then Some (Ok (jp, cmd, [], k))
      else if c_command cmd \<noteq> CancelOrder then
        (case generate clock (ucast (c_route_gateway_id cmd)) (jp_snowflake jp) k of
           None \<Rightarrow> None
         | Some (Inl e, s, k) \<Rightarrow> Some Panic
         | Some (Inr i, s, k) \<Rightarrow>
             Some (or_panic (map_option (\<lambda>(cmd, offers). (jp\<lparr>jp_snowflake := s\<rparr>, cmd, offers, k))
               (stamp_and_archive wall (jp_publications jp) (cmd\<lparr>c_order_id := i\<rparr>)))))
      else
        Some (or_panic (map_option (\<lambda>(cmd, offers). (jp, cmd, offers, k))
          (stamp_and_archive wall (jp_publications jp) cmd))))"

text \<open>\<^verbatim>\<open>journal_event\<close> only logs.\<close>

definition journal_event :: "'p journaling_processor \<Rightarrow> order_command \<Rightarrow> order_command" where
  "journal_event jp cmd = cmd"

section \<open>What a journaled command is\<close>

lemma stamp_and_archive_result:
  fixes pubs :: "'p publications"
  assumes "pubs_wf pubs"
  shows "\<exists>offers. stamp_and_archive wall pubs cmd =
      Some (cmd\<lparr>c_timestamp := snowflake_timestamp wall\<rparr>, offers) \<and>
    (case pubs ! MAX_GATEWAYS of
       None \<Rightarrow> offers = []
     | Some p \<Rightarrow> \<exists>bytes. offers = [(p, bytes)] \<and>
         decode_order_command bytes = Ok (wire_view (cmd\<lparr>c_timestamp := snowflake_timestamp wall\<rparr>)))"
  using publish_to_archive_result [OF assms, of "cmd\<lparr>c_timestamp := snowflake_timestamp wall\<rparr>"]
  by (auto simp: stamp_and_archive_def Let_def)

lemma gateway_in_range: "unat (g :: u8) < MAX_GATEWAYS \<longleftrightarrow> \<not> NODE_MAX < (ucast g :: u64)"
proof -
  have "unat (ucast g :: u64) = unat g"
    using unat_lt_2p [of g] by (simp add: unsigned_ucast_eq take_bit_nat_eq_self)
  then show ?thesis by (simp add: STEP_MAX_val MAX_GATEWAYS_def word_less_nat_alt not_less) arith
qed

text \<open>A later run of the same generator only hands out larger ids.\<close>

lemma generate_then_many:
  assumes m: "mono clock" and wf: "gen_wf clock k s"
    and run: "generate clock gw s k = Some (Inr i, s', k')"
    and later: "generate_many clock gws s' k' = Some (is, s'', k'')" "clock_fits clock s' (k'' - 1)"
  shows "sorted_wrt (<) (i # is)"
proof -
  have "start_system_ns s' = start_system_ns s"
    using generate_step [OF run] wf by (simp add: gen_wf_def)
  then have "clock_fits clock s (k'' - 1)" using later(2) by (simp add: clock_fits_def)
  moreover have "generate_many clock (gw # gws) s k = Some (i # is, s'', k'')"
    using run later(1) by simp
  ultimately show ?thesis using generate_many_increasing [OF m wf] by blast
qed

text \<open>C23. Journaling stamps and archives: outside replay a command of a known gateway that is not a
  cancellation is stamped with the id the generator hands out, or the processor panics because the
  generator refused. The id carries the gateway id and is fresh: the processor keeps the advanced
  generator, and every id a later run of that generator hands out, for whatever gateways, is larger
  (as long as the nanosecond count of the clock does not wrap). The rest of the command changes only in
  its time stamp; the command as stamped is what the archive is offered, and the archived bytes decode to
  it. With a gateway id of 16 or more the processor always panics.\<close>

theorem journal_stamps_and_archives:
  fixes jp :: "'p journaling_processor"
  assumes "mono clock" "\<And>n. \<exists>j. n < clock j" "gen_wf clock k (jp_snowflake jp)"
    and "pubs_wf (jp_publications jp)" "c_command cmd \<noteq> CancelOrder"
  shows "\<exists>r. journal_command clock wall False jp cmd k = Some r \<and>
    (MAX_GATEWAYS \<le> unat (c_route_gateway_id cmd) \<longrightarrow> r = Panic) \<and>
    (case r of
       Ok (jp', cmd', offers, k') \<Rightarrow>
         generate clock (ucast (c_route_gateway_id cmd)) (jp_snowflake jp) k =
           Some (Inr (c_order_id cmd'), jp_snowflake jp', k') \<and>
         gateway_from_id (c_order_id cmd') = c_route_gateway_id cmd \<and>
         gen_wf clock k' (jp_snowflake jp') \<and>
         (\<forall>gws is s'' k''. generate_many clock gws (jp_snowflake jp') k' = Some (is, s'', k'') \<longrightarrow>
            clock_fits clock (jp_snowflake jp') (k'' - 1) \<longrightarrow> sorted_wrt (<) (c_order_id cmd' # is)) \<and>
         jp' = jp\<lparr>jp_snowflake := jp_snowflake jp'\<rparr> \<and>
         cmd' = cmd\<lparr>c_order_id := c_order_id cmd', c_timestamp := snowflake_timestamp wall\<rparr> \<and>
         (case jp_publications jp ! MAX_GATEWAYS of
            None \<Rightarrow> offers = []
          | Some p \<Rightarrow> \<exists>bytes. offers = [(p, bytes)] \<and> decode_order_command bytes = Ok (wire_view cmd'))
     | Err e \<Rightarrow> False
     | Panic \<Rightarrow> \<exists>e s k'. generate clock (ucast (c_route_gateway_id cmd)) (jp_snowflake jp) k = Some (Inl e, s, k'))"
proof -
  let ?g = "c_route_gateway_id cmd"
  have sq: "sequence_no (jp_snowflake jp) \<le> STEP_MAX" using assms(3) by (simp add: gen_wf_def)
  obtain r s' k' where g: "generate clock (ucast ?g) (jp_snowflake jp) k = Some (r, s', k')"
    "r = Inl MachineIdOutOfRange \<longleftrightarrow> NODE_MAX < (ucast ?g :: u64)"
    "\<And>i. r = Inr i \<Longrightarrow> gateway_from_id i = ucast (ucast ?g :: u64)"
    using generate_result [OF assms(1,2) sq, of "ucast ?g" k] by blast
  have big: "MAX_GATEWAYS \<le> unat ?g \<longleftrightarrow> NODE_MAX < (ucast ?g :: u64)"
    using gateway_in_range [of ?g] by auto
  show ?thesis
  proof (cases r)
    case (Inl e)
    with g(1) assms(5) show ?thesis by (simp add: journal_command_def is_enabled_def)
  next
    case (Inr i)
    note gen = g(1) [unfolded Inr]
    have gw: "gateway_from_id i = ?g" using g(3) [OF Inr] by (simp add: bit_eq_iff bit_simps)
    have later: "\<forall>gws is s'' k''. generate_many clock gws s' k' = Some (is, s'', k'') \<longrightarrow>
        clock_fits clock s' (k'' - 1) \<longrightarrow> sorted_wrt (<) (i # is)"
      using generate_then_many [OF assms(1,3) gen] by blast
    obtain offers where "stamp_and_archive wall (jp_publications jp) (cmd\<lparr>c_order_id := i\<rparr>) =
        Some (cmd\<lparr>c_order_id := i, c_timestamp := snowflake_timestamp wall\<rparr>, offers)"
      "case jp_publications jp ! MAX_GATEWAYS of None \<Rightarrow> offers = []
       | Some p \<Rightarrow> \<exists>bytes. offers = [(p, bytes)] \<and>
           decode_order_command bytes = Ok (wire_view (cmd\<lparr>c_order_id := i, c_timestamp := snowflake_timestamp wall\<rparr>))"
      using stamp_and_archive_result [OF assms(4), of wall "cmd\<lparr>c_order_id := i\<rparr>"] by auto
    with gen g(2) Inr gw big later assms(5) generate_gen_wf(1) [OF assms(3,1) gen] show ?thesis
      by (simp add: journal_command_def is_enabled_def del: sorted_wrt.simps)
  qed
qed

theorem journal_stamps_and_archives_witness:
  "\<exists>jp' cmd'. journal_command (\<lambda>k. 700 * k) None False
     \<lparr>jp_snowflake = \<lparr>start_system_ns = 5, epoch_ns = 5, last_tick = 0, sequence_no = 0\<rparr>,
      jp_publications = (publications_new :: nat publications)\<rparr>
     ((mk_place_order Gtc 1 5 3 Ask 131073 0)\<lparr>c_route_gateway_id := 3\<rparr>) 0 = Some (Ok (jp', cmd', [], 1)) \<and>
   c_order_id cmd' = create_id 0 1 3 \<and> create_id 0 1 3 < create_id 0 2 3"
proof -
  let ?s = "\<lparr>start_system_ns = 5, epoch_ns = 5, last_tick = 0, sequence_no = 0\<rparr>"
  let ?jp = "\<lparr>jp_snowflake = ?s, jp_publications = (publications_new :: nat publications)\<rparr>"
  let ?cmd = "(mk_place_order Gtc 1 5 3 Ask 131073 0)\<lparr>c_route_gateway_id := 3\<rparr>"
  have grows: "\<exists>j. n < 700 * j" for n :: nat
    by (rule exI [of _ "Suc n"]) simp
  have mono: "mono (\<lambda>k::nat. 700 * k)" by (simp add: mono_def)
  have wf: "gen_wf (\<lambda>k. 700 * k) 0 ?s" by (simp add: gen_wf_def STEP_MAX_val)
  have gen: "generate (\<lambda>k. 700 * k) 3 ?s 0 = Some (Inr (create_id 0 1 3), ?s\<lparr>sequence_no := 1\<rparr>, 1)"
    by (simp add: generate_def current_tick_def STEP_MAX_val TIME_GRANULARITY_SHIFT_def)
  have next_id: "generate_many (\<lambda>k. 700 * k) [3] (?s\<lparr>sequence_no := 1\<rparr>) 1 =
      Some ([create_id 0 2 3], ?s\<lparr>sequence_no := 2\<rparr>, 2)"
    by (simp add: generate_def current_tick_def STEP_MAX_val TIME_GRANULARITY_SHIFT_def)
  have slot: "(publications_new :: nat publications) ! MAX_GATEWAYS = None"
    by (simp add: publications_new_def MAX_GATEWAYS_def)
  obtain r where r: "journal_command (\<lambda>k. 700 * k) None False ?jp ?cmd 0 = Some r"
    "case r of
       Ok (jp', cmd', offers, k') \<Rightarrow>
         generate (\<lambda>k. 700 * k) (ucast (c_route_gateway_id ?cmd)) ?s 0 =
           Some (Inr (c_order_id cmd'), jp_snowflake jp', k') \<and> offers = [] \<and>
         (\<forall>gws is s'' k''. generate_many (\<lambda>k. 700 * k) gws (jp_snowflake jp') k' = Some (is, s'', k'') \<longrightarrow>
            clock_fits (\<lambda>k. 700 * k) (jp_snowflake jp') (k'' - 1) \<longrightarrow> sorted_wrt (<) (c_order_id cmd' # is))
     | Err e \<Rightarrow> False
     | Panic \<Rightarrow> \<exists>e s k'. generate (\<lambda>k. 700 * k) (ucast (c_route_gateway_id ?cmd)) ?s 0 = Some (Inl e, s, k')"
    using journal_stamps_and_archives [OF mono grows, of 0 ?jp ?cmd None] wf slot
    by (fastforce simp: pubs_wf_new mk_place_order_def split: outcome.splits)
  then obtain jp' cmd' where ok: "r = Ok (jp', cmd', [], 1)" "c_order_id cmd' = create_id 0 1 3"
    "jp_snowflake jp' = ?s\<lparr>sequence_no := 1\<rparr>"
    using gen by (auto split: outcome.splits)
  from r(2) have later: "generate_many (\<lambda>k. 700 * k) gws (jp_snowflake jp') 1 = Some (is, s'', k'') \<Longrightarrow>
      clock_fits (\<lambda>k. 700 * k) (jp_snowflake jp') (k'' - 1) \<Longrightarrow> sorted_wrt (<) (c_order_id cmd' # is)"
    for gws "is" s'' k'' unfolding ok(1) by simp
  have "sorted_wrt (<) [create_id 0 1 3, create_id 0 2 3]"
    using later [unfolded ok(2,3), OF next_id] by (simp add: clock_fits_def del: sorted_wrt.simps)
  with r(1) ok show ?thesis by auto
qed

end
