(* ===== verification/Market_Spec.thy ===== *)
theory Market_Spec
  imports Vex_Data
begin

text \<open>
  Market specifications (\<^verbatim>\<open>common/src/market_specification.rs\<close>) with their builder, the cost of a
  quantity in quote units, the two asset ids packed in a market id, and the helpers of
  \<^verbatim>\<open>common/src/core_arithmetic.rs\<close>. The lemmas read \<open>calculate_quote_cost\<close> as a division of naturals and
  show that costs of parts never exceed the cost of the whole.
\<close>

record core_market_specification =
  ms_market_id :: u32
  ms_market_type :: market_type
  ms_base_asset :: u16
  ms_quote_asset :: u16
  ms_base_scale_k :: u64
  ms_quote_scale_k :: u64
  ms_base_native_scale :: u64
  ms_quote_native_scale :: u64
  ms_taker_fee :: u64
  ms_maker_fee :: u64
  ms_slippage :: u32

definition base_asset :: "u32 \<Rightarrow> u16" where
  "base_asset market_id = ucast (market_id AND 0xFFFF)"

definition quote_asset :: "u32 \<Rightarrow> u16" where
  "quote_asset market_id = ucast (drop_bit 16 market_id)"

definition calculate_quote_cost :: "core_market_specification \<Rightarrow> u64 \<Rightarrow> u64 \<Rightarrow> u64" where
  "calculate_quote_cost spec price sz =
     (let numerator = (ucast price :: u128) * ucast sz * ucast (ms_quote_native_scale spec);
          denominator = (ucast (ms_base_native_scale spec) :: u128) * ucast (ms_quote_scale_k spec)
      in if denominator = 0 then 0 else ucast (numerator div denominator))"

section \<open>The builder\<close>

record spec_builder =
  sb_market_id :: "u32 option"
  sb_market_type :: "market_type option"
  sb_base_asset :: "u16 option"
  sb_quote_asset :: "u16 option"
  sb_base_scale_k :: "u64 option"
  sb_quote_scale_k :: "u64 option"
  sb_base_native_scale :: "u64 option"
  sb_quote_native_scale :: "u64 option"
  sb_taker_fee :: "u64 option"
  sb_maker_fee :: "u64 option"
  sb_slippage :: "u32 option"

definition builder :: spec_builder where
  "builder = \<lparr>sb_market_id = None, sb_market_type = None, sb_base_asset = None,
     sb_quote_asset = None, sb_base_scale_k = None, sb_quote_scale_k = None,
     sb_base_native_scale = None, sb_quote_native_scale = None, sb_taker_fee = None,
     sb_maker_fee = None, sb_slippage = None\<rparr>"

definition with_market_id :: "u32 \<Rightarrow> spec_builder \<Rightarrow> spec_builder" where
  "with_market_id market_id b = b\<lparr>sb_market_id := Some market_id,
     sb_base_asset := Some (base_asset market_id), sb_quote_asset := Some (quote_asset market_id)\<rparr>"

definition with_market_type :: "market_type \<Rightarrow> spec_builder \<Rightarrow> spec_builder" where
  "with_market_type t b = b\<lparr>sb_market_type := Some t\<rparr>"

definition with_base_scale_k :: "u64 \<Rightarrow> spec_builder \<Rightarrow> spec_builder" where
  "with_base_scale_k k b = b\<lparr>sb_base_scale_k := Some k\<rparr>"

definition with_quote_scale_k :: "u64 \<Rightarrow> spec_builder \<Rightarrow> spec_builder" where
  "with_quote_scale_k k b = b\<lparr>sb_quote_scale_k := Some k\<rparr>"

definition with_base_native_scale :: "u64 \<Rightarrow> spec_builder \<Rightarrow> spec_builder" where
  "with_base_native_scale k b = b\<lparr>sb_base_native_scale := Some k\<rparr>"

definition with_quote_native_scale :: "u64 \<Rightarrow> spec_builder \<Rightarrow> spec_builder" where
  "with_quote_native_scale k b = b\<lparr>sb_quote_native_scale := Some k\<rparr>"

definition with_taker_fee :: "u64 \<Rightarrow> spec_builder \<Rightarrow> spec_builder" where
  "with_taker_fee f b = b\<lparr>sb_taker_fee := Some f\<rparr>"

definition with_maker_fee :: "u64 \<Rightarrow> spec_builder \<Rightarrow> spec_builder" where
  "with_maker_fee f b = b\<lparr>sb_maker_fee := Some f\<rparr>"

definition with_slippage :: "u32 \<Rightarrow> spec_builder \<Rightarrow> spec_builder" where
  "with_slippage s b = b\<lparr>sb_slippage := Some s\<rparr>"

definition ok_or :: "'e \<Rightarrow> 'a option \<Rightarrow> 'e + 'a" where
  "ok_or e m = (case m of None \<Rightarrow> Inl e | Some a \<Rightarrow> Inr a)"

definition unwrap_or :: "'a option \<Rightarrow> 'a \<Rightarrow> 'a" where
  "unwrap_or m d = (case m of None \<Rightarrow> d | Some a \<Rightarrow> a)"

definition build :: "spec_builder \<Rightarrow> string + core_market_specification" where
  "build b =
     rbind (ok_or ''market_id is required'' (sb_market_id b)) (\<lambda>market_id.
     rbind (ok_or ''market_type is required'' (sb_market_type b)) (\<lambda>market_type.
     rbind (ok_or ''base_asset is required'' (sb_base_asset b)) (\<lambda>base_asset.
     rbind (ok_or ''quote_asset is required'' (sb_quote_asset b)) (\<lambda>quote_asset.
     Inr \<lparr>ms_market_id = market_id, ms_market_type = market_type,
       ms_base_asset = base_asset, ms_quote_asset = quote_asset,
       ms_base_scale_k = unwrap_or (sb_base_scale_k b) 1,
       ms_quote_scale_k = unwrap_or (sb_quote_scale_k b) 1,
       ms_base_native_scale = unwrap_or (sb_base_native_scale b) 1,
       ms_quote_native_scale = unwrap_or (sb_quote_native_scale b) 1,
       ms_taker_fee = unwrap_or (sb_taker_fee b) 0,
       ms_maker_fee = unwrap_or (sb_maker_fee b) 0,
       ms_slippage = unwrap_or (sb_slippage b) 150\<rparr>))))"

section \<open>CoreArithmetic\<close>

definition calculate_amount_ask :: "u64 \<Rightarrow> core_market_specification \<Rightarrow> u64" where
  "calculate_amount_ask sz spec = sz * ms_base_scale_k spec"

definition calculate_amount_bid :: "u64 \<Rightarrow> u64 \<Rightarrow> core_market_specification \<Rightarrow> u64" where
  "calculate_amount_bid sz price spec = sz * (price * ms_quote_scale_k spec)"

definition calculate_amount_bid_taker_fee ::
    "u64 \<Rightarrow> u64 \<Rightarrow> core_market_specification \<Rightarrow> u64" where
  "calculate_amount_bid_taker_fee sz price spec =
     sz * (price * ms_quote_scale_k spec + ms_taker_fee spec)"

definition calculate_amount_bid_release_corr_maker ::
    "u64 \<Rightarrow> u64 \<Rightarrow> core_market_specification \<Rightarrow> u64" where
  "calculate_amount_bid_release_corr_maker sz price_diff spec =
     sz * (price_diff * ms_quote_scale_k spec + (ms_taker_fee spec - ms_maker_fee spec))"

definition calculate_amount_bid_taker_fee_for_budget ::
    "u64 \<Rightarrow> u64 \<Rightarrow> core_market_specification \<Rightarrow> u64" where
  "calculate_amount_bid_taker_fee_for_budget sz budget_in_steps spec =
     budget_in_steps * ms_quote_scale_k spec + sz * ms_taker_fee spec"

section \<open>The cost over the naturals\<close>

definition cost_denominator :: "core_market_specification \<Rightarrow> nat" where
  "cost_denominator spec = unat (ms_base_native_scale spec) * unat (ms_quote_scale_k spec)"

text \<open>The cost the formula means: exact, rounded down, never truncated.\<close>

definition exact_cost :: "core_market_specification \<Rightarrow> nat \<Rightarrow> nat \<Rightarrow> nat" where
  "exact_cost spec p s = (p * s * unat (ms_quote_native_scale spec)) div cost_denominator spec"

text \<open>No intermediate product leaves 128 bits and the result fits 64: no truncation happens.\<close>

definition cost_fits :: "core_market_specification \<Rightarrow> nat \<Rightarrow> nat \<Rightarrow> bool" where
  "cost_fits spec p s \<longleftrightarrow>
     p * s * unat (ms_quote_native_scale spec) < 2 ^ 128 \<and> exact_cost spec p s < 2 ^ 64"

lemma unat_ucast_u64_u128 [simp]: "unat (ucast (a :: u64) :: u128) = unat a"
  using unat_lt_2p [of a] by (simp add: unsigned_ucast_eq take_bit_nat_eq_self)

lemma mult_lt_2p128: "(a::nat) < 2 ^ 64 \<Longrightarrow> b < 2 ^ 64 \<Longrightarrow> a * b < 2 ^ 128"
proof -
  assume "a < 2 ^ 64" "b < 2 ^ 64"
  then have "a * b < 2 ^ 64 * 2 ^ 64"
    by (rule mult_strict_mono') simp_all
  then show ?thesis by simp
qed

lemma unat_mult_no_overflow [wordsimps]:
  fixes a b :: "'a::len word"
  shows "unat a * unat b < 2 ^ LENGTH('a) \<Longrightarrow> unat (a * b) = unat a * unat b"
  using unat_mult_lem [of a b] by simp

lemma unat_u64_product:
  "unat ((ucast (a::u64) :: u128) * ucast (b::u64)) = unat a * unat b"
proof -
  have "unat a * unat b < 2 ^ 128"
    using mult_lt_2p128 [of "unat a" "unat b"] unat_lt_2p [of a] unat_lt_2p [of b] by simp
  then show ?thesis
    using unat_mult_no_overflow [of "ucast a :: u128" "ucast b"] by simp
qed

text \<open>What the code computes on any input: the product wraps at 128 bits and the quotient is cut to 64.\<close>

lemma calculate_quote_cost_law:
  "unat (calculate_quote_cost spec p s) =
     (unat p * unat s * unat (ms_quote_native_scale spec)) mod 2 ^ 128 div cost_denominator spec mod 2 ^ 64"
proof -
  let ?num = "(ucast p :: u128) * ucast s * ucast (ms_quote_native_scale spec)"
  let ?den = "(ucast (ms_base_native_scale spec) :: u128) * ucast (ms_quote_scale_k spec)"
  have num: "unat ?num = (unat p * unat s * unat (ms_quote_native_scale spec)) mod 2 ^ 128"
    by (simp only: unat_word_ariths unat_ucast_u64_u128) (simp add: mod_mult_left_eq)
  have den: "unat ?den = cost_denominator spec"
    by (simp add: cost_denominator_def unat_u64_product)
  have "unat (ucast (?num div ?den) :: u64) = unat ?num div unat ?den mod 2 ^ 64"
    by (simp add: unsigned_ucast_eq take_bit_eq_mod unat_div)
  moreover have "?den = 0 \<Longrightarrow> cost_denominator spec = 0" using den by simp
  ultimately show ?thesis
    by (auto simp: calculate_quote_cost_def Let_def num den)
qed

lemma calculate_quote_cost_mod:
  assumes "unat p * unat s * unat (ms_quote_native_scale spec) < 2 ^ 128"
  shows "unat (calculate_quote_cost spec p s) = exact_cost spec (unat p) (unat s) mod 2 ^ 64"
  using assms by (simp add: calculate_quote_cost_law exact_cost_def)

lemma calculate_quote_cost_exact:
  assumes "cost_fits spec (unat p) (unat s)"
  shows "unat (calculate_quote_cost spec p s) = exact_cost spec (unat p) (unat s)"
proof -
  let ?num = "(ucast p :: u128) * ucast s * ucast (ms_quote_native_scale spec)"
  let ?den = "(ucast (ms_base_native_scale spec) :: u128) * ucast (ms_quote_scale_k spec)"
  have num: "unat ?num = unat p * unat s * unat (ms_quote_native_scale spec)"
    using assms unat_u64_product [of p s]
      unat_mult_no_overflow [of "(ucast p :: u128) * ucast s" "ucast (ms_quote_native_scale spec)"]
    by (simp add: cost_fits_def)
  have den: "unat ?den = cost_denominator spec"
    by (simp add: cost_denominator_def unat_u64_product)
  have quot: "unat (?num div ?den) = exact_cost spec (unat p) (unat s)"
    by (simp add: unat_div num den exact_cost_def)
  have fits: "exact_cost spec (unat p) (unat s) < 2 ^ 64"
    using assms by (simp add: cost_fits_def)
  have "unat (ucast (?num div ?den) :: u64) = exact_cost spec (unat p) (unat s)"
    using quot fits by (simp add: unsigned_ucast_eq take_bit_nat_eq_self)
  moreover have "?den = 0 \<Longrightarrow> exact_cost spec (unat p) (unat s) = 0"
    using den by (simp add: exact_cost_def)
  ultimately show ?thesis
    by (simp add: calculate_quote_cost_def Let_def)
qed

lemma div_superadditive: "(a::nat) div d + b div d \<le> (a + b) div d"
  by (metis div_add1_eq le_add1)

lemma exact_cost_superadditive_size:
  "exact_cost spec p s + exact_cost spec p t \<le> exact_cost spec p (s + t)"
proof -
  let ?q = "unat (ms_quote_native_scale spec)"
  have "p * s * ?q + p * t * ?q = p * (s + t) * ?q"
    by (simp add: algebra_simps)
  then show ?thesis
    unfolding exact_cost_def
    using div_superadditive [of "p * s * ?q" "cost_denominator spec" "p * t * ?q"] by simp
qed

lemma exact_cost_superadditive_price:
  "exact_cost spec p s + exact_cost spec q s \<le> exact_cost spec (p + q) s"
proof -
  let ?n = "unat (ms_quote_native_scale spec)"
  have "p * s * ?n + q * s * ?n = (p + q) * s * ?n"
    by (simp add: algebra_simps)
  then show ?thesis
    unfolding exact_cost_def
    using div_superadditive [of "p * s * ?n" "cost_denominator spec" "q * s * ?n"] by simp
qed

lemma exact_cost_mono:
  assumes "p \<le> q" "s \<le> t"
  shows "exact_cost spec p s \<le> exact_cost spec q t"
proof -
  have "p * s * unat (ms_quote_native_scale spec) \<le> q * t * unat (ms_quote_native_scale spec)"
    using assms by (intro mult_le_mono) auto
  then show ?thesis unfolding exact_cost_def by (rule div_le_mono)
qed

lemma cost_fits_mono:
  assumes "cost_fits spec q t" "p \<le> q" "s \<le> t"
  shows "cost_fits spec p s"
proof -
  have "p * s * unat (ms_quote_native_scale spec) \<le> q * t * unat (ms_quote_native_scale spec)"
    using assms by (intro mult_le_mono) auto
  then show ?thesis
    using assms exact_cost_mono [OF assms(2,3), of spec]
    unfolding cost_fits_def by linarith
qed

end
