(* ===== verification/Price_Cache.thy ===== *)
theory Price_Cache
  imports Market_Spec
begin

text \<open>
  The top-of-book prices shared by the risk engines and the matching engines
  (\<^verbatim>\<open>common/src/order.rs\<close>): a map from market id to two atomic prices, one entry per configured market.
  \<^verbatim>\<open>update_prices\<close> unwraps the entry, so an unknown market is a panic (\<open>None\<close>).
\<close>

record market_price =
  best_bid :: u64
  best_ask :: u64

definition market_price_default :: market_price where
  "market_price_default = \<lparr>best_bid = 0, best_ask = u64_MAX\<rparr>"

type_synonym price_cache = "u32 \<rightharpoonup> market_price"

fun price_cache_new :: "u32 list \<Rightarrow> price_cache" where
  "price_cache_new [] = Map.empty"
| "price_cache_new (symbol # rest) = (price_cache_new rest)(symbol \<mapsto> market_price_default)"

definition get_best_bid :: "price_cache \<Rightarrow> u32 \<Rightarrow> u64" where
  "get_best_bid pc symbol =
     (case pc symbol of Some market_price \<Rightarrow> best_bid market_price | None \<Rightarrow> u64_MAX)"

definition get_best_ask :: "price_cache \<Rightarrow> u32 \<Rightarrow> u64" where
  "get_best_ask pc symbol =
     (case pc symbol of Some market_price \<Rightarrow> best_ask market_price | None \<Rightarrow> 0)"

definition update_prices :: "u32 \<Rightarrow> u64 \<Rightarrow> u64 \<Rightarrow> price_cache \<Rightarrow> price_cache option" where
  "update_prices symbol bid ask pc =
     (case pc symbol of
        None \<Rightarrow> None
      | Some market_price \<Rightarrow>
          Some (pc(symbol \<mapsto> market_price\<lparr>best_bid := bid, best_ask := ask\<rparr>)))"

lemma price_cache_new_apply:
  "price_cache_new symbols m = (if m \<in> set symbols then Some market_price_default else None)"
  by (induction symbols) auto

lemma update_prices_Some_iff:
  "(\<exists>pc'. update_prices m b a pc = Some pc') \<longleftrightarrow> m \<in> dom pc"
  by (auto simp: update_prices_def split: option.splits)

lemma update_prices_SomeD:
  assumes "update_prices m b a pc = Some pc'"
  shows "get_best_bid pc' n = (if n = m then b else get_best_bid pc n)"
    and "get_best_ask pc' n = (if n = m then a else get_best_ask pc n)"
    and "dom pc' = dom pc"
  using assms by (auto simp: update_prices_def get_best_bid_def get_best_ask_def
      split: option.splits if_splits)

end
