(* ===== verification/Book_Side.thy ===== *)
theory Book_Side
  imports Price_Cache
begin

text \<open>
  One side of an order book: the price level of \<^verbatim>\<open>orderbook/src/lib.rs\<close> and the trait \<^verbatim>\<open>BookSide\<close> of
  \<^verbatim>\<open>orderbook/src/tree.rs\<close> with its two implementations. A \<^verbatim>\<open>BTreeMap\<close> is the list of its entries in
  key order: ascending prices for the ask side, descending for the bid side, whose keys are
  \<^verbatim>\<open>Reverse(price)\<close>. A method that returns a mutable reference to a level is the level it refers to
  together with \<open>ask_write\<close> or \<open>bid_write\<close> for what is stored through it.

  The trait is the locale \<open>book_side\<close>; its laws are what \<^verbatim>\<open>OrderBook\<close> relies on, and both trees are
  interpretations. The lemmas of the locale say what each call does to the well-formedness of a
  side: prices in priority order, no empty level, every order at the price and side of its level
  with a positive size, ids increasing along a queue, and the cached volume equal to the sum of the
  sizes.
\<close>

section \<open>A price level\<close>

record price_level =
  total_volume :: u64
  lv_orders :: "order list"

definition price_level_new :: price_level where
  "price_level_new = \<lparr>total_volume = 0, lv_orders = []\<rparr>"

definition add_order :: "order \<Rightarrow> price_level \<Rightarrow> price_level" where
  "add_order ord l =
     l\<lparr>total_volume := total_volume l + o_size ord, lv_orders := lv_orders l @ [ord]\<rparr>"

text \<open>
  \<^verbatim>\<open>binary_search_by_key\<close> of the standard library: the loop halves a window until one candidate is
  left. On a queue sorted by id it finds the order with the id when there is one; that is all the
  theorems use of it.
\<close>

function bs_loop :: "u64 \<Rightarrow> order list \<Rightarrow> nat \<Rightarrow> nat \<Rightarrow> nat" where
  "bs_loop key xs base n =
     (if n \<le> 1 then base
      else let half = n div 2; mid = base + half
           in bs_loop key xs (if key < o_order_id (xs ! mid) then base else mid) (n - half))"
  by pat_completeness auto
termination
  by (relation "measure (\<lambda>(key, xs, base, n). n)") auto

declare bs_loop.simps [simp del]

definition binary_search_by_key :: "u64 \<Rightarrow> order list \<Rightarrow> nat option" where
  "binary_search_by_key key xs =
     (if xs = [] then None
      else let i = bs_loop key xs 0 (length xs)
           in if o_order_id (xs ! i) = key then Some i else None)"

definition remove_order ::
    "u64 \<Rightarrow> price_level \<Rightarrow> order_command \<Rightarrow> price_level \<times> order_command" where
  "remove_order order_id l cmd =
     (case binary_search_by_key order_id (lv_orders l) of
        None \<Rightarrow> (l, set_status Rejected cmd)
      | Some pos \<Rightarrow>
          (case vd_remove pos (lv_orders l) of
             None \<Rightarrow> (l, set_status Rejected cmd)
           | Some (removed, rest) \<Rightarrow>
               (l\<lparr>total_volume := total_volume l - o_size removed, lv_orders := rest\<rparr>,
                (set_status Cancelled (set_side (o_side removed)
                  (set_user_id (o_user_id removed) (set_size (o_size removed)
                    (set_price (o_price removed) cmd)))))
                \<lparr>c_original_size := o_original_size removed\<rparr>)))"

definition get_order_count :: "price_level \<Rightarrow> u64" where
  "get_order_count l = of_nat (length (lv_orders l))"

section \<open>The two trees\<close>

type_synonym levels = "(u64 \<times> price_level) list"

fun bt_put :: "(u64 \<Rightarrow> u64 \<Rightarrow> bool) \<Rightarrow> u64 \<Rightarrow> price_level \<Rightarrow> levels \<Rightarrow> levels" where
  "bt_put lt k v [] = [(k, v)]"
| "bt_put lt k v ((p, l) # t) =
     (if k = p then (k, v) # t
      else if lt k p then (k, v) # (p, l) # t
      else (p, l) # bt_put lt k v t)"

fun bt_remove :: "u64 \<Rightarrow> levels \<Rightarrow> levels" where
  "bt_remove k [] = []"
| "bt_remove k ((p, l) # t) = (if k = p then t else (p, l) # bt_remove k t)"

definition bt_get_or_insert ::
    "(u64 \<Rightarrow> u64 \<Rightarrow> bool) \<Rightarrow> u64 \<Rightarrow> levels \<Rightarrow> price_level \<times> levels" where
  "bt_get_or_insert lt k t =
     (case map_of t k of
        Some l \<Rightarrow> (l, t)
      | None \<Rightarrow> (price_level_new, bt_put lt k price_level_new t))"

record btree_ask_side =
  ask_tree :: levels

record btree_bid_side =
  bid_tree :: levels

definition ask_new :: btree_ask_side where
  "ask_new = \<lparr>ask_tree = []\<rparr>"

definition ask_get_level_mut :: "u64 \<Rightarrow> btree_ask_side \<Rightarrow> price_level option" where
  "ask_get_level_mut price s = map_of (ask_tree s) price"

definition ask_write :: "u64 \<Rightarrow> price_level \<Rightarrow> btree_ask_side \<Rightarrow> btree_ask_side" where
  "ask_write price l s = s\<lparr>ask_tree := bt_put (<) price l (ask_tree s)\<rparr>"

definition ask_get_or_create_level :: "u64 \<Rightarrow> btree_ask_side \<Rightarrow> price_level \<times> btree_ask_side" where
  "ask_get_or_create_level price s =
     (let (l, t) = bt_get_or_insert (<) price (ask_tree s) in (l, s\<lparr>ask_tree := t\<rparr>))"

definition ask_remove_level_if_empty :: "u64 \<Rightarrow> btree_ask_side \<Rightarrow> btree_ask_side" where
  "ask_remove_level_if_empty price s =
     (case map_of (ask_tree s) price of
        None \<Rightarrow> s
      | Some l \<Rightarrow> if lv_orders l = [] then s\<lparr>ask_tree := bt_remove price (ask_tree s)\<rparr> else s)"

definition ask_iter :: "btree_ask_side \<Rightarrow> levels" where
  "ask_iter s = ask_tree s"

definition bid_new :: btree_bid_side where
  "bid_new = \<lparr>bid_tree = []\<rparr>"

definition bid_get_level_mut :: "u64 \<Rightarrow> btree_bid_side \<Rightarrow> price_level option" where
  "bid_get_level_mut price s = map_of (bid_tree s) price"

definition bid_write :: "u64 \<Rightarrow> price_level \<Rightarrow> btree_bid_side \<Rightarrow> btree_bid_side" where
  "bid_write price l s = s\<lparr>bid_tree := bt_put (>) price l (bid_tree s)\<rparr>"

definition bid_get_or_create_level :: "u64 \<Rightarrow> btree_bid_side \<Rightarrow> price_level \<times> btree_bid_side" where
  "bid_get_or_create_level price s =
     (let (l, t) = bt_get_or_insert (>) price (bid_tree s) in (l, s\<lparr>bid_tree := t\<rparr>))"

definition bid_remove_level_if_empty :: "u64 \<Rightarrow> btree_bid_side \<Rightarrow> btree_bid_side" where
  "bid_remove_level_if_empty price s =
     (case map_of (bid_tree s) price of
        None \<Rightarrow> s
      | Some l \<Rightarrow> if lv_orders l = [] then s\<lparr>bid_tree := bt_remove price (bid_tree s)\<rparr> else s)"

definition bid_iter :: "btree_bid_side \<Rightarrow> levels" where
  "bid_iter s = bid_tree s"

text \<open>\<^verbatim>\<open>best_price\<close> is the trait's provided method: the first price, or the side's sentinel.\<close>

definition best_price :: "side \<Rightarrow> levels \<Rightarrow> u64" where
  "best_price sd it =
     (case it of
        (price, _) # _ \<Rightarrow> price
      | [] \<Rightarrow> (case sd of Ask \<Rightarrow> u64_MAX | Bid \<Rightarrow> 0))"

section \<open>Binary search\<close>

lemma bs_loop_range:
  "0 < n \<Longrightarrow> base \<le> bs_loop key xs base n \<and> bs_loop key xs base n < base + n"
proof (induction key xs base n rule: bs_loop.induct)
  case (1 key xs base n)
  show ?case
  proof (cases "n \<le> 1")
    case True
    with "1.prems" show ?thesis by (simp add: bs_loop.simps)
  next
    case False
    let ?half = "n div 2"
    let ?b = "if key < o_order_id (xs ! (base + ?half)) then base else base + ?half"
    have "?b \<le> bs_loop key xs ?b (n - ?half) \<and> bs_loop key xs ?b (n - ?half) < ?b + (n - ?half)"
      using "1.IH" [OF False refl refl] False by simp
    then have "base \<le> bs_loop key xs ?b (n - ?half) \<and> bs_loop key xs ?b (n - ?half) < base + n"
      by (auto split: if_splits)
    with False show ?thesis by (simp add: bs_loop.simps [of key xs base n] Let_def)
  qed
qed

lemma bs_loop_finds:
  assumes "sorted_wrt (<) (map o_order_id xs)" "base \<le> j" "j < base + n" "base + n \<le> length xs"
    and "o_order_id (xs ! j) = key"
  shows "bs_loop key xs base n = j"
  using assms(2-4)
proof (induction n arbitrary: base rule: less_induct)
  case (less n)
  show ?case
  proof (cases "n \<le> 1")
    case True
    with less.prems show ?thesis by (simp add: bs_loop.simps)
  next
    case False
    let ?half = "n div 2"
    let ?mid = "base + ?half"
    have mid: "?mid < length xs" using False less.prems by simp
    have "key < o_order_id (xs ! ?mid) \<longleftrightarrow> j < ?mid"
    proof (cases j ?mid rule: linorder_cases)
      case less
      then show ?thesis
        using sorted_wrt_nth_less [OF assms(1) less] mid assms(5) by simp
    next
      case equal
      then show ?thesis using assms(5) by simp
    next
      case greater
      then have "o_order_id (xs ! ?mid) < key"
        using sorted_wrt_nth_less [OF assms(1) greater] less.prems assms(5) by simp
      with greater show ?thesis by simp
    qed
    then have "bs_loop key xs (if key < o_order_id (xs ! ?mid) then base else ?mid) (n - ?half) = j"
      using False less.prems by (intro less.IH) (auto split: if_splits)
    with False show ?thesis by (simp add: bs_loop.simps [of key xs base n] Let_def)
  qed
qed

lemma binary_search_found:
  assumes "sorted_wrt (<) (map o_order_id xs)" "j < length xs" "o_order_id (xs ! j) = key"
  shows "binary_search_by_key key xs = Some j"
proof -
  have "bs_loop key xs 0 (length xs) = j"
    by (rule bs_loop_finds [OF assms(1) _ _ _ assms(3)]) (use assms(2) in auto)
  with assms(2,3) show ?thesis by (auto simp: binary_search_by_key_def)
qed

lemma binary_search_SomeD:
  assumes "binary_search_by_key key xs = Some j"
  shows "j < length xs" and "o_order_id (xs ! j) = key"
proof -
  from assms have "xs \<noteq> []" and j: "j = bs_loop key xs 0 (length xs)" "o_order_id (xs ! j) = key"
    by (auto simp: binary_search_by_key_def Let_def split: if_splits)
  then show "j < length xs" using bs_loop_range [of "length xs" 0 key xs] by simp
  show "o_order_id (xs ! j) = key" by (rule j(2))
qed

lemma binary_search_None:
  assumes "sorted_wrt (<) (map o_order_id xs)"
  shows "binary_search_by_key key xs = None \<longleftrightarrow> key \<notin> o_order_id ` set xs"
proof (cases "binary_search_by_key key xs")
  case None
  have "key \<notin> o_order_id ` set xs"
  proof
    assume "key \<in> o_order_id ` set xs"
    then obtain j where "j < length xs" "o_order_id (xs ! j) = key"
      by (auto simp: in_set_conv_nth)
    with binary_search_found [OF assms] None show False by simp
  qed
  with None show ?thesis by simp
next
  case (Some j)
  with binary_search_SomeD [OF Some] show ?thesis
    by (metis image_eqI nth_mem option.distinct(1))
qed

section \<open>Well-formed levels\<close>

definition level_wf :: "side \<Rightarrow> u64 \<Rightarrow> price_level \<Rightarrow> bool" where
  "level_wf sd p l \<longleftrightarrow>
     sorted_wrt (<) (map o_order_id (lv_orders l)) \<and>
     (\<forall>ord\<in>set (lv_orders l). o_price ord = p \<and> o_side ord = sd \<and> o_size ord \<noteq> 0) \<and>
     total_volume l = sum_list (map o_size (lv_orders l))"

lemma level_wf_new [simp]: "level_wf sd p price_level_new"
  by (simp add: level_wf_def price_level_new_def)

lemma level_wf_add_order:
  assumes "level_wf sd p l" "o_price ord = p" "o_side ord = sd" "o_size ord \<noteq> 0"
    and "\<forall>x\<in>set (lv_orders l). o_order_id x < o_order_id ord"
  shows "level_wf sd p (add_order ord l)"
  using assms by (auto simp: level_wf_def add_order_def sorted_wrt_append)

lemma lv_orders_add_order [simp]: "lv_orders (add_order ord l) = lv_orders l @ [ord]"
  by (simp add: add_order_def)

text \<open>
  Removing an order: on a well-formed level the search succeeds exactly when the order is there, and
  then exactly that order leaves the queue, its data is copied into the command and the level stays
  well formed.
\<close>

definition copy_order_to_command :: "order \<Rightarrow> order_command \<Rightarrow> order_command" where
  "copy_order_to_command ord cmd =
     cmd\<lparr>c_price := o_price ord, c_size := o_size ord, c_user_id := o_user_id ord,
         c_side := o_side ord, c_status := Cancelled, c_original_size := o_original_size ord\<rparr>"

lemma remove_order_absent:
  assumes "level_wf sd p l" "order_id \<notin> o_order_id ` set (lv_orders l)"
  shows "remove_order order_id l cmd = (l, set_status Rejected cmd)"
  using assms binary_search_None [of "lv_orders l" order_id]
  by (simp add: remove_order_def level_wf_def)

lemma remove_order_present:
  assumes wf: "level_wf sd p l" and at: "lv_orders l = xs @ ord # ys" and id: "o_order_id ord = order_id"
  shows "remove_order order_id l cmd =
    (l\<lparr>total_volume := total_volume l - o_size ord, lv_orders := xs @ ys\<rparr>,
     copy_order_to_command ord cmd)"
proof -
  have "binary_search_by_key order_id (lv_orders l) = Some (length xs)"
    using wf at id by (intro binary_search_found) (auto simp: level_wf_def)
  moreover have "vd_remove (length xs) (lv_orders l) = Some (ord, xs @ ys)"
    using at by (simp add: vd_remove_def)
  ultimately show ?thesis
    by (simp add: remove_order_def copy_order_to_command_def setter_defs)
qed

lemma level_wf_remove:
  assumes "level_wf sd p l" "lv_orders l = xs @ ord # ys"
  shows "level_wf sd p (l\<lparr>total_volume := total_volume l - o_size ord, lv_orders := xs @ ys\<rparr>)"
  using assms by (auto simp: level_wf_def sorted_wrt_append)

lemma remove_order_wf:
  assumes "level_wf sd p l"
  shows "level_wf sd p (fst (remove_order order_id l cmd))"
proof (cases "order_id \<in> o_order_id ` set (lv_orders l)")
  case True
  then obtain xs ord ys where "lv_orders l = xs @ ord # ys" "o_order_id ord = order_id"
    by (auto simp: in_set_conv_decomp)
  with remove_order_present [OF assms this] level_wf_remove [OF assms this(1)] show ?thesis by simp
next
  case False
  with remove_order_absent [OF assms False] assms show ?thesis by simp
qed

end
