(* ===== verification/Book_Side_Laws.thy ===== *)
theory Book_Side_Laws
  imports Book_Side
begin

text \<open>
  The trait \<^verbatim>\<open>BookSide\<close> as an interface. \<open>key_order\<close> is what a \<^verbatim>\<open>BTreeMap\<close> needs of its keys, met by the
  ascending order of the ask side and the descending one of the bid side; \<open>book_side\<close> is what
  \<^verbatim>\<open>OrderBook\<close> needs of a side, met by both trees. The client's lemmas, proved once in the locale, say
  how adding an order, cancelling one and dropping emptied levels change the orders that rest on a
  side and that they keep it well formed.
\<close>

section \<open>Well-formed sides\<close>

definition keys_sorted :: "(u64 \<Rightarrow> u64 \<Rightarrow> bool) \<Rightarrow> levels \<Rightarrow> bool" where
  "keys_sorted lt t \<longleftrightarrow> sorted_wrt lt (map fst t)"

definition levels_wf :: "(u64 \<Rightarrow> u64 \<Rightarrow> bool) \<Rightarrow> side \<Rightarrow> levels \<Rightarrow> bool" where
  "levels_wf lt sd t \<longleftrightarrow>
     keys_sorted lt t \<and> (\<forall>p l. map_of t p = Some l \<longrightarrow> lv_orders l \<noteq> [] \<and> level_wf sd p l)"

text \<open>The orders resting on a side, in matching priority.\<close>

definition resting :: "levels \<Rightarrow> order list" where
  "resting t = concat (map (\<lambda>(p, l). lv_orders l) t)"

lemma resting_simps [simp]:
  "resting [] = []"
  "resting ((p, l) # t) = lv_orders l @ resting t"
  by (simp_all add: resting_def)

lemma in_resting_iff:
  "distinct (map fst t) \<Longrightarrow>
   ord \<in> set (resting t) \<longleftrightarrow> (\<exists>p l. map_of t p = Some l \<and> ord \<in> set (lv_orders l))"
  by (auto simp: resting_def)

text \<open>Which orders rest in a map of levels, split at one price.\<close>

definition rests_in :: "(u64 \<rightharpoonup> price_level) \<Rightarrow> order \<Rightarrow> bool" where
  "rests_in m ord \<longleftrightarrow> (\<exists>p l. m p = Some l \<and> ord \<in> set (lv_orders l))"

definition rests_elsewhere :: "(u64 \<rightharpoonup> price_level) \<Rightarrow> u64 \<Rightarrow> order \<Rightarrow> bool" where
  "rests_elsewhere m p ord \<longleftrightarrow> (\<exists>q l. q \<noteq> p \<and> m q = Some l \<and> ord \<in> set (lv_orders l))"

lemma rests_in_split:
  "rests_in m ord \<longleftrightarrow>
     (case m p of None \<Rightarrow> False | Some l \<Rightarrow> ord \<in> set (lv_orders l)) \<or> rests_elsewhere m p ord"
proof -
  have "rests_in m ord \<longleftrightarrow>
      (\<exists>l. m p = Some l \<and> ord \<in> set (lv_orders l)) \<or> rests_elsewhere m p ord"
    unfolding rests_in_def rests_elsewhere_def by fast
  then show ?thesis by (cases "m p") simp_all
qed

lemma rests_elsewhere_upd [simp]: "rests_elsewhere (m(p := v)) p ord = rests_elsewhere m p ord"
  by (auto simp: rests_elsewhere_def)

section \<open>Keys of a tree\<close>

locale key_order =
  fixes lt :: "u64 \<Rightarrow> u64 \<Rightarrow> bool"
  assumes irrefl: "\<not> lt a a"
    and trans: "lt a b \<Longrightarrow> lt b c \<Longrightarrow> lt a c"
    and total: "a \<noteq> b \<Longrightarrow> lt a b \<or> lt b a"
begin

lemma distinct_keys: "keys_sorted lt t \<Longrightarrow> distinct (map fst t)"
proof (induction t)
  case (Cons x t)
  then show ?case by (auto simp: keys_sorted_def irrefl)
qed simp

lemma map_of_bt_put: "map_of (bt_put lt k v t) = (map_of t)(k \<mapsto> v)"
  by (induction lt k v t rule: bt_put.induct) (auto simp: fun_eq_iff)

lemma set_keys_bt_put: "fst ` set (bt_put lt k v t) = insert k (fst ` set t)"
  by (induction lt k v t rule: bt_put.induct) auto

lemma bt_put_sorted: "keys_sorted lt t \<Longrightarrow> keys_sorted lt (bt_put lt k v t)"
proof (induction t)
  case Nil
  show ?case by (simp add: keys_sorted_def)
next
  case (Cons x t)
  obtain p l where x: "x = (p, l)" by fastforce
  have tail: "keys_sorted lt t" and head: "\<forall>q\<in>fst ` set t. lt p q"
    using Cons.prems by (auto simp: keys_sorted_def x)
  have IH: "keys_sorted lt (bt_put lt k v t)" by (rule Cons.IH [OF tail])
  consider "k = p" | "k \<noteq> p" "lt k p" | "k \<noteq> p" "\<not> lt k p" by blast
  then show ?case
  proof cases
    case 1
    with Cons.prems show ?thesis by (simp add: x keys_sorted_def)
  next
    case 2
    with Cons.prems head trans [OF 2(2)] show ?thesis by (auto simp: x keys_sorted_def)
  next
    case 3
    then have "lt p k" using total by blast
    then have "\<forall>q\<in>fst ` set (bt_put lt k v t). lt p q"
      using head by (simp add: set_keys_bt_put)
    with 3 IH show ?thesis by (simp add: x keys_sorted_def)
  qed
qed

lemma set_bt_remove: "set (bt_remove k t) \<subseteq> set t"
  by (induction k t rule: bt_remove.induct) auto

lemma bt_remove_sorted: "keys_sorted lt t \<Longrightarrow> keys_sorted lt (bt_remove k t)"
  using set_bt_remove
  by (induction k t rule: bt_remove.induct) (fastforce simp: keys_sorted_def)+

lemma map_of_bt_remove: "keys_sorted lt t \<Longrightarrow> map_of (bt_remove k t) = (map_of t)(k := None)"
proof (induction k t rule: bt_remove.induct)
  case (2 k p l t)
  from "2.prems" have "distinct (map fst ((p, l) # t))" by (rule distinct_keys)
  then have "map_of t p = None" by (simp add: map_of_eq_None_iff)
  with 2 show ?case by (auto simp: fun_eq_iff keys_sorted_def)
qed simp

end

interpretation ascending: key_order "(<)"
  by standard auto

interpretation descending: key_order "(>)"
  by standard auto

section \<open>The interface of a side\<close>

locale book_side = key_order lt
  for lt :: "u64 \<Rightarrow> u64 \<Rightarrow> bool" +
  fixes iter :: "'s \<Rightarrow> levels"
    and get_level_mut :: "u64 \<Rightarrow> 's \<Rightarrow> price_level option"
    and get_or_create_level :: "u64 \<Rightarrow> 's \<Rightarrow> price_level \<times> 's"
    and store_level :: "u64 \<Rightarrow> price_level \<Rightarrow> 's \<Rightarrow> 's"
    and remove_level_if_empty :: "u64 \<Rightarrow> 's \<Rightarrow> 's"
  assumes get_level_law: "get_level_mut p s = map_of (iter s) p"
    and create_law: "keys_sorted lt (iter s) \<Longrightarrow> get_or_create_level p s = (l, s') \<Longrightarrow>
      l = (case map_of (iter s) p of Some l \<Rightarrow> l | None \<Rightarrow> price_level_new) \<and>
      map_of (iter s') = (map_of (iter s))(p \<mapsto> l) \<and> keys_sorted lt (iter s')"
    and write_law: "keys_sorted lt (iter s) \<Longrightarrow>
      map_of (iter (store_level p l s)) = (map_of (iter s))(p \<mapsto> l) \<and>
      keys_sorted lt (iter (store_level p l s))"
    and remove_law: "keys_sorted lt (iter s) \<Longrightarrow>
      map_of (iter (remove_level_if_empty p s)) =
        (case map_of (iter s) p of
           Some l \<Rightarrow> if lv_orders l = [] then (map_of (iter s))(p := None) else map_of (iter s)
         | None \<Rightarrow> map_of (iter s)) \<and>
      keys_sorted lt (iter (remove_level_if_empty p s))"
begin

lemma in_resting:
  "keys_sorted lt (iter s) \<Longrightarrow>
   ord \<in> set (resting (iter s)) \<longleftrightarrow> (\<exists>p l. map_of (iter s) p = Some l \<and> ord \<in> set (lv_orders l))"
  by (rule in_resting_iff) (rule distinct_keys)

lemma resting_at:
  assumes "levels_wf lt sd (iter s)" "ord \<in> set (resting (iter s))"
  obtains l where "map_of (iter s) (o_price ord) = Some l" "ord \<in> set (lv_orders l)"
    "o_side ord = sd" "o_size ord \<noteq> 0"
proof -
  have "keys_sorted lt (iter s)" using assms(1) by (simp add: levels_wf_def)
  then obtain p l where "map_of (iter s) p = Some l" "ord \<in> set (lv_orders l)"
    using assms(2) in_resting by blast
  moreover from this have "o_price ord = p" "o_side ord = sd" "o_size ord \<noteq> 0"
    using assms(1) by (auto simp: levels_wf_def level_wf_def)
  ultimately show thesis using that by blast
qed

lemma resting_rests_in:
  "keys_sorted lt t \<Longrightarrow> ord \<in> set (resting t) \<longleftrightarrow> rests_in (map_of t) ord"
  by (simp add: in_resting_iff distinct_keys rests_in_def)

text \<open>Resting an order: create the level if needed, append, write back.\<close>

lemma add_order_law:
  assumes wf: "levels_wf lt sd (iter s)" and made: "get_or_create_level p s = (l, s')"
    and ord: "o_price ord = p" "o_side ord = sd" "o_size ord \<noteq> 0"
    and fresh: "\<forall>x\<in>set (resting (iter s)). o_order_id x < o_order_id ord"
  shows "levels_wf lt sd (iter (store_level p (add_order ord l) s'))"
    and "set (resting (iter (store_level p (add_order ord l) s'))) = insert ord (set (resting (iter s)))"
proof -
  have srt: "keys_sorted lt (iter s)" using wf by (simp add: levels_wf_def)
  from create_law [OF srt made]
  have l: "l = (case map_of (iter s) p of Some l \<Rightarrow> l | None \<Rightarrow> price_level_new)"
    and s': "map_of (iter s') = (map_of (iter s))(p \<mapsto> l)" "keys_sorted lt (iter s')" by auto
  let ?t = "iter (store_level p (add_order ord l) s')"
  have t: "map_of ?t = (map_of (iter s))(p \<mapsto> add_order ord l)" "keys_sorted lt ?t"
    using write_law [OF s'(2)] s'(1) by (auto simp: fun_eq_iff)
  have old: "set (lv_orders l) \<subseteq> set (resting (iter s))"
    using in_resting [OF srt] by (auto simp: l price_level_new_def split: option.splits)
  have wfl: "level_wf sd p l"
    using wf by (auto simp: l levels_wf_def split: option.splits)
  have wfl': "level_wf sd p (add_order ord l)"
    using level_wf_add_order [OF wfl ord] fresh old by blast
  show "levels_wf lt sd ?t"
    using wf wfl' by (auto simp: levels_wf_def t)
  have "x \<in> set (resting ?t) \<longleftrightarrow> x \<in> insert ord (set (resting (iter s)))" for x
    unfolding resting_rests_in [OF t(2)] resting_rests_in [OF srt] insert_iff t(1)
      rests_in_split [of _ x p]
    by (auto simp: l price_level_new_def split: option.splits)
  then show "set (resting ?t) = insert ord (set (resting (iter s)))" by blast
qed

text \<open>Writing back a level with one order less and dropping it when it is empty.\<close>

lemma remove_order_law:
  assumes wf: "levels_wf lt sd (iter s)" and l: "map_of (iter s) p = Some l"
    and wfl': "level_wf sd p l'"
    and l': "set (lv_orders l') = set (lv_orders l) - X"
    and others: "\<forall>x\<in>X. o_price x = p"
  shows "levels_wf lt sd (iter (remove_level_if_empty p (store_level p l' s)))"
    and "set (resting (iter (remove_level_if_empty p (store_level p l' s)))) =
      set (resting (iter s)) - X"
proof -
  have srt: "keys_sorted lt (iter s)" using wf by (simp add: levels_wf_def)
  let ?s = "store_level p l' s"
  let ?t = "iter (remove_level_if_empty p ?s)"
  have s: "map_of (iter ?s) = (map_of (iter s))(p \<mapsto> l')" "keys_sorted lt (iter ?s)"
    using write_law [OF srt] by auto
  have t: "map_of ?t = (map_of (iter s))(p := if lv_orders l' = [] then None else Some l')"
    "keys_sorted lt ?t"
    using remove_law [OF s(2), of p] s(1) by (auto simp: fun_eq_iff)
  show "levels_wf lt sd ?t"
    using wf wfl' by (auto simp: levels_wf_def t split: if_splits)
  have px: "o_price x = q" if "map_of (iter s) q = Some m" "x \<in> set (lv_orders m)" for q m x
    using wf that by (auto simp: levels_wf_def level_wf_def)
  have out: "x \<notin> X" if "rests_elsewhere (map_of (iter s)) p x" for x
    using that px others by (auto simp: rests_elsewhere_def)
  have at_p: "x \<in> set (lv_orders l') \<longleftrightarrow> x \<in> set (lv_orders l) \<and> x \<notin> X" for x
    using l' by simp
  have "x \<in> set (resting ?t) \<longleftrightarrow> x \<in> set (resting (iter s)) - X" for x
    unfolding resting_rests_in [OF t(2)] resting_rests_in [OF srt] Diff_iff t(1)
      rests_in_split [of _ x p] rests_elsewhere_upd
    using l at_p [of x] out [of x] by (cases "lv_orders l'") auto
  then show "set (resting ?t) = set (resting (iter s)) - X" by blast
qed

lemma best_price_first:
  assumes "keys_sorted lt (iter s)" "map_of (iter s) p = Some l"
  shows "\<not> lt p (best_price sd (iter s))"
proof (cases "iter s")
  case Nil
  with assms show ?thesis by simp
next
  case (Cons x t)
  obtain q m where x: "x = (q, m)" by fastforce
  have "p = q \<or> lt q p"
    using assms Cons map_of_SomeD [OF assms(2)] by (force simp: x keys_sorted_def)
  then show ?thesis using irrefl trans by (auto simp: best_price_def Cons x)
qed

end

section \<open>Both trees implement it\<close>

interpretation asks: book_side "(<)" ask_iter ask_get_level_mut ask_get_or_create_level ask_write
  ask_remove_level_if_empty
proof
  fix s s' :: btree_ask_side and p and l l' :: price_level
  show "ask_get_level_mut p s = map_of (ask_iter s) p"
    by (simp add: ask_get_level_mut_def ask_iter_def)
  assume srt: "keys_sorted (<) (ask_iter s)"
  show "map_of (ask_iter (ask_write p l s)) = (map_of (ask_iter s))(p \<mapsto> l) \<and>
      keys_sorted (<) (ask_iter (ask_write p l s))"
    using srt by (simp add: ask_write_def ask_iter_def ascending.map_of_bt_put ascending.bt_put_sorted)
  show "map_of (ask_iter (ask_remove_level_if_empty p s)) =
        (case map_of (ask_iter s) p of
           Some l \<Rightarrow> if lv_orders l = [] then (map_of (ask_iter s))(p := None) else map_of (ask_iter s)
         | None \<Rightarrow> map_of (ask_iter s)) \<and>
      keys_sorted (<) (ask_iter (ask_remove_level_if_empty p s))"
    using srt by (simp add: ask_remove_level_if_empty_def ask_iter_def ascending.map_of_bt_remove
        ascending.bt_remove_sorted split: option.split)
  assume "ask_get_or_create_level p s = (l, s')"
  with srt show "l = (case map_of (ask_iter s) p of Some l \<Rightarrow> l | None \<Rightarrow> price_level_new) \<and>
      map_of (ask_iter s') = (map_of (ask_iter s))(p \<mapsto> l) \<and> keys_sorted (<) (ask_iter s')"
    by (auto simp: ask_get_or_create_level_def bt_get_or_insert_def ask_iter_def
        ascending.map_of_bt_put ascending.bt_put_sorted split: option.splits)
qed

interpretation bids: book_side "(>)" bid_iter bid_get_level_mut bid_get_or_create_level bid_write
  bid_remove_level_if_empty
proof
  fix s s' :: btree_bid_side and p and l l' :: price_level
  show "bid_get_level_mut p s = map_of (bid_iter s) p"
    by (simp add: bid_get_level_mut_def bid_iter_def)
  assume srt: "keys_sorted (>) (bid_iter s)"
  show "map_of (bid_iter (bid_write p l s)) = (map_of (bid_iter s))(p \<mapsto> l) \<and>
      keys_sorted (>) (bid_iter (bid_write p l s))"
    using srt by (simp add: bid_write_def bid_iter_def descending.map_of_bt_put descending.bt_put_sorted)
  show "map_of (bid_iter (bid_remove_level_if_empty p s)) =
        (case map_of (bid_iter s) p of
           Some l \<Rightarrow> if lv_orders l = [] then (map_of (bid_iter s))(p := None) else map_of (bid_iter s)
         | None \<Rightarrow> map_of (bid_iter s)) \<and>
      keys_sorted (>) (bid_iter (bid_remove_level_if_empty p s))"
    using srt by (simp add: bid_remove_level_if_empty_def bid_iter_def descending.map_of_bt_remove
        descending.bt_remove_sorted split: option.split)
  assume "bid_get_or_create_level p s = (l, s')"
  with srt show "l = (case map_of (bid_iter s) p of Some l \<Rightarrow> l | None \<Rightarrow> price_level_new) \<and>
      map_of (bid_iter s') = (map_of (bid_iter s))(p \<mapsto> l) \<and> keys_sorted (>) (bid_iter s')"
    by (auto simp: bid_get_or_create_level_def bt_get_or_insert_def bid_iter_def
        descending.map_of_bt_put descending.bt_put_sorted split: option.splits)
qed

end
