(* ===== verification/Order_Book.thy ===== *)
theory Order_Book
  imports Book_Side_Laws
begin

text \<open>
  The limit order book of \<^verbatim>\<open>orderbook/src/lib.rs\<close>, on the two trees of \<^verbatim>\<open>tree.rs\<close>. Every function is
  translated statement by statement: the two nested loops of \<^verbatim>\<open>match_order\<close> are \<open>match_orders\<close> (the
  queue of one level, with the indices to remove collected on the way) and \<open>match_levels\<close> (the levels
  in priority order, with the emptied prices collected). \<open>None\<close> is a panic: the \<^verbatim>\<open>unwrap\<close> of an index
  out of range, or of a market missing from the price cache. The wall clock read by
  \<^verbatim>\<open>record_snapshot\<close> is the argument \<open>now\<close>.
\<close>

record order_book =
  ob_market_id :: u32
  ob_bids :: btree_bid_side
  ob_asks :: btree_ask_side
  ob_orders :: "u64 \<rightharpoonup> u64"

definition order_book_new :: "btree_bid_side \<Rightarrow> btree_ask_side \<Rightarrow> u32 \<Rightarrow> order_book" where
  "order_book_new bids asks market_id =
     \<lparr>ob_market_id = market_id, ob_bids = bids, ob_asks = asks, ob_orders = Map.empty\<rparr>"

section \<open>Matching\<close>

text \<open>What the loops carry: the size left, the command with its events, the id index.\<close>

record match_state =
  m_remaining :: u64
  m_cmd :: order_command
  m_orders :: "u64 \<rightharpoonup> u64"

fun match_orders ::
    "u64 \<Rightarrow> nat \<Rightarrow> order list \<Rightarrow> u64 \<Rightarrow> match_state \<Rightarrow> order list \<times> nat list \<times> u64 \<times> match_state" where
  "match_orders price idx [] vol st = ([], [], vol, st)"
| "match_orders price idx (maker # rest) vol st =
     (if m_remaining st = 0 then (maker # rest, [], vol, st)
      else if o_user_id maker = c_user_id (m_cmd st) then
        (case match_orders price (Suc idx) rest vol st of
           (rest', rem, vol', st') \<Rightarrow> (maker # rest', rem, vol', st'))
      else
        (let trade_size = min (m_remaining st) (o_size maker);
             remaining = m_remaining st - trade_size;
             maker' = maker\<lparr>o_size := o_size maker - trade_size\<rparr>;
             vol' = vol - trade_size;
             completed = (o_size maker' = 0);
             event = \<lparr>e_active_order_completed = (remaining = 0),
                      e_matched_order_id = o_order_id maker',
                      e_maker_user_id = o_user_id maker',
                      e_matched_order_completed = completed,
                      e_price = price,
                      e_size = trade_size,
                      e_maker_balance = (balance_default, balance_default),
                      e_maker_remaining_size = o_size maker',
                      e_maker_original_size = o_original_size maker'\<rparr>;
             cmd = attach_event (Event event None) (m_cmd st);
             orders = (if completed then (m_orders st)(o_order_id maker' := None) else m_orders st)
         in case match_orders price (Suc idx) rest vol'
                   \<lparr>m_remaining = remaining, m_cmd = cmd, m_orders = orders\<rparr> of
              (rest', rem, vol'', st') \<Rightarrow>
                (maker' # rest', (if completed then idx # rem else rem), vol'', st')))"

definition match_level ::
    "u64 \<Rightarrow> price_level \<Rightarrow> match_state \<Rightarrow> (price_level \<times> match_state) option" where
  "match_level price l st =
     (case match_orders price 0 (lv_orders l) (total_volume l) st of
        (orders, to_remove, vol, st') \<Rightarrow>
          (case vd_remove_all (rev to_remove) orders of
             None \<Rightarrow> None
           | Some kept \<Rightarrow> Some (l\<lparr>total_volume := vol, lv_orders := kept\<rparr>, st')))"

fun match_levels ::
    "(u64 \<Rightarrow> bool) \<Rightarrow> levels \<Rightarrow> match_state \<Rightarrow> (levels \<times> u64 list \<times> match_state) option" where
  "match_levels price_check [] st = Some ([], [], st)"
| "match_levels price_check ((price, l) # rest) st =
     (if \<not> price_check price \<or> m_remaining st = 0 then Some ((price, l) # rest, [], st)
      else
        (case match_level price l st of
           None \<Rightarrow> None
         | Some (l', st') \<Rightarrow>
             (case match_levels price_check rest st' of
                None \<Rightarrow> None
              | Some (rest', filled, st'') \<Rightarrow>
                  Some ((price, l') # rest',
                        (if lv_orders l' = [] then price # filled else filled), st''))))"

definition match_order ::
    "order_book \<Rightarrow> order_command \<Rightarrow> (u64 \<times> order_book \<times> order_command) option" where
  "match_order ob cmd =
     (let st = \<lparr>m_remaining = c_size cmd, m_cmd = cmd, m_orders = ob_orders ob\<rparr>
      in if c_side cmd = Bid then
           (case match_levels (\<lambda>maker_price. maker_price \<le> c_price cmd) (ask_tree (ob_asks ob)) st of
              None \<Rightarrow> None
            | Some (t, filled, st') \<Rightarrow>
                Some (m_remaining st',
                      ob\<lparr>ob_asks := fold ask_remove_level_if_empty filled ((ob_asks ob)\<lparr>ask_tree := t\<rparr>),
                         ob_orders := m_orders st'\<rparr>,
                      m_cmd st'))
         else
           (case match_levels (\<lambda>maker_price. c_price cmd \<le> maker_price) (bid_tree (ob_bids ob)) st of
              None \<Rightarrow> None
            | Some (t, filled, st') \<Rightarrow>
                Some (m_remaining st',
                      ob\<lparr>ob_bids := fold bid_remove_level_if_empty filled ((ob_bids ob)\<lparr>bid_tree := t\<rparr>),
                         ob_orders := m_orders st'\<rparr>,
                      m_cmd st')))"

section \<open>Resting, checking, reporting\<close>

definition add_to_book :: "order_command \<Rightarrow> u64 \<Rightarrow> order_book \<Rightarrow> order_book" where
  "add_to_book cmd remaining_size ob =
     (let ord = \<lparr>o_order_id = c_order_id cmd, o_user_id = c_user_id cmd, o_price = c_price cmd,
                 o_size = remaining_size, o_original_size = c_size cmd, o_side = c_side cmd,
                 o_time_in_force = c_time_in_force cmd, o_status = c_status cmd,
                 o_timestamp = c_timestamp cmd\<rparr>;
          ob' = (case c_side cmd of
             Bid \<Rightarrow> (case bid_get_or_create_level (c_price cmd) (ob_bids ob) of
                (l, bids) \<Rightarrow> ob\<lparr>ob_bids := bid_write (c_price cmd) (add_order ord l) bids\<rparr>)
           | Ask \<Rightarrow> (case ask_get_or_create_level (c_price cmd) (ob_asks ob) of
                (l, asks) \<Rightarrow> ob\<lparr>ob_asks := ask_write (c_price cmd) (add_order ord l) asks\<rparr>))
      in ob'\<lparr>ob_orders := (ob_orders ob')(c_order_id cmd \<mapsto> c_price cmd)\<rparr>)"

definition is_market_order :: "order_command \<Rightarrow> bool" where
  "is_market_order cmd \<longleftrightarrow>
     c_price cmd = 0 \<and> c_side cmd = Ask \<or> c_price cmd = u64_MAX \<and> c_side cmd = Bid"

text \<open>The loop of \<^verbatim>\<open>can_fill_completely\<close>, the same for both sides but for the price test.\<close>

fun can_fill_loop :: "(u64 \<Rightarrow> bool) \<Rightarrow> u64 \<Rightarrow> levels \<Rightarrow> u64 \<Rightarrow> bool" where
  "can_fill_loop price_ok user_id [] remaining = False"
| "can_fill_loop price_ok user_id ((price, l) # rest) remaining =
     (if price_ok price then
        (let available_volume =
               sum_list (map o_size (filter (\<lambda>ord. o_user_id ord \<noteq> user_id) (lv_orders l)))
         in if remaining \<le> available_volume then True
            else can_fill_loop price_ok user_id rest (remaining - available_volume))
      else False)"

definition can_fill_completely :: "order_book \<Rightarrow> order_command \<Rightarrow> bool" where
  "can_fill_completely ob cmd =
     (case c_side cmd of
        Bid \<Rightarrow> can_fill_loop (\<lambda>price. is_market_order cmd \<or> price \<le> c_price cmd) (c_user_id cmd)
                 (ask_iter (ob_asks ob)) (c_size cmd)
      | Ask \<Rightarrow> can_fill_loop (\<lambda>price. is_market_order cmd \<or> c_price cmd \<le> price) (c_user_id cmd)
                 (bid_iter (ob_bids ob)) (c_size cmd))"

definition record_snapshot :: "u64 \<Rightarrow> order_book \<Rightarrow> order_command \<Rightarrow> order_command" where
  "record_snapshot now ob cmd =
     (let bids = take L2SIZE (bid_iter (ob_bids ob)); asks = take L2SIZE (ask_iter (ob_asks ob))
      in cmd\<lparr>c_l2_data := Some (l2_new\<lparr>
           l2_bid_prices := map fst bids, l2_bid_volumes := map (\<lambda>(_, l). total_volume l) bids,
           l2_ask_prices := map fst asks, l2_ask_volumes := map (\<lambda>(_, l). total_volume l) asks,
           l2_timestamp := now\<rparr>)\<rparr>)"

definition update_price_cache :: "order_book \<Rightarrow> price_cache \<Rightarrow> price_cache option" where
  "update_price_cache ob pc =
     update_prices (ob_market_id ob) (best_price Bid (bid_iter (ob_bids ob)))
       (best_price Ask (ask_iter (ob_asks ob))) pc"

section \<open>Placing\<close>

text \<open>The three branches on the time in force.\<close>

definition place_gtc :: "order_book \<Rightarrow> order_command \<Rightarrow> (order_book \<times> order_command) option" where
  "place_gtc ob cmd =
     (case match_order ob cmd of
        None \<Rightarrow> None
      | Some (remaining, ob, cmd) \<Rightarrow>
          (case (if remaining = c_size cmd then
                   (add_to_book cmd remaining ob, set_status Placed cmd)
                 else if remaining > 0 then
                   (add_to_book cmd remaining ob, set_status PartiallyFilled cmd)
                 else (ob, set_status Filled cmd)) of
             (ob, cmd) \<Rightarrow> Some (ob, set_size remaining cmd)))"

definition place_fok :: "order_book \<Rightarrow> order_command \<Rightarrow> (order_book \<times> order_command) option" where
  "place_fok ob cmd =
     (if \<not> can_fill_completely ob cmd then Some (ob, set_status Cancelled cmd)
      else
        (case match_order ob cmd of
           None \<Rightarrow> None
         | Some (remaining, ob, cmd) \<Rightarrow>
             Some (ob, set_size remaining
                         (set_status (if remaining = 0 then Filled else Cancelled) cmd))))"

definition place_ioc :: "order_book \<Rightarrow> order_command \<Rightarrow> (order_book \<times> order_command) option" where
  "place_ioc ob cmd =
     (case match_order ob cmd of
        None \<Rightarrow> None
      | Some (remaining, ob, cmd) \<Rightarrow>
          Some (ob, set_size remaining
            (if remaining = 0 then set_status Filled cmd
             else if remaining < c_size cmd then set_status PartiallyFilled cmd
             else set_status Cancelled cmd)))"

definition place_by_tif :: "order_book \<Rightarrow> order_command \<Rightarrow> (order_book \<times> order_command) option" where
  "place_by_tif ob cmd =
     (case c_time_in_force cmd of
        Gtc \<Rightarrow> place_gtc ob cmd | Fok \<Rightarrow> place_fok ob cmd | Ioc \<Rightarrow> place_ioc ob cmd)"

definition place_order ::
    "u64 \<Rightarrow> order_book \<Rightarrow> order_command \<Rightarrow> price_cache \<Rightarrow>
     (order_book \<times> order_command \<times> price_cache) option" where
  "place_order now ob cmd pc =
     (if c_status cmd = Rejected then Some (ob, cmd, pc)
      else
        (case place_by_tif ob cmd of
           None \<Rightarrow> None
         | Some (ob, cmd) \<Rightarrow>
             (let cmd = (if c_price cmd = 0 \<and> c_side cmd = Ask then
                           (case c_events cmd of
                              Some ev \<Rightarrow> set_price (e_price (chain_head ev)) cmd
                            | None \<Rightarrow> cmd)
                         else cmd);
                  cmd = record_snapshot now ob cmd
              in case update_price_cache ob pc of
                   None \<Rightarrow> None
                 | Some pc \<Rightarrow> Some (ob, cmd, pc))))"

section \<open>Cancelling\<close>

definition cancel_in_book :: "u64 \<Rightarrow> order_book \<Rightarrow> order_command \<Rightarrow> order_book \<times> order_command" where
  "cancel_in_book now ob cmd =
     (case ob_orders ob (c_order_id cmd) of
        None \<Rightarrow> (ob, set_status Rejected cmd)
      | Some price \<Rightarrow>
          (let ob = ob\<lparr>ob_orders := (ob_orders ob)(c_order_id cmd := None)\<rparr>
           in case bid_get_level_mut price (ob_bids ob) of
                Some l \<Rightarrow>
                  (case remove_order (c_order_id cmd) l cmd of
                     (l', cmd) \<Rightarrow>
                       (let ob = ob\<lparr>ob_bids := bid_remove_level_if_empty price
                                                (bid_write price l' (ob_bids ob))\<rparr>
                        in (ob, record_snapshot now ob cmd)))
              | None \<Rightarrow>
                  (case ask_get_level_mut price (ob_asks ob) of
                     Some l \<Rightarrow>
                       (case remove_order (c_order_id cmd) l cmd of
                          (l', cmd) \<Rightarrow>
                            (let ob = ob\<lparr>ob_asks := ask_remove_level_if_empty price
                                                     (ask_write price l' (ob_asks ob))\<rparr>
                             in (ob, record_snapshot now ob cmd)))
                   | None \<Rightarrow> (ob, set_status Rejected cmd))))"

definition cancel_order ::
    "u64 \<Rightarrow> order_book \<Rightarrow> order_command \<Rightarrow> price_cache \<Rightarrow>
     (order_book \<times> order_command \<times> price_cache) option" where
  "cancel_order now ob cmd pc =
     (if c_status cmd = Rejected then Some (ob, cmd, pc)
      else
        (case cancel_in_book now ob cmd of
           (ob, cmd) \<Rightarrow>
             (case update_price_cache ob pc of
                None \<Rightarrow> None
              | Some pc \<Rightarrow> Some (ob, cmd, pc))))"

end
