(* ===== verification/Match_Spec.thy ===== *)
theory Match_Spec
  imports Order_Book
begin

text \<open>
  The abstract specification of matching: what a taker of size \<open>r\<close> from user \<open>u\<close> does to a flat queue
  of resting orders given in matching priority. \<open>left_over\<close> is the size it keeps, \<open>fills\<close> the trades in
  order, \<open>kept\<close> the queue that stays. There are no levels, no indices to remove and no index of ids
  here; \<open>Order_Book_Match\<close> proves that the loops of \<^verbatim>\<open>match_order\<close> implement this. The three functions
  distribute over concatenation, so that a queue can be cut into levels.
\<close>

definition trade_of :: "order \<Rightarrow> u64 \<Rightarrow> u64 \<Rightarrow> trade_event" where
  "trade_of maker trade_size remaining =
     \<lparr>e_active_order_completed = (remaining = 0), e_matched_order_id = o_order_id maker,
      e_maker_user_id = o_user_id maker, e_matched_order_completed = (o_size maker = trade_size),
      e_price = o_price maker, e_size = trade_size,
      e_maker_balance = (balance_default, balance_default),
      e_maker_remaining_size = o_size maker - trade_size,
      e_maker_original_size = o_original_size maker\<rparr>"

fun left_over :: "u64 \<Rightarrow> u64 \<Rightarrow> order list \<Rightarrow> u64" where
  "left_over u r [] = r"
| "left_over u r (maker # os) =
     (if o_user_id maker = u then left_over u r os
      else left_over u (r - min r (o_size maker)) os)"

fun fills :: "u64 \<Rightarrow> u64 \<Rightarrow> order list \<Rightarrow> trade_event list" where
  "fills u r [] = []"
| "fills u r (maker # os) =
     (if r = 0 then []
      else if o_user_id maker = u then fills u r os
      else (let t = min r (o_size maker) in trade_of maker t (r - t) # fills u (r - t) os))"

fun kept :: "u64 \<Rightarrow> u64 \<Rightarrow> order list \<Rightarrow> order list" where
  "kept u r [] = []"
| "kept u r (maker # os) =
     (if r = 0 then maker # os
      else if o_user_id maker = u then maker # kept u r os
      else if o_size maker \<le> r then kept u (r - o_size maker) os
      else maker\<lparr>o_size := o_size maker - r\<rparr> # os)"

text \<open>What the trades do to the command and to the id index.\<close>

definition with_events :: "trade_event list \<Rightarrow> order_command \<Rightarrow> order_command" where
  "with_events es cmd = fold (\<lambda>e. attach_event (Event e None)) es cmd"

definition forget_done :: "trade_event list \<Rightarrow> (u64 \<rightharpoonup> u64) \<Rightarrow> (u64 \<rightharpoonup> u64)" where
  "forget_done es m =
     fold (\<lambda>e m. if e_matched_order_completed e then m(e_matched_order_id e := None) else m) es m"

definition traded :: "trade_event list \<Rightarrow> nat" where
  "traded es = sum_list (map (\<lambda>e. unat (e_size e)) es)"

definition volume :: "order list \<Rightarrow> nat" where
  "volume os = sum_list (map (\<lambda>x. unat (o_size x)) os)"

definition open_to :: "u64 \<Rightarrow> order list \<Rightarrow> order list" where
  "open_to u os = filter (\<lambda>x. o_user_id x \<noteq> u) os"

lemma traded_simps [simp]:
  "traded [] = 0" "traded (e # es) = unat (e_size e) + traded es"
  "traded (es @ fs) = traded es + traded fs"
  by (simp_all add: traded_def)

lemma volume_simps [simp]:
  "volume [] = 0" "volume (x # xs) = unat (o_size x) + volume xs"
  "volume (xs @ ys) = volume xs + volume ys"
  by (simp_all add: volume_def)

lemma open_to_simps [simp]:
  "open_to u [] = []"
  "open_to u (x # xs) = (if o_user_id x = u then open_to u xs else x # open_to u xs)"
  "open_to u (xs @ ys) = open_to u xs @ open_to u ys"
  by (simp_all add: open_to_def)

section \<open>Frames and composition\<close>

lemma with_events_simps [simp]:
  "with_events [] cmd = cmd"
  "with_events (e # es) cmd = with_events es (attach_event (Event e None) cmd)"
  "with_events (es @ fs) cmd = with_events fs (with_events es cmd)"
  by (simp_all add: with_events_def)

lemma forget_done_simps [simp]:
  "forget_done [] m = m"
  "forget_done (e # es) m =
     forget_done es (if e_matched_order_completed e then m(e_matched_order_id e := None) else m)"
  "forget_done (es @ fs) m = forget_done fs (forget_done es m)"
  by (simp_all add: forget_done_def)

lemma events_list_with_events [simp]:
  "events_list (c_events (with_events es cmd)) = events_list (c_events cmd) @ es"
  by (induction es arbitrary: cmd) simp_all

lemma with_events_frame [simp]:
  "c_command (with_events es cmd) = c_command cmd"
  "c_order_id (with_events es cmd) = c_order_id cmd"
  "c_client_order_id (with_events es cmd) = c_client_order_id cmd"
  "c_user_id (with_events es cmd) = c_user_id cmd"
  "c_market_id (with_events es cmd) = c_market_id cmd"
  "c_price (with_events es cmd) = c_price cmd"
  "c_size (with_events es cmd) = c_size cmd"
  "c_side (with_events es cmd) = c_side cmd"
  "c_time_in_force (with_events es cmd) = c_time_in_force cmd"
  "c_timestamp (with_events es cmd) = c_timestamp cmd"
  "c_status (with_events es cmd) = c_status cmd"
  "c_balance (with_events es cmd) = c_balance cmd"
  "c_l2_data (with_events es cmd) = c_l2_data cmd"
  "c_route_gateway_id (with_events es cmd) = c_route_gateway_id cmd"
  "c_original_size (with_events es cmd) = c_original_size cmd"
  by (induction es arbitrary: cmd) simp_all

lemma forget_done_apply:
  "forget_done es m i =
     (if \<exists>e\<in>set es. e_matched_order_completed e \<and> e_matched_order_id e = i then None else m i)"
  by (induction es arbitrary: m) auto

lemma left_over_0 [simp]: "left_over u 0 os = 0"
  by (induction os) simp_all

lemma fills_0 [simp]: "fills u 0 os = []"
  by (cases os) simp_all

lemma kept_0 [simp]: "kept u 0 os = os"
  by (cases os) simp_all

lemma min_unfilled: "\<not> s \<le> (r::'a::linorder) \<Longrightarrow> min r s = r"
  using linear [of s r] by (simp add: min_absorb1)

lemma left_over_append: "left_over u r (xs @ ys) = left_over u (left_over u r xs) ys"
  by (induction u r xs rule: left_over.induct) simp_all

lemma fills_append: "fills u r (xs @ ys) = fills u r xs @ fills u (left_over u r xs) ys"
  by (induction u r xs rule: fills.induct) (simp_all add: Let_def)

lemma kept_append: "kept u r (xs @ ys) = kept u r xs @ kept u (left_over u r xs) ys"
proof (induction u r xs rule: kept.induct)
  case (2 u r maker os)
  then show ?case by (cases "o_size maker \<le> r") (auto simp: min_absorb2 min_unfilled)
qed simp

section \<open>Consequences of the specification\<close>

lemma left_over_exact: "unat (left_over u r os) = unat r - volume (open_to u os)"
proof (induction u r os rule: left_over.induct)
  case (2 u r maker os)
  then show ?case
    by (cases "o_size maker \<le> r")
      (auto simp: min_absorb2 min_unfilled unat_sub word_le_nat_alt)
qed simp

lemma traded_fills: "traded (fills u r os) = min (unat r) (volume (open_to u os))"
proof (induction u r os rule: fills.induct)
  case (2 u r maker os)
  then show ?case
    by (cases "o_size maker \<le> r")
      (auto simp: Let_def trade_of_def min_absorb2 min_unfilled unat_sub word_le_nat_alt)
qed simp

lemma traded_left_over: "traded (fills u r os) + unat (left_over u r os) = unat r"
  by (simp add: left_over_exact traded_fills)

lemma left_over_le: "left_over u r os \<le> r"
  by (simp add: word_le_nat_alt left_over_exact)

lemma left_over_0_iff: "left_over u r os = 0 \<longleftrightarrow> unat r \<le> volume (open_to u os)"
  using left_over_exact [of u r os] by (metis diff_is_0_eq unat_0 unat_eq_zero)

text \<open>Every fill takes from one resting order of another user.\<close>

lemma fills_maker:
  "e \<in> set (fills u r os) \<Longrightarrow>
   \<exists>maker\<in>set os. \<exists>r'. o_user_id maker \<noteq> u \<and> r' \<noteq> 0 \<and> r' \<le> r \<and>
     e = trade_of maker (min r' (o_size maker)) (r' - min r' (o_size maker))"
proof (induction u r os rule: fills.induct)
  case (2 u r maker os)
  let ?t = "min r (o_size maker)"
  have le: "r - ?t \<le> r" by (simp add: word_le_nat_alt wordsimps)
  show ?case
  proof (cases "r = 0 \<or> o_user_id maker = u")
    case True
    with 2 show ?thesis by (auto split: if_splits)
  next
    case False
    with "2.prems" consider "e = trade_of maker ?t (r - ?t)" | "e \<in> set (fills u (r - ?t) os)"
      by (auto simp: Let_def)
    then show ?thesis
    proof cases
      case 1
      with False show ?thesis by auto
    next
      case 2
      have "r \<noteq> 0" "o_user_id maker \<noteq> u" using False by auto
      from "2.IH"(2) [OF this refl 2] obtain m r' where m: "m \<in> set os" "o_user_id m \<noteq> u"
        "r' \<noteq> 0" "r' \<le> r - ?t" "e = trade_of m (min r' (o_size m)) (r' - min r' (o_size m))"
        by blast
      have "r' \<le> r" by (rule order_trans [OF m(4) le])
      show ?thesis
        by (rule bexI [of _ m], rule exI [of _ r']) (use m \<open>r' \<le> r\<close> in simp_all)
    qed
  qed
qed simp

text \<open>
  Priority: the trades hit the orders of other users from the front of the queue, one trade each,
  and every one but the last is filled completely.
\<close>

lemma fills_priority:
  "map e_matched_order_id (fills u r os) =
     take (length (fills u r os)) (map o_order_id (open_to u os))"
  by (induction u r os rule: fills.induct) (auto simp: Let_def trade_of_def)

lemma fills_complete_but_last:
  "\<forall>e\<in>set (butlast (fills u r os)). e_matched_order_completed e"
proof (induction u r os rule: fills.induct)
  case (2 u r maker os)
  then show ?case
    by (cases "o_size maker \<le> r") (auto simp: Let_def trade_of_def min_absorb2 min_unfilled)
qed simp

lemma fills_active_completed:
  "e \<in> set (butlast (fills u r os)) \<Longrightarrow> \<not> e_active_order_completed e"
proof (induction u r os rule: fills.induct)
  case (2 u r maker os)
  then show ?case
    by (cases "o_size maker \<le> r")
      (auto simp: Let_def trade_of_def min_absorb2 min_unfilled split: if_splits)
qed simp

lemma last_fill_active:
  "fills u r os \<noteq> [] \<Longrightarrow>
   e_active_order_completed (last (fills u r os)) \<longleftrightarrow> left_over u r os = 0"
proof (induction u r os rule: fills.induct)
  case (2 u r maker os)
  let ?t = "min r (o_size maker)"
  show ?case
  proof (cases "r = 0 \<or> o_user_id maker = u")
    case False
    have "left_over u (r - ?t) os = r - ?t" if "fills u (r - ?t) os = []"
    proof -
      have "traded (fills u (r - ?t) os) = 0" using that by simp
      then show ?thesis using traded_left_over [of u "r - ?t" os] by (simp add: word_unat_eq_iff)
    qed
    then show ?thesis using False "2.IH"(2) [OF _ _ refl]
      by (auto simp: Let_def trade_of_def)
  qed (use 2 in \<open>auto split: if_splits\<close>)
qed simp

text \<open>What stays in the queue.\<close>

lemma volume_kept: "volume (kept u r os) + traded (fills u r os) = volume os"
proof (induction u r os rule: kept.induct)
  case (2 u r maker os)
  then show ?case
    by (cases "o_size maker \<le> r")
      (auto simp: Let_def trade_of_def min_absorb2 min_unfilled unat_sub word_le_nat_alt)
qed simp

lemma kept_own: "filter (\<lambda>x. o_user_id x = u) (kept u r os) = filter (\<lambda>x. o_user_id x = u) os"
  by (induction u r os rule: kept.induct) auto

lemma kept_sizes:
  "\<forall>x\<in>set os. o_size x \<noteq> 0 \<Longrightarrow> \<forall>x\<in>set (kept u r os). o_size x \<noteq> 0"
  by (induction u r os rule: kept.induct) auto

lemma kept_from:
  "x \<in> set (kept u r os) \<Longrightarrow>
   \<exists>y\<in>set os. \<exists>s. x = y\<lparr>o_size := s\<rparr> \<and> s \<le> o_size y"
proof (induction u r os rule: kept.induct)
  case (2 u r maker os)
  have same: "y = y\<lparr>o_size := o_size y\<rparr>" for y :: order by simp
  show ?case
  proof (cases "r = 0 \<or> (o_user_id maker \<noteq> u \<and> \<not> o_size maker \<le> r)")
    case True
    with "2.prems" consider "x \<in> set (maker # os)" | "x = maker\<lparr>o_size := o_size maker - r\<rparr>"
      by (auto split: if_splits)
    then show ?thesis
    proof cases
      case 1
      then show ?thesis using same by blast
    next
      case 2
      moreover have "o_size maker - r \<le> o_size maker"
        using True by (cases "r = 0") (simp_all add: word_le_nat_alt wordsimps)
      ultimately show ?thesis by auto
    qed
  next
    case False
    with 2 same show ?thesis by (fastforce split: if_splits)
  qed
qed simp

lemma kept_ids_subset: "o_order_id ` set (kept u r os) \<subseteq> o_order_id ` set os"
  using kept_from by fastforce

lemma kept_ids_sorted:
  "sorted_wrt (<) (map o_order_id os) \<Longrightarrow> sorted_wrt (<) (map o_order_id (kept u r os))"
proof (induction u r os rule: kept.induct)
  case (2 u r maker os)
  have "\<forall>x\<in>set (kept u r os). o_order_id maker < o_order_id x" for r
    using "2.prems" kept_ids_subset [of u r os] by fastforce
  with 2 show ?case by auto
qed simp

text \<open>The orders that left are exactly those whose trade completed them.\<close>

lemma kept_ids:
  assumes "distinct (map o_order_id os)" "\<forall>x\<in>set os. o_size x \<noteq> 0"
  shows "o_order_id ` set (kept u r os) =
    o_order_id ` set os - e_matched_order_id ` {e \<in> set (fills u r os). e_matched_order_completed e}"
  using assms
proof (induction u r os rule: kept.induct)
  case (2 u r maker os)
  have sub: "e_matched_order_id ` set (fills u r os) \<subseteq> o_order_id ` set os" for r
    using fills_maker by (fastforce simp: trade_of_def)
  have notin: "o_order_id maker \<notin> o_order_id ` set os" using "2.prems"(1) by simp
  consider "r = 0" | "r \<noteq> 0" "o_user_id maker = u" | "r \<noteq> 0" "o_user_id maker \<noteq> u" "o_size maker \<le> r"
    | "r \<noteq> 0" "o_user_id maker \<noteq> u" "\<not> o_size maker \<le> r" by blast
  then show ?case
  proof cases
    case 2
    with "2.IH"(1) "2.prems" show ?thesis using sub [of r] notin by (auto simp: Let_def)
  next
    case 3
    with "2.IH"(2) "2.prems" show ?thesis
      using sub [of "r - o_size maker"] notin
      by (auto simp: Let_def min_absorb2 trade_of_def Collect_conv_if image_Un Collect_disj_eq
          conj_disj_distribR)
  next
    case 4
    then show ?thesis by (auto simp: Let_def min_unfilled trade_of_def)
  qed simp
qed simp

end
