(* ===== verification/Order_Book_Match.thy ===== *)
theory Order_Book_Match
  imports Match_Spec
begin

text \<open>
  The loops of \<^verbatim>\<open>match_order\<close> implement the specification of \<open>Match_Spec\<close>: on a well-formed side the
  indexed removals never panic, a level ends as the \<open>kept\<close> part of its queue with the cached volume
  still exact, and the walk over the levels up to the first price the taker does not accept acts on
  their concatenation. The clean-up of emptied levels then only drops what holds no order.
\<close>

section \<open>One level\<close>

lemma match_orders_shift:
  "match_orders price (Suc i) os vol st =
     (case match_orders price i os vol st of (os', rem, vol', st') \<Rightarrow> (os', map Suc rem, vol', st'))"
proof (induction os arbitrary: i vol st)
  case (Cons maker os)
  show ?case by (simp add: Cons.IH [of "Suc i"] Cons.IH [of i] Let_def split: prod.split)
qed simp

definition match_result ::
    "u64 \<Rightarrow> order list \<Rightarrow> match_state \<Rightarrow> match_state" where
  "match_result u os st =
     \<lparr>m_remaining = left_over u (m_remaining st) os,
      m_cmd = with_events (fills u (m_remaining st) os) (m_cmd st),
      m_orders = forget_done (fills u (m_remaining st) os) (m_orders st)\<rparr>"

lemma match_result_simps [simp]:
  "m_remaining (match_result u os st) = left_over u (m_remaining st) os"
  "m_cmd (match_result u os st) = with_events (fills u (m_remaining st) os) (m_cmd st)"
  "m_orders (match_result u os st) = forget_done (fills u (m_remaining st) os) (m_orders st)"
  by (simp_all add: match_result_def)

lemma match_result_append:
  "match_result u (xs @ ys) st = match_result u ys (match_result u xs st)"
  by (simp add: match_result_def left_over_append fills_append)

lemma match_result_Nil [simp]: "match_result u [] st = st"
  by (simp add: match_result_def)

lemma match_result_done: "m_remaining st = 0 \<Longrightarrow> match_result u os st = st"
  by (simp add: match_result_def)

definition traded_word :: "trade_event list \<Rightarrow> u64" where
  "traded_word es = sum_list (map e_size es)"

lemma traded_word_simps [simp]:
  "traded_word [] = 0" "traded_word (e # es) = e_size e + traded_word es"
  by (simp_all add: traded_word_def)

lemma match_orders_correct:
  assumes "\<forall>x\<in>set os. o_price x = price \<and> o_size x \<noteq> 0" "c_user_id (m_cmd st) = u"
  shows "\<exists>os' rem. match_orders price 0 os vol st =
      (os', rem, vol - traded_word (fills u (m_remaining st) os), match_result u os st) \<and>
    vd_remove_all (rev rem) os' = Some (kept u (m_remaining st) os)"
  using assms
proof (induction os arbitrary: vol st)
  case (Cons maker os)
  consider "m_remaining st = 0" | "m_remaining st \<noteq> 0" "o_user_id maker = u"
    | "m_remaining st \<noteq> 0" "o_user_id maker \<noteq> u" by blast
  then show ?case
  proof cases
    case 1
    then show ?thesis by (simp add: match_result_done)
  next
    case 2
    from Cons obtain os' rem where IH: "match_orders price 0 os vol st =
        (os', rem, vol - traded_word (fills u (m_remaining st) os), match_result u os st)"
      "vd_remove_all (rev rem) os' = Some (kept u (m_remaining st) os)" by fastforce
    with 2 Cons.prems(2) show ?thesis
      by (simp add: match_orders_shift match_result_def rev_map vd_remove_all_map_Suc)
  next
    case 3
    let ?r = "m_remaining st"
    let ?t = "min ?r (o_size maker)"
    let ?e = "trade_of maker ?t (?r - ?t)"
    let ?st = "\<lparr>m_remaining = ?r - ?t, m_cmd = attach_event (Event ?e None) (m_cmd st),
      m_orders = (if o_size maker = ?t then (m_orders st)(o_order_id maker := None)
                  else m_orders st)\<rparr>"
    from Cons.IH [of ?st "vol - ?t"] Cons.prems obtain os' rem where IH:
      "match_orders price 0 os (vol - ?t) ?st =
        (os', rem, vol - ?t - traded_word (fills u (?r - ?t) os), match_result u os ?st)"
      "vd_remove_all (rev rem) os' = Some (kept u (?r - ?t) os)" by fastforce
    have st: "match_result u os ?st = match_result u (maker # os) st"
      using 3 by (simp add: match_result_def Let_def trade_of_def)
    have ev: "\<lparr>e_active_order_completed = (?r = ?t), e_matched_order_id = o_order_id maker,
        e_maker_user_id = o_user_id maker, e_matched_order_completed = (o_size maker = ?t),
        e_price = price, e_size = ?t, e_maker_balance = (balance_default, balance_default),
        e_maker_remaining_size = o_size maker - ?t,
        e_maker_original_size = o_original_size maker\<rparr> = ?e"
      using Cons.prems(1) by (simp add: trade_of_def)
    have run: "match_orders price 0 (maker # os) vol st =
        (maker\<lparr>o_size := o_size maker - ?t\<rparr> # os',
         (if o_size maker = ?t then 0 # map Suc rem else map Suc rem),
         vol - ?t - traded_word (fills u (?r - ?t) os), match_result u os ?st)"
    proof (cases "o_size maker \<le> ?r")
      case True
      with 3 Cons.prems(2) IH(1) ev show ?thesis
        by (simp add: match_orders_shift Let_def min_absorb2)
    next
      case False
      then have "o_size maker \<noteq> ?r" by auto
      with False 3 Cons.prems(2) IH(1) ev show ?thesis
        by (simp add: match_orders_shift Let_def min_unfilled)
    qed
    have vol: "vol - ?t - traded_word (fills u (?r - ?t) os) =
        vol - traded_word (fills u ?r (maker # os))"
      using 3 by (simp add: Let_def trade_of_def)
    have "vd_remove_all (rev (if o_size maker = ?t then 0 # map Suc rem else map Suc rem))
        (maker\<lparr>o_size := o_size maker - ?t\<rparr> # os') = Some (kept u ?r (maker # os))"
      using 3 IH(2) by (cases "o_size maker \<le> ?r")
        (auto simp: rev_map vd_remove_all_map_Suc vd_remove_all_snoc_0 min_absorb2 min_unfilled)
    with run vol st show ?thesis by simp
  qed
qed simp

lemma sum_sizes_kept:
  "sum_list (map o_size (kept u r os)) = sum_list (map o_size os) - traded_word (fills u r os)"
proof (induction u r os rule: kept.induct)
  case (2 u r maker os)
  then show ?case
    by (cases "o_size maker \<le> r") (auto simp: Let_def trade_of_def min_absorb2 min_unfilled)
qed simp

lemma kept_level:
  assumes "level_wf sd p l"
  shows "level_wf sd p (l\<lparr>total_volume := total_volume l - traded_word (fills u r (lv_orders l)),
    lv_orders := kept u r (lv_orders l)\<rparr>)"
proof -
  have "o_price x = p \<and> o_side x = sd \<and> o_size x \<noteq> 0" if "x \<in> set (kept u r (lv_orders l))" for x
    using that assms kept_from [OF that] kept_sizes [of "lv_orders l" u r]
    by (auto simp: level_wf_def)
  with assms show ?thesis
    by (auto simp: level_wf_def sum_sizes_kept kept_ids_sorted)
qed

lemma match_level_correct:
  assumes "level_wf sd price l" "c_user_id (m_cmd st) = u"
  shows "match_level price l st =
    Some (l\<lparr>total_volume := total_volume l - traded_word (fills u (m_remaining st) (lv_orders l)),
            lv_orders := kept u (m_remaining st) (lv_orders l)\<rparr>,
          match_result u (lv_orders l) st)"
proof -
  have "\<forall>x\<in>set (lv_orders l). o_price x = price \<and> o_size x \<noteq> 0"
    using assms(1) by (simp add: level_wf_def)
  from match_orders_correct [OF this assms(2), of "total_volume l"] show ?thesis
    by (auto simp: match_level_def)
qed

section \<open>All levels\<close>

definition accepted :: "(u64 \<Rightarrow> bool) \<Rightarrow> levels \<Rightarrow> order list" where
  "accepted price_ok t = resting (takeWhile (\<lambda>(p, l). price_ok p) t)"

definition refused :: "(u64 \<Rightarrow> bool) \<Rightarrow> levels \<Rightarrow> order list" where
  "refused price_ok t = resting (dropWhile (\<lambda>(p, l). price_ok p) t)"

definition all_levels_wf :: "side \<Rightarrow> levels \<Rightarrow> bool" where
  "all_levels_wf sd t \<longleftrightarrow> (\<forall>(p, l)\<in>set t. level_wf sd p l)"

definition no_empty_level :: "levels \<Rightarrow> bool" where
  "no_empty_level t \<longleftrightarrow> (\<forall>(p, l)\<in>set t. lv_orders l \<noteq> [])"

lemma match_levels_done:
  "m_remaining st = 0 \<Longrightarrow> match_levels pc t st = Some (t, [], st)"
  by (cases t) auto

lemma match_levels_correct:
  assumes "all_levels_wf sd t" "no_empty_level t" "c_user_id (m_cmd st) = u"
  shows "\<exists>t'. match_levels price_ok t st =
      Some (t', map fst (filter (\<lambda>(p, l). lv_orders l = []) t'),
            match_result u (accepted price_ok t) st) \<and>
    resting t' = kept u (m_remaining st) (accepted price_ok t) @ refused price_ok t \<and>
    map fst t' = map fst t \<and> all_levels_wf sd t'"
  using assms
proof (induction t arbitrary: st)
  case Nil
  show ?case by (simp add: accepted_def refused_def all_levels_wf_def)
next
  case (Cons x t)
  obtain p l where x: "x = (p, l)" by fastforce
  have wf: "level_wf sd p l" "all_levels_wf sd t" and ne: "lv_orders l \<noteq> []" "no_empty_level t"
    using Cons.prems by (auto simp: x all_levels_wf_def no_empty_level_def)
  have none: "filter (\<lambda>(p, l). lv_orders l = []) ((p, l) # t) = []"
    using Cons.prems(2) by (auto simp: x no_empty_level_def filter_empty_conv)
  show ?case
  proof (cases "\<not> price_ok p \<or> m_remaining st = 0")
    case True
    then have "match_result u (accepted price_ok ((p, l) # t)) st = st"
      "kept u (m_remaining st) (accepted price_ok ((p, l) # t)) @ refused price_ok ((p, l) # t) =
        resting ((p, l) # t)"
      by (auto simp: accepted_def refused_def match_result_done resting_def simp flip: concat_append)
        (metis map_append takeWhile_dropWhile_id)+
    moreover have "match_levels price_ok ((p, l) # t) st = Some ((p, l) # t, [], st)"
      using True by simp
    ultimately show ?thesis
      using Cons.prems(1) none by (simp add: x)
  next
    case False
    let ?st = "match_result u (lv_orders l) st"
    let ?l = "l\<lparr>total_volume := total_volume l - traded_word (fills u (m_remaining st) (lv_orders l)),
            lv_orders := kept u (m_remaining st) (lv_orders l)\<rparr>"
    have step: "match_level p l st = Some (?l, ?st)"
      by (rule match_level_correct [OF wf(1) Cons.prems(3)])
    have "c_user_id (m_cmd ?st) = u" using Cons.prems(3) by simp
    from Cons.IH [OF wf(2) ne(2) this] obtain t' where IH: "match_levels price_ok t ?st =
        Some (t', map fst (filter (\<lambda>(p, l). lv_orders l = []) t'),
              match_result u (accepted price_ok t) ?st)"
      "resting t' = kept u (m_remaining ?st) (accepted price_ok t) @ refused price_ok t"
      "map fst t' = map fst t" "all_levels_wf sd t'" by blast
    have acc: "accepted price_ok ((p, l) # t) = lv_orders l @ accepted price_ok t"
      "refused price_ok ((p, l) # t) = refused price_ok t"
      using False by (simp_all add: accepted_def refused_def)
    have "match_levels price_ok ((p, l) # t) st =
        Some ((p, ?l) # t', map fst (filter (\<lambda>(p, l). lv_orders l = []) ((p, ?l) # t')),
              match_result u (accepted price_ok ((p, l) # t)) st)"
      using False step IH(1) by (simp add: acc match_result_append)
    moreover have "resting ((p, ?l) # t') =
        kept u (m_remaining st) (accepted price_ok ((p, l) # t)) @ refused price_ok ((p, l) # t)"
      using IH(2) by (simp add: acc kept_append)
    moreover have "all_levels_wf sd ((p, ?l) # t')"
      using IH(4) kept_level [OF wf(1)] by (simp add: all_levels_wf_def)
    ultimately show ?thesis using IH(3) by (auto simp: x)
  qed
qed

section \<open>Dropping the emptied levels\<close>

context key_order
begin

lemma sorted_unique:
  "keys_sorted lt s \<Longrightarrow> keys_sorted lt t \<Longrightarrow> map_of s = map_of t \<Longrightarrow> s = t"
proof (induction s arbitrary: t)
  case Nil
  then show ?case by (metis map_of_eq_empty_iff)
next
  case (Cons x s)
  obtain p l where x: "x = (p, l)" by fastforce
  obtain q m t' where t: "t = (q, m) # t'"
    using fun_cong [OF Cons.prems(3), of p] by (cases t) (auto simp: x)
  have s': "keys_sorted lt s" "\<forall>k\<in>fst ` set s. lt p k" "p \<notin> fst ` set s"
    and t'': "keys_sorted lt t'" "\<forall>k\<in>fst ` set t'. lt q k" "q \<notin> fst ` set t'"
    using Cons.prems irrefl by (auto simp: keys_sorted_def x t)
  have dom: "insert p (fst ` set s) = insert q (fst ` set t')"
    using Cons.prems(3) dom_map_of_conv_image_fst [of "x # s"] dom_map_of_conv_image_fst [of t]
    by (simp add: x t del: map_of.simps)
  have "p = q"
  proof (rule ccontr)
    assume "p \<noteq> q"
    then have "lt q p" "lt p q" using dom s'(2) t''(2) by blast+
    then show False using irrefl trans by blast
  qed
  moreover have "l = m"
    using fun_cong [OF Cons.prems(3), of p] \<open>p = q\<close> by (simp add: x t)
  moreover have "map_of s = map_of t'"
  proof
    fix k
    show "map_of s k = map_of t' k"
      using fun_cong [OF Cons.prems(3), of k] \<open>p = q\<close>
      using s'(3) t''(3) map_of_eq_None_iff [of s k] map_of_eq_None_iff [of t' k]
      by (cases "k = p") (auto simp: x t)
  qed
  then have "s = t'" by (rule Cons.IH [OF s'(1) t''(1)])
  ultimately show ?case by (simp add: x t)
qed

lemma keys_sorted_filter: "keys_sorted lt t \<Longrightarrow> keys_sorted lt (filter P t)"
  by (induction t) (auto simp: keys_sorted_def)

lemma map_of_filter_sorted:
  assumes "keys_sorted lt t"
  shows "map_of (filter (\<lambda>(p, l). P p l) t) k =
    (case map_of t k of None \<Rightarrow> None | Some l \<Rightarrow> if P k l then Some l else None)"
  using distinct_keys [OF assms]
proof (induction t)
  case (Cons x t)
  obtain p l where x: "x = (p, l)" by fastforce
  from Cons.prems have "map_of t p = None" by (simp add: x map_of_eq_None_iff)
  with Cons show ?case by (auto simp: x split: option.splits)
qed simp

end

lemma resting_filter: "resting (filter (\<lambda>(p, l). lv_orders l \<noteq> []) t) = resting t"
  by (induction t) auto

context book_side
begin

text \<open>The clean-up loop keeps exactly the levels that hold an order.\<close>

lemma map_of_clean:
  assumes "keys_sorted lt (iter s)"
  shows "keys_sorted lt (iter (fold remove_level_if_empty ps s)) \<and>
    map_of (iter (fold remove_level_if_empty ps s)) k =
      (case map_of (iter s) k of None \<Rightarrow> None
       | Some l \<Rightarrow> if k \<in> set ps \<and> lv_orders l = [] then None else Some l)"
  using assms
proof (induction ps arbitrary: s)
  case Nil
  then show ?case by (simp split: option.split)
next
  case (Cons p ps)
  have step: "map_of (iter (remove_level_if_empty p s)) =
        (case map_of (iter s) p of
           Some l \<Rightarrow> if lv_orders l = [] then (map_of (iter s))(p := None) else map_of (iter s)
         | None \<Rightarrow> map_of (iter s))"
    "keys_sorted lt (iter (remove_level_if_empty p s))"
    using remove_law [OF Cons.prems] by blast+
  from Cons.IH [OF step(2)] show ?case
    by (cases "k = p") (auto simp: step(1) split: option.splits)
qed

lemma clean_levels:
  assumes "keys_sorted lt (iter s)"
    and "set ps = fst ` {(p, l) \<in> set (iter s). lv_orders l = []}"
  shows "iter (fold remove_level_if_empty ps s) =
    filter (\<lambda>(p, l). lv_orders l \<noteq> []) (iter s)"
proof (rule sorted_unique)
  show "keys_sorted lt (iter (fold remove_level_if_empty ps s))"
    using map_of_clean [OF assms(1)] by blast
  show "keys_sorted lt (filter (\<lambda>(p, l). lv_orders l \<noteq> []) (iter s))"
    using assms(1) by (rule keys_sorted_filter)
  have mem: "k \<in> set ps" if "map_of (iter s) k = Some l" "lv_orders l = []" for k l
    using map_of_SomeD [OF that(1)] that(2) by (force simp: assms(2))
  show "map_of (iter (fold remove_level_if_empty ps s)) =
      map_of (filter (\<lambda>(p, l). lv_orders l \<noteq> []) (iter s))"
  proof
    fix k
    show "map_of (iter (fold remove_level_if_empty ps s)) k =
        map_of (filter (\<lambda>(p, l). lv_orders l \<noteq> []) (iter s)) k"
      using map_of_clean [OF assms(1)]
        map_of_filter_sorted [OF assms(1), of "\<lambda>p l. lv_orders l \<noteq> []" k] mem
      by (auto split: option.split)
  qed
qed

lemma levels_wf_iff:
  "levels_wf lt sd t \<longleftrightarrow> keys_sorted lt t \<and> all_levels_wf sd t \<and> no_empty_level t"
proof -
  have "(\<forall>p l. map_of t p = Some l \<longrightarrow> P p l) \<longleftrightarrow> (\<forall>(p, l)\<in>set t. P p l)"
    if "keys_sorted lt t" for P
    using distinct_keys [OF that] by (auto dest: map_of_SomeD)
  from this [of "\<lambda>p l. lv_orders l \<noteq> [] \<and> level_wf sd p l"] show ?thesis
    by (auto simp: levels_wf_def all_levels_wf_def no_empty_level_def)
qed

text \<open>A whole pass of matching over one side.\<close>

lemma match_side:
  assumes wf: "levels_wf lt sd t" and u: "c_user_id (m_cmd st) = u"
  shows "\<exists>t' filled. match_levels price_ok t st =
      Some (t', filled, match_result u (accepted price_ok t) st) \<and>
    (\<forall>s. iter s = t' \<longrightarrow>
       levels_wf lt sd (iter (fold remove_level_if_empty filled s)) \<and>
       resting (iter (fold remove_level_if_empty filled s)) =
         kept u (m_remaining st) (accepted price_ok t) @ refused price_ok t)"
proof -
  from wf have t: "keys_sorted lt t" "all_levels_wf sd t" "no_empty_level t"
    by (simp_all add: levels_wf_iff)
  from match_levels_correct [OF t(2,3) u, of price_ok] obtain t' where run:
    "match_levels price_ok t st =
      Some (t', map fst (filter (\<lambda>(p, l). lv_orders l = []) t'),
            match_result u (accepted price_ok t) st)"
    "resting t' = kept u (m_remaining st) (accepted price_ok t) @ refused price_ok t"
    "map fst t' = map fst t" "all_levels_wf sd t'" by blast
  have srt: "keys_sorted lt t'" using t(1) run(3) by (simp add: keys_sorted_def)
  have "levels_wf lt sd (iter (fold remove_level_if_empty
        (map fst (filter (\<lambda>(p, l). lv_orders l = []) t')) s)) \<and>
      resting (iter (fold remove_level_if_empty
        (map fst (filter (\<lambda>(p, l). lv_orders l = []) t')) s)) = resting t'"
    if s: "iter s = t'" for s
  proof -
    have clean: "iter (fold remove_level_if_empty
        (map fst (filter (\<lambda>(p, l). lv_orders l = []) t')) s) =
      filter (\<lambda>(p, l). lv_orders l \<noteq> []) t'"
      unfolding s [symmetric] by (rule clean_levels) (use srt in \<open>auto simp: s\<close>)
    show ?thesis
      using run(4) srt unfolding clean levels_wf_iff
      by (auto simp: resting_filter keys_sorted_filter all_levels_wf_def no_empty_level_def)
  qed
  with run(1,2) show ?thesis by auto
qed

end

end
