(* ===== verification/Order_Book_Inv.thy ===== *)
theory Order_Book_Inv
  imports Order_Book_Match
begin

text \<open>
  The invariant of an order book and what its operations do to it. \<open>book_wf\<close> says that both sides are
  well formed, that an id rests at most once in the whole book, and that the index maps exactly the
  ids of the resting orders to their prices. \<open>match_order_refines\<close> is the refinement of the matching
  loops by the specification of \<open>Match_Spec\<close>; placing and cancelling keep the invariant.
\<close>

section \<open>The invariant\<close>

definition side_levels :: "side \<Rightarrow> order_book \<Rightarrow> levels" where
  "side_levels sd ob = (case sd of Ask \<Rightarrow> ask_iter (ob_asks ob) | Bid \<Rightarrow> bid_iter (ob_bids ob))"

definition side_orders :: "side \<Rightarrow> order_book \<Rightarrow> order list" where
  "side_orders sd ob = resting (side_levels sd ob)"

definition priority :: "side \<Rightarrow> u64 \<Rightarrow> u64 \<Rightarrow> bool" where
  "priority sd a b \<longleftrightarrow> (case sd of Ask \<Rightarrow> a < b | Bid \<Rightarrow> b < a)"

definition all_orders :: "order_book \<Rightarrow> order list" where
  "all_orders ob = side_orders Bid ob @ side_orders Ask ob"

definition index_of :: "order set \<Rightarrow> (u64 \<rightharpoonup> u64) \<Rightarrow> bool" where
  "index_of os m \<longleftrightarrow> (\<forall>i p. m i = Some p \<longleftrightarrow> (\<exists>x\<in>os. o_order_id x = i \<and> o_price x = p))"

definition book_wf :: "order_book \<Rightarrow> bool" where
  "book_wf ob \<longleftrightarrow>
     (\<forall>sd. levels_wf (priority sd) sd (side_levels sd ob)) \<and>
     distinct (map o_order_id (all_orders ob)) \<and>
     index_of (set (all_orders ob)) (ob_orders ob)"

lemma side_levels_simps [simp]:
  "side_levels Ask ob = ask_iter (ob_asks ob)" "side_levels Bid ob = bid_iter (ob_bids ob)"
  by (simp_all add: side_levels_def)

lemma priority_simps: "priority Ask = (<)" "priority Bid = (>)"
  by (simp_all add: priority_def fun_eq_iff)

lemma all_sides: "(\<forall>sd. P sd) \<longleftrightarrow> P Ask \<and> P Bid"
proof (intro iffI allI)
  fix sd assume "P Ask \<and> P Bid"
  then show "P sd" by (cases sd) simp_all
qed simp

lemma book_wf_iff:
  "book_wf ob \<longleftrightarrow>
     levels_wf (<) Ask (ask_iter (ob_asks ob)) \<and> levels_wf (>) Bid (bid_iter (ob_bids ob)) \<and>
     distinct (map o_order_id (all_orders ob)) \<and>
     index_of (set (all_orders ob)) (ob_orders ob)"
  by (simp add: book_wf_def all_sides priority_simps)

lemma all_orders_side: "set (all_orders ob) = set (side_orders sd ob) \<union> set (side_orders (op_side sd) ob)"
  by (cases sd) (auto simp: all_orders_def)

lemma book_wf_new: "book_wf (order_book_new bid_new ask_new market_id)"
  by (simp add: book_wf_iff order_book_new_def bid_new_def ask_new_def ask_iter_def bid_iter_def
      levels_wf_def keys_sorted_def all_orders_def side_orders_def index_of_def)

lemma levels_wf_order:
  assumes "distinct (map fst t)" "levels_wf lt sd t" "x \<in> set (resting t)"
  shows "o_side x = sd \<and> o_size x \<noteq> 0"
  using assms by (auto simp: levels_wf_def level_wf_def in_resting_iff)

lemma book_wf_side:
  assumes "book_wf ob" "x \<in> set (side_orders sd ob)"
  shows "o_side x = sd" "o_size x \<noteq> 0"
proof -
  have srt: "distinct (map fst (ask_iter (ob_asks ob)))" "distinct (map fst (bid_iter (ob_bids ob)))"
    and wf: "levels_wf (<) Ask (ask_iter (ob_asks ob))" "levels_wf (>) Bid (bid_iter (ob_bids ob))"
    using assms(1) ascending.distinct_keys descending.distinct_keys
    by (auto simp: book_wf_iff levels_wf_def)
  have "o_side x = sd \<and> o_size x \<noteq> 0"
  proof (cases sd)
    case Ask
    with assms(2) levels_wf_order [OF srt(1) wf(1)] show ?thesis by (simp add: side_orders_def)
  next
    case Bid
    with assms(2) levels_wf_order [OF srt(2) wf(2)] show ?thesis by (simp add: side_orders_def)
  qed
  then show "o_side x = sd" "o_size x \<noteq> 0" by simp_all
qed

lemma index_ofD:
  "index_of os m \<Longrightarrow> x \<in> os \<Longrightarrow> m (o_order_id x) = Some (o_price x)"
  by (auto simp: index_of_def)

lemma index_of_None:
  "index_of os m \<Longrightarrow> m i = None \<longleftrightarrow> i \<notin> o_order_id ` os"
proof -
  assume ix: "index_of os m"
  have "(\<exists>p. m i = Some p) \<longleftrightarrow> i \<in> o_order_id ` os"
    using ix unfolding index_of_def by auto
  then show ?thesis by (cases "m i") auto
qed

section \<open>Matching keeps the index\<close>

lemma kept_ids_distinct:
  "distinct (map o_order_id os) \<Longrightarrow> distinct (map o_order_id (kept u r os))"
proof (induction u r os rule: kept.induct)
  case (2 u r maker os)
  have "o_order_id maker \<notin> o_order_id ` set (kept u r' os)" for r'
    using "2.prems" kept_ids_subset [of u r' os] by auto
  with 2 show ?case by auto
qed simp

lemma index_after_match:
  assumes d: "distinct (map o_order_id (others @ ms))" and sz: "\<forall>x\<in>set ms. o_size x \<noteq> 0"
    and ix: "index_of (set (others @ ms)) m"
  shows "distinct (map o_order_id (others @ kept u r ms))"
    and "index_of (set (others @ kept u r ms)) (forget_done (fills u r ms) m)"
proof -
  let ?done = "e_matched_order_id ` {e \<in> set (fills u r ms). e_matched_order_completed e}"
  have dm: "distinct (map o_order_id ms)" and
    disj: "o_order_id ` set others \<inter> o_order_id ` set ms = {}" using d by auto
  have ids: "o_order_id ` set (kept u r ms) = o_order_id ` set ms - ?done"
    by (rule kept_ids [OF dm sz])
  have dsub: "?done \<subseteq> o_order_id ` set ms"
    using fills_maker by (fastforce simp: trade_of_def)
  show "distinct (map o_order_id (others @ kept u r ms))"
    using d kept_ids_distinct [OF dm, of u r] ids by auto
  have val: "forget_done (fills u r ms) m i = (if i \<in> ?done then None else m i)" for i
    by (auto simp: forget_done_apply)
  show "index_of (set (others @ kept u r ms)) (forget_done (fills u r ms) m)"
    unfolding index_of_def
  proof (intro allI iffI)
    fix i p assume "forget_done (fills u r ms) m i = Some p"
    then have nd: "i \<notin> ?done" and "m i = Some p" by (simp_all add: val split: if_splits)
    then obtain x where x: "x \<in> set (others @ ms)" "o_order_id x = i" "o_price x = p"
      using ix by (auto simp: index_of_def)
    show "\<exists>x\<in>set (others @ kept u r ms). o_order_id x = i \<and> o_price x = p"
    proof (cases "x \<in> set others")
      case False
      with x have xm: "x \<in> set ms" by simp
      with x nd have "i \<in> o_order_id ` set (kept u r ms)" unfolding ids by blast
      then obtain y where y: "y \<in> set (kept u r ms)" "o_order_id y = i" by blast
      from kept_from [OF y(1)] obtain z s where "z \<in> set ms" "y = z\<lparr>o_size := s\<rparr>" by blast
      moreover from this y x xm dm have "z = x" by (auto simp: distinct_map inj_on_def)
      ultimately have "o_price y = p" using x(3) by simp
      with y show ?thesis by auto
    qed (use x in auto)
  next
    fix i p assume "\<exists>x\<in>set (others @ kept u r ms). o_order_id x = i \<and> o_price x = p"
    then obtain x where x: "x \<in> set (others @ kept u r ms)" "o_order_id x = i" "o_price x = p" by blast
    show "forget_done (fills u r ms) m i = Some p"
    proof (cases "x \<in> set others")
      case True
      then have "i \<notin> ?done" using x disj dsub by blast
      with True x ix show ?thesis unfolding val by (auto simp: index_of_def)
    next
      case False
      with x have "x \<in> set (kept u r ms)" by simp
      with x ids have "i \<notin> ?done" by blast
      moreover from kept_from [OF \<open>x \<in> set (kept u r ms)\<close>] obtain z s
        where "z \<in> set ms" "x = z\<lparr>o_size := s\<rparr>" by blast
      ultimately show ?thesis using x ix unfolding val by (auto simp: index_of_def)
    qed
  qed
qed

section \<open>The matching loop refines the specification\<close>

definition crosses :: "order_command \<Rightarrow> u64 \<Rightarrow> bool" where
  "crosses cmd price = (case c_side cmd of Bid \<Rightarrow> price \<le> c_price cmd | Ask \<Rightarrow> c_price cmd \<le> price)"

text \<open>The resting orders the taker may reach, in priority order, and those behind its limit.\<close>

definition makers :: "order_book \<Rightarrow> order_command \<Rightarrow> order list" where
  "makers ob cmd = accepted (crosses cmd) (side_levels (op_side (c_side cmd)) ob)"

definition beyond :: "order_book \<Rightarrow> order_command \<Rightarrow> order list" where
  "beyond ob cmd = refused (crosses cmd) (side_levels (op_side (c_side cmd)) ob)"

lemma accepted_refused: "accepted price_ok t @ refused price_ok t = resting t"
  unfolding accepted_def refused_def resting_def
  by (metis concat_append map_append takeWhile_dropWhile_id)

lemma makers_beyond: "makers ob cmd @ beyond ob cmd = side_orders (op_side (c_side cmd)) ob"
  by (simp add: makers_def beyond_def accepted_refused side_orders_def)

lemma makers_cross: "all_levels_wf sd (side_levels (op_side (c_side cmd)) ob) \<Longrightarrow>
  x \<in> set (makers ob cmd) \<Longrightarrow> crosses cmd (o_price x)"
  by (fastforce simp: makers_def accepted_def resting_def all_levels_wf_def level_wf_def
      dest: set_takeWhileD)

lemma match_order_refines:
  assumes wf: "book_wf ob"
  shows "\<exists>ob'. match_order ob cmd =
      Some (left_over (c_user_id cmd) (c_size cmd) (makers ob cmd), ob',
            with_events (fills (c_user_id cmd) (c_size cmd) (makers ob cmd)) cmd) \<and>
    side_orders (op_side (c_side cmd)) ob' =
      kept (c_user_id cmd) (c_size cmd) (makers ob cmd) @ beyond ob cmd \<and>
    side_levels (c_side cmd) ob' = side_levels (c_side cmd) ob \<and>
    ob_market_id ob' = ob_market_id ob \<and> book_wf ob'"
proof -
  let ?u = "c_user_id cmd" and ?r = "c_size cmd" and ?ms = "makers ob cmd"
  let ?st = "\<lparr>m_remaining = ?r, m_cmd = cmd, m_orders = ob_orders ob\<rparr>"
  let ?own = "side_orders (c_side cmd) ob" and ?opp = "side_orders (op_side (c_side cmd)) ob"
  have wfs: "levels_wf (<) Ask (ask_iter (ob_asks ob))" "levels_wf (>) Bid (bid_iter (ob_bids ob))"
    and d: "distinct (map o_order_id (all_orders ob))"
    and ix: "index_of (set (all_orders ob)) (ob_orders ob)" using wf by (auto simp: book_wf_iff)
  have split: "distinct (map o_order_id ((?own @ beyond ob cmd) @ ?ms))"
    "set (all_orders ob) = set ((?own @ beyond ob cmd) @ ?ms)"
    using d makers_beyond [of ob cmd, symmetric]
    by (cases "c_side cmd"; auto simp: all_orders_def)+
  have sz: "\<forall>x\<in>set ?ms. o_size x \<noteq> 0"
    using book_wf_side(2) [OF wf] makers_beyond [of ob cmd] by (metis Un_iff set_append)
  note after = index_after_match [OF split(1) sz, of "ob_orders ob" ?u ?r,
      OF ix [unfolded split(2)]]
  show ?thesis
  proof (cases "c_side cmd")
    case Ask
    from bids.match_side [OF wfs(2), of ?st ?u "crosses cmd"] obtain t filled where run:
      "match_levels (crosses cmd) (bid_iter (ob_bids ob)) ?st = Some (t, filled, match_result ?u ?ms ?st)"
      "\<And>s. bid_iter s = t \<Longrightarrow>
         levels_wf (>) Bid (bid_iter (fold bid_remove_level_if_empty filled s)) \<and>
         resting (bid_iter (fold bid_remove_level_if_empty filled s)) = kept ?u ?r ?ms @ beyond ob cmd"
      by (auto simp: makers_def beyond_def Ask)
    let ?ob = "ob\<lparr>ob_bids := fold bid_remove_level_if_empty filled ((ob_bids ob)\<lparr>bid_tree := t\<rparr>),
        ob_orders := forget_done (fills ?u ?r ?ms) (ob_orders ob)\<rparr>"
    have s: "bid_iter ((ob_bids ob)\<lparr>bid_tree := t\<rparr>) = t" by (simp add: bid_iter_def)
    have ok: "(\<lambda>maker_price. c_price cmd \<le> maker_price) = crosses cmd"
      by (simp add: crosses_def Ask fun_eq_iff)
    have "match_order ob cmd = Some (left_over ?u ?r ?ms, ?ob, with_events (fills ?u ?r ?ms) cmd)"
      using run(1) by (simp add: match_order_def Ask ok bid_iter_def)
    moreover have opp: "side_orders Bid ?ob = kept ?u ?r ?ms @ beyond ob cmd"
      using run(2) [OF s] by (simp add: side_orders_def)
    moreover have "book_wf ?ob"
      using after wfs(1) run(2) [OF s] opp
      by (simp add: book_wf_iff all_orders_def) (auto simp: side_orders_def Ask ac_simps Un_ac)
    ultimately show ?thesis by (simp add: Ask)
  next
    case Bid
    from asks.match_side [OF wfs(1), of ?st ?u "crosses cmd"] obtain t filled where run:
      "match_levels (crosses cmd) (ask_iter (ob_asks ob)) ?st = Some (t, filled, match_result ?u ?ms ?st)"
      "\<And>s. ask_iter s = t \<Longrightarrow>
         levels_wf (<) Ask (ask_iter (fold ask_remove_level_if_empty filled s)) \<and>
         resting (ask_iter (fold ask_remove_level_if_empty filled s)) = kept ?u ?r ?ms @ beyond ob cmd"
      by (auto simp: makers_def beyond_def Bid)
    let ?ob = "ob\<lparr>ob_asks := fold ask_remove_level_if_empty filled ((ob_asks ob)\<lparr>ask_tree := t\<rparr>),
        ob_orders := forget_done (fills ?u ?r ?ms) (ob_orders ob)\<rparr>"
    have s: "ask_iter ((ob_asks ob)\<lparr>ask_tree := t\<rparr>) = t" by (simp add: ask_iter_def)
    have ok: "(\<lambda>maker_price. maker_price \<le> c_price cmd) = crosses cmd"
      by (simp add: crosses_def Bid fun_eq_iff)
    have "match_order ob cmd = Some (left_over ?u ?r ?ms, ?ob, with_events (fills ?u ?r ?ms) cmd)"
      using run(1) by (simp add: match_order_def Bid ok ask_iter_def)
    moreover have opp: "side_orders Ask ?ob = kept ?u ?r ?ms @ beyond ob cmd"
      using run(2) [OF s] by (simp add: side_orders_def)
    moreover have "book_wf ?ob"
      using after wfs(2) run(2) [OF s] opp
      by (simp add: book_wf_iff all_orders_def) (auto simp: side_orders_def Bid ac_simps Un_ac)
    ultimately show ?thesis by (simp add: Bid)
  qed
qed

end
