(* ===== verification/Order_Book_Place.thy ===== *)
theory Order_Book_Place
  imports Order_Book_Inv
begin

text \<open>
  The abstract book and the refinement of placing and cancelling. An abstract book is, for each side,
  the list of its resting orders in matching priority: there are no levels, cached volumes or ids to
  keep in step. \<open>spec_place\<close> and \<open>spec_cancel\<close> are what the operations promise; the theorems say that
  \<^verbatim>\<open>place_order\<close> and \<^verbatim>\<open>cancel_order\<close> on a well-formed book act on its abstraction as the specification
  does, never panic, and leave a well-formed book.
\<close>

section \<open>The abstract book\<close>

type_synonym abstract_book = "side \<Rightarrow> order list"

definition abs_book :: "order_book \<Rightarrow> abstract_book" where
  "abs_book ob = (\<lambda>sd. side_orders sd ob)"

definition residual :: "order_command \<Rightarrow> u64 \<Rightarrow> order" where
  "residual cmd left =
     \<lparr>o_order_id = c_order_id cmd, o_user_id = c_user_id cmd, o_price = c_price cmd, o_size = left,
      o_original_size = c_size cmd, o_side = c_side cmd, o_time_in_force = c_time_in_force cmd,
      o_status = c_status cmd, o_timestamp = c_timestamp cmd\<rparr>"

text \<open>A new order queues behind every order of its side with an equal or better price.\<close>

definition queue_behind :: "order \<Rightarrow> order list \<Rightarrow> order list" where
  "queue_behind ord os =
     filter (\<lambda>x. \<not> priority (o_side ord) (o_price ord) (o_price x)) os @ [ord] @
     filter (\<lambda>x. priority (o_side ord) (o_price ord) (o_price x)) os"

definition reach :: "order_command \<Rightarrow> abstract_book \<Rightarrow> order list" where
  "reach cmd B = takeWhile (\<lambda>x. crosses cmd (o_price x)) (B (op_side (c_side cmd)))"

definition spec_match :: "order_command \<Rightarrow> abstract_book \<Rightarrow> abstract_book" where
  "spec_match cmd B = B(op_side (c_side cmd) :=
     kept (c_user_id cmd) (c_size cmd) (reach cmd B) @
     dropWhile (\<lambda>x. crosses cmd (o_price x)) (B (op_side (c_side cmd))))"

definition spec_left :: "order_command \<Rightarrow> abstract_book \<Rightarrow> u64" where
  "spec_left cmd B = left_over (c_user_id cmd) (c_size cmd) (reach cmd B)"

definition spec_fills :: "order_command \<Rightarrow> abstract_book \<Rightarrow> trade_event list" where
  "spec_fills cmd B = fills (c_user_id cmd) (c_size cmd) (reach cmd B)"

definition spec_fillable :: "order_command \<Rightarrow> abstract_book \<Rightarrow> bool" where
  "spec_fillable cmd B \<longleftrightarrow> unat (c_size cmd) \<le> volume (open_to (c_user_id cmd) (reach cmd B))"

text \<open>What placing promises: status, size left, trades and the book, for each time in force.\<close>

definition spec_place ::
    "order_command \<Rightarrow> abstract_book \<Rightarrow> status \<times> u64 \<times> trade_event list \<times> abstract_book" where
  "spec_place cmd B =
     (let left = spec_left cmd B; es = spec_fills cmd B; B' = spec_match cmd B
      in case c_time_in_force cmd of
           Gtc \<Rightarrow>
             (if left = 0 then (Filled, 0, es, B')
              else (if left = c_size cmd then Placed else PartiallyFilled, left, es,
                    B'(c_side cmd := queue_behind (residual cmd left) (B' (c_side cmd)))))
         | Fok \<Rightarrow>
             (if spec_fillable cmd B then (Filled, 0, es, B')
              else (Cancelled, c_size cmd, [], B))
         | Ioc \<Rightarrow>
             (if left = 0 then Filled else if left < c_size cmd then PartiallyFilled else Cancelled,
              left, es, B'))"

section \<open>Resting an order\<close>

lemma bt_put_twice: "bt_put (lt :: u64 \<Rightarrow> u64 \<Rightarrow> bool) k v (bt_put lt k w t) = bt_put lt k v t"
  by (induction lt k w t rule: bt_put.induct) auto

lemma filter_all: "\<forall>x\<in>set xs. P x \<Longrightarrow> filter P xs = xs"
  by simp

context key_order
begin

lemma resting_put:
  assumes "keys_sorted lt t" "\<forall>(q, l)\<in>set t. \<forall>x\<in>set (lv_orders l). o_price x = q"
    and "l = (case map_of t p of Some l \<Rightarrow> l | None \<Rightarrow> price_level_new)"
  shows "resting (bt_put lt p (add_order ord l) t) =
    filter (\<lambda>x. \<not> lt p (o_price x)) (resting t) @ [ord] @ filter (\<lambda>x. lt p (o_price x)) (resting t)"
  using assms
proof (induction t)
  case Nil
  then show ?case by (simp add: price_level_new_def)
next
  case (Cons y t)
  obtain q m where y: "y = (q, m)" by fastforce
  have tail: "keys_sorted lt t" "\<forall>(q, l)\<in>set t. \<forall>x\<in>set (lv_orders l). o_price x = q"
    and later: "\<forall>(k, l)\<in>set t. lt q k" and at: "\<forall>x\<in>set (lv_orders m). o_price x = q"
    using Cons.prems by (auto simp: keys_sorted_def y)
  have rest: "lt q (o_price x)" if "x \<in> set (resting t)" for x
    using that tail(2) later by (fastforce simp: resting_def)
  consider "p = q" | "p \<noteq> q" "lt p q" | "p \<noteq> q" "lt q p" "\<not> lt p q"
    using total [of p q] by blast
  then show ?case
  proof cases
    case 1
    then have "filter (\<lambda>x. \<not> lt p (o_price x)) (resting t) = []"
      "filter (\<lambda>x. lt p (o_price x)) (resting t) = resting t"
      "filter (\<lambda>x. \<not> lt p (o_price x)) (lv_orders m) = lv_orders m"
      "filter (\<lambda>x. lt p (o_price x)) (lv_orders m) = []"
      using rest at irrefl by (auto simp: filter_empty_conv intro!: filter_all)
    with 1 Cons.prems(3) show ?thesis by (simp add: y)
  next
    case 2
    have up: "lt p (o_price x)" if "x \<in> set (resting (y # t))" for x
    proof (cases "x \<in> set (lv_orders m)")
      case True
      with at 2 show ?thesis by simp
    next
      case False
      with that have "lt q (o_price x)" using rest by (simp add: y)
      then show ?thesis by (rule trans [OF 2(2)])
    qed
    have "p \<noteq> k" if "lt q k" for k
      using trans [OF 2(2) that] irrefl by auto
    then have "p \<notin> fst ` set t" using later by fastforce
    then have "map_of (y # t) p = None"
      using 2(1) by (simp add: y map_of_eq_None_iff)
    then have "resting (bt_put lt p (add_order ord l) (y # t)) = ord # resting (y # t)"
      using 2 Cons.prems(3) by (simp add: y price_level_new_def)
    moreover have "filter (\<lambda>x. \<not> lt p (o_price x)) (resting (y # t)) = []"
      "filter (\<lambda>x. lt p (o_price x)) (resting (y # t)) = resting (y # t)"
      using up by (auto simp: filter_empty_conv intro!: filter_all)
    ultimately show ?thesis by simp
  next
    case 3
    have "filter (\<lambda>x. \<not> lt p (o_price x)) (lv_orders m) = lv_orders m"
      "filter (\<lambda>x. lt p (o_price x)) (lv_orders m) = []"
      using 3 at by (auto simp: filter_empty_conv intro!: filter_all)
    moreover have "l = (case map_of t p of Some l \<Rightarrow> l | None \<Rightarrow> price_level_new)"
      using Cons.prems(3) 3 by (simp add: y)
    ultimately show ?thesis using 3 Cons.IH [OF tail] by (simp add: y)
  qed
qed

end

lemma levels_prices:
  assumes "distinct (map fst t)" "levels_wf lt sd t"
  shows "\<forall>(q, l)\<in>set t. \<forall>x\<in>set (lv_orders l). o_price x = q"
  using assms by (auto simp: levels_wf_def level_wf_def)

text \<open>Adding to the book queues the residual at its place and indexes it.\<close>

lemma index_of_insert:
  assumes "index_of os m" "o_order_id x \<notin> o_order_id ` os"
  shows "index_of (insert x os) (m(o_order_id x \<mapsto> o_price x))"
proof -
  have "o_order_id y \<noteq> o_order_id x" if "y \<in> os" for y
    using that assms(2) by (metis imageI)
  with assms(1) show ?thesis unfolding index_of_def by auto
qed

lemma set_queue_behind [simp]: "set (queue_behind ord os) = insert ord (set os)"
  by (auto simp: queue_behind_def)

lemma distinct_queue_behind:
  assumes "distinct (map o_order_id os)" "o_order_id ord \<notin> o_order_id ` set os"
  shows "distinct (map o_order_id (queue_behind ord os))"
  using assms by (auto simp: queue_behind_def distinct_map inj_on_def)

lemma add_to_book_refines:
  assumes wf: "book_wf ob" and fresh: "\<forall>x\<in>set (all_orders ob). o_order_id x < c_order_id cmd"
    and left: "left \<noteq> 0"
  defines "ob' \<equiv> add_to_book cmd left ob"
  shows "side_orders (c_side cmd) ob' = queue_behind (residual cmd left) (side_orders (c_side cmd) ob)"
    and "side_levels (op_side (c_side cmd)) ob' = side_levels (op_side (c_side cmd)) ob"
    and "ob_market_id ob' = ob_market_id ob" and "book_wf ob'"
proof -
  let ?sd = "c_side cmd" and ?x = "residual cmd left"
  have wfs: "levels_wf (<) Ask (ask_iter (ob_asks ob))" "levels_wf (>) Bid (bid_iter (ob_bids ob))"
    and d: "distinct (map o_order_id (all_orders ob))"
    and ix: "index_of (set (all_orders ob)) (ob_orders ob)" using wf by (auto simp: book_wf_iff)
  have srt: "keys_sorted (<) (ask_iter (ob_asks ob))" "keys_sorted (>) (bid_iter (ob_bids ob))"
    using wfs by (auto simp: levels_wf_def)
  have prices:
    "\<forall>(q, l)\<in>set (ask_iter (ob_asks ob)). \<forall>x\<in>set (lv_orders l). o_price x = q"
    "\<forall>(q, l)\<in>set (bid_iter (ob_bids ob)). \<forall>x\<in>set (lv_orders l). o_price x = q"
    using levels_prices ascending.distinct_keys descending.distinct_keys srt wfs by blast+
  have fresh_side: "\<forall>x\<in>set (side_orders sd ob). o_order_id x < o_order_id ?x" for sd
    using fresh all_orders_side [of ob sd] by (simp add: residual_def)
  have main: "side_orders ?sd ob' = queue_behind ?x (side_orders ?sd ob) \<and>
      side_levels (op_side ?sd) ob' = side_levels (op_side ?sd) ob \<and>
      levels_wf (<) Ask (ask_iter (ob_asks ob')) \<and> levels_wf (>) Bid (bid_iter (ob_bids ob')) \<and>
      ob_orders ob' = (ob_orders ob)(c_order_id cmd \<mapsto> c_price cmd) \<and>
      ob_market_id ob' = ob_market_id ob"
  proof (cases ?sd)
    case Ask
    obtain l a where made: "ask_get_or_create_level (c_price cmd) (ob_asks ob) = (l, a)" by fastforce
    have ob': "ob' = ob\<lparr>ob_asks := ask_write (c_price cmd) (add_order ?x l) a,
        ob_orders := (ob_orders ob)(c_order_id cmd \<mapsto> c_price cmd)\<rparr>"
      by (simp add: ob'_def add_to_book_def Ask made residual_def)
    have "levels_wf (<) Ask (ask_iter (ask_write (c_price cmd) (add_order ?x l) a))"
      using fresh_side [of Ask] left
      by (intro asks.add_order_law(1) [OF wfs(1) made]) (simp_all add: residual_def Ask side_orders_def)
    moreover have "ask_iter (ask_write (c_price cmd) (add_order ?x l) a) =
        bt_put (<) (c_price cmd) (add_order ?x l) (ask_iter (ob_asks ob))"
      and "l = (case map_of (ask_iter (ob_asks ob)) (c_price cmd) of Some l \<Rightarrow> l | None \<Rightarrow> price_level_new)"
      using made by (auto simp: ask_get_or_create_level_def bt_get_or_insert_def ask_write_def
          ask_iter_def bt_put_twice split: option.splits)
    ultimately show ?thesis
      using ascending.resting_put [OF srt(1) prices(1), of l "c_price cmd" ?x] wfs(2)
      by (simp add: ob' Ask side_orders_def queue_behind_def residual_def priority_simps)
  next
    case Bid
    obtain l b where made: "bid_get_or_create_level (c_price cmd) (ob_bids ob) = (l, b)" by fastforce
    have ob': "ob' = ob\<lparr>ob_bids := bid_write (c_price cmd) (add_order ?x l) b,
        ob_orders := (ob_orders ob)(c_order_id cmd \<mapsto> c_price cmd)\<rparr>"
      by (simp add: ob'_def add_to_book_def Bid made residual_def)
    have "levels_wf (>) Bid (bid_iter (bid_write (c_price cmd) (add_order ?x l) b))"
      using fresh_side [of Bid] left
      by (intro bids.add_order_law(1) [OF wfs(2) made]) (simp_all add: residual_def Bid side_orders_def)
    moreover have "bid_iter (bid_write (c_price cmd) (add_order ?x l) b) =
        bt_put (>) (c_price cmd) (add_order ?x l) (bid_iter (ob_bids ob))"
      and "l = (case map_of (bid_iter (ob_bids ob)) (c_price cmd) of Some l \<Rightarrow> l | None \<Rightarrow> price_level_new)"
      using made by (auto simp: bid_get_or_create_level_def bt_get_or_insert_def bid_write_def
          bid_iter_def bt_put_twice split: option.splits)
    ultimately show ?thesis
      using descending.resting_put [OF srt(2) prices(2), of l "c_price cmd" ?x] wfs(1)
      by (simp add: ob' Bid side_orders_def queue_behind_def residual_def priority_simps)
  qed
  then show "side_orders ?sd ob' = queue_behind ?x (side_orders ?sd ob)"
    "side_levels (op_side ?sd) ob' = side_levels (op_side ?sd) ob"
    "ob_market_id ob' = ob_market_id ob" by blast+
  have opp: "side_orders (op_side ?sd) ob' = side_orders (op_side ?sd) ob"
    using main by (simp add: side_orders_def)
  have sets: "set (all_orders ob') = insert ?x (set (all_orders ob))"
    unfolding all_orders_side [of _ ?sd] using main opp by simp
  have new: "o_order_id ?x \<notin> o_order_id ` set (all_orders ob)"
    using fresh by (force simp: residual_def)
  have "index_of (set (all_orders ob')) (ob_orders ob')"
    using index_of_insert [OF ix new] main by (simp add: sets residual_def)
  moreover have "distinct (map o_order_id (all_orders ob'))"
  proof -
    have "distinct (map o_order_id (queue_behind ?x (side_orders ?sd ob)))"
      using d new by (intro distinct_queue_behind; cases ?sd) (auto simp: all_orders_def)
    with main opp d new show ?thesis
      by (cases ?sd) (auto simp: all_orders_def)
  qed
  ultimately show "book_wf ob'" using main by (simp add: book_wf_iff)
qed

section \<open>Matching, in terms of the abstract book\<close>

lemma takeWhile_append_all:
  "\<forall>x\<in>set xs. P x \<Longrightarrow> takeWhile P (xs @ ys) = xs @ takeWhile P ys"
  "\<forall>x\<in>set xs. P x \<Longrightarrow> dropWhile P (xs @ ys) = dropWhile P ys"
  by (induction xs) simp_all

lemma accepted_refused_split:
  assumes "all_levels_wf sd t" "no_empty_level t"
  shows "accepted price_ok t = takeWhile (\<lambda>x. price_ok (o_price x)) (resting t) \<and>
    refused price_ok t = dropWhile (\<lambda>x. price_ok (o_price x)) (resting t)"
  using assms
proof (induction t)
  case Nil
  show ?case by (simp add: accepted_def refused_def)
next
  case (Cons y t)
  obtain p l where y: "y = (p, l)" by fastforce
  have at: "\<forall>x\<in>set (lv_orders l). o_price x = p" and ne: "lv_orders l \<noteq> []"
    using Cons.prems by (auto simp: y all_levels_wf_def no_empty_level_def level_wf_def)
  from Cons have IH: "accepted price_ok t = takeWhile (\<lambda>x. price_ok (o_price x)) (resting t) \<and>
      refused price_ok t = dropWhile (\<lambda>x. price_ok (o_price x)) (resting t)"
    by (auto simp: all_levels_wf_def no_empty_level_def)
  show ?case
  proof (cases "price_ok p")
    case True
    with at IH show ?thesis by (simp add: y accepted_def refused_def takeWhile_append_all)
  next
    case False
    with at ne show ?thesis by (cases "lv_orders l") (auto simp: y accepted_def refused_def)
  qed
qed

lemmas accepted_takeWhile = accepted_refused_split [THEN conjunct1]
lemmas refused_dropWhile = accepted_refused_split [THEN conjunct2]

lemma book_levels:
  assumes "book_wf ob"
  shows "all_levels_wf sd (side_levels sd ob)" "no_empty_level (side_levels sd ob)"
proof -
  have "levels_wf (<) Ask (ask_iter (ob_asks ob))" "levels_wf (>) Bid (bid_iter (ob_bids ob))"
    using assms by (auto simp: book_wf_iff)
  then show "all_levels_wf sd (side_levels sd ob)" "no_empty_level (side_levels sd ob)"
    by (cases sd; simp add: asks.levels_wf_iff bids.levels_wf_iff)+
qed

lemma makers_reach:
  assumes "book_wf ob"
  shows "makers ob cmd = reach cmd (abs_book ob)"
    and "beyond ob cmd =
      dropWhile (\<lambda>x. crosses cmd (o_price x)) (abs_book ob (op_side (c_side cmd)))"
  using accepted_takeWhile [OF book_levels [OF assms]] refused_dropWhile [OF book_levels [OF assms]]
  by (simp_all add: makers_def beyond_def reach_def abs_book_def side_orders_def)

lemma match_order_abs:
  assumes "book_wf ob"
  shows "\<exists>ob'. match_order ob cmd =
      Some (spec_left cmd (abs_book ob), ob', with_events (spec_fills cmd (abs_book ob)) cmd) \<and>
    abs_book ob' = spec_match cmd (abs_book ob) \<and> ob_market_id ob' = ob_market_id ob \<and> book_wf ob'"
proof -
  from match_order_refines [OF assms, of cmd] obtain ob' where run: "match_order ob cmd =
      Some (left_over (c_user_id cmd) (c_size cmd) (makers ob cmd), ob',
            with_events (fills (c_user_id cmd) (c_size cmd) (makers ob cmd)) cmd)"
    "side_orders (op_side (c_side cmd)) ob' =
      kept (c_user_id cmd) (c_size cmd) (makers ob cmd) @ beyond ob cmd"
    "side_levels (c_side cmd) ob' = side_levels (c_side cmd) ob"
    "ob_market_id ob' = ob_market_id ob" "book_wf ob'" by blast
  have "abs_book ob' sd = spec_match cmd (abs_book ob) sd" for sd
    using run(2,3) by (cases sd; cases "c_side cmd")
      (auto simp: abs_book_def spec_match_def side_orders_def makers_reach [OF assms])
  with run show ?thesis
    by (auto simp: spec_left_def spec_fills_def makers_reach [OF assms])
qed

section \<open>Fill or kill\<close>

lemma can_fill_loop_volume:
  assumes "unat r \<noteq> 0" "volume (resting t) < 2 ^ 64"
  shows "can_fill_loop price_ok u t r \<longleftrightarrow> unat r \<le> volume (open_to u (accepted price_ok t))"
  using assms
proof (induction price_ok u t r rule: can_fill_loop.induct)
  case (2 price_ok u p l t r)
  let ?av = "sum_list (map o_size (filter (\<lambda>x. o_user_id x \<noteq> u) (lv_orders l)))"
  have "volume (open_to u (lv_orders l)) \<le> volume (lv_orders l)"
    unfolding volume_def open_to_def by (rule sum_list_filter_le_nat)
  with "2.prems" have av: "unat ?av = volume (open_to u (lv_orders l))"
    by (simp add: sum_list_word_unat volume_def open_to_def)
  show ?case
  proof (cases "price_ok p \<and> \<not> r \<le> ?av")
    case True
    then have lt: "volume (open_to u (lv_orders l)) < unat r"
      using av by (simp add: word_le_nat_alt)
    have sub: "unat (r - ?av) = unat r - volume (open_to u (lv_orders l))"
      using lt av by (simp add: unat_sub word_le_nat_alt)
    have IH: "can_fill_loop price_ok u t (r - ?av) \<longleftrightarrow>
        unat (r - ?av) \<le> volume (open_to u (accepted price_ok t))"
      using "2.IH" True "2.prems" lt sub by simp
    have "can_fill_loop price_ok u ((p, l) # t) r = can_fill_loop price_ok u t (r - ?av)"
      using True by simp
    moreover have "accepted price_ok ((p, l) # t) = lv_orders l @ accepted price_ok t"
      using True by (simp add: accepted_def)
    ultimately show ?thesis using IH sub lt by auto
  next
    case False
    with "2.prems" av show ?thesis by (auto simp: accepted_def word_le_nat_alt)
  qed
qed (simp add: accepted_def)

lemma can_fill_completely_spec:
  assumes "book_wf ob" "c_size cmd \<noteq> 0"
    and "volume (abs_book ob (op_side (c_side cmd))) < 2 ^ 64"
  shows "can_fill_completely ob cmd \<longleftrightarrow> spec_fillable cmd (abs_book ob)"
proof -
  have r: "unat (c_size cmd) \<noteq> 0" using assms(2) by (simp add: unat_gt_0)
  have le: "p \<le> u64_MAX" for p :: u64 using unat_lt_2p [of p] by (simp add: word_le_nat_alt)
  have fillable: "spec_fillable cmd (abs_book ob) \<longleftrightarrow>
      unat (c_size cmd) \<le> volume (open_to (c_user_id cmd) (makers ob cmd))"
    by (simp add: spec_fillable_def makers_reach(1) [OF assms(1)])
  have vol: "volume (resting (side_levels (op_side (c_side cmd)) ob)) < 2 ^ 64"
    using assms(3) by (simp add: abs_book_def side_orders_def)
  show ?thesis
  proof (cases "c_side cmd")
    case Ask
    have "(\<lambda>price. is_market_order cmd \<or> c_price cmd \<le> price) = crosses cmd"
      by (auto simp: crosses_def Ask is_market_order_def fun_eq_iff)
    then show ?thesis
      using can_fill_loop_volume [OF r, of "bid_iter (ob_bids ob)"] vol
      by (simp add: can_fill_completely_def Ask makers_def fillable)
  next
    case Bid
    have "(\<lambda>price. is_market_order cmd \<or> price \<le> c_price cmd) = crosses cmd"
      using le by (auto simp: crosses_def Bid is_market_order_def fun_eq_iff)
    then show ?thesis
      using can_fill_loop_volume [OF r, of "ask_iter (ob_asks ob)"] vol
      by (simp add: can_fill_completely_def Bid makers_def fillable)
  qed
qed

lemma spec_left_0_iff: "spec_left cmd B = 0 \<longleftrightarrow> spec_fillable cmd B"
  by (simp add: spec_left_def spec_fillable_def left_over_0_iff)

section \<open>Placing refines its specification\<close>

lemma ids_after_match:
  "o_order_id ` set (spec_match cmd B sd) \<subseteq> o_order_id ` set (B sd)"
proof (cases "sd = op_side (c_side cmd)")
  case True
  let ?P = "\<lambda>x. crosses cmd (o_price x)"
  have "set (takeWhile ?P (B sd)) \<union> set (dropWhile ?P (B sd)) = set (B sd)"
    by (metis set_append takeWhile_dropWhile_id)
  moreover have "o_order_id ` set (kept (c_user_id cmd) (c_size cmd) (reach cmd B)) \<subseteq>
      o_order_id ` set (takeWhile ?P (B sd))"
    using kept_ids_subset by (simp add: reach_def True)
  moreover have "spec_match cmd B sd =
      kept (c_user_id cmd) (c_size cmd) (reach cmd B) @ dropWhile ?P (B sd)"
    by (simp add: spec_match_def True)
  ultimately show ?thesis by (metis Un_mono image_Un order_refl set_append)
qed (simp add: spec_match_def)

definition fresh_id :: "u64 \<Rightarrow> abstract_book \<Rightarrow> bool" where
  "fresh_id i B \<longleftrightarrow> (\<forall>sd. \<forall>x\<in>set (B sd). o_order_id x < i)"

lemma fresh_id_all_orders:
  "fresh_id i (abs_book ob) \<longleftrightarrow> (\<forall>x\<in>set (all_orders ob). o_order_id x < i)"
  by (auto simp: fresh_id_def abs_book_def all_orders_def all_sides)

lemma fresh_id_match:
  assumes "fresh_id i B"
  shows "fresh_id i (spec_match cmd B)"
  unfolding fresh_id_def
proof (intro allI ballI)
  fix sd x assume "x \<in> set (spec_match cmd B sd)"
  then obtain y where "y \<in> set (B sd)" "o_order_id x = o_order_id y"
    using ids_after_match by blast
  with assms show "o_order_id x < i" by (auto simp: fresh_id_def)
qed

lemma add_to_book_abs:
  assumes wf: "book_wf ob" and fresh: "fresh_id (c_order_id cmd) (abs_book ob)"
    and left: "left \<noteq> 0"
  shows "abs_book (add_to_book cmd left ob) =
      (abs_book ob)(c_side cmd := queue_behind (residual cmd left) (abs_book ob (c_side cmd)))"
    and "ob_market_id (add_to_book cmd left ob) = ob_market_id ob"
    and "book_wf (add_to_book cmd left ob)"
proof -
  have "\<forall>x\<in>set (all_orders ob). o_order_id x < c_order_id cmd"
    using fresh by (simp add: fresh_id_all_orders)
  note law = add_to_book_refines [OF wf this left]
  show "abs_book (add_to_book cmd left ob) =
      (abs_book ob)(c_side cmd := queue_behind (residual cmd left) (abs_book ob (c_side cmd)))"
  proof
    fix sd
    show "abs_book (add_to_book cmd left ob) sd = ((abs_book ob)
        (c_side cmd := queue_behind (residual cmd left) (abs_book ob (c_side cmd)))) sd"
      using law(1,2) by (cases sd; cases "c_side cmd") (auto simp: abs_book_def side_orders_def)
  qed
  show "ob_market_id (add_to_book cmd left ob) = ob_market_id ob"
    "book_wf (add_to_book cmd left ob)" by (rule law(3), rule law(4))
qed

lemma residual_with_events [simp]: "residual (with_events es cmd) left = residual cmd left"
  by (simp add: residual_def)

lemma add_to_book_with_events: "add_to_book (with_events es cmd) left ob = add_to_book cmd left ob"
  by (cases "c_side cmd") (simp_all add: add_to_book_def)

lemma place_by_tif_refines:
  assumes wf: "book_wf ob" and fresh: "fresh_id (c_order_id cmd) (abs_book ob)"
    and sz: "c_size cmd \<noteq> 0" and vol: "volume (abs_book ob (op_side (c_side cmd))) < 2 ^ 64"
    and spec: "spec_place cmd (abs_book ob) = (st, left, es, B')"
  shows "\<exists>ob'. place_by_tif ob cmd =
      Some (ob', set_size left (set_status st (with_events es cmd))) \<and>
    abs_book ob' = B' \<and> ob_market_id ob' = ob_market_id ob \<and> book_wf ob'"
proof -
  let ?B = "abs_book ob"
  from match_order_abs [OF wf, of cmd] obtain ob1 where m: "match_order ob cmd =
      Some (spec_left cmd ?B, ob1, with_events (spec_fills cmd ?B) cmd)"
    "abs_book ob1 = spec_match cmd ?B" "ob_market_id ob1 = ob_market_id ob" "book_wf ob1" by blast
  show ?thesis
  proof (cases "c_time_in_force cmd")
    case Gtc
    have fresh1: "fresh_id (c_order_id cmd) (abs_book ob1)"
      using fresh m(2) by (simp add: fresh_id_match)
    show ?thesis
    proof (cases "spec_left cmd ?B = 0")
      case True
      with spec m sz show ?thesis
        by (auto simp: place_by_tif_def place_gtc_def Gtc spec_place_def)
    next
      case False
      note add = add_to_book_abs [OF m(4) fresh1 False]
      have "0 < spec_left cmd ?B" using False by (simp add: word_gt_0)
      with False spec m add show ?thesis
        by (auto simp: place_by_tif_def place_gtc_def Gtc spec_place_def Let_def
            add_to_book_with_events)
    qed
  next
    case Fok
    have "place_by_tif ob cmd = Some (if spec_fillable cmd ?B
        then (ob1, set_size 0 (set_status Filled (with_events (spec_fills cmd ?B) cmd)))
        else (ob, set_status Cancelled cmd))"
      using m(1) can_fill_completely_spec [OF wf sz vol] spec_left_0_iff [of cmd ?B]
      by (cases "spec_fillable cmd ?B") (simp_all add: place_by_tif_def place_fok_def Fok)
    moreover have "set_status Cancelled cmd = set_size (c_size cmd) (set_status Cancelled cmd)"
      by (simp add: setter_defs)
    ultimately show ?thesis
      using spec m wf by (cases "spec_fillable cmd ?B") (auto simp: spec_place_def Fok Let_def)
  next
    case Ioc
    with spec m show ?thesis
      by (auto simp: place_by_tif_def place_ioc_def spec_place_def Let_def split: if_splits)
  qed
qed

text \<open>The price cache reports the first price of each side, or the side's sentinel.\<close>

definition top_price :: "side \<Rightarrow> order list \<Rightarrow> u64" where
  "top_price sd os =
     (case os of ord # _ \<Rightarrow> o_price ord | [] \<Rightarrow> (case sd of Ask \<Rightarrow> u64_MAX | Bid \<Rightarrow> 0))"

lemma best_price_top:
  assumes "book_wf ob"
  shows "best_price sd (side_levels sd ob) = top_price sd (abs_book ob sd)"
proof (cases "side_levels sd ob")
  case Nil
  then show ?thesis
    by (simp add: best_price_def top_price_def abs_book_def side_orders_def)
next
  case (Cons y t)
  obtain p l where y: "y = (p, l)" by fastforce
  from book_levels [OF assms, of sd] have "lv_orders l \<noteq> []" "\<forall>x\<in>set (lv_orders l). o_price x = p"
    by (auto simp: Cons y all_levels_wf_def no_empty_level_def level_wf_def)
  then show ?thesis
    by (cases "lv_orders l")
      (simp_all add: best_price_def top_price_def abs_book_def side_orders_def Cons y)
qed

definition quoted :: "u32 \<Rightarrow> abstract_book \<Rightarrow> price_cache \<Rightarrow> price_cache" where
  "quoted m B pc = pc(m \<mapsto> \<lparr>best_bid = top_price Bid (B Bid), best_ask = top_price Ask (B Ask)\<rparr>)"

lemma update_price_cache_quoted:
  assumes "book_wf ob" "ob_market_id ob \<in> dom pc"
  shows "update_price_cache ob pc = Some (quoted (ob_market_id ob) (abs_book ob) pc)"
proof -
  obtain y where "pc (ob_market_id ob) = Some y" using assms(2) by blast
  moreover obtain b a where "y = \<lparr>best_bid = b, best_ask = a\<rparr>" by (rule market_price.cases)
  ultimately show ?thesis
    using best_price_top [OF assms(1), of Bid] best_price_top [OF assms(1), of Ask]
    by (simp add: update_price_cache_def update_prices_def quoted_def)
qed

text \<open>A market sell reports the price of the first event of its command.\<close>

definition reported_price :: "order_command \<Rightarrow> u64" where
  "reported_price cmd =
     (if c_price cmd = 0 \<and> c_side cmd = Ask
      then (case events_list (c_events cmd) of e # _ \<Rightarrow> e_price e | [] \<Rightarrow> 0)
      else c_price cmd)"

lemma place_order_abs:
  assumes wf: "book_wf ob" and fresh: "fresh_id (c_order_id cmd) (abs_book ob)"
    and sz: "c_size cmd \<noteq> 0" and vol: "volume (abs_book ob (op_side (c_side cmd))) < 2 ^ 64"
    and status: "c_status cmd \<noteq> Rejected" and market: "ob_market_id ob \<in> dom pc"
    and spec: "spec_place cmd (abs_book ob) = (st, left, es, B')"
  shows "\<exists>ob' cmd'. place_order now ob cmd pc = Some (ob', cmd', quoted (ob_market_id ob) B' pc) \<and>
    abs_book ob' = B' \<and> ob_market_id ob' = ob_market_id ob \<and> book_wf ob' \<and>
    c_status cmd' = st \<and> c_size cmd' = left \<and>
    events_list (c_events cmd') = events_list (c_events cmd) @ es \<and>
    cmd' = record_snapshot now ob' (cmd\<lparr>c_status := st, c_size := left,
      c_events := c_events (with_events es cmd), c_price := reported_price (with_events es cmd)\<rparr>)"
proof -
  from place_by_tif_refines [OF wf fresh sz vol spec] obtain ob' where run:
    "place_by_tif ob cmd = Some (ob', set_size left (set_status st (with_events es cmd)))"
    "abs_book ob' = B'" "ob_market_id ob' = ob_market_id ob" "book_wf ob'" by blast
  have with_ev: "with_events es cmd = cmd\<lparr>c_events := c_events (with_events es cmd)\<rparr>"
    by (rule order_command.equality) simp_all
  let ?cmd = "set_size left (set_status st (with_events es cmd))"
  let ?priced = "if c_price ?cmd = 0 \<and> c_side ?cmd = Ask then
      (case c_events ?cmd of Some ev \<Rightarrow> set_price (e_price (chain_head ev)) ?cmd | None \<Rightarrow> ?cmd)
    else ?cmd"
  have priced: "?priced = cmd\<lparr>c_status := st, c_size := left,
      c_events := c_events (with_events es cmd), c_price := reported_price (with_events es cmd)\<rparr>"
    by (rule order_command.equality; cases "c_events (with_events es cmd)")
      (auto simp: setter_defs reported_price_def hd_chain_list [symmetric] neq_Nil_conv
        split: list.splits)
  have "place_order now ob cmd pc =
      Some (ob', record_snapshot now ob' ?priced, quoted (ob_market_id ob) B' pc)"
    using status run(1) update_price_cache_quoted [OF run(4), of pc] market run(2,3)
    by (simp add: place_order_def Let_def)
  with run(2-4) show ?thesis unfolding priced
    by (simp add: record_snapshot_def Let_def)
qed

section \<open>Cancelling refines its specification\<close>

definition without :: "u64 \<Rightarrow> order list \<Rightarrow> order list" where
  "without i os = filter (\<lambda>x. o_order_id x \<noteq> i) os"

definition spec_cancel :: "u64 \<Rightarrow> abstract_book \<Rightarrow> abstract_book" where
  "spec_cancel i B = (\<lambda>sd. without i (B sd))"

definition upd_level :: "u64 \<Rightarrow> price_level \<Rightarrow> levels \<Rightarrow> levels" where
  "upd_level p l' t = filter (\<lambda>(q, m). q = p \<longrightarrow> lv_orders m \<noteq> [])
     (map (\<lambda>(q, m). (q, if q = p then l' else m)) t)"

lemma map_of_replace:
  "map_of t p = Some l \<Longrightarrow>
   map_of (map (\<lambda>(q, m). (q, if q = p then l' else m)) t) = (map_of t)(p \<mapsto> l')"
proof
  fix k assume l: "map_of t p = Some l"
  have "map_of (map (\<lambda>(q, m). (q, if q = p then l' else m)) t) k =
      map_option (\<lambda>m. if k = p then l' else m) (map_of t k)"
    by (induction t) auto
  with l show "map_of (map (\<lambda>(q, m). (q, if q = p then l' else m)) t) k = ((map_of t)(p \<mapsto> l')) k"
    by (cases "map_of t k") auto
qed

lemma fst_replace: "map fst (map (\<lambda>(q, m). (q, f q m)) t) = map fst t"
  by (induction t) auto

lemma resting_upd_level:
  assumes "\<forall>(q, m)\<in>set t. lv_orders (if q = p then l' else m) = without i (lv_orders m)"
  shows "resting (upd_level p l' t) = without i (resting t)"
  using assms by (induction t) (auto simp: upd_level_def without_def split: if_splits)

context book_side
begin

lemma write_and_clean:
  assumes srt: "keys_sorted lt (iter s)" and l: "map_of (iter s) p = Some l"
  shows "iter (remove_level_if_empty p (store_level p l' s)) = upd_level p l' (iter s)"
proof (rule sorted_unique)
  let ?s = "store_level p l' s"
  have s: "map_of (iter ?s) = (map_of (iter s))(p \<mapsto> l')" "keys_sorted lt (iter ?s)"
    using write_law [OF srt] by auto
  show "keys_sorted lt (iter (remove_level_if_empty p ?s))"
    using remove_law [OF s(2)] by blast
  have rep: "keys_sorted lt (map (\<lambda>(q, m). (q, if q = p then l' else m)) (iter s))"
    using srt by (simp add: keys_sorted_def fst_replace del: map_map)
  then show "keys_sorted lt (upd_level p l' (iter s))"
    unfolding upd_level_def by (rule keys_sorted_filter)
  show "map_of (iter (remove_level_if_empty p ?s)) = map_of (upd_level p l' (iter s))"
  proof
    fix k
    show "map_of (iter (remove_level_if_empty p ?s)) k = map_of (upd_level p l' (iter s)) k"
      using remove_law [OF s(2), of p] s(1)
        map_of_filter_sorted [OF rep, of "\<lambda>q m. q = p \<longrightarrow> lv_orders m \<noteq> []" k]
      unfolding upd_level_def map_of_replace [OF l]
      by (auto split: option.split)
  qed
qed

text \<open>Cancelling one order of a level.\<close>

lemma cancel_at_level:
  assumes wf: "levels_wf lt sd (iter s)" and x: "x \<in> set (resting (iter s))"
    and d: "distinct (map o_order_id (resting (iter s)))"
  shows "\<exists>l l'. get_level_mut (o_price x) s = Some l \<and>
    remove_order (o_order_id x) l cmd = (l', copy_order_to_command x cmd) \<and>
    levels_wf lt sd (iter (remove_level_if_empty (o_price x) (store_level (o_price x) l' s))) \<and>
    resting (iter (remove_level_if_empty (o_price x) (store_level (o_price x) l' s))) =
      without (o_order_id x) (resting (iter s))"
proof -
  let ?p = "o_price x" and ?i = "o_order_id x"
  have srt: "keys_sorted lt (iter s)" using wf by (simp add: levels_wf_def)
  from resting_at [OF wf x] obtain l where l: "map_of (iter s) ?p = Some l" "x \<in> set (lv_orders l)"
    by blast
  then have wfl: "level_wf sd ?p l" using wf by (auto simp: levels_wf_def)
  from l(2) obtain xs ys where at: "lv_orders l = xs @ x # ys" by (auto simp: in_set_conv_decomp)
  let ?l' = "l\<lparr>total_volume := total_volume l - o_size x, lv_orders := xs @ ys\<rparr>"
  have mem: "y \<in> set (resting (iter s))" if "(q, m) \<in> set (iter s)" "y \<in> set (lv_orders m)" for q m y
    using that by (auto simp: resting_def)
  have uniq: "y = x" if "y \<in> set (resting (iter s))" "o_order_id y = ?i" for y
    using that x d by (auto simp: distinct_map inj_on_def)
  have here: "xs @ ys = without ?i (lv_orders l)"
  proof -
    have srt_l: "sorted_wrt (<) (map o_order_id (lv_orders l))" using wfl by (simp add: level_wf_def)
    then have "\<forall>y\<in>set (xs @ ys). o_order_id y \<noteq> ?i"
      by (auto simp: at sorted_wrt_append)
    then have "filter (\<lambda>x. o_order_id x \<noteq> ?i) (xs @ ys) = xs @ ys" by (rule filter_all)
    then show ?thesis by (simp add: without_def at)
  qed
  have each: "\<forall>(q, m)\<in>set (iter s). lv_orders (if q = ?p then ?l' else m) = without ?i (lv_orders m)"
  proof (clarify)
    fix q m assume qm: "(q, m) \<in> set (iter s)"
    show "lv_orders (if q = ?p then ?l' else m) = without ?i (lv_orders m)"
    proof (cases "q = ?p")
      case True
      then have "m = l" using map_of_is_SomeI [OF distinct_keys [OF srt] qm] l(1) by simp
      with True here show ?thesis by simp
    next
      case False
      have "o_order_id y \<noteq> ?i" if "y \<in> set (lv_orders m)" for y
      proof
        assume "o_order_id y = ?i"
        with uniq mem [OF qm that] have "y = x" by blast
        moreover have "level_wf sd q m"
          using wf map_of_is_SomeI [OF distinct_keys [OF srt] qm] by (simp add: levels_wf_def)
        ultimately show False using that False by (simp add: level_wf_def)
      qed
      with False show ?thesis by (simp add: without_def)
    qed
  qed
  have rem: "set (lv_orders ?l') = set (lv_orders l) - {y. y = x}"
    using here uniq mem [OF map_of_SomeD [OF l(1)]] by (auto simp: without_def)
  have "levels_wf lt sd (iter (remove_level_if_empty ?p (store_level ?p ?l' s)))"
    by (rule remove_order_law(1) [OF wf l(1) level_wf_remove [OF wfl at] rem]) simp
  moreover have "resting (iter (remove_level_if_empty ?p (store_level ?p ?l' s))) =
      without ?i (resting (iter s))"
    unfolding write_and_clean [OF srt l(1)] by (rule resting_upd_level [OF each])
  ultimately show ?thesis
    using remove_order_present [OF wfl at refl] get_level_law l(1) by auto
qed

end

end
