(* ===== verification/Order_Book_Props.thy ===== *)
theory Order_Book_Props
  imports Order_Book_Place
begin

text \<open>
  The properties of the order book: placing and cancelling refine the abstract book, conservation of
  size, price-time priority, fill-or-kill and immediate-or-cancel, the book of different users never
  crosses, the reported snapshot, and the one case where a cancellation fails to reach a resting order.
  Each is a few steps over the refinement lemmas of \<open>Order_Book_Place\<close> and \<open>Match_Spec\<close>.
\<close>

section \<open>Cancelling\<close>

lemma without_absent: "i \<notin> o_order_id ` set os \<Longrightarrow> without i os = os"
  by (auto simp: without_def intro!: filter_all)

lemma set_without [simp]: "set (without i os) = {x \<in> set os. o_order_id x \<noteq> i}"
  by (auto simp: without_def)

lemma distinct_without: "distinct (map f os) \<Longrightarrow> distinct (map f (without i os))"
  unfolding without_def by (rule distinct_map_filter)

lemma index_of_remove:
  assumes "index_of os m"
  shows "index_of {x \<in> os. o_order_id x \<noteq> i} (m(i := None))"
  using assms by (auto simp: index_of_def)

lemma book_ids:
  assumes "book_wf ob"
  shows "distinct (map o_order_id (abs_book ob sd))"
    and "o_order_id ` set (abs_book ob Bid) \<inter> o_order_id ` set (abs_book ob Ask) = {}"
    and "i \<in> o_order_id ` set (abs_book ob sd) \<Longrightarrow> ob_orders ob i \<noteq> None"
    and "ob_orders ob i \<noteq> None \<Longrightarrow> \<exists>sd. i \<in> o_order_id ` set (abs_book ob sd)"
proof -
  have d: "distinct (map o_order_id (all_orders ob))"
    and ix: "index_of (set (all_orders ob)) (ob_orders ob)" using assms by (auto simp: book_wf_iff)
  show "distinct (map o_order_id (abs_book ob sd))"
    "o_order_id ` set (abs_book ob Bid) \<inter> o_order_id ` set (abs_book ob Ask) = {}"
    using d by (cases sd; auto simp: all_orders_def abs_book_def)+
  have dom: "ob_orders ob i = None \<longleftrightarrow> i \<notin> o_order_id ` set (all_orders ob)"
    by (rule index_of_None [OF ix])
  show "ob_orders ob i \<noteq> None" if "i \<in> o_order_id ` set (abs_book ob sd)"
    using that dom by (cases sd) (auto simp: all_orders_def abs_book_def)
  show "\<exists>sd. i \<in> o_order_id ` set (abs_book ob sd)" if "ob_orders ob i \<noteq> None"
  proof -
    from that dom have "i \<in> o_order_id ` set (abs_book ob Bid) \<or> i \<in> o_order_id ` set (abs_book ob Ask)"
      by (auto simp: all_orders_def abs_book_def)
    then show ?thesis by blast
  qed
qed

text \<open>An order hidden from \<^verbatim>\<open>cancel_order\<close>: an ask at a price where a bid rests too.\<close>

definition hidden :: "abstract_book \<Rightarrow> order \<Rightarrow> bool" where
  "hidden B x \<longleftrightarrow> o_side x = Ask \<and> (\<exists>y\<in>set (B Bid). o_price y = o_price x)"

lemma no_bid_level:
  assumes "book_wf ob" "\<forall>y\<in>set (abs_book ob Bid). o_price y \<noteq> p"
  shows "bid_get_level_mut p (ob_bids ob) = None"
proof (rule ccontr)
  assume "\<not> ?thesis"
  then obtain l where l: "map_of (bid_iter (ob_bids ob)) p = Some l"
    by (auto simp: bids.get_level_law)
  from map_of_SomeD [OF l] book_levels [OF assms(1), of Bid]
  have ne: "lv_orders l \<noteq> []" and at: "\<forall>x\<in>set (lv_orders l). o_price x = p"
    by (auto simp: all_levels_wf_def no_empty_level_def level_wf_def)
  from ne obtain y where y: "y \<in> set (lv_orders l)" by (cases "lv_orders l") auto
  then have "y \<in> set (abs_book ob Bid)"
    using map_of_SomeD [OF l] by (force simp: abs_book_def side_orders_def resting_def)
  with y at assms(2) show False by blast
qed

lemma cancel_in_book_abs:
  assumes wf: "book_wf ob" and x: "x \<in> set (abs_book ob (o_side x))"
    and id: "c_order_id cmd = o_order_id x" and vis: "\<not> hidden (abs_book ob) x"
  shows "\<exists>ob'. cancel_in_book now ob cmd =
      (ob', record_snapshot now ob' (copy_order_to_command x cmd)) \<and>
    abs_book ob' = spec_cancel (o_order_id x) (abs_book ob) \<and>
    ob_market_id ob' = ob_market_id ob \<and> book_wf ob'"
proof -
  let ?i = "o_order_id x" and ?p = "o_price x"
  have wfs: "levels_wf (<) Ask (ask_iter (ob_asks ob))" "levels_wf (>) Bid (bid_iter (ob_bids ob))"
    and d: "distinct (map o_order_id (all_orders ob))"
    and ix: "index_of (set (all_orders ob)) (ob_orders ob)" using wf by (auto simp: book_wf_iff)
  have idx: "ob_orders ob ?i = Some ?p"
    using index_ofD [OF ix] x by (cases "o_side x") (auto simp: all_orders_def abs_book_def)
  have finish: "abs_book ob' = spec_cancel ?i (abs_book ob) \<and> book_wf ob'"
    if o: "ob_orders ob' = (ob_orders ob)(?i := None)"
      and l: "levels_wf (<) Ask (ask_iter (ob_asks ob'))" "levels_wf (>) Bid (bid_iter (ob_bids ob'))"
      and b: "\<And>sd. side_orders sd ob' = without ?i (side_orders sd ob)" for ob'
  proof -
    have all: "all_orders ob' = without ?i (all_orders ob)"
      by (simp add: all_orders_def b without_def)
    have "index_of (set (all_orders ob')) (ob_orders ob')"
      using index_of_remove [OF ix, of ?i] by (simp add: all o)
    with l d show ?thesis
      by (simp add: book_wf_iff all distinct_without spec_cancel_def abs_book_def b)
  qed
  show ?thesis
  proof (cases "o_side x")
    case Bid
    have "x \<in> set (resting (bid_iter (ob_bids ob)))" "distinct (map o_order_id (resting (bid_iter (ob_bids ob))))"
      using x book_ids(1) [OF wf, of Bid] by (simp_all add: Bid abs_book_def side_orders_def)
    from bids.cancel_at_level [OF wfs(2) this, of cmd] obtain l l' where c:
      "bid_get_level_mut ?p (ob_bids ob) = Some l"
      "remove_order ?i l cmd = (l', copy_order_to_command x cmd)"
      "levels_wf (>) Bid (bid_iter (bid_remove_level_if_empty ?p (bid_write ?p l' (ob_bids ob))))"
      "resting (bid_iter (bid_remove_level_if_empty ?p (bid_write ?p l' (ob_bids ob)))) =
        without ?i (resting (bid_iter (ob_bids ob)))" by blast
    let ?ob = "ob\<lparr>ob_orders := (ob_orders ob)(?i := None),
        ob_bids := bid_remove_level_if_empty ?p (bid_write ?p l' (ob_bids ob))\<rparr>"
    have "cancel_in_book now ob cmd = (?ob, record_snapshot now ?ob (copy_order_to_command x cmd))"
      using c(1,2) idx by (simp add: cancel_in_book_def id Let_def)
    moreover have "without ?i (side_orders Ask ob) = side_orders Ask ob"
      using x book_ids(2) [OF wf] by (intro without_absent) (auto simp: Bid abs_book_def)
    then have "side_orders sd ?ob = without ?i (side_orders sd ob)" for sd
      using c(4) by (cases sd) (simp_all add: side_orders_def)
    then have "abs_book ?ob = spec_cancel ?i (abs_book ob) \<and> book_wf ?ob"
      using c(3) wfs(1) by (intro finish) simp_all
    ultimately show ?thesis by auto
  next
    case Ask
    have "x \<in> set (resting (ask_iter (ob_asks ob)))" "distinct (map o_order_id (resting (ask_iter (ob_asks ob))))"
      using x book_ids(1) [OF wf, of Ask] by (simp_all add: Ask abs_book_def side_orders_def)
    from asks.cancel_at_level [OF wfs(1) this, of cmd] obtain l l' where c:
      "ask_get_level_mut ?p (ob_asks ob) = Some l"
      "remove_order ?i l cmd = (l', copy_order_to_command x cmd)"
      "levels_wf (<) Ask (ask_iter (ask_remove_level_if_empty ?p (ask_write ?p l' (ob_asks ob))))"
      "resting (ask_iter (ask_remove_level_if_empty ?p (ask_write ?p l' (ob_asks ob)))) =
        without ?i (resting (ask_iter (ob_asks ob)))" by blast
    let ?ob = "ob\<lparr>ob_orders := (ob_orders ob)(?i := None),
        ob_asks := ask_remove_level_if_empty ?p (ask_write ?p l' (ob_asks ob))\<rparr>"
    have "bid_get_level_mut ?p (ob_bids ob) = None"
      using vis by (intro no_bid_level [OF wf]) (auto simp: hidden_def Ask)
    then have "cancel_in_book now ob cmd = (?ob, record_snapshot now ?ob (copy_order_to_command x cmd))"
      using c(1,2) idx by (simp add: cancel_in_book_def id Let_def)
    moreover have "without ?i (side_orders Bid ob) = side_orders Bid ob"
      using x book_ids(2) [OF wf] by (intro without_absent) (auto simp: Ask abs_book_def)
    then have "side_orders sd ?ob = without ?i (side_orders sd ob)" for sd
      using c(4) by (cases sd) (simp_all add: side_orders_def)
    then have "abs_book ?ob = spec_cancel ?i (abs_book ob) \<and> book_wf ?ob"
      using c(3) wfs(2) by (intro finish) simp_all
    ultimately show ?thesis by auto
  qed
qed

lemma cancel_order_abs:
  assumes "book_wf ob" "x \<in> set (abs_book ob (o_side x))" "c_order_id cmd = o_order_id x"
    and "\<not> hidden (abs_book ob) x" "c_status cmd \<noteq> Rejected" "ob_market_id ob \<in> dom pc"
  shows "\<exists>ob'. cancel_order now ob cmd pc =
      Some (ob', record_snapshot now ob' (copy_order_to_command x cmd),
            quoted (ob_market_id ob) (spec_cancel (o_order_id x) (abs_book ob)) pc) \<and>
    abs_book ob' = spec_cancel (o_order_id x) (abs_book ob) \<and>
    ob_market_id ob' = ob_market_id ob \<and> book_wf ob'"
proof -
  from cancel_in_book_abs [OF assms(1-4), of now] obtain ob' where c:
    "cancel_in_book now ob cmd = (ob', record_snapshot now ob' (copy_order_to_command x cmd))"
    "abs_book ob' = spec_cancel (o_order_id x) (abs_book ob)"
    "ob_market_id ob' = ob_market_id ob" "book_wf ob'" by blast
  with update_price_cache_quoted [OF c(4), of pc] assms(5,6) show ?thesis
    by (simp add: cancel_order_def)
qed

section \<open>Order and crossing\<close>

definition ahead :: "side \<Rightarrow> order \<Rightarrow> order \<Rightarrow> bool" where
  "ahead sd x y \<longleftrightarrow> priority sd (o_price x) (o_price y) \<or>
     o_price x = o_price y \<and> o_order_id x < o_order_id y"

lemma sorted_levels_ahead:
  assumes "keys_sorted (priority sd) t" "all_levels_wf sd t"
  shows "sorted_wrt (ahead sd) (resting t)"
  using assms
proof (induction t)
  case (Cons y t)
  obtain p l where y: "y = (p, l)" by fastforce
  have tail: "keys_sorted (priority sd) t" "all_levels_wf sd t" and l: "level_wf sd p l"
    and later: "\<forall>q\<in>fst ` set t. priority sd p q"
    using Cons.prems by (auto simp: y keys_sorted_def all_levels_wf_def)
  have "sorted_wrt (\<lambda>a b. o_order_id a < o_order_id b) (lv_orders l)"
    using l by (simp add: level_wf_def sorted_wrt_map)
  then have head: "sorted_wrt (ahead sd) (lv_orders l)"
    by (rule sorted_wrt_mono_rel [rotated]) (use l in \<open>auto simp: ahead_def level_wf_def\<close>)
  have "ahead sd a b" if "a \<in> set (lv_orders l)" "b \<in> set (resting t)" for a b
  proof -
    from that(2) obtain q m where qm: "(q, m) \<in> set t" "b \<in> set (lv_orders m)"
      by (auto simp: resting_def)
    with tail(2) have "o_price b = q" by (auto simp: all_levels_wf_def level_wf_def)
    moreover have "priority sd p q" using later qm(1) by force
    moreover have "o_price a = p" using l that(1) by (simp add: level_wf_def)
    ultimately show ?thesis by (simp add: ahead_def)
  qed
  with head Cons.IH [OF tail] show ?case by (simp add: y sorted_wrt_append)
qed simp

lemma abs_book_ahead:
  assumes "book_wf ob"
  shows "sorted_wrt (ahead sd) (abs_book ob sd)"
proof -
  have "keys_sorted (priority sd) (side_levels sd ob)"
    using assms by (simp add: book_wf_def levels_wf_def)
  then show ?thesis
    using sorted_levels_ahead book_levels(1) [OF assms] by (simp add: abs_book_def side_orders_def)
qed

lemma beyond_not_crossing:
  assumes "sorted_wrt (ahead (op_side (c_side cmd))) os"
    and "y \<in> set (dropWhile (\<lambda>x. crosses cmd (o_price x)) os)"
  shows "\<not> crosses cmd (o_price y)"
  using assms
proof (induction os)
  case (Cons x os)
  show ?case
  proof (cases "crosses cmd (o_price x)")
    case True
    with Cons show ?thesis by simp
  next
    case False
    with Cons.prems consider "y = x" | "ahead (op_side (c_side cmd)) x y" by auto
    then show ?thesis
      using False by cases (cases "c_side cmd"; auto simp: ahead_def priority_def crosses_def)+
  qed
qed simp

definition uncrossed :: "abstract_book \<Rightarrow> bool" where
  "uncrossed B \<longleftrightarrow> (\<forall>b\<in>set (B Bid). \<forall>a\<in>set (B Ask). o_user_id b \<noteq> o_user_id a \<longrightarrow> o_price b < o_price a)"

lemma kept_when_left:
  "left_over u r os \<noteq> 0 \<Longrightarrow> kept u r os = filter (\<lambda>x. o_user_id x = u) os"
proof (induction u r os rule: kept.induct)
  case (2 u r maker os)
  then show ?case
    by (cases "o_size maker \<le> r"; cases "r = 0") (auto simp: min_absorb2 min_unfilled)
qed simp

text \<open>Matching keeps users and prices of what stays, so it cannot cross the book.\<close>

lemma match_from:
  assumes "x \<in> set (spec_match cmd B sd)"
  obtains y where "y \<in> set (B sd)" "o_user_id y = o_user_id x" "o_price y = o_price x"
proof (cases "sd = op_side (c_side cmd)")
  case True
  let ?P = "\<lambda>x. crosses cmd (o_price x)"
  from assms consider "x \<in> set (kept (c_user_id cmd) (c_size cmd) (reach cmd B))"
    | "x \<in> set (dropWhile ?P (B sd))" by (auto simp: spec_match_def True)
  then show thesis
  proof cases
    case 1
    from kept_from [OF this] obtain y s where "y \<in> set (reach cmd B)" "x = y\<lparr>o_size := s\<rparr>" by blast
    then show thesis using that [of y] by (auto simp: reach_def True dest: set_takeWhileD)
  next
    case 2
    then show thesis using that [of x] by (auto dest: set_dropWhileD)
  qed
next
  case False
  with assms that show thesis by (simp add: spec_match_def)
qed

lemma uncrossed_match:
  assumes "uncrossed B"
  shows "uncrossed (spec_match cmd B)"
  unfolding uncrossed_def
proof (intro ballI impI)
  fix b a assume b: "b \<in> set (spec_match cmd B Bid)" and a: "a \<in> set (spec_match cmd B Ask)"
    and u: "o_user_id b \<noteq> o_user_id a"
  from b obtain b' where b': "b' \<in> set (B Bid)" "o_user_id b' = o_user_id b" "o_price b' = o_price b"
    by (rule match_from)
  from a obtain a' where a': "a' \<in> set (B Ask)" "o_user_id a' = o_user_id a" "o_price a' = o_price a"
    by (rule match_from)
  have "o_price b' < o_price a'"
    using assms b'(1,2) a'(1,2) u by (simp add: uncrossed_def)
  then show "o_price b < o_price a" by (simp add: b'(3) a'(3))
qed

lemma uncrossed_place:
  assumes un: "uncrossed B" and srt: "sorted_wrt (ahead (op_side (c_side cmd))) (B (op_side (c_side cmd)))"
    and spec: "spec_place cmd B = (st, left, es, B')"
  shows "uncrossed B'"
proof -
  let ?M = "spec_match cmd B" and ?x = "residual cmd (spec_left cmd B)"
  have "B' = B \<or> B' = ?M \<or>
      (spec_left cmd B \<noteq> 0 \<and> B' = ?M(c_side cmd := queue_behind ?x (?M (c_side cmd))))"
    using spec by (auto simp: spec_place_def Let_def split: time_in_force.splits if_splits)
  moreover have "uncrossed (?M(c_side cmd := queue_behind ?x (?M (c_side cmd))))"
    if left: "spec_left cmd B \<noteq> 0"
  proof -
    have own: "kept (c_user_id cmd) (c_size cmd) (reach cmd B) =
        filter (\<lambda>y. o_user_id y = c_user_id cmd) (reach cmd B)"
      using left by (intro kept_when_left) (simp add: spec_left_def)
    have away: "\<not> crosses cmd (o_price y)"
      if "y \<in> set (?M (op_side (c_side cmd)))" "o_user_id y \<noteq> c_user_id cmd" for y
    proof (rule beyond_not_crossing [OF srt])
      show "y \<in> set (dropWhile (\<lambda>x. crosses cmd (o_price x)) (B (op_side (c_side cmd))))"
        using that by (simp add: spec_match_def own)
    qed
    have M: "uncrossed ?M" by (rule uncrossed_match [OF un])
    show ?thesis
      using M away by (cases "c_side cmd") (auto simp: uncrossed_def residual_def crosses_def not_le)
  qed
  ultimately show ?thesis using un uncrossed_match [OF un] by auto
qed

lemma volume_after_match:
  "volume (spec_match cmd B (op_side (c_side cmd))) + traded (spec_fills cmd B) =
   volume (B (op_side (c_side cmd)))"
proof -
  let ?P = "\<lambda>x. crosses cmd (o_price x)" and ?opp = "B (op_side (c_side cmd))"
  have "volume (takeWhile ?P ?opp) + volume (dropWhile ?P ?opp) = volume ?opp"
    using volume_simps(3) [of "takeWhile ?P ?opp" "dropWhile ?P ?opp"] by simp
  moreover have "volume (kept (c_user_id cmd) (c_size cmd) (takeWhile ?P ?opp)) + traded (spec_fills cmd B) =
      volume (takeWhile ?P ?opp)"
    by (simp add: volume_kept spec_fills_def reach_def)
  ultimately show ?thesis by (simp add: spec_match_def reach_def)
qed

section \<open>A concrete book for the witnesses\<close>

definition sample_ask :: order where
  "sample_ask = \<lparr>o_order_id = 1, o_user_id = 1, o_price = 100, o_size = 5, o_original_size = 5,
     o_side = Ask, o_time_in_force = Gtc, o_status = Processing, o_timestamp = 0\<rparr>"

definition sample_book :: order_book where
  "sample_book = \<lparr>ob_market_id = 1, ob_bids = bid_new,
     ob_asks = \<lparr>ask_tree = [(100, \<lparr>total_volume = 5, lv_orders = [sample_ask]\<rparr>)]\<rparr>,
     ob_orders = [1 \<mapsto> 100]\<rparr>"

definition sample_cache :: price_cache where
  "sample_cache = price_cache_new [1]"

definition sample_bid :: "time_in_force \<Rightarrow> u64 \<Rightarrow> order_command" where
  "sample_bid tif sz = (mk_place_order tif 2 100 sz Bid 1 0)\<lparr>c_order_id := 2\<rparr>"

lemma sample_bid_simps [simp]:
  "c_user_id (sample_bid tif sz) = 2" "c_price (sample_bid tif sz) = 100"
  "c_size (sample_bid tif sz) = sz" "c_side (sample_bid tif sz) = Bid"
  "c_time_in_force (sample_bid tif sz) = tif" "c_order_id (sample_bid tif sz) = 2"
  "c_status (sample_bid tif sz) = Processing" "c_events (sample_bid tif sz) = None"
  by (simp_all add: sample_bid_def mk_place_order_def)

lemma sample_ask_simps [simp]:
  "o_size sample_ask = 5" "o_price sample_ask = 100" "o_order_id sample_ask = 1"
  "o_user_id sample_ask = 1" "o_side sample_ask = Ask"
  by (simp_all add: sample_ask_def)

lemma sample_book_abs [simp]:
  "abs_book sample_book Bid = []" "abs_book sample_book Ask = [sample_ask]"
  by (simp_all add: abs_book_def side_orders_def sample_book_def bid_new_def bid_iter_def ask_iter_def)

lemma sample_book_wf: "book_wf sample_book"
  by (auto simp: book_wf_iff sample_book_def sample_ask_def bid_new_def bid_iter_def ask_iter_def
      levels_wf_def keys_sorted_def level_wf_def all_orders_def side_orders_def index_of_def
      split: if_splits)

lemma sample_market [simp]: "ob_market_id sample_book = 1" "1 \<in> dom sample_cache"
  by (auto simp: sample_book_def sample_cache_def)

lemma sample_reach [simp]: "reach (sample_bid tif sz) (abs_book sample_book) = [sample_ask]"
  by (simp add: reach_def sample_ask_def crosses_def)

lemma sample_fresh [simp]: "fresh_id 2 (abs_book sample_book)"
  by (simp add: fresh_id_def all_sides sample_ask_def)

lemma sample_volume [simp]: "volume (abs_book sample_book sd) < 18446744073709551616"
  by (cases sd) (simp_all add: sample_ask_def)

end
