(* ===== verification/Matching_Router.thy ===== *)
theory Matching_Router
  imports Order_Book_Props
begin

text \<open>
  The matching engine router of \<^verbatim>\<open>processors/src/matching_engine.rs\<close>: the books of the markets of one
  shard, and the dispatch of a command to the book of its market. A panic of the order book, or of
  \<^verbatim>\<open>new\<close> on a shard count that is not a power of two, is \<open>None\<close>. \<^verbatim>\<open>router_handler\<close> is the closure
  \<^verbatim>\<open>build_engine\<close> of \<^verbatim>\<open>server/src/engine.rs\<close> wraps around a router.
\<close>

definition u64_count_ones :: "u64 \<Rightarrow> nat" where
  "u64_count_ones w = length (filter (bit w) [0..<64])"

record matching_router =
  mr_order_books :: "u32 \<rightharpoonup> order_book"
  mr_shard_id :: u32
  mr_shard_mask :: u64

definition router_new :: "u32 \<Rightarrow> u64 \<Rightarrow> matching_router option" where
  "router_new shard_id num_shards =
     (if u64_count_ones num_shards \<noteq> 1 then None
      else Some \<lparr>mr_order_books = Map.empty, mr_shard_id = shard_id, mr_shard_mask = num_shards - 1\<rparr>)"

definition add_market :: "u32 \<Rightarrow> matching_router \<Rightarrow> matching_router" where
  "add_market market_id mr =
     mr\<lparr>mr_order_books := (mr_order_books mr)(market_id \<mapsto> order_book_new bid_new ask_new market_id)\<rparr>"

definition market_for_this_handler :: "matching_router \<Rightarrow> u64 \<Rightarrow> bool" where
  "market_for_this_handler mr market_id \<longleftrightarrow>
     mr_shard_mask mr = 0 \<or> market_id AND mr_shard_mask mr = ucast (mr_shard_id mr)"

definition process_order ::
    "u64 \<Rightarrow> matching_router \<Rightarrow> order_command \<Rightarrow> price_cache \<Rightarrow>
     (matching_router \<times> order_command \<times> price_cache) option" where
  "process_order now mr cmd pc =
     (if market_for_this_handler mr (ucast (c_market_id cmd)) then
        (case mr_order_books mr (c_market_id cmd) of
           Some ob \<Rightarrow>
             map_option (\<lambda>(ob, cmd', pc).
                 (mr\<lparr>mr_order_books := (mr_order_books mr)(c_market_id cmd \<mapsto> ob)\<rparr>, cmd', pc))
               (case c_command cmd of
                  PlaceOrder \<Rightarrow> place_order now ob cmd pc
                | CancelOrder \<Rightarrow> cancel_order now ob cmd pc
                | _ \<Rightarrow> Some (ob, cmd, pc))
         | None \<Rightarrow> Some (mr, set_status Rejected cmd, pc))
      else Some (mr, cmd, pc))"

definition get_orderbook :: "matching_router \<Rightarrow> u32 \<Rightarrow> order_book option" where
  "get_orderbook mr market_id = mr_order_books mr market_id"

definition router_default :: "matching_router option" where
  "router_default = router_new 0 1"

definition router_handler ::
    "u64 \<Rightarrow> matching_router \<Rightarrow> order_command \<Rightarrow> price_cache \<Rightarrow>
     (matching_router \<times> order_command \<times> price_cache) option" where
  "router_handler now mr cmd pc =
     (if c_command cmd = DepositFunds \<or> c_command cmd = WithdrawFunds \<or> c_status cmd = Rejected
      then Some (mr, cmd, pc)
      else process_order now mr cmd pc)"

section \<open>Routing\<close>

lemma router_handler_foreign:
  "\<not> market_for_this_handler mr (ucast (c_market_id cmd)) \<Longrightarrow> router_handler now mr cmd pc = Some (mr, cmd, pc)"
  by (simp add: router_handler_def process_order_def)

lemma set_user_keeps [simp]:
  "c_market_id (set_status s cmd) = c_market_id cmd" "c_command (set_status s cmd) = c_command cmd"
  by (simp_all add: set_status_def)

text \<open>The books of a router are well formed, are the books of the markets they stand for, and the
  price cache has an entry for each of them.\<close>

definition router_wf :: "matching_router \<Rightarrow> price_cache \<Rightarrow> bool" where
  "router_wf mr pc \<longleftrightarrow> (\<forall>m ob. mr_order_books mr m = Some ob \<longrightarrow>
     book_wf ob \<and> ob_market_id ob = m \<and> m \<in> dom pc)"

section \<open>A command stays in its market\<close>

lemma match_orders_market:
  "match_orders p i os vol st = (os', rem, vol', st') \<Longrightarrow> c_market_id (m_cmd st') = c_market_id (m_cmd st)"
proof (induction os arbitrary: i vol st os' rem vol' st')
  case (Cons maker rest)
  then show ?case
    by (auto simp: Let_def attach_event_def split: if_splits prod.splits option.splits dest!: Cons.IH)
qed simp

lemma match_level_market:
  "match_level p l st = Some (l', st') \<Longrightarrow> c_market_id (m_cmd st') = c_market_id (m_cmd st)"
  by (auto simp: match_level_def split: prod.splits option.splits dest!: match_orders_market)

lemma match_levels_market:
  "match_levels chk t st = Some (t', filled, st') \<Longrightarrow> c_market_id (m_cmd st') = c_market_id (m_cmd st)"
proof (induction t arbitrary: st t' filled st')
  case (Cons y rest)
  obtain p l where y: "y = (p, l)" by (rule prod.exhaust)
  show ?case
  proof (cases "\<not> chk p \<or> m_remaining st = 0")
    case True
    then show ?thesis using Cons.prems by (simp add: y)
  next
    case False
    then obtain l1 st1 t1 f1 where "match_level p l st = Some (l1, st1)"
      "match_levels chk rest st1 = Some (t1, f1, st')"
      using Cons.prems by (auto simp: y split: option.splits)
    then show ?thesis using match_level_market Cons.IH by metis
  qed
qed simp

lemma match_order_market:
  "match_order ob cmd = Some (r, ob', cmd') \<Longrightarrow> c_market_id cmd' = c_market_id cmd"
  by (auto simp: match_order_def Let_def split: if_splits option.splits prod.splits dest!: match_levels_market)

lemma setters_market [simp]:
  "c_market_id (set_size s cmd) = c_market_id cmd" "c_market_id (set_price p cmd) = c_market_id cmd"
  "c_market_id (set_user_id u cmd) = c_market_id cmd" "c_market_id (set_side d cmd) = c_market_id cmd"
  "c_market_id (record_snapshot now ob cmd) = c_market_id cmd"
  by (simp_all add: set_size_def set_price_def set_user_id_def set_side_def record_snapshot_def Let_def)

lemma place_by_tif_market:
  "place_by_tif ob cmd = Some (ob', cmd') \<Longrightarrow> c_market_id cmd' = c_market_id cmd"
  by (auto simp: place_by_tif_def place_gtc_def place_fok_def place_ioc_def
      split: time_in_force.splits option.splits prod.splits if_splits dest!: match_order_market)

lemma place_order_market:
  "place_order now ob cmd pc = Some (ob', cmd', pc') \<Longrightarrow> c_market_id cmd' = c_market_id cmd"
  by (auto simp: place_order_def Let_def split: if_splits option.splits prod.splits dest!: place_by_tif_market)

lemma remove_order_market: "remove_order i l cmd = (l', cmd') \<Longrightarrow> c_market_id cmd' = c_market_id cmd"
  by (auto simp: remove_order_def split: option.splits prod.splits)

lemma cancel_order_market:
  "cancel_order now ob cmd pc = Some (ob', cmd', pc') \<Longrightarrow> c_market_id cmd' = c_market_id cmd"
  by (auto simp: cancel_order_def cancel_in_book_def Let_def
      split: if_splits option.splits prod.splits dest!: remove_order_market)

lemma router_handler_frame:
  assumes "router_handler now mr cmd pc = Some (mr', cmd', pc')"
  shows "mr_shard_id mr' = mr_shard_id mr \<and> mr_shard_mask mr' = mr_shard_mask mr \<and> c_market_id cmd' = c_market_id cmd"
  using assms
  by (auto simp: router_handler_def process_order_def split: if_splits option.splits order_command_type.splits
      dest!: place_order_market cancel_order_market)

end
