(* ===== verification/Balance_Store.thy ===== *)
theory Balance_Store
  imports Market_Spec
begin

text \<open>
  The balance store of \<^verbatim>\<open>common/src/user_profile.rs\<close>: a hash map from (user, asset) to a balance, and
  its five movements of funds. Every movement first obtains the entry with \<^verbatim>\<open>entry(key).or_default()\<close>,
  so even a refused one leaves a zero balance behind under a key that had none.

  The five movements share one contract, the locale \<open>funds_operation\<close>: a guard on the balance decides
  between success and error, success rewrites one balance, an error changes none, and the sum of a
  user's funds moves by a known amount. Each movement is an interpretation of it.
\<close>

record balance_key =
  bk_user_id :: u64
  bk_asset_id :: u16

datatype balance_error =
  InsufficientAvailableFunds u64 u64 \<comment> \<open>available, needed\<close>
| InsufficientLockedFunds u64 u64 \<comment> \<open>locked, needed\<close>
| Overflow
| UserAssetNotFound u64 u16

type_synonym balance_store = "balance_key \<rightharpoonup> user_balance"

definition balance_key_new :: "u64 \<Rightarrow> u16 \<Rightarrow> balance_key" where
  "balance_key_new user_id asset_id = \<lparr>bk_user_id = user_id, bk_asset_id = asset_id\<rparr>"

definition balance_store_new :: balance_store where
  "balance_store_new = Map.empty"

definition get_balance :: "balance_store \<Rightarrow> u64 \<Rightarrow> u16 \<Rightarrow> user_balance" where
  "get_balance st user_id asset_id =
     (case st (balance_key_new user_id asset_id) of Some b \<Rightarrow> b | None \<Rightarrow> balance_default)"

definition try_get_balance :: "balance_store \<Rightarrow> u64 \<Rightarrow> u16 \<Rightarrow> balance_error + user_balance" where
  "try_get_balance st user_id asset_id =
     ok_or (UserAssetNotFound user_id asset_id) (st (balance_key_new user_id asset_id))"

text \<open>
  The mutable reference \<^verbatim>\<open>get_balance_mut\<close> returns: the store with the entry made, and the balance read
  through it. Writing through the reference is \<open>put_balance\<close>.
\<close>

definition get_balance_mut ::
    "u64 \<Rightarrow> u16 \<Rightarrow> balance_store \<Rightarrow> user_balance \<times> balance_store" where
  "get_balance_mut user_id asset_id st =
     (let key = balance_key_new user_id asset_id;
          b = (case st key of Some b \<Rightarrow> b | None \<Rightarrow> balance_default)
      in (b, st(key \<mapsto> b)))"

definition put_balance :: "u64 \<Rightarrow> u16 \<Rightarrow> user_balance \<Rightarrow> balance_store \<Rightarrow> balance_store" where
  "put_balance user_id asset_id b st = st(balance_key_new user_id asset_id \<mapsto> b)"

definition lock_funds ::
    "u64 \<Rightarrow> u16 \<Rightarrow> u64 \<Rightarrow> balance_store \<Rightarrow> (balance_error + unit) \<times> balance_store" where
  "lock_funds user_id asset_id amount st =
     (let (b, st) = get_balance_mut user_id asset_id st
      in if amount \<le> available b
         then (Inr (), put_balance user_id asset_id
                 (b\<lparr>available := available b - amount, locked := locked b + amount\<rparr>) st)
         else (Inl (InsufficientAvailableFunds (available b) amount), st))"

definition unlock_funds ::
    "u64 \<Rightarrow> u16 \<Rightarrow> u64 \<Rightarrow> balance_store \<Rightarrow> (balance_error + unit) \<times> balance_store" where
  "unlock_funds user_id asset_id amount st =
     (let (b, st) = get_balance_mut user_id asset_id st
      in if amount \<le> locked b
         then (Inr (), put_balance user_id asset_id
                 (b\<lparr>locked := locked b - amount, available := available b + amount\<rparr>) st)
         else (Inl (InsufficientLockedFunds (locked b) amount), st))"

definition add_funds ::
    "u64 \<Rightarrow> u16 \<Rightarrow> u64 \<Rightarrow> balance_store \<Rightarrow> (balance_error + user_balance) \<times> balance_store" where
  "add_funds user_id asset_id amount st =
     (let (b, st) = get_balance_mut user_id asset_id st
      in case checked_add (available b) amount of
           None \<Rightarrow> (Inl Overflow, st)
         | Some a \<Rightarrow> (let b = b\<lparr>available := a\<rparr> in (Inr b, put_balance user_id asset_id b st)))"

definition subtract_funds ::
    "u64 \<Rightarrow> u16 \<Rightarrow> u64 \<Rightarrow> balance_store \<Rightarrow> (balance_error + user_balance) \<times> balance_store" where
  "subtract_funds user_id asset_id amount st =
     (let (b, st) = get_balance_mut user_id asset_id st
      in if amount \<le> available b
         then (let b = b\<lparr>available := available b - amount\<rparr>
               in (Inr b, put_balance user_id asset_id b st))
         else (Inl (InsufficientAvailableFunds (available b) amount), st))"

definition subtract_locked_funds ::
    "u64 \<Rightarrow> u16 \<Rightarrow> u64 \<Rightarrow> balance_store \<Rightarrow> (balance_error + user_balance) \<times> balance_store" where
  "subtract_locked_funds user_id asset_id amount st =
     (let (b, st) = get_balance_mut user_id asset_id st
      in if amount \<le> locked b
         then (let b = b\<lparr>locked := locked b - amount\<rparr>
               in (Inr b, put_balance user_id asset_id b st))
         else (Inl (InsufficientLockedFunds (locked b) amount), st))"

section \<open>Reading a store\<close>

lemma balance_key_new_inject [simp]:
  "balance_key_new u a = balance_key_new v b \<longleftrightarrow> u = v \<and> a = b"
  by (simp add: balance_key_new_def)

lemma get_balance_put [simp]:
  "get_balance (put_balance u a b st) v c = (if v = u \<and> c = a then b else get_balance st v c)"
  by (auto simp: get_balance_def put_balance_def)

lemma get_balance_mut_fst [simp]: "fst (get_balance_mut u a st) = get_balance st u a"
  by (simp add: get_balance_mut_def get_balance_def Let_def)

lemma get_balance_mut_snd [simp]:
  "get_balance (snd (get_balance_mut u a st)) v c = get_balance st v c"
  by (auto simp: get_balance_mut_def get_balance_def Let_def)

lemma get_balance_mut_snd_put [simp]:
  "put_balance u a b (snd (get_balance_mut u a st)) = put_balance u a b st"
  by (simp add: get_balance_mut_def put_balance_def Let_def)

text \<open>The funds of a balance, and of the users of a set in one asset, as integers.\<close>

definition funds :: "user_balance \<Rightarrow> int" where
  "funds b = int (unat (available b)) + int (unat (locked b))"

definition funds_of :: "balance_store \<Rightarrow> u64 set \<Rightarrow> u16 \<Rightarrow> int" where
  "funds_of st U a = (\<Sum>u\<in>U. funds (get_balance st u a))"

text \<open>A balance whose total fits 64 bits; then no movement between its two halves wraps.\<close>

definition solvent :: "user_balance \<Rightarrow> bool" where
  "solvent b \<longleftrightarrow> unat (available b) + unat (locked b) < 2 ^ 64"

lemma int_add_less_2p64: "(x + y < (2::nat) ^ 64) = (int x + int y < 2 ^ 64)"
  by auto

lemma solvent_iff_funds: "solvent b \<longleftrightarrow> funds b < 2 ^ 64"
  unfolding solvent_def funds_def by (rule int_add_less_2p64)

definition store_solvent :: "balance_store \<Rightarrow> bool" where
  "store_solvent st \<longleftrightarrow> (\<forall>u a. solvent (get_balance st u a))"

section \<open>The shared contract\<close>

locale funds_operation =
  fixes opr :: "u64 \<Rightarrow> u16 \<Rightarrow> u64 \<Rightarrow> balance_store \<Rightarrow> (balance_error + 'r) \<times> balance_store"
    and guard :: "user_balance \<Rightarrow> u64 \<Rightarrow> bool"
    and safe :: "user_balance \<Rightarrow> u64 \<Rightarrow> bool"
    and effect :: "user_balance \<Rightarrow> u64 \<Rightarrow> user_balance"
    and delta :: "u64 \<Rightarrow> int"
  assumes succeeds: "guard (get_balance st u a) n \<Longrightarrow>
      \<exists>r. opr u a n st = (Inr r, put_balance u a (effect (get_balance st u a) n) st)"
    and refuses: "\<not> guard (get_balance st u a) n \<Longrightarrow>
      \<exists>e. opr u a n st = (Inl e, snd (get_balance_mut u a st))"
    and moves: "guard b n \<Longrightarrow> safe b n \<Longrightarrow> funds (effect b n) = funds b + delta n"
begin

lemma ok_iff: "(\<exists>r. fst (opr u a n st) = Inr r) \<longleftrightarrow> guard (get_balance st u a) n"
  using succeeds [of st u a n] refuses [of st u a n]
  by (cases "guard (get_balance st u a) n") fastforce+

lemma error_iff: "(\<exists>e. fst (opr u a n st) = Inl e) \<longleftrightarrow> \<not> guard (get_balance st u a) n"
  using succeeds [of st u a n] refuses [of st u a n]
  by (cases "guard (get_balance st u a) n") fastforce+

lemma balance_after:
  "get_balance (snd (opr u a n st)) v c =
     (if v = u \<and> c = a \<and> guard (get_balance st u a) n
      then effect (get_balance st u a) n else get_balance st v c)"
  using succeeds [of st u a n] refuses [of st u a n]
  by (cases "guard (get_balance st u a) n") fastforce+

lemma error_changes_nothing:
  "fst (opr u a n st) = Inl e \<Longrightarrow> get_balance (snd (opr u a n st)) v c = get_balance st v c"
  using error_iff [of u a n st] by (auto simp: balance_after)

lemma frame:
  "v \<noteq> u \<or> c \<noteq> a \<Longrightarrow> get_balance (snd (opr u a n st)) v c = get_balance st v c"
  by (auto simp: balance_after)

lemma funds_of_after:
  assumes "finite U" "u \<in> U" "guard (get_balance st u a) n" "safe (get_balance st u a) n"
  shows "funds_of (snd (opr u a n st)) U a = funds_of st U a + delta n"
proof -
  have "funds_of (snd (opr u a n st)) U a =
      funds (effect (get_balance st u a) n) + (\<Sum>v\<in>U - {u}. funds (get_balance st v a))"
    using assms(1-3) unfolding funds_of_def
    by (subst sum.remove [of U u]) (auto simp: balance_after intro!: sum.cong)
  moreover have "funds_of st U a =
      funds (get_balance st u a) + (\<Sum>v\<in>U - {u}. funds (get_balance st v a))"
    unfolding funds_of_def by (rule sum.remove [OF assms(1,2)])
  ultimately show ?thesis using moves [OF assms(3,4)] by simp
qed

lemma funds_of_other_asset: "c \<noteq> a \<Longrightarrow> funds_of (snd (opr u a n st)) U c = funds_of st U c"
  by (simp add: funds_of_def frame)

end

section \<open>The five movements keep it\<close>

interpretation lock: funds_operation lock_funds
  "\<lambda>b n. n \<le> available b" "\<lambda>b n. solvent b"
  "\<lambda>b n. b\<lparr>available := available b - n, locked := locked b + n\<rparr>" "\<lambda>n. 0"
proof
  fix b :: user_balance and n :: u64
  assume "n \<le> available b" "solvent b"
  then have "unat (locked b + n) = unat (locked b) + unat n"
    by (intro unat_add_no_overflow) (auto simp: solvent_def word_le_nat_alt)
  with \<open>n \<le> available b\<close>
  show "funds (b\<lparr>available := available b - n, locked := locked b + n\<rparr>) = funds b + 0"
    by (simp add: funds_def unat_sub_no_underflow word_le_nat_alt)
qed (auto simp: lock_funds_def case_prod_unfold)

interpretation unlock: funds_operation unlock_funds
  "\<lambda>b n. n \<le> locked b" "\<lambda>b n. solvent b"
  "\<lambda>b n. b\<lparr>locked := locked b - n, available := available b + n\<rparr>" "\<lambda>n. 0"
proof
  fix b :: user_balance and n :: u64
  assume "n \<le> locked b" "solvent b"
  then have "unat (available b + n) = unat (available b) + unat n"
    by (intro unat_add_no_overflow) (auto simp: solvent_def word_le_nat_alt)
  with \<open>n \<le> locked b\<close>
  show "funds (b\<lparr>locked := locked b - n, available := available b + n\<rparr>) = funds b + 0"
    by (simp add: funds_def unat_sub_no_underflow word_le_nat_alt)
qed (auto simp: unlock_funds_def case_prod_unfold)

interpretation credit: funds_operation add_funds
  "\<lambda>b n. checked_add (available b) n \<noteq> None" "\<lambda>b n. True"
  "\<lambda>b n. b\<lparr>available := available b + n\<rparr>" "\<lambda>n. int (unat n)"
proof
  fix b :: user_balance and n :: u64
  assume "checked_add (available b) n \<noteq> None"
  then have "unat (available b + n) = unat (available b) + unat n"
    by (intro unat_add_no_overflow) (simp add: checked_add_def split: if_splits)
  then show "funds (b\<lparr>available := available b + n\<rparr>) = funds b + int (unat n)"
    by (simp add: funds_def)
qed (auto simp: add_funds_def case_prod_unfold Let_def checked_add_def split: if_splits)

interpretation debit: funds_operation subtract_funds
  "\<lambda>b n. n \<le> available b" "\<lambda>b n. True"
  "\<lambda>b n. b\<lparr>available := available b - n\<rparr>" "\<lambda>n. - int (unat n)"
  by standard
    (auto simp: subtract_funds_def case_prod_unfold Let_def funds_def unat_sub_no_underflow
      word_le_nat_alt)

interpretation debit_locked: funds_operation subtract_locked_funds
  "\<lambda>b n. n \<le> locked b" "\<lambda>b n. True"
  "\<lambda>b n. b\<lparr>locked := locked b - n\<rparr>" "\<lambda>n. - int (unat n)"
  by standard
    (auto simp: subtract_locked_funds_def case_prod_unfold Let_def funds_def unat_sub_no_underflow
      word_le_nat_alt)

section \<open>Solvency\<close>

text \<open>Four of the movements keep every total within 64 bits; \<open>add_funds\<close> alone can leave it.\<close>

locale solvent_operation = funds_operation +
  assumes keeps_solvent: "guard b n \<Longrightarrow> solvent b \<Longrightarrow> solvent (effect b n)"
begin

lemma store_solvent_after: "store_solvent st \<Longrightarrow> store_solvent (snd (opr u a n st))"
  by (auto simp: store_solvent_def balance_after keeps_solvent)

end

interpretation lock: solvent_operation lock_funds
  "\<lambda>b n. n \<le> available b" "\<lambda>b n. solvent b"
  "\<lambda>b n. b\<lparr>available := available b - n, locked := locked b + n\<rparr>" "\<lambda>n. 0"
proof
  fix b :: user_balance and n :: u64
  assume "n \<le> available b" "solvent b"
  with lock.moves [of n b]
  show "solvent (b\<lparr>available := available b - n, locked := locked b + n\<rparr>)"
    by (simp add: solvent_iff_funds)
qed

interpretation unlock: solvent_operation unlock_funds
  "\<lambda>b n. n \<le> locked b" "\<lambda>b n. solvent b"
  "\<lambda>b n. b\<lparr>locked := locked b - n, available := available b + n\<rparr>" "\<lambda>n. 0"
proof
  fix b :: user_balance and n :: u64
  assume "n \<le> locked b" "solvent b"
  with unlock.moves [of n b]
  show "solvent (b\<lparr>locked := locked b - n, available := available b + n\<rparr>)"
    by (simp add: solvent_iff_funds)
qed

interpretation debit: solvent_operation subtract_funds
  "\<lambda>b n. n \<le> available b" "\<lambda>b n. True"
  "\<lambda>b n. b\<lparr>available := available b - n\<rparr>" "\<lambda>n. - int (unat n)"
  by standard (auto simp: solvent_def unat_sub_no_underflow)

interpretation debit_locked: solvent_operation subtract_locked_funds
  "\<lambda>b n. n \<le> locked b" "\<lambda>b n. True"
  "\<lambda>b n. b\<lparr>locked := locked b - n\<rparr>" "\<lambda>n. - int (unat n)"
  by standard (auto simp: solvent_def unat_sub_no_underflow)

end
