(* ===== verification/Risk_Engine.thy ===== *)
theory Risk_Engine
  imports Balance_Store Price_Cache
begin

text \<open>
  The risk engine of \<^verbatim>\<open>processors/src/risk_engine.rs\<close>: the reservation of funds before matching (R1) and
  the settlement of trades and release of reservations after it (R2). A shard is the record of its
  balance store, the market specifications and its place among the shards; a method that locks the
  store's mutex takes the engine and returns it updated. An early return with \<^verbatim>\<open>?\<close> keeps what was
  written before it, so every function returns its engine also with an error.
\<close>

datatype risk_engine_error =
  UserNotFound u64
| MarketSpecNotFound u32
| InvalidArguments u64 u64
| InsufficientFunds u64 u64 u64
| UnsupportedCommand string
| BalanceError balance_error

record risk_engine =
  re_balances :: balance_store
  re_symbol_specs :: "u32 \<rightharpoonup> core_market_specification"
  re_shard_id :: u32
  re_shard_mask :: u64

definition count_ones :: "'a::len word \<Rightarrow> nat" where
  "count_ones w = length (filter (bit w) [0..<LENGTH('a)])"

definition risk_engine_new ::
    "(u32 \<rightharpoonup> core_market_specification) \<Rightarrow> u32 \<Rightarrow> u32 \<Rightarrow> risk_engine option" where
  "risk_engine_new specs shard_id num_shards =
     (if count_ones num_shards \<noteq> 1 then None
      else Some \<lparr>re_balances = balance_store_new, re_symbol_specs = specs, re_shard_id = shard_id,
                 re_shard_mask = ucast (num_shards - 1)\<rparr>)"

definition user_id_for_this_handler :: "risk_engine \<Rightarrow> u64 \<Rightarrow> bool" where
  "user_id_for_this_handler re user_id \<longleftrightarrow>
     user_id AND re_shard_mask re = ucast (re_shard_id re)"

text \<open>Running a store operation under the mutex, with \<^verbatim>\<open>?\<close> on its error.\<close>

definition on_store ::
    "(balance_store \<Rightarrow> (balance_error + 'r) \<times> balance_store) \<Rightarrow> risk_engine \<Rightarrow>
     (risk_engine_error + 'r) \<times> risk_engine" where
  "on_store f re =
     (case f (re_balances re) of
        (r, st) \<Rightarrow> (case r of Inl e \<Rightarrow> Inl (BalanceError e) | Inr x \<Rightarrow> Inr x, re\<lparr>re_balances := st\<rparr>))"

definition engine_balance :: "risk_engine \<Rightarrow> u64 \<Rightarrow> u16 \<Rightarrow> user_balance" where
  "engine_balance re user_id asset_id = get_balance (re_balances re) user_id asset_id"

definition engine_try_balance :: "risk_engine \<Rightarrow> u64 \<Rightarrow> u16 \<Rightarrow> risk_engine_error + user_balance" where
  "engine_try_balance re user_id asset_id =
     (case try_get_balance (re_balances re) user_id asset_id of
        Inl e \<Rightarrow> Inl (BalanceError e) | Inr b \<Rightarrow> Inr b)"

definition set_balance :: "u64 \<Rightarrow> u16 \<Rightarrow> user_balance \<Rightarrow> risk_engine \<Rightarrow> risk_engine" where
  "set_balance user_id asset_id b re =
     re\<lparr>re_balances := put_balance user_id asset_id b (snd (get_balance_mut user_id asset_id (re_balances re)))\<rparr>"

section \<open>Reservation (R1)\<close>

text \<open>The amount a bid locks; for a market buy the price it is based on is stored in the command.\<close>

definition bid_amount ::
    "risk_engine \<Rightarrow> order_command \<Rightarrow> price_cache \<Rightarrow> (risk_engine_error + u64) \<times> order_command" where
  "bid_amount re cmd pc =
     (case re_symbol_specs re (c_market_id cmd) of
        None \<Rightarrow> (Inl (MarketSpecNotFound (c_market_id cmd)), cmd)
      | Some spec \<Rightarrow>
          if c_price cmd = u64_MAX then
            (let best_ask = get_best_ask pc (c_market_id cmd)
             in if best_ask = u64_MAX then (Inl (InvalidArguments (c_price cmd) (c_size cmd)), cmd)
                else
                  (let slippage_adjustment =
                         (ucast ((ucast best_ask :: u128) * ucast (ms_slippage spec) div 10000) :: u64)
                   in case checked_add best_ask slippage_adjustment of
                        None \<Rightarrow> (Inl (BalanceError Overflow), cmd)
                      | Some conservative_price \<Rightarrow>
                          (let cmd = cmd\<lparr>c_price := conservative_price\<rparr>
                           in (Inr (calculate_quote_cost spec conservative_price (c_size cmd)), cmd))))
          else (Inr (calculate_quote_cost spec (c_price cmd) (c_size cmd)), cmd))"

definition reserve_funds_for_order ::
    "risk_engine \<Rightarrow> order_command \<Rightarrow> price_cache \<Rightarrow>
     (risk_engine_error + unit) \<times> risk_engine \<times> order_command" where
  "reserve_funds_for_order re cmd pc =
     (case c_side cmd of
        Bid \<Rightarrow>
          (case bid_amount re cmd pc of
             (Inl e, cmd) \<Rightarrow> (Inl e, re, cmd)
           | (Inr amount, cmd) \<Rightarrow>
               (case on_store (lock_funds (c_user_id cmd) (quote_asset (c_market_id cmd)) amount) re of
                  (r, re) \<Rightarrow> (r, re, cmd)))
      | Ask \<Rightarrow>
          (case on_store (lock_funds (c_user_id cmd) (base_asset (c_market_id cmd)) (c_size cmd)) re of
             (r, re) \<Rightarrow> (r, re, cmd)))"

definition handle_deposit :: "risk_engine \<Rightarrow> order_command \<Rightarrow> (risk_engine_error + unit) \<times> risk_engine" where
  "handle_deposit re cmd =
     (case on_store (add_funds (c_user_id cmd) (ucast (c_market_id cmd)) (c_size cmd)) re of
        (Inl e, re) \<Rightarrow> (Inl e, re) | (Inr _, re) \<Rightarrow> (Inr (), re))"

definition handle_withdrawal ::
    "risk_engine \<Rightarrow> order_command \<Rightarrow> (risk_engine_error + unit) \<times> risk_engine" where
  "handle_withdrawal re cmd =
     (case on_store (subtract_funds (c_user_id cmd) (ucast (c_market_id cmd)) (c_size cmd)) re of
        (Inl e, re) \<Rightarrow> (Inl e, re) | (Inr _, re) \<Rightarrow> (Inr (), re))"

text \<open>The balance snapshot \<^verbatim>\<open>cmd.balance[0]\<close> after a movement of funds.\<close>

definition record_balance0 :: "user_balance \<Rightarrow> order_command \<Rightarrow> order_command" where
  "record_balance0 b cmd = cmd\<lparr>c_balance := (b, snd (c_balance cmd))\<rparr>"

definition pre_process_command ::
    "risk_engine \<Rightarrow> order_command \<Rightarrow> price_cache \<Rightarrow> risk_engine \<times> order_command" where
  "pre_process_command re cmd pc =
     (if \<not> user_id_for_this_handler re (c_user_id cmd) then (re, cmd)
      else
        (case c_command cmd of
           PlaceOrder \<Rightarrow>
             (if re_symbol_specs re (c_market_id cmd) = None then (re, cmd\<lparr>c_status := Rejected\<rparr>)
              else
                (case reserve_funds_for_order re cmd pc of
                   (Inl _, re, cmd) \<Rightarrow> (re, set_status Rejected cmd)
                 | (Inr _, re, cmd) \<Rightarrow> (re, cmd)))
         | DepositFunds \<Rightarrow>
             (case handle_deposit re cmd of
                (Inr _, re) \<Rightarrow>
                  (re, set_status Processed
                         (record_balance0 (engine_balance re (c_user_id cmd) (ucast (c_market_id cmd))) cmd))
              | (Inl _, re) \<Rightarrow> (re, set_status Rejected cmd))
         | WithdrawFunds \<Rightarrow>
             (case handle_withdrawal re cmd of
                (Inr _, re) \<Rightarrow>
                  (re, set_status Processed
                         (record_balance0 (engine_balance re (c_user_id cmd) (ucast (c_market_id cmd))) cmd))
              | (Inl _, re) \<Rightarrow> (re, set_status Rejected cmd))
         | CancelOrder \<Rightarrow> (re, cmd)))"

section \<open>Settlement (R2)\<close>

definition trade_fee :: "core_market_specification \<Rightarrow> bool \<Rightarrow> u64" where
  "trade_fee spec is_maker = (if is_maker then ms_maker_fee spec else ms_taker_fee spec)"

text \<open>What a side spends and receives in a trade: assets, amount to subtract, amount to add.\<close>

definition trade_amounts ::
    "core_market_specification \<Rightarrow> u32 \<Rightarrow> side \<Rightarrow> u64 \<Rightarrow> u64 \<Rightarrow> u64 \<Rightarrow> u16 \<times> u64 \<times> u16 \<times> u64" where
  "trade_amounts spec market_id user_side fee price sz =
     (case user_side of
        Bid \<Rightarrow>
          (let quote_spent = calculate_quote_cost spec price sz;
               fee_in_base = (sz * fee) div 10000
           in (quote_asset market_id, quote_spent, base_asset market_id, sz - fee_in_base))
      | Ask \<Rightarrow>
          (let gross = calculate_quote_cost spec price sz;
               fee_in_quote = (gross * fee) div 10000
           in (base_asset market_id, sz, quote_asset market_id, gross - fee_in_quote)))"

text \<open>The refund of the taker's price improvement.\<close>

definition refund_improvement ::
    "risk_engine \<Rightarrow> u64 \<Rightarrow> u32 \<Rightarrow> side \<Rightarrow> trade_event \<Rightarrow> core_market_specification \<Rightarrow> u64 option \<Rightarrow>
     (risk_engine_error + unit) \<times> risk_engine" where
  "refund_improvement re user_id market_id user_side event spec taker_price =
     (case taker_price of
        Some limit_price \<Rightarrow>
          (if user_id \<noteq> e_maker_user_id event \<and> user_side = Bid \<and> e_price event < limit_price
           then on_store (unlock_funds user_id (quote_asset market_id)
                  (calculate_quote_cost spec (limit_price - e_price event) (e_size event))) re
           else (Inr (), re))
      | None \<Rightarrow> (Inr (), re))"

definition settle_trade ::
    "risk_engine \<Rightarrow> u64 \<Rightarrow> u32 \<Rightarrow> side \<Rightarrow> trade_event \<Rightarrow> core_market_specification \<Rightarrow> u64 option \<Rightarrow>
     (risk_engine_error + unit) \<times> risk_engine \<times> trade_event" where
  "settle_trade re user_id market_id user_side event spec taker_price =
     (let is_maker = (user_id = e_maker_user_id event);
          fee = trade_fee spec is_maker
      in case refund_improvement re user_id market_id user_side event spec taker_price of
           (Inl e, re) \<Rightarrow> (Inl e, re, event)
         | (Inr _, re) \<Rightarrow>
             (case trade_amounts spec market_id user_side fee (e_price event) (e_size event) of
                (asset_to_subtract, amount_to_subtract, asset_to_add, amount_to_add) \<Rightarrow>
                  (case on_store (subtract_locked_funds user_id asset_to_subtract amount_to_subtract) re of
                     (Inl e, re) \<Rightarrow> (Inl e, re, event)
                   | (Inr balance_sub, re) \<Rightarrow>
                       (case on_store (add_funds user_id asset_to_add amount_to_add) re of
                          (Inl e, re) \<Rightarrow> (Inl e, re, event)
                        | (Inr balance_add, re) \<Rightarrow>
                            (Inr (), re,
                             if is_maker then
                               event\<lparr>e_maker_balance :=
                                 (if asset_to_subtract = base_asset market_id
                                  then (balance_sub, balance_add) else (balance_add, balance_sub))\<rparr>
                             else event)))))"

definition handle_trade_event ::
    "risk_engine \<Rightarrow> u64 \<Rightarrow> u32 \<Rightarrow> side \<Rightarrow> trade_event \<Rightarrow> u64 option \<Rightarrow> risk_engine \<times> trade_event" where
  "handle_trade_event re user_id market_id user_side event taker_cmd =
     (case re_symbol_specs re market_id of
        None \<Rightarrow> (re, event)
      | Some spec \<Rightarrow>
          (case settle_trade re user_id market_id user_side event spec taker_cmd of
             (_, re, event) \<Rightarrow> (re, event)))"

definition release_funds_for_order ::
    "risk_engine \<Rightarrow> u64 \<Rightarrow> u32 \<Rightarrow> side \<Rightarrow> u64 \<Rightarrow> u64 \<Rightarrow> (risk_engine_error + unit) \<times> risk_engine" where
  "release_funds_for_order re user_id market_id sd price sz =
     (case re_symbol_specs re market_id of
        None \<Rightarrow> (Inl (MarketSpecNotFound market_id), re)
      | Some spec \<Rightarrow>
          (case sd of
             Bid \<Rightarrow> on_store (unlock_funds user_id (quote_asset market_id)
                      (calculate_quote_cost spec price sz)) re
           | Ask \<Rightarrow> on_store (unlock_funds user_id (base_asset market_id) sz) re))"

definition handle_cancellation :: "risk_engine \<Rightarrow> order_command \<Rightarrow> risk_engine" where
  "handle_cancellation re cmd =
     snd (release_funds_for_order re (c_user_id cmd) (c_market_id cmd) (c_side cmd) (c_price cmd) (c_size cmd))"

section \<open>Frames\<close>

lemma on_store_ok:
  "f (re_balances re) = (Inr x, st) \<Longrightarrow> on_store f re = (Inr x, re\<lparr>re_balances := st\<rparr>)"
  "f (re_balances re) = (Inl e, st) \<Longrightarrow> on_store f re = (Inl (BalanceError e), re\<lparr>re_balances := st\<rparr>)"
  by (simp_all add: on_store_def)

lemma on_store_frame [simp]:
  "re_symbol_specs (snd (on_store f re)) = re_symbol_specs re"
  "re_shard_id (snd (on_store f re)) = re_shard_id re"
  "re_shard_mask (snd (on_store f re)) = re_shard_mask re"
  "re_balances (snd (on_store f re)) = snd (f (re_balances re))"
  by (simp_all add: on_store_def split: prod.split sum.split)

definition same_shard :: "risk_engine \<Rightarrow> risk_engine \<Rightarrow> bool" where
  "same_shard re re' \<longleftrightarrow> re_symbol_specs re' = re_symbol_specs re \<and>
     re_shard_id re' = re_shard_id re \<and> re_shard_mask re' = re_shard_mask re"

lemma same_shard_refl [simp]: "same_shard re re"
  by (simp add: same_shard_def)

lemma same_shard_on_store: "on_store f re = (r, re') \<Longrightarrow> same_shard re re'"
  using on_store_frame [of f re] by (simp add: same_shard_def)

lemma same_shard_trans [trans]: "same_shard a b \<Longrightarrow> same_shard b c \<Longrightarrow> same_shard a c"
  by (simp add: same_shard_def)

text \<open>A method touches only the balances of the user it is called for.\<close>

definition only_user :: "u64 \<Rightarrow> risk_engine \<Rightarrow> risk_engine \<Rightarrow> bool" where
  "only_user u re re' \<longleftrightarrow> same_shard re re' \<and>
     (\<forall>v a. v \<noteq> u \<longrightarrow> engine_balance re' v a = engine_balance re v a)"

lemma only_user_refl [simp]: "only_user u re re"
  by (simp add: only_user_def)

lemma only_user_trans: "only_user u a b \<Longrightarrow> only_user u b c \<Longrightarrow> only_user u a c"
  by (auto simp: only_user_def intro: same_shard_trans)

lemma only_user_on_store:
  assumes "\<And>v c. v \<noteq> u \<Longrightarrow> get_balance (snd (f (re_balances re))) v c = get_balance (re_balances re) v c"
    and "on_store f re = (r, re')"
  shows "only_user u re re'"
  using assms same_shard_on_store [OF assms(2)] on_store_frame(4) [of f re]
  by (auto simp: only_user_def engine_balance_def)

lemma only_user_ops:
  "on_store (lock_funds u a n) re = (r1, re1) \<Longrightarrow> only_user u re re1"
  "on_store (unlock_funds u a n) re = (r2, re1) \<Longrightarrow> only_user u re re1"
  "on_store (add_funds u a n) re = (r3, re1) \<Longrightarrow> only_user u re re1"
  "on_store (subtract_funds u a n) re = (r4, re1) \<Longrightarrow> only_user u re re1"
  "on_store (subtract_locked_funds u a n) re = (r5, re1) \<Longrightarrow> only_user u re re1"
  by (rule only_user_on_store; simp add: lock.frame unlock.frame credit.frame debit.frame debit_locked.frame)+

lemma only_user_refund:
  "refund_improvement re u m sd e spec tp = (r, re') \<Longrightarrow> only_user u re re'"
  by (auto simp: refund_improvement_def split: option.splits if_splits dest: only_user_ops)

lemma only_user_settle:
  "settle_trade re u m sd e spec tp = (r, re', e') \<Longrightarrow> only_user u re re'"
  by (auto simp: settle_trade_def Let_def split: prod.splits sum.splits
      dest!: only_user_refund only_user_ops intro: only_user_trans)

lemma only_user_handle:
  "handle_trade_event re u m sd e tp = (re', e') \<Longrightarrow> only_user u re re'"
  by (auto simp: handle_trade_event_def split: option.splits prod.splits dest: only_user_settle)

lemma only_user_release:
  "release_funds_for_order re u m sd p s = (r, re') \<Longrightarrow> only_user u re re'"
  by (auto simp: release_funds_for_order_def split: option.splits side.splits dest: only_user_ops)

lemma only_user_cancellation: "only_user (c_user_id cmd) re (handle_cancellation re cmd)"
  using only_user_release by (metis handle_cancellation_def prod.collapse)

lemma only_user_reserve:
  "reserve_funds_for_order re cmd pc = (r, re', cmd') \<Longrightarrow> only_user (c_user_id cmd) re re'"
  by (auto simp: reserve_funds_for_order_def bid_amount_def Let_def
      split: side.splits prod.splits sum.splits option.splits if_splits dest!: only_user_ops)

end
