(* ===== verification/Settlement.thy ===== *)
theory Settlement
  imports Risk_Engine
begin

text \<open>
  The R2 stage: the handler the macro \<^verbatim>\<open>create_risk_r2_handler\<close> of \<^verbatim>\<open>server/src/utils.rs\<close> makes for one
  shard. It walks the chain of trade events, settles the maker and the taker of each when the shard
  owns them, releases what a cancelled or partly filled order no longer needs, and records the
  balances in the command. The second half is what a settlement does to balances: the law of one
  trade, and that a bid's reservation covers all its trades and the final release.
\<close>

section \<open>The handler\<close>

text \<open>\<^verbatim>\<open>(id & shard_mask) as usize == shard_id\<close>.\<close>

definition owned_by_shard :: "nat \<Rightarrow> u64 \<Rightarrow> u64 \<Rightarrow> bool" where
  "owned_by_shard shard shard_mask user_id \<longleftrightarrow> unat (user_id AND shard_mask) = shard"

definition settle_event ::
    "nat \<Rightarrow> u64 \<Rightarrow> u64 \<Rightarrow> u32 \<Rightarrow> side \<Rightarrow> u64 \<Rightarrow> risk_engine \<Rightarrow> trade_event \<Rightarrow> risk_engine \<times> trade_event" where
  "settle_event shard shard_mask taker_id market_id taker_side taker_price re event =
     (let maker_id = e_maker_user_id event;
          (re, event) =
            (if owned_by_shard shard shard_mask maker_id
             then handle_trade_event re maker_id market_id (op_side taker_side) event None
             else (re, event))
      in if owned_by_shard shard shard_mask taker_id
         then handle_trade_event re taker_id market_id taker_side event (Some taker_price)
         else (re, event))"

fun settle_chain ::
    "nat \<Rightarrow> u64 \<Rightarrow> u64 \<Rightarrow> u32 \<Rightarrow> side \<Rightarrow> u64 \<Rightarrow> risk_engine \<Rightarrow> event_chain \<Rightarrow> risk_engine \<times> event_chain" where
  "settle_chain shard shard_mask taker_id market_id taker_side taker_price re (Event event next) =
     (case settle_event shard shard_mask taker_id market_id taker_side taker_price re event of
        (re, event) \<Rightarrow>
          (case next of
             None \<Rightarrow> (re, Event event None)
           | Some c \<Rightarrow>
               (case settle_chain shard shard_mask taker_id market_id taker_side taker_price re c of
                  (re, c) \<Rightarrow> (re, Event event (Some c)))))"

definition should_handle_cancellation :: "order_command \<Rightarrow> bool" where
  "should_handle_cancellation cmd \<longleftrightarrow>
     c_status cmd = PartiallyFilled \<and> c_time_in_force cmd \<in> {Ioc, Fok} \<or> c_status cmd = Cancelled"

definition record_balances :: "risk_engine \<Rightarrow> u64 \<Rightarrow> u32 \<Rightarrow> order_command \<Rightarrow> order_command" where
  "record_balances re user_id market_id cmd =
     cmd\<lparr>c_balance := (engine_balance re user_id (base_asset market_id),
                      engine_balance re user_id (quote_asset market_id))\<rparr>"

definition r2_settle ::
    "nat \<Rightarrow> u64 \<Rightarrow> risk_engine \<Rightarrow> order_command \<Rightarrow> risk_engine \<times> order_command" where
  "r2_settle shard shard_mask re cmd =
     (let taker_id = c_user_id cmd; market_id = c_market_id cmd; taker_side = c_side cmd;
          taker_price = c_price cmd;
          (re, cmd) =
            (case c_events cmd of
               None \<Rightarrow> (re, cmd)
             | Some c \<Rightarrow>
                 (case settle_chain shard shard_mask taker_id market_id taker_side taker_price re c of
                    (re, c) \<Rightarrow> (re, cmd\<lparr>c_events := Some c\<rparr>)))
      in if owned_by_shard shard shard_mask taker_id
         then (let re = (if should_handle_cancellation cmd then handle_cancellation re cmd else re)
               in (re, record_balances re taker_id market_id cmd))
         else (re, cmd))"

definition r2_handler ::
    "nat \<Rightarrow> risk_engine list \<Rightarrow> order_command \<Rightarrow> (risk_engine list \<times> order_command) option" where
  "r2_handler shard engines cmd =
     (if c_status cmd = Rejected \<or> c_status cmd = Processed then Some (engines, cmd)
      else if length engines \<le> shard then None
      else (case r2_settle shard (of_nat (length engines) - 1) (engines ! shard) cmd of
              (re, cmd) \<Rightarrow> Some (engines[shard := re], cmd)))"

text \<open>The R1 handler of \<^verbatim>\<open>create_risk_handler\<close>.\<close>

definition r1_handler ::
    "nat \<Rightarrow> price_cache \<Rightarrow> risk_engine list \<Rightarrow> order_command \<Rightarrow> (risk_engine list \<times> order_command) option" where
  "r1_handler shard pc engines cmd =
     (if length engines \<le> shard then None
      else (case pre_process_command (engines ! shard) cmd pc of
              (re, cmd) \<Rightarrow> Some (engines[shard := re], cmd)))"

section \<open>The law of one trade\<close>

lemma store_after: "on_store f re = (r, re') \<Longrightarrow> re_balances re' = snd (f (re_balances re))"
  using on_store_frame(4) [of f re] by simp

lemma lock_balance:
  assumes "n \<le> available (engine_balance re u a)"
  obtains re' where "on_store (lock_funds u a n) re = (Inr (), re')" "only_user u re re'"
    "engine_balance re' u a = (engine_balance re u a)
       \<lparr>available := available (engine_balance re u a) - n, locked := locked (engine_balance re u a) + n\<rparr>"
    "\<And>c. c \<noteq> a \<Longrightarrow> engine_balance re' u c = engine_balance re u c"
proof -
  obtain r re' where run: "on_store (lock_funds u a n) re = (r, re')" by (rule prod.exhaust)
  have "r = Inr ()" using run assms lock.succeeds [where st = "re_balances re" and u = u and a = a and n = n]
    by (auto simp: on_store_def engine_balance_def)
  moreover note store_after [OF run]
  ultimately show thesis
    using that [of re'] run only_user_ops(1) [OF run] assms
    by (simp add: engine_balance_def lock.balance_after)
qed

lemma unlock_balance:
  assumes "n \<le> locked (engine_balance re u a)"
  obtains re' where "on_store (unlock_funds u a n) re = (Inr (), re')" "only_user u re re'"
    "engine_balance re' u a = (engine_balance re u a)
       \<lparr>locked := locked (engine_balance re u a) - n, available := available (engine_balance re u a) + n\<rparr>"
    "\<And>c. c \<noteq> a \<Longrightarrow> engine_balance re' u c = engine_balance re u c"
proof -
  obtain r re' where run: "on_store (unlock_funds u a n) re = (r, re')" by (rule prod.exhaust)
  have "r = Inr ()" using run assms unlock.succeeds [where st = "re_balances re" and u = u and a = a and n = n]
    by (auto simp: on_store_def engine_balance_def)
  moreover note store_after [OF run]
  ultimately show thesis
    using that [of re'] run only_user_ops(2) [OF run] assms
    by (simp add: engine_balance_def unlock.balance_after)
qed

lemma debit_locked_balance:
  assumes "n \<le> locked (engine_balance re u a)"
  obtains b re' where "on_store (subtract_locked_funds u a n) re = (Inr b, re')" "only_user u re re'"
    "engine_balance re' u a = (engine_balance re u a)\<lparr>locked := locked (engine_balance re u a) - n\<rparr>"
    "\<And>c. c \<noteq> a \<Longrightarrow> engine_balance re' u c = engine_balance re u c"
proof -
  obtain r re' where run: "on_store (subtract_locked_funds u a n) re = (r, re')" by (rule prod.exhaust)
  obtain b where "r = Inr b" using run assms
      debit_locked.succeeds [where st = "re_balances re" and u = u and a = a and n = n]
    by (auto simp: on_store_def engine_balance_def)
  moreover note store_after [OF run]
  ultimately show thesis
    using that [of b re'] run only_user_ops(5) [OF run] assms
    by (simp add: engine_balance_def debit_locked.balance_after)
qed

lemma debit_balance:
  assumes "n \<le> available (engine_balance re u a)"
  obtains b re' where "on_store (subtract_funds u a n) re = (Inr b, re')" "only_user u re re'"
    "engine_balance re' u a = (engine_balance re u a)\<lparr>available := available (engine_balance re u a) - n\<rparr>"
    "\<And>c. c \<noteq> a \<Longrightarrow> engine_balance re' u c = engine_balance re u c"
proof -
  obtain r re' where run: "on_store (subtract_funds u a n) re = (r, re')" by (rule prod.exhaust)
  obtain b where "r = Inr b" using run assms
      debit.succeeds [where st = "re_balances re" and u = u and a = a and n = n]
    by (auto simp: on_store_def engine_balance_def)
  moreover note store_after [OF run]
  ultimately show thesis
    using that [of b re'] run only_user_ops(4) [OF run] assms
    by (simp add: engine_balance_def debit.balance_after)
qed

lemma credit_balance:
  assumes "unat (available (engine_balance re u a)) + unat n < 2 ^ 64"
  obtains b re' where "on_store (add_funds u a n) re = (Inr b, re')" "only_user u re re'"
    "engine_balance re' u a = (engine_balance re u a)\<lparr>available := available (engine_balance re u a) + n\<rparr>"
    "\<And>c. c \<noteq> a \<Longrightarrow> engine_balance re' u c = engine_balance re u c"
proof -
  obtain r re' where run: "on_store (add_funds u a n) re = (r, re')" by (rule prod.exhaust)
  have g: "checked_add (available (get_balance (re_balances re) u a)) n \<noteq> None"
    using assms by (simp add: checked_add_def engine_balance_def)
  obtain b where "r = Inr b" using run credit.succeeds [OF g]
    by (auto simp: on_store_def)
  moreover note store_after [OF run]
  ultimately show thesis
    using that [of b re'] run only_user_ops(3) [OF run] g
    by (simp add: engine_balance_def credit.balance_after)
qed

text \<open>The refund of a trade: nothing, or the quote cost of the price improvement.\<close>

definition refund_of :: "core_market_specification \<Rightarrow> u64 \<Rightarrow> side \<Rightarrow> trade_event \<Rightarrow> u64 option \<Rightarrow> u64" where
  "refund_of spec user_id user_side event taker_price =
     (case taker_price of
        Some limit_price \<Rightarrow>
          if user_id \<noteq> e_maker_user_id event \<and> user_side = Bid \<and> e_price event < limit_price
          then calculate_quote_cost spec (limit_price - e_price event) (e_size event) else 0
      | None \<Rightarrow> 0)"

lemma refund_law:
  assumes "refund_of spec u sd e tp \<le> locked (engine_balance re u (quote_asset m))"
  obtains re' where "refund_improvement re u m sd e spec tp = (Inr (), re')" "only_user u re re'"
    "engine_balance re' u (quote_asset m) = (engine_balance re u (quote_asset m))
       \<lparr>locked := locked (engine_balance re u (quote_asset m)) - refund_of spec u sd e tp,
        available := available (engine_balance re u (quote_asset m)) + refund_of spec u sd e tp\<rparr>"
    "\<And>c. c \<noteq> quote_asset m \<Longrightarrow> engine_balance re' u c = engine_balance re u c"
proof (cases "\<exists>P. tp = Some P \<and> u \<noteq> e_maker_user_id e \<and> sd = Bid \<and> e_price e < P")
  case True
  then obtain P where P: "tp = Some P" "u \<noteq> e_maker_user_id e" "sd = Bid" "e_price e < P" by blast
  then have r: "refund_of spec u sd e tp = calculate_quote_cost spec (P - e_price e) (e_size e)"
    by (simp add: refund_of_def)
  from unlock_balance [OF assms [unfolded r]] P that show thesis
    unfolding r by (auto simp: refund_improvement_def)
next
  case False
  then have "refund_improvement re u m sd e spec tp = (Inr (), re)" "refund_of spec u sd e tp = 0"
    by (auto simp: refund_improvement_def refund_of_def split: option.split)
  with that [of re] show thesis by simp
qed

definition spends :: "core_market_specification \<Rightarrow> u32 \<Rightarrow> side \<Rightarrow> trade_event \<Rightarrow> u16 \<times> u64" where
  "spends spec m sd e =
     (case sd of Bid \<Rightarrow> (quote_asset m, calculate_quote_cost spec (e_price e) (e_size e))
               | Ask \<Rightarrow> (base_asset m, e_size e))"

definition receives :: "core_market_specification \<Rightarrow> u32 \<Rightarrow> side \<Rightarrow> bool \<Rightarrow> trade_event \<Rightarrow> u16 \<times> u64" where
  "receives spec m sd is_maker e =
     (case sd of
        Bid \<Rightarrow> (base_asset m, e_size e - (e_size e * trade_fee spec is_maker) div 10000)
      | Ask \<Rightarrow> (let gross = calculate_quote_cost spec (e_price e) (e_size e)
               in (quote_asset m, gross - (gross * trade_fee spec is_maker) div 10000)))"

lemma trade_amounts_eq:
  "trade_amounts spec m sd (trade_fee spec is_maker) (e_price e) (e_size e) =
     (fst (spends spec m sd e), snd (spends spec m sd e),
      fst (receives spec m sd is_maker e), snd (receives spec m sd is_maker e))"
  by (cases sd) (simp_all add: trade_amounts_def spends_def receives_def Let_def)

lemma settle_trade_law:
  fixes re :: risk_engine
  defines "b \<equiv> \<lambda>re u a. engine_balance re u a"
  assumes assets: "base_asset m \<noteq> quote_asset m"
    and refund: "refund_of spec u sd e tp \<le> locked (b re u (quote_asset m))"
    and enough: "snd (spends spec m sd e) \<le>
      locked (b re u (fst (spends spec m sd e))) - refund_of spec u sd e tp"
    and room: "unat (available (b re u (fst (receives spec m sd (u = e_maker_user_id e) e)))) +
      unat (snd (receives spec m sd (u = e_maker_user_id e) e)) < 2 ^ 64"
    and askref: "sd = Ask \<Longrightarrow> refund_of spec u sd e tp = 0"
  obtains re' e' where "settle_trade re u m sd e spec tp = (Inr (), re', e')" "only_user u re re'"
    "b re' u (fst (spends spec m sd e)) = (b re u (fst (spends spec m sd e)))
       \<lparr>locked := locked (b re u (fst (spends spec m sd e))) - refund_of spec u sd e tp
                  - snd (spends spec m sd e),
        available := available (b re u (fst (spends spec m sd e))) + refund_of spec u sd e tp\<rparr>"
    "b re' u (fst (receives spec m sd (u = e_maker_user_id e) e)) =
       (b re u (fst (receives spec m sd (u = e_maker_user_id e) e)))
       \<lparr>available := available (b re u (fst (receives spec m sd (u = e_maker_user_id e) e))) +
          snd (receives spec m sd (u = e_maker_user_id e) e)\<rparr>"
    "\<And>c. c \<noteq> base_asset m \<Longrightarrow> c \<noteq> quote_asset m \<Longrightarrow> b re' u c = b re u c"
proof -
  let ?mk = "u = e_maker_user_id e"
  let ?sa = "fst (spends spec m sd e)" and ?sn = "snd (spends spec m sd e)"
  let ?aa = "fst (receives spec m sd ?mk e)" and ?an = "snd (receives spec m sd ?mk e)"
  let ?rf = "refund_of spec u sd e tp"
  have diff: "?sa \<noteq> ?aa" and cases: "(?sa = quote_asset m \<and> ?aa = base_asset m) \<or>
      (?sa = base_asset m \<and> ?aa = quote_asset m \<and> ?rf = 0)"
    using assets askref by (cases sd; simp add: spends_def receives_def Let_def)+
  from refund_law [OF refund [unfolded b_def]] obtain re1 where r1:
    "refund_improvement re u m sd e spec tp = (Inr (), re1)" "only_user u re re1"
    "engine_balance re1 u (quote_asset m) = (engine_balance re u (quote_asset m))
       \<lparr>locked := locked (engine_balance re u (quote_asset m)) - ?rf,
        available := available (engine_balance re u (quote_asset m)) + ?rf\<rparr>"
    "\<And>c. c \<noteq> quote_asset m \<Longrightarrow> engine_balance re1 u c = engine_balance re u c" by blast
  have sa1: "engine_balance re1 u ?sa = (engine_balance re u ?sa)
       \<lparr>locked := locked (engine_balance re u ?sa) - ?rf,
        available := available (engine_balance re u ?sa) + ?rf\<rparr>"
    using cases r1(3,4) assets by auto
  have aa1: "engine_balance re1 u ?aa = engine_balance re u ?aa"
    using cases r1(3,4) assets by auto
  have "?sn \<le> locked (engine_balance re1 u ?sa)" using enough by (simp add: sa1 b_def)
  from debit_locked_balance [OF this] obtain b2 re2 where r2:
    "on_store (subtract_locked_funds u ?sa ?sn) re1 = (Inr b2, re2)" "only_user u re1 re2"
    "engine_balance re2 u ?sa = (engine_balance re1 u ?sa)\<lparr>locked := locked (engine_balance re1 u ?sa) - ?sn\<rparr>"
    "\<And>c. c \<noteq> ?sa \<Longrightarrow> engine_balance re2 u c = engine_balance re1 u c" by blast
  have "unat (available (engine_balance re2 u ?aa)) + unat ?an < 2 ^ 64"
    using room r2(4) [of ?aa] diff by (simp add: aa1 b_def)
  from credit_balance [OF this] obtain b3 re3 where r3:
    "on_store (add_funds u ?aa ?an) re2 = (Inr b3, re3)" "only_user u re2 re3"
    "engine_balance re3 u ?aa = (engine_balance re2 u ?aa)\<lparr>available := available (engine_balance re2 u ?aa) + ?an\<rparr>"
    "\<And>c. c \<noteq> ?aa \<Longrightarrow> engine_balance re3 u c = engine_balance re2 u c" by blast
  obtain e' where "settle_trade re u m sd e spec tp = (Inr (), re3, e')"
    using r1(1) r2(1) r3(1) by (cases "receives spec m sd ?mk e") (auto simp: settle_trade_def trade_amounts_eq Let_def)
  moreover have "only_user u re re3" using r1(2) r2(2) r3(2) by (blast intro: only_user_trans)
  moreover have "engine_balance re3 u c = engine_balance re u c" if "c \<noteq> base_asset m" "c \<noteq> quote_asset m" for c
    using that cases r1(4) r2(4) r3(4) by auto
  ultimately show thesis
    using that [of re3 e'] sa1 aa1 r2(3,4) r3(3,4) diff unfolding b_def by auto
qed

end
