(* ===== verification/Reservation.thy ===== *)
theory Reservation
  imports Settlement
begin

text \<open>
  What a reservation is and what settlement takes from it. A bid reserves the quote cost of its whole
  size at its limit price, an ask its size. Every fill of a taker takes the cost at the trade price and
  the refund of the improvement, together at most the cost of the filled size at the limit price,
  because the rounded cost is superadditive. So the rest of the reservation still covers the rest of
  the order.
\<close>

definition paid_asset :: "u32 \<Rightarrow> side \<Rightarrow> u16" where
  "paid_asset m sd = (case sd of Bid \<Rightarrow> quote_asset m | Ask \<Rightarrow> base_asset m)"

definition got_asset :: "u32 \<Rightarrow> side \<Rightarrow> u16" where
  "got_asset m sd = (case sd of Bid \<Rightarrow> base_asset m | Ask \<Rightarrow> quote_asset m)"

text \<open>The reservation an open order of size \<open>s\<close> at price \<open>p\<close> needs.\<close>

definition reserve :: "core_market_specification \<Rightarrow> side \<Rightarrow> nat \<Rightarrow> nat \<Rightarrow> nat" where
  "reserve spec sd p s = (case sd of Bid \<Rightarrow> exact_cost spec p s | Ask \<Rightarrow> s)"

text \<open>The trade price is within the limit.\<close>

definition within_limit :: "side \<Rightarrow> u64 \<Rightarrow> trade_event \<Rightarrow> bool" where
  "within_limit sd P e \<longleftrightarrow> (sd = Bid \<longrightarrow> e_price e \<le> P)"

definition taker_refund :: "core_market_specification \<Rightarrow> side \<Rightarrow> u64 \<Rightarrow> trade_event \<Rightarrow> u64" where
  "taker_refund spec sd P e =
     (if sd = Bid \<and> e_price e < P then calculate_quote_cost spec (P - e_price e) (e_size e) else 0)"

definition due :: "core_market_specification \<Rightarrow> u32 \<Rightarrow> side \<Rightarrow> u64 \<Rightarrow> trade_event \<Rightarrow> nat" where
  "due spec m sd P e = unat (taker_refund spec sd P e) + unat (snd (spends spec m sd e))"

definition income :: "core_market_specification \<Rightarrow> u32 \<Rightarrow> side \<Rightarrow> bool \<Rightarrow> trade_event \<Rightarrow> nat" where
  "income spec m sd is_maker e = unat (snd (receives spec m sd is_maker e))"

text \<open>The sizes and prices of a list of trades fit the arithmetic of the cost.\<close>

definition trade_fits :: "core_market_specification \<Rightarrow> side \<Rightarrow> u64 \<Rightarrow> nat \<Rightarrow> bool" where
  "trade_fits spec sd P s \<longleftrightarrow> (sd = Bid \<longrightarrow> cost_fits spec (unat P) s)"

lemma refund_of_taker: "u \<noteq> e_maker_user_id e \<Longrightarrow> refund_of spec u sd e (Some P) = taker_refund spec sd P e"
  by (simp add: refund_of_def taker_refund_def)

lemma spends_asset [simp]: "fst (spends spec m sd e) = paid_asset m sd"
  by (cases sd) (simp_all add: spends_def paid_asset_def)

lemma receives_asset [simp]: "fst (receives spec m sd mk e) = got_asset m sd"
  by (cases sd) (simp_all add: receives_def got_asset_def Let_def)

lemma assets_cases: "paid_asset m Bid = quote_asset m" "paid_asset m Ask = base_asset m"
  "got_asset m Bid = base_asset m" "got_asset m Ask = quote_asset m"
  by (simp_all add: paid_asset_def got_asset_def)

lemma paid_got_distinct: "base_asset m \<noteq> quote_asset m \<Longrightarrow> paid_asset m sd \<noteq> got_asset m sd"
  by (cases sd) (simp_all add: assets_cases)

lemma reserve_superadditive: "reserve spec sd p s + reserve spec sd p t \<le> reserve spec sd p (s + t)"
  using exact_cost_superadditive_size by (cases sd) (simp_all add: reserve_def)

lemma due_le_reserve:
  assumes "within_limit sd P e" "trade_fits spec sd P (unat (e_size e))"
  shows "due spec m sd P e \<le> reserve spec sd (unat P) (unat (e_size e))"
proof (cases sd)
  case Bid
  with assms have le: "unat (e_price e) \<le> unat P" "e_price e \<le> P"
    and fits: "cost_fits spec (unat P) (unat (e_size e))"
    by (simp_all add: within_limit_def trade_fits_def word_le_nat_alt)
  have p: "unat (calculate_quote_cost spec (e_price e) (e_size e)) = exact_cost spec (unat (e_price e)) (unat (e_size e))"
    by (rule calculate_quote_cost_exact [OF cost_fits_mono [OF fits le(1)]]) simp
  have d: "unat (P - e_price e) = unat P - unat (e_price e)" using le(2) by (rule unat_sub_no_underflow)
  have "unat (taker_refund spec sd P e) \<le> exact_cost spec (unat P - unat (e_price e)) (unat (e_size e))"
    using calculate_quote_cost_exact [of spec "P - e_price e" "e_size e"]
      cost_fits_mono [OF fits, of "unat P - unat (e_price e)"] Bid
    by (simp add: taker_refund_def d)
  with p exact_cost_superadditive_price [of spec "unat P - unat (e_price e)" "unat (e_size e)" "unat (e_price e)"]
  show ?thesis using le(1) Bid by (simp add: due_def spends_def reserve_def)
next
  case Ask
  then show ?thesis by (simp add: due_def taker_refund_def spends_def reserve_def)
qed

lemma dues_le_reserve:
  assumes "\<forall>e\<in>set es. within_limit sd P e" "trade_fits spec sd P (\<Sum>e\<leftarrow>es. unat (e_size e))"
  shows "(\<Sum>e\<leftarrow>es. due spec m sd P e) \<le> reserve spec sd (unat P) (\<Sum>e\<leftarrow>es. unat (e_size e))"
  using assms
proof (induction es)
  case (Cons e es)
  let ?n = "\<Sum>e\<leftarrow>es. unat (e_size e)"
  have "trade_fits spec sd P (unat (e_size e))" "trade_fits spec sd P ?n"
    using Cons.prems(2) cost_fits_mono [of spec "unat P" "unat (e_size e) + ?n" "unat P"]
    by (auto simp: trade_fits_def)
  then have "due spec m sd P e \<le> reserve spec sd (unat P) (unat (e_size e))"
    "(\<Sum>e\<leftarrow>es. due spec m sd P e) \<le> reserve spec sd (unat P) ?n"
    using Cons due_le_reserve [of sd P e spec m] by auto
  then show ?case
    using reserve_superadditive [of spec sd "unat P" "unat (e_size e)" ?n] by simp
qed (simp add: reserve_def exact_cost_def split: side.split)

section \<open>A taker's fills\<close>

lemma handle_trade_event_eq:
  assumes "re_symbol_specs re m = Some spec" "settle_trade re u m sd e spec tp = (r, re', e')"
  shows "handle_trade_event re u m sd e tp = (re', e')"
  using assms by (simp add: handle_trade_event_def)

lemma taker_step:
  assumes spec: "re_symbol_specs re m = Some spec" and ab: "base_asset m \<noteq> quote_asset m"
    and mk: "u \<noteq> e_maker_user_id e"
    and enough: "due spec m sd P e \<le> unat (locked (engine_balance re u (paid_asset m sd)))"
    and room: "unat (available (engine_balance re u (got_asset m sd))) + income spec m sd False e < 2 ^ 64"
    and run: "handle_trade_event re u m sd e (Some P) = (re', e')"
  shows "unat (locked (engine_balance re' u (paid_asset m sd))) =
      unat (locked (engine_balance re u (paid_asset m sd))) - due spec m sd P e"
    "available (engine_balance re' u (paid_asset m sd)) =
      available (engine_balance re u (paid_asset m sd)) + taker_refund spec sd P e"
    "unat (available (engine_balance re' u (got_asset m sd))) =
      unat (available (engine_balance re u (got_asset m sd))) + income spec m sd False e"
    "locked (engine_balance re' u (got_asset m sd)) = locked (engine_balance re u (got_asset m sd))"
proof -
  let ?rf = "taker_refund spec sd P e" and ?sn = "snd (spends spec m sd e)"
  let ?l = "locked (engine_balance re u (paid_asset m sd))"
  have rf: "?rf \<le> ?l" and sn: "?sn \<le> ?l - ?rf" and sub: "unat (?l - ?rf - ?sn) = unat ?l - due spec m sd P e"
    using enough by (auto simp: due_def word_le_nat_alt unat_sub_no_underflow)
  have rfq: "?rf \<le> locked (engine_balance re u (quote_asset m))"
    using rf by (cases sd) (simp_all add: assets_cases taker_refund_def)
  have tk: "(u = e_maker_user_id e) = False" and nr: "sd = Ask \<Longrightarrow> ?rf = 0"
    using mk by (simp_all add: taker_refund_def)
  from settle_trade_law [of m spec u sd e "Some P" re, unfolded tk refund_of_taker [OF mk] spends_asset
      receives_asset, OF ab rfq sn room [unfolded income_def] nr] obtain re2 e2 where s:
    "settle_trade re u m sd e spec (Some P) = (Inr (), re2, e2)"
    "engine_balance re2 u (paid_asset m sd) = (engine_balance re u (paid_asset m sd))
       \<lparr>locked := ?l - ?rf - ?sn, available := available (engine_balance re u (paid_asset m sd)) + ?rf\<rparr>"
    "engine_balance re2 u (got_asset m sd) = (engine_balance re u (got_asset m sd))
       \<lparr>available := available (engine_balance re u (got_asset m sd)) + snd (receives spec m sd False e)\<rparr>"
    by blast
  have "re' = re2" using handle_trade_event_eq [OF spec s(1)] run by simp
  with s(2,3) sub room show "unat (locked (engine_balance re' u (paid_asset m sd))) = unat ?l - due spec m sd P e"
    "available (engine_balance re' u (paid_asset m sd)) =
      available (engine_balance re u (paid_asset m sd)) + taker_refund spec sd P e"
    "unat (available (engine_balance re' u (got_asset m sd))) =
      unat (available (engine_balance re u (got_asset m sd))) + income spec m sd False e"
    "locked (engine_balance re' u (got_asset m sd)) = locked (engine_balance re u (got_asset m sd))"
    by (simp_all add: income_def unat_add_no_overflow)
qed

lemma only_user_balance: "only_user v re re' \<Longrightarrow> u \<noteq> v \<Longrightarrow> engine_balance re' u a = engine_balance re u a"
  by (simp add: only_user_def)

lemma only_user_specs: "only_user v re re' \<Longrightarrow> re_symbol_specs re' = re_symbol_specs re"
  by (simp add: only_user_def same_shard_def)

lemma handle_trade_event_event:
  "handle_trade_event re u m sd e tp = (re', e') \<Longrightarrow> e_price e' = e_price e \<and> e_size e' = e_size e \<and>
     e_maker_user_id e' = e_maker_user_id e"
  by (auto simp: handle_trade_event_def settle_trade_def Let_def
      split: option.splits prod.splits sum.splits if_splits)

text \<open>The maker of an event is another user, so its settlement does not move the taker's balances.\<close>

lemma settle_event_maker_first:
  assumes "u \<noteq> e_maker_user_id e" "owned_by_shard shard msk u"
  obtains re1 e1 where "only_user (e_maker_user_id e) re re1"
    "e_price e1 = e_price e" "e_size e1 = e_size e" "e_maker_user_id e1 = e_maker_user_id e"
    "settle_event shard msk u m sd P re e = handle_trade_event re1 u m sd e1 (Some P)"
proof (cases "owned_by_shard shard msk (e_maker_user_id e)")
  case True
  obtain re1 e1 where r: "handle_trade_event re (e_maker_user_id e) m (op_side sd) e None = (re1, e1)"
    by (rule prod.exhaust)
  show thesis
    using that [of re1 e1] only_user_handle [OF r] handle_trade_event_event [OF r] True assms(2) r
    by (simp add: settle_event_def Let_def)
next
  case False
  show thesis by (rule that [of re e]) (use False assms(2) in \<open>simp_all add: settle_event_def Let_def\<close>)
qed

lemma event_amounts_cong:
  assumes "e_price e1 = e_price e" "e_size e1 = e_size e"
  shows "due spec m sd P e1 = due spec m sd P e" "income spec m sd mk e1 = income spec m sd mk e"
    "taker_refund spec sd P e1 = taker_refund spec sd P e"
  using assms by (cases sd; simp add: due_def income_def taker_refund_def spends_def receives_def)+

lemma taker_event:
  assumes "re_symbol_specs re m = Some spec" "base_asset m \<noteq> quote_asset m"
    and "u \<noteq> e_maker_user_id e" "owned_by_shard shard msk u"
    and "due spec m sd P e \<le> unat (locked (engine_balance re u (paid_asset m sd)))"
    and "unat (available (engine_balance re u (got_asset m sd))) + income spec m sd False e < 2 ^ 64"
    and "settle_event shard msk u m sd P re e = (re', e')"
  shows "unat (locked (engine_balance re' u (paid_asset m sd))) =
      unat (locked (engine_balance re u (paid_asset m sd))) - due spec m sd P e"
    "available (engine_balance re' u (paid_asset m sd)) =
      available (engine_balance re u (paid_asset m sd)) + taker_refund spec sd P e"
    "unat (available (engine_balance re' u (got_asset m sd))) =
      unat (available (engine_balance re u (got_asset m sd))) + income spec m sd False e"
    "locked (engine_balance re' u (got_asset m sd)) = locked (engine_balance re u (got_asset m sd))"
    "re_symbol_specs re' m = Some spec"
proof -
  from settle_event_maker_first [OF assms(3,4)] obtain re1 e1 where o: "only_user (e_maker_user_id e) re re1"
    "e_price e1 = e_price e" "e_size e1 = e_size e" "e_maker_user_id e1 = e_maker_user_id e"
    "settle_event shard msk u m sd P re e = handle_trade_event re1 u m sd e1 (Some P)" by blast
  note b = only_user_balance [OF o(1) assms(3)] and s = only_user_specs [OF o(1)]
  note c = event_amounts_cong [OF o(2,3)]
  have run: "handle_trade_event re1 u m sd e1 (Some P) = (re', e')" using o(5) assms(7) by simp
  have mk: "u \<noteq> e_maker_user_id e1" using o(4) assms(3) by simp
  have sp: "re_symbol_specs re1 m = Some spec" using s assms(1) by simp
  show "unat (locked (engine_balance re' u (paid_asset m sd))) =
      unat (locked (engine_balance re u (paid_asset m sd))) - due spec m sd P e"
    "available (engine_balance re' u (paid_asset m sd)) =
      available (engine_balance re u (paid_asset m sd)) + taker_refund spec sd P e"
    "unat (available (engine_balance re' u (got_asset m sd))) =
      unat (available (engine_balance re u (got_asset m sd))) + income spec m sd False e"
    "locked (engine_balance re' u (got_asset m sd)) = locked (engine_balance re u (got_asset m sd))"
    using taker_step [OF sp assms(2) mk _ _ run] assms(5,6) unfolding b c by blast+
  show "re_symbol_specs re' m = Some spec" using only_user_specs [OF only_user_handle [OF run]] sp by simp
qed

text \<open>All the trades of a command.\<close>

lemma taker_chain:
  assumes "re_symbol_specs re m = Some spec" "base_asset m \<noteq> quote_asset m"
    and "\<forall>e\<in>set (chain_list c). u \<noteq> e_maker_user_id e" "owned_by_shard shard msk u"
    and "(\<Sum>e\<leftarrow>chain_list c. due spec m sd P e) \<le> unat (locked (engine_balance re u (paid_asset m sd)))"
    and "unat (available (engine_balance re u (got_asset m sd))) +
          (\<Sum>e\<leftarrow>chain_list c. income spec m sd False e) < 2 ^ 64"
    and "settle_chain shard msk u m sd P re c = (re', c')"
  shows "unat (locked (engine_balance re' u (paid_asset m sd))) =
      unat (locked (engine_balance re u (paid_asset m sd))) - (\<Sum>e\<leftarrow>chain_list c. due spec m sd P e) \<and>
    available (engine_balance re' u (paid_asset m sd)) =
      available (engine_balance re u (paid_asset m sd)) + (\<Sum>e\<leftarrow>chain_list c. taker_refund spec sd P e) \<and>
    unat (available (engine_balance re' u (got_asset m sd))) =
      unat (available (engine_balance re u (got_asset m sd))) +
        (\<Sum>e\<leftarrow>chain_list c. income spec m sd False e) \<and>
    locked (engine_balance re' u (got_asset m sd)) = locked (engine_balance re u (got_asset m sd)) \<and>
    re_symbol_specs re' m = Some spec"
  using assms
proof (induction c arbitrary: re re' c' rule: chain_list.induct)
  case (1 e)
  obtain re1 e1 where r: "settle_event shard msk u m sd P re e = (re1, e1)" by (rule prod.exhaust)
  with "1.prems" have "re' = re1" by simp
  with taker_event [OF "1.prems"(1,2) _ "1.prems"(4) _ _ r] "1.prems" show ?case by simp
next
  case (2 e rest)
  obtain re1 e1 where r: "settle_event shard msk u m sd P re e = (re1, e1)" by (rule prod.exhaust)
  obtain re2 c2 where r2: "settle_chain shard msk u m sd P re1 rest = (re2, c2)" by (rule prod.exhaust)
  have re': "re' = re2" using "2.prems"(7) r r2 by simp
  have pre: "u \<noteq> e_maker_user_id e"
    "due spec m sd P e \<le> unat (locked (engine_balance re u (paid_asset m sd)))"
    "unat (available (engine_balance re u (got_asset m sd))) + income spec m sd False e < 2 ^ 64"
    using "2.prems"(3,5,6) by simp_all
  note t = taker_event [OF "2.prems"(1,2) pre(1) "2.prems"(4) pre(2,3) r]
  have "(\<Sum>e\<leftarrow>chain_list rest. due spec m sd P e) \<le> unat (locked (engine_balance re1 u (paid_asset m sd)))"
    "unat (available (engine_balance re1 u (got_asset m sd))) +
      (\<Sum>e\<leftarrow>chain_list rest. income spec m sd False e) < 2 ^ 64"
    using "2.prems"(5,6) t(1,3) by simp_all
  from "2.IH" [OF t(5) "2.prems"(2) _ "2.prems"(4) this r2] "2.prems"(3) t re' show ?case
    by (simp add: add.assoc)
qed

section \<open>The rest of an order\<close>

lemma release_law:
  assumes "re_symbol_specs re m = Some spec" "trade_fits spec sd p (unat s)"
    and "reserve spec sd (unat p) (unat s) \<le> unat (locked (engine_balance re u (paid_asset m sd)))"
  obtains re' n where "release_funds_for_order re u m sd p s = (Inr (), re')"
    "unat n = reserve spec sd (unat p) (unat s)" "only_user u re re'"
    "engine_balance re' u (paid_asset m sd) = (engine_balance re u (paid_asset m sd))
       \<lparr>locked := locked (engine_balance re u (paid_asset m sd)) - n,
        available := available (engine_balance re u (paid_asset m sd)) + n\<rparr>"
    "\<And>c. c \<noteq> paid_asset m sd \<Longrightarrow> engine_balance re' u c = engine_balance re u c"
proof (cases sd)
  case Bid
  with assms(2) have n: "unat (calculate_quote_cost spec p s) = reserve spec sd (unat p) (unat s)"
    by (simp add: trade_fits_def reserve_def calculate_quote_cost_exact)
  with assms(3) have "calculate_quote_cost spec p s \<le> locked (engine_balance re u (paid_asset m sd))"
    by (simp add: word_le_nat_alt)
  from unlock_balance [OF this] obtain re' where
    "on_store (unlock_funds u (paid_asset m sd) (calculate_quote_cost spec p s)) re = (Inr (), re')"
    "only_user u re re'" "engine_balance re' u (paid_asset m sd) = (engine_balance re u (paid_asset m sd))
       \<lparr>locked := locked (engine_balance re u (paid_asset m sd)) - calculate_quote_cost spec p s,
        available := available (engine_balance re u (paid_asset m sd)) + calculate_quote_cost spec p s\<rparr>"
    "\<And>c. c \<noteq> paid_asset m sd \<Longrightarrow> engine_balance re' u c = engine_balance re u c" by blast
  with that [OF _ n] assms(1) Bid show thesis
    by (simp add: release_funds_for_order_def assets_cases)
next
  case Ask
  with assms(3) have "s \<le> locked (engine_balance re u (paid_asset m sd))"
    by (simp add: reserve_def word_le_nat_alt)
  from unlock_balance [OF this] obtain re' where
    "on_store (unlock_funds u (paid_asset m sd) s) re = (Inr (), re')"
    "only_user u re re'" "engine_balance re' u (paid_asset m sd) = (engine_balance re u (paid_asset m sd))
       \<lparr>locked := locked (engine_balance re u (paid_asset m sd)) - s,
        available := available (engine_balance re u (paid_asset m sd)) + s\<rparr>"
    "\<And>c. c \<noteq> paid_asset m sd \<Longrightarrow> engine_balance re' u c = engine_balance re u c" by blast
  with that [of re' s] assms(1) Ask show thesis
    by (simp add: release_funds_for_order_def assets_cases reserve_def)
qed

section \<open>One trade, one side\<close>

text \<open>The funds of a side after a settled trade: what it pays leaves, what it receives comes in, the
  refund only moves between its two halves.\<close>

lemma settle_side_funds:
  assumes spec: "re_symbol_specs re m = Some spec" and ab: "base_asset m \<noteq> quote_asset m"
    and enough: "unat (refund_of spec u sd e tp) + unat (snd (spends spec m sd e)) \<le>
      unat (locked (engine_balance re u (paid_asset m sd)))"
    and room: "unat (available (engine_balance re u (got_asset m sd))) +
      income spec m sd (u = e_maker_user_id e) e < 2 ^ 64"
    and solv: "solvent (engine_balance re u (paid_asset m sd))"
    and run: "handle_trade_event re u m sd e tp = (re', e')"
  shows "funds (engine_balance re' u (paid_asset m sd)) =
      funds (engine_balance re u (paid_asset m sd)) - int (unat (snd (spends spec m sd e)))"
    "funds (engine_balance re' u (got_asset m sd)) =
      funds (engine_balance re u (got_asset m sd)) + int (income spec m sd (u = e_maker_user_id e) e)"
    "c \<noteq> base_asset m \<Longrightarrow> c \<noteq> quote_asset m \<Longrightarrow> engine_balance re' u c = engine_balance re u c"
proof -
  let ?rf = "refund_of spec u sd e tp" and ?sn = "snd (spends spec m sd e)"
  let ?b = "engine_balance re u (paid_asset m sd)"
  have nr: "sd = Ask \<Longrightarrow> ?rf = 0" by (auto simp: refund_of_def split: option.split)
  have rf: "?rf \<le> locked ?b" and sn: "?sn \<le> locked ?b - ?rf"
    using enough by (auto simp: word_le_nat_alt unat_sub_no_underflow)
  have rfq: "?rf \<le> locked (engine_balance re u (quote_asset m))"
    using rf nr by (cases sd) (simp_all add: assets_cases)
  from settle_trade_law [of m spec u sd e tp re, unfolded spends_asset receives_asset, OF ab rfq sn
      room [unfolded income_def] nr] obtain re2 e2 where s: "settle_trade re u m sd e spec tp = (Inr (), re2, e2)"
    "engine_balance re2 u (paid_asset m sd) = ?b\<lparr>locked := locked ?b - ?rf - ?sn, available := available ?b + ?rf\<rparr>"
    "engine_balance re2 u (got_asset m sd) = (engine_balance re u (got_asset m sd))
       \<lparr>available := available (engine_balance re u (got_asset m sd)) +
          snd (receives spec m sd (u = e_maker_user_id e) e)\<rparr>"
    "\<And>c. c \<noteq> base_asset m \<Longrightarrow> c \<noteq> quote_asset m \<Longrightarrow> engine_balance re2 u c = engine_balance re u c"
    by blast
  have re': "re' = re2" using handle_trade_event_eq [OF spec s(1)] run by simp
  have "unat (available ?b) + unat ?rf < 2 ^ 64"
    using solv rf by (simp add: solvent_def word_le_nat_alt)
  then have "funds (engine_balance re' u (paid_asset m sd)) = funds ?b - int (unat ?sn)"
    using s(2) re' rf sn enough
    by (simp add: funds_def unat_add_no_overflow unat_sub_no_underflow word_le_nat_alt)
  then show "funds (engine_balance re' u (paid_asset m sd)) = funds ?b - int (unat ?sn)" .
  show "funds (engine_balance re' u (got_asset m sd)) =
      funds (engine_balance re u (got_asset m sd)) + int (income spec m sd (u = e_maker_user_id e) e)"
    using s(3) re' room by (simp add: funds_def income_def unat_add_no_overflow)
  show "c \<noteq> base_asset m \<Longrightarrow> c \<noteq> quote_asset m \<Longrightarrow> engine_balance re' u c = engine_balance re u c"
    using s(4) re' by simp
qed

text \<open>The fee of \<open>n\<close> units at \<open>f\<close> basis points, and the income it leaves.\<close>

definition fee_on :: "u64 \<Rightarrow> nat \<Rightarrow> nat" where
  "fee_on f n = n * unat f div 10000"

definition fee_fits :: "u64 \<Rightarrow> nat \<Rightarrow> bool" where
  "fee_fits f n \<longleftrightarrow> unat f \<le> 10000 \<and> n * unat f < 2 ^ 64"

definition gross :: "core_market_specification \<Rightarrow> side \<Rightarrow> trade_event \<Rightarrow> nat" where
  "gross spec sd e = (case sd of Bid \<Rightarrow> unat (e_size e)
     | Ask \<Rightarrow> exact_cost spec (unat (e_price e)) (unat (e_size e)))"

lemma net_of_fee:
  assumes "fee_fits f (unat n)"
  shows "unat (n - n * f div 10000) = unat n - fee_on f (unat n)" "fee_on f (unat n) \<le> unat n"
proof -
  have m: "unat (n * f) = unat n * unat f"
    using assms by (simp add: fee_fits_def unat_mult_no_overflow)
  have d: "unat (n * f div 10000) = fee_on f (unat n)"
    by (simp add: unat_div m fee_on_def)
  have "unat n * unat f div 10000 \<le> unat n * 10000 div 10000"
    using assms by (intro div_le_mono mult_le_mono2) (simp add: fee_fits_def)
  then show le: "fee_on f (unat n) \<le> unat n" by (simp add: fee_on_def)
  then have "n * f div 10000 \<le> n" by (simp add: word_le_nat_alt d)
  then show "unat (n - n * f div 10000) = unat n - fee_on f (unat n)"
    by (simp add: unat_sub_no_underflow d)
qed

lemma income_net:
  assumes "cost_fits spec (unat (e_price e)) (unat (e_size e))"
    and "fee_fits (trade_fee spec mk) (gross spec sd e)"
  shows "int (income spec m sd mk e) = int (gross spec sd e) - int (fee_on (trade_fee spec mk) (gross spec sd e))"
  using net_of_fee [of "trade_fee spec mk" "e_size e"]
    net_of_fee [of "trade_fee spec mk" "calculate_quote_cost spec (e_price e) (e_size e)"] assms
    calculate_quote_cost_exact [OF assms(1)]
  by (cases sd) (simp_all add: income_def receives_def gross_def Let_def)

lemma spends_gross:
  "cost_fits spec (unat (e_price e)) (unat (e_size e)) \<Longrightarrow>
     unat (snd (spends spec m sd e)) = gross spec (op_side sd) e"
  by (cases sd) (simp_all add: spends_def gross_def calculate_quote_cost_exact)

lemma paid_got_op [simp]: "paid_asset m (op_side sd) = got_asset m sd" "got_asset m (op_side sd) = paid_asset m sd"
  by (cases sd; simp add: assets_cases)+

lemma funds_of_two:
  assumes "finite U" "u \<in> U" "v \<in> U" "u \<noteq> v"
    and "\<And>w. w \<noteq> u \<Longrightarrow> w \<noteq> v \<Longrightarrow> get_balance st' w a = get_balance st w a"
  shows "funds_of st' U a = funds_of st U a +
    (funds (get_balance st' u a) - funds (get_balance st u a)) +
    (funds (get_balance st' v a) - funds (get_balance st v a))"
proof -
  have two: "funds_of s U a = funds (get_balance s u a) + (funds (get_balance s v a) +
      (\<Sum>w\<in>U - {u} - {v}. funds (get_balance s w a)))" for s
    using assms(1-4) unfolding funds_of_def
    by (subst sum.remove [of U u], simp_all) (subst sum.remove [of "U - {u}" v], auto)
  have "(\<Sum>w\<in>U - {u} - {v}. funds (get_balance st' w a)) = (\<Sum>w\<in>U - {u} - {v}. funds (get_balance st w a))"
    using assms(5) by (intro sum.cong) auto
  then show ?thesis unfolding two by simp
qed

end
