(* ===== verification/Risk_Claims.thy ===== *)
theory Risk_Claims
  imports Reservation
begin

text \<open>
  What the risk engine guarantees: R1 accepts exactly the orders whose funds it can reserve and moves
  exactly the reservation; a reservation covers the settlement and the release of its order; a trade
  moves funds between its two sides and takes only the fees out; deposits and withdrawals are inverse.
  The last section shows where the arithmetic and the error paths of the code break this.
\<close>

section \<open>Reservation\<close>

text \<open>The asset, the amount and the price an order is to be reserved at, or nothing if it is refused
  before the balances are looked at.\<close>

definition reservation_of :: "risk_engine \<Rightarrow> order_command \<Rightarrow> price_cache \<Rightarrow> (u16 \<times> u64 \<times> u64) option" where
  "reservation_of re cmd pc =
     (case re_symbol_specs re (c_market_id cmd) of
        None \<Rightarrow> None
      | Some spec \<Rightarrow>
          (if c_side cmd = Ask then Some (base_asset (c_market_id cmd), c_size cmd, c_price cmd)
           else if c_price cmd \<noteq> u64_MAX then
             Some (quote_asset (c_market_id cmd), calculate_quote_cost spec (c_price cmd) (c_size cmd), c_price cmd)
           else
             (let ask = get_best_ask pc (c_market_id cmd);
                  adj = (ucast ((ucast ask :: u128) * ucast (ms_slippage spec) div 10000) :: u64)
              in if ask = u64_MAX \<or> 2 ^ 64 \<le> unat ask + unat adj then None
                 else Some (quote_asset (c_market_id cmd),
                        calculate_quote_cost spec (ask + adj) (c_size cmd), ask + adj))))"

lemma reserve_refused:
  assumes "reservation_of re cmd pc = None" "re_symbol_specs re (c_market_id cmd) = Some spec"
  shows "\<exists>e. reserve_funds_for_order re cmd pc = (Inl e, re, cmd)"
  using assms
  by (cases "c_side cmd")
    (auto simp: reserve_funds_for_order_def reservation_of_def bid_amount_def Let_def checked_add_def
      split: if_splits option.splits)

lemma reserve_attempted:
  assumes "reservation_of re cmd pc = Some (a, n, p)"
  shows "reserve_funds_for_order re cmd pc =
    (case on_store (lock_funds (c_user_id cmd) a n) re of (r, re') \<Rightarrow> (r, re', cmd\<lparr>c_price := p\<rparr>))"
  using assms
  by (cases "c_side cmd")
    (auto simp: reserve_funds_for_order_def reservation_of_def bid_amount_def Let_def checked_add_def
      split: if_splits option.splits prod.split)

lemma place_cases:
  assumes "user_id_for_this_handler re (c_user_id cmd)" "c_command cmd = PlaceOrder"
  defines "b \<equiv> engine_balance re (c_user_id cmd)"
  shows "case reservation_of re cmd pc of
      Some (a, n, p) \<Rightarrow>
        (if n \<le> available (b a) then
           \<exists>re'. pre_process_command re cmd pc = (re', cmd\<lparr>c_price := p\<rparr>) \<and>
             engine_balance re' (c_user_id cmd) a =
               (b a)\<lparr>available := available (b a) - n, locked := locked (b a) + n\<rparr> \<and>
             (\<forall>c. c \<noteq> a \<longrightarrow> engine_balance re' (c_user_id cmd) c = b c) \<and> only_user (c_user_id cmd) re re'
         else \<exists>re' cmd'. pre_process_command re cmd pc = (re', cmd') \<and> c_status cmd' = Rejected \<and>
             (\<forall>u c. engine_balance re' u c = engine_balance re u c))
    | None \<Rightarrow> \<exists>re' cmd'. pre_process_command re cmd pc = (re', cmd') \<and> c_status cmd' = Rejected \<and>
             (\<forall>u c. engine_balance re' u c = engine_balance re u c)"
proof (cases "reservation_of re cmd pc")
  case None
  show ?thesis
  proof (cases "re_symbol_specs re (c_market_id cmd)")
    case (Some spec)
    from reserve_refused [OF None Some] obtain e where "reserve_funds_for_order re cmd pc = (Inl e, re, cmd)" ..
    then show ?thesis
      using None Some assms(1,2) by (simp add: pre_process_command_def set_status_def)
  qed (use None assms(1,2) in \<open>simp add: pre_process_command_def\<close>)
next
  case (Some r)
  obtain a n p where r: "r = (a, n, p)" by (rule prod_cases3)
  have spec: "re_symbol_specs re (c_market_id cmd) \<noteq> None"
    using Some by (auto simp: reservation_of_def split: option.splits)
  note run = reserve_attempted [OF Some [unfolded r]]
  show ?thesis
  proof (cases "n \<le> available (b a)")
    case True
    then obtain re' where l: "on_store (lock_funds (c_user_id cmd) a n) re = (Inr (), re')"
      "only_user (c_user_id cmd) re re'"
      "engine_balance re' (c_user_id cmd) a = (b a)\<lparr>available := available (b a) - n, locked := locked (b a) + n\<rparr>"
      "\<And>c. c \<noteq> a \<Longrightarrow> engine_balance re' (c_user_id cmd) c = b c"
      using lock_balance unfolding b_def by blast
    then have "pre_process_command re cmd pc = (re', cmd\<lparr>c_price := p\<rparr>)"
      using spec assms(1,2) by (auto simp: pre_process_command_def run)
    with l True show ?thesis by (auto simp: Some r)
  next
    case False
    then have g: "\<not> n \<le> available (get_balance (re_balances re) (c_user_id cmd) a)"
      by (simp add: b_def engine_balance_def)
    obtain e re2 where e: "on_store (lock_funds (c_user_id cmd) a n) re = (Inl (BalanceError e), re2)"
      using lock.refuses [OF g] by (auto simp: on_store_def)
    have "pre_process_command re cmd pc = (re2, set_status Rejected (cmd\<lparr>c_price := p\<rparr>))"
      using spec assms(1,2) by (auto simp: pre_process_command_def run e)
    moreover have "engine_balance re2 u c = engine_balance re u c" for u c
      using g store_after [OF e] by (simp add: engine_balance_def lock.balance_after)
    ultimately show ?thesis using False by (auto simp: Some r set_status_def)
  qed
qed

text \<open>C9. Placing is reserve or reject. The R1 step of a place command whose reservation \<open>n\<close> of asset
  \<open>a\<close> is covered by the available balance moves exactly \<open>n\<close> from available to locked and passes the
  command on at the price the reservation was computed for. In every other case (unknown market, no
  best ask or an overflow for a market buy, insufficient funds) the command is Rejected and no balance
  changes. Balances of other users and assets never change.\<close>

theorem place_reserves_or_rejects:
  assumes "user_id_for_this_handler re (c_user_id cmd)" "c_command cmd = PlaceOrder"
  defines "b \<equiv> engine_balance re (c_user_id cmd)"
  shows "case reservation_of re cmd pc of
      Some (a, n, p) \<Rightarrow>
        (if n \<le> available (b a) then
           \<exists>re'. pre_process_command re cmd pc = (re', cmd\<lparr>c_price := p\<rparr>) \<and>
             engine_balance re' (c_user_id cmd) a =
               (b a)\<lparr>available := available (b a) - n, locked := locked (b a) + n\<rparr> \<and>
             (\<forall>c. c \<noteq> a \<longrightarrow> engine_balance re' (c_user_id cmd) c = b c) \<and> only_user (c_user_id cmd) re re'
         else \<exists>re' cmd'. pre_process_command re cmd pc = (re', cmd') \<and> c_status cmd' = Rejected \<and>
             (\<forall>u c. engine_balance re' u c = engine_balance re u c))
    | None \<Rightarrow> \<exists>re' cmd'. pre_process_command re cmd pc = (re', cmd') \<and> c_status cmd' = Rejected \<and>
             (\<forall>u c. engine_balance re' u c = engine_balance re u c)"
  unfolding b_def by (rule place_cases [OF assms(1,2)])

text \<open>A shard with one market and one balance, for the examples.\<close>

definition sample_spec :: core_market_specification where
  "sample_spec = \<lparr>ms_market_id = 131073, ms_market_type = Spot, ms_base_asset = 1, ms_quote_asset = 2,
     ms_base_scale_k = 1, ms_quote_scale_k = 1, ms_base_native_scale = 1, ms_quote_native_scale = 1,
     ms_taker_fee = 20, ms_maker_fee = 10, ms_slippage = 150\<rparr>"

definition sample_engine :: "core_market_specification \<Rightarrow> (u64 \<times> u16 \<times> user_balance) list \<Rightarrow> risk_engine" where
  "sample_engine spec bs = foldr (\<lambda>(u, a, b). set_balance u a b) bs
     \<lparr>re_balances = balance_store_new, re_symbol_specs = [131073 \<mapsto> spec], re_shard_id = 0, re_shard_mask = 0\<rparr>"

lemma sample_assets [simp]: "base_asset 131073 = 1" "quote_asset 131073 = 2"
  by (simp_all add: base_asset_def quote_asset_def)

lemma set_balance_simps [simp]:
  "engine_balance (set_balance u a b re) v c = (if v = u \<and> c = a then b else engine_balance re v c)"
  "re_symbol_specs (set_balance u a b re) = re_symbol_specs re"
  "re_shard_id (set_balance u a b re) = re_shard_id re"
  "re_shard_mask (set_balance u a b re) = re_shard_mask re"
  by (simp_all add: set_balance_def engine_balance_def)

lemma engine_balance_new [simp]:
  "engine_balance \<lparr>re_balances = balance_store_new, re_symbol_specs = s, re_shard_id = i, re_shard_mask = k\<rparr> v c =
     balance_default"
  by (simp add: engine_balance_def get_balance_def balance_store_new_def)

lemma sample_engine_frame [simp]:
  "re_symbol_specs (sample_engine spec bs) = [131073 \<mapsto> spec]"
  "re_shard_id (sample_engine spec bs) = 0" "re_shard_mask (sample_engine spec bs) = 0"
proof -
  let ?f = "\<lambda>(u, a, b). set_balance u a b"
  have "re_symbol_specs (foldr ?f bs re) = re_symbol_specs re \<and> re_shard_id (foldr ?f bs re) = re_shard_id re \<and>
      re_shard_mask (foldr ?f bs re) = re_shard_mask re" for re
    by (induction bs) auto
  then show "re_symbol_specs (sample_engine spec bs) = [131073 \<mapsto> spec]"
    "re_shard_id (sample_engine spec bs) = 0" "re_shard_mask (sample_engine spec bs) = 0"
    by (simp_all add: sample_engine_def)
qed

lemma sample_balance [simp]:
  "engine_balance (sample_engine spec ((u, a, b) # bs)) v c =
     (if v = u \<and> c = a then b else engine_balance (sample_engine spec bs) v c)"
  "engine_balance (sample_engine spec []) v c = balance_default"
  by (simp_all add: sample_engine_def)

lemma sample_handler [simp]:
  "user_id_for_this_handler (sample_engine spec bs) u" "owned_by_shard 0 0 u"
  by (simp_all add: user_id_for_this_handler_def owned_by_shard_def)

lemma sample_cost [simp]:
  "cost_fits sample_spec p s \<longleftrightarrow> p * s < 2 ^ 64" "exact_cost sample_spec p s = p * s"
  by (auto simp: cost_fits_def exact_cost_def cost_denominator_def sample_spec_def)

theorem place_reserves_or_rejects_witness:
  "\<exists>re' cmd'. pre_process_command (sample_engine sample_spec []) (mk_place_order Gtc 1 5 3 Ask 131073 0) Map.empty =
     (re', cmd') \<and> c_status cmd' = Rejected"
  using place_reserves_or_rejects [of "sample_engine sample_spec []" "mk_place_order Gtc 1 5 3 Ask 131073 0" Map.empty]
  by (auto simp: mk_place_order_def reservation_of_def balance_default_def)

section \<open>Settlement\<close>

lemma cancellation_law:
  assumes "re_symbol_specs re (c_market_id cmd) = Some spec"
    and "trade_fits spec (c_side cmd) (c_price cmd) (unat (c_size cmd))"
    and "reserve spec (c_side cmd) (unat (c_price cmd)) (unat (c_size cmd)) \<le>
      unat (locked (engine_balance re (c_user_id cmd) (paid_asset (c_market_id cmd) (c_side cmd))))"
  shows "unat (locked (engine_balance (handle_cancellation re cmd) (c_user_id cmd)
        (paid_asset (c_market_id cmd) (c_side cmd)))) =
      unat (locked (engine_balance re (c_user_id cmd) (paid_asset (c_market_id cmd) (c_side cmd)))) -
      reserve spec (c_side cmd) (unat (c_price cmd)) (unat (c_size cmd))"
    "c \<noteq> paid_asset (c_market_id cmd) (c_side cmd) \<Longrightarrow>
      engine_balance (handle_cancellation re cmd) (c_user_id cmd) c = engine_balance re (c_user_id cmd) c"
proof -
  let ?a = "paid_asset (c_market_id cmd) (c_side cmd)"
  let ?b = "engine_balance re (c_user_id cmd) ?a"
  from release_law [OF assms] obtain re' n where r:
    "release_funds_for_order re (c_user_id cmd) (c_market_id cmd) (c_side cmd) (c_price cmd) (c_size cmd) = (Inr (), re')"
    "unat n = reserve spec (c_side cmd) (unat (c_price cmd)) (unat (c_size cmd))"
    "engine_balance re' (c_user_id cmd) ?a = ?b\<lparr>locked := locked ?b - n, available := available ?b + n\<rparr>"
    "\<And>c. c \<noteq> ?a \<Longrightarrow> engine_balance re' (c_user_id cmd) c = engine_balance re (c_user_id cmd) c" by blast
  have run: "handle_cancellation re cmd = re'" by (simp add: handle_cancellation_def r(1))
  have "n \<le> locked ?b" using assms(3) r(2) by (simp add: word_le_nat_alt)
  then show "unat (locked (engine_balance (handle_cancellation re cmd) (c_user_id cmd) ?a)) =
      unat (locked ?b) - reserve spec (c_side cmd) (unat (c_price cmd)) (unat (c_size cmd))"
    by (simp add: run r(2,3) unat_sub_no_underflow)
  show "c \<noteq> ?a \<Longrightarrow>
      engine_balance (handle_cancellation re cmd) (c_user_id cmd) c = engine_balance re (c_user_id cmd) c"
    by (simp add: run r(4))
qed

text \<open>C8. A reservation covers its order, in a market with two assets, for trades with other users within
  the limit of the order, when no amount leaves 64 bits: the cost of the whole order fits, and so does the
  available balance of the taker with the income of all the trades (without that room the settlement of a
  trade fails half way, see below). If the locked balance of the taker then holds at least the
  reservation for all the trades of a command and its size left, R2 settles all of them on the taker's
  shard: the locked balance falls by the cost of every trade and the refund of every price improvement
  and never by more than the reservation of the traded sizes, so the reservation of the size left stays
  locked; the income of all the trades arrives. If the order was cancelled or its rest does not stay
  on the book, that last reservation is released too.\<close>

theorem reservation_covers_settlement:
  fixes re cmd
  defines "u \<equiv> c_user_id cmd" and "m \<equiv> c_market_id cmd" and "sd \<equiv> c_side cmd" and "P \<equiv> c_price cmd"
    and "es \<equiv> events_list (c_events cmd)"
    and "lk \<equiv> \<lambda>re. unat (locked (engine_balance re (c_user_id cmd) (paid_asset (c_market_id cmd) (c_side cmd))))"
    and "av \<equiv> \<lambda>re. unat (available (engine_balance re (c_user_id cmd) (got_asset (c_market_id cmd) (c_side cmd))))"
    and "traded \<equiv> (\<Sum>e\<leftarrow>events_list (c_events cmd). unat (e_size e))" and "left \<equiv> unat (c_size cmd)"
  assumes spec: "re_symbol_specs re m = Some spec" "base_asset m \<noteq> quote_asset m"
    and owner: "owned_by_shard shard msk u" and run: "r2_settle shard msk re cmd = (re', cmd')"
    and trades: "\<forall>e\<in>set es. u \<noteq> e_maker_user_id e \<and> within_limit sd P e"
    and fits: "trade_fits spec sd P (traded + left)"
    and reserved: "reserve spec sd (unat P) (traded + left) \<le> lk re"
    and room: "av re + (\<Sum>e\<leftarrow>es. income spec m sd False e) < 2 ^ 64"
  shows "lk re' = lk re - (\<Sum>e\<leftarrow>es. due spec m sd P e) -
      (if should_handle_cancellation cmd then reserve spec sd (unat P) left else 0) \<and>
    (\<Sum>e\<leftarrow>es. due spec m sd P e) \<le> reserve spec sd (unat P) traded \<and>
    (lk re - reserve spec sd (unat P) (traded + left)) +
      (if should_handle_cancellation cmd then 0 else reserve spec sd (unat P) left) \<le> lk re' \<and>
    av re' = av re + (\<Sum>e\<leftarrow>es. income spec m sd False e) \<and>
    c_balance cmd' = (engine_balance re' u (base_asset m), engine_balance re' u (quote_asset m))"
proof -
  have fit: "trade_fits spec sd P traded" "trade_fits spec sd P left"
    using fits cost_fits_mono [of spec "unat P" "traded + left" "unat P"] by (auto simp: trade_fits_def)
  have dues: "(\<Sum>e\<leftarrow>es. due spec m sd P e) \<le> reserve spec sd (unat P) traded"
    using dues_le_reserve [of es sd P spec m] trades fit(1) by (simp add: traded_def es_def)
  have split: "reserve spec sd (unat P) traded + reserve spec sd (unat P) left \<le> reserve spec sd (unat P) (traded + left)"
    by (rule reserve_superadditive)
  obtain re1 cmd1 where ch: "(case c_events cmd of None \<Rightarrow> (re, cmd)
      | Some c \<Rightarrow> (case settle_chain shard msk u m sd P re c of (re, c) \<Rightarrow> (re, cmd\<lparr>c_events := Some c\<rparr>))) = (re1, cmd1)"
    by (rule prod.exhaust)
  have one: "lk re1 = lk re - (\<Sum>e\<leftarrow>es. due spec m sd P e) \<and>
    av re1 = av re + (\<Sum>e\<leftarrow>es. income spec m sd False e) \<and> re_symbol_specs re1 m = Some spec"
  proof (cases "c_events cmd")
    case None
    with ch spec(1) show ?thesis by (simp add: es_def events_list_def)
  next
    case (Some c)
    obtain c' where run1: "settle_chain shard msk u m sd P re c = (re1, c')"
      using ch Some by (auto split: prod.splits)
    have es: "es = chain_list c" by (simp add: es_def Some)
    have "(\<Sum>e\<leftarrow>chain_list c. due spec m sd P e) \<le> lk re"
      using dues split reserved es by simp
    from taker_chain [OF spec _ owner this [unfolded lk_def, folded u_def m_def sd_def] _ run1]
      trades room
    show ?thesis by (simp add: es lk_def av_def u_def m_def sd_def)
  qed
  have same: "c_user_id cmd1 = u" "c_market_id cmd1 = m" "c_side cmd1 = sd" "c_price cmd1 = P" "c_size cmd1 = c_size cmd"
    "should_handle_cancellation cmd1 = should_handle_cancellation cmd"
    using ch by (auto simp: u_def m_def sd_def P_def should_handle_cancellation_def split: option.splits prod.splits)
  have fin: "re' = (if should_handle_cancellation cmd then handle_cancellation re1 cmd1 else re1)"
    "cmd' = record_balances re' u m cmd1"
    using run ch owner same(6) unfolding u_def m_def sd_def P_def
    by (auto simp: r2_settle_def Let_def)
  have "reserve spec sd (unat P) left \<le> lk re1" using one(1) dues split reserved by linarith
  with cancellation_law [of re1 cmd1 spec] one fit(2)
  have two: "lk (handle_cancellation re1 cmd1) = lk re1 - reserve spec sd (unat P) left"
    "av (handle_cancellation re1 cmd1) = av re1"
    using paid_got_distinct [OF spec(2), of sd]
    by (simp_all add: same lk_def av_def left_def u_def m_def sd_def)
  show ?thesis
    using one two dues split reserved by (auto simp: fin record_balances_def)
qed

definition sample_trade :: trade_event where
  "sample_trade = \<lparr>e_active_order_completed = False, e_matched_order_id = 1, e_maker_user_id = 1,
     e_matched_order_completed = True, e_price = 90, e_size = 5,
     e_maker_balance = (balance_default, balance_default),
     e_maker_remaining_size = 0, e_maker_original_size = 5\<rparr>"

definition sample_filled :: order_command where
  "sample_filled = (mk_place_order Ioc 2 100 3 Bid 131073 0)
     \<lparr>c_events := Some (Event sample_trade None), c_status := PartiallyFilled\<rparr>"

lemma sample_trade_simps [simp]:
  "e_price sample_trade = 90" "e_size sample_trade = 5" "e_maker_user_id sample_trade = 1"
  by (simp_all add: sample_trade_def)

lemma sample_filled_simps [simp]:
  "c_user_id sample_filled = 2" "c_market_id sample_filled = 131073" "c_side sample_filled = Bid"
  "c_price sample_filled = 100" "c_size sample_filled = 3" "events_list (c_events sample_filled) = [sample_trade]"
  "should_handle_cancellation sample_filled"
  by (simp_all add: sample_filled_def mk_place_order_def events_list_def should_handle_cancellation_def)

lemma sample_quote_cost [simp]:
  "unat p * unat s < 2 ^ 64 \<Longrightarrow> unat (calculate_quote_cost sample_spec p s) = unat p * unat s"
  using calculate_quote_cost_exact [of sample_spec p s] by simp

theorem reservation_covers_settlement_witness:
  "\<exists>re'. fst (r2_settle 0 0 (sample_engine sample_spec ([(2, 2, \<lparr>available = 0, locked = 800\<rparr>)])) sample_filled) = re' \<and>
     unat (locked (engine_balance re' 2 2)) = 0 \<and> unat (available (engine_balance re' 2 1)) = 5"
proof -
  let ?re = "sample_engine sample_spec ([(2, 2, \<lparr>available = 0, locked = 800\<rparr>)])"
  obtain re' cmd' where run: "r2_settle 0 0 ?re sample_filled = (re', cmd')" by (rule prod.exhaust)
  have inc: "income sample_spec 131073 Bid False sample_trade = 5"
    by (simp add: income_def receives_def trade_fee_def sample_spec_def)
  have due: "due sample_spec 131073 Bid 100 sample_trade = 500"
    by (simp add: due_def taker_refund_def spends_def)
  show ?thesis
    using reservation_covers_settlement [of ?re sample_filled sample_spec 0 0 re' cmd'] run inc due
    by (simp add: within_limit_def trade_fits_def reserve_def assets_cases balance_default_def)
qed

text \<open>A side of a trade can be settled: its locked balance covers payment and refund, its total and its
  income fit 64 bits, and so does the arithmetic of its fee.\<close>

definition side_ready ::
    "core_market_specification \<Rightarrow> u32 \<Rightarrow> risk_engine \<Rightarrow> trade_event \<Rightarrow> u64 \<Rightarrow> side \<Rightarrow> u64 option \<Rightarrow> bool" where
  "side_ready spec m re e w sd tp \<longleftrightarrow>
     unat (refund_of spec w sd e tp) + unat (snd (spends spec m sd e)) \<le>
       unat (locked (engine_balance re w (paid_asset m sd))) \<and>
     solvent (engine_balance re w (paid_asset m sd)) \<and>
     unat (available (engine_balance re w (got_asset m sd))) + income spec m sd (w = e_maker_user_id e) e < 2 ^ 64 \<and>
     fee_fits (trade_fee spec (w = e_maker_user_id e)) (gross spec sd e)"

text \<open>C5. A trade conserves funds but for the fees. When a shard that owns both sides settles a trade
  of a taker \<open>u\<close> with a maker \<open>v\<close> whose locked balances cover it, the funds of its users together, in
  base and in quote, fall by exactly the fees: the fee of the buyer on the base it receives, the fee of
  the seller on the quote it receives, each in basis points and rounded down. No other asset and no
  other user is touched.\<close>

theorem trade_conserves_funds:
  fixes re e U
  defines "v \<equiv> e_maker_user_id e"
    and "holdings \<equiv> \<lambda>re a. funds_of (re_balances re) U a"
  assumes spec: "re_symbol_specs re m = Some spec" "base_asset m \<noteq> quote_asset m"
    and users: "finite U" "u \<in> U" "v \<in> U" "u \<noteq> v"
    and owner: "owned_by_shard shard msk u" "owned_by_shard shard msk v"
    and fits: "cost_fits spec (unat (e_price e)) (unat (e_size e))"
    and sides: "side_ready spec m re e u sd (Some P)" "side_ready spec m re e v (op_side sd) None"
    and run: "settle_event shard msk u m sd P re e = (re', e')"
  shows "holdings re' (got_asset m sd) = holdings re (got_asset m sd) - int (fee_on (ms_taker_fee spec) (gross spec sd e)) \<and>
    holdings re' (paid_asset m sd) = holdings re (paid_asset m sd) - int (fee_on (ms_maker_fee spec) (gross spec (op_side sd) e)) \<and>
    (\<forall>w c. c \<noteq> base_asset m \<and> c \<noteq> quote_asset m \<longrightarrow> engine_balance re' w c = engine_balance re w c) \<and>
    (\<forall>w c. w \<noteq> u \<and> w \<noteq> v \<longrightarrow> engine_balance re' w c = engine_balance re w c)"
proof -
  obtain re1 e1 where h1: "handle_trade_event re v m (op_side sd) e None = (re1, e1)" by (rule prod.exhaust)
  note ev = handle_trade_event_event [OF h1]
  have h2: "handle_trade_event re1 u m sd e1 (Some P) = (re', e')"
    using run h1 owner by (simp add: settle_event_def Let_def v_def)
  note o1 = only_user_handle [OF h1] and o2 = only_user_handle [OF h2]
  have spec1: "re_symbol_specs re1 m = Some spec" using only_user_specs [OF o1] spec(1) by simp
  have amounts: "refund_of spec u sd e1 (Some P) = refund_of spec u sd e (Some P)"
    "spends spec m sd e1 = spends spec m sd e" "income spec m sd mk e1 = income spec m sd mk e" for mk
    using ev by (cases sd; simp add: refund_of_def spends_def income_def receives_def)+
  have tk: "trade_fee spec (u = e_maker_user_id e) = ms_taker_fee spec"
    "trade_fee spec (v = e_maker_user_id e) = ms_maker_fee spec"
    using users(4) by (simp_all add: trade_fee_def v_def)
  have side1: "unat (refund_of spec v (op_side sd) e None) + unat (snd (spends spec m (op_side sd) e)) \<le>
      unat (locked (engine_balance re v (paid_asset m (op_side sd))))"
    "unat (available (engine_balance re v (got_asset m (op_side sd)))) + income spec m (op_side sd) (v = e_maker_user_id e) e < 2 ^ 64"
    "solvent (engine_balance re v (paid_asset m (op_side sd)))"
    and fee1: "fee_fits (trade_fee spec (v = e_maker_user_id e)) (gross spec (op_side sd) e)"
    using sides(2) by (auto simp: side_ready_def)
  note f1 = settle_side_funds [OF spec side1 h1, unfolded paid_got_op]
  have ub: "engine_balance re1 u c = engine_balance re u c" for c by (rule only_user_balance [OF o1 users(4)])
  have vb: "engine_balance re' v c = engine_balance re1 v c" for c
    using only_user_balance [OF o2] users(4) by auto
  have side2: "unat (refund_of spec u sd e1 (Some P)) + unat (snd (spends spec m sd e1)) \<le>
      unat (locked (engine_balance re1 u (paid_asset m sd)))"
    "unat (available (engine_balance re1 u (got_asset m sd))) + income spec m sd (u = e_maker_user_id e1) e1 < 2 ^ 64"
    "solvent (engine_balance re1 u (paid_asset m sd))"
    and fee2: "fee_fits (trade_fee spec (u = e_maker_user_id e)) (gross spec sd e)"
    using sides(1) ev by (auto simp: side_ready_def amounts ub)
  note f2 = settle_side_funds [OF spec1 spec(2) side2 h2, unfolded amounts ub]
  have sp: "unat (snd (spends spec m sd e)) = gross spec (op_side sd) e"
    "unat (snd (spends spec m (op_side sd) e)) = gross spec sd e"
    using spends_gross [OF fits, of m sd] spends_gross [OF fits, of m "op_side sd"] by simp_all
  note net1 = income_net [OF fits fee1, of m] and net2 = income_net [OF fits fee2, of m]
  have rest: "get_balance (re_balances re') w a = get_balance (re_balances re) w a" if "w \<noteq> u" "w \<noteq> v" for w a
    using only_user_balance [OF o1 that(2)] only_user_balance [OF o2 that(1)] by (simp add: engine_balance_def)
  note two = funds_of_two [OF users, of "re_balances re'" _ "re_balances re", OF rest]
  have mk: "(u = e_maker_user_id e1) = (u = e_maker_user_id e)" using ev by simp
  have "holdings re' (got_asset m sd) = holdings re (got_asset m sd) - int (fee_on (ms_taker_fee spec) (gross spec sd e))"
    "holdings re' (paid_asset m sd) = holdings re (paid_asset m sd) - int (fee_on (ms_maker_fee spec) (gross spec (op_side sd) e))"
    using f1(1,2) f2(1,2) net1 net2 two [of "got_asset m sd"] two [of "paid_asset m sd"]
    unfolding holdings_def engine_balance_def [symmetric] vb ub sp tk mk
    by linarith+
  moreover have "engine_balance re' w c = engine_balance re w c" if "c \<noteq> base_asset m" "c \<noteq> quote_asset m" for w c
    using f1(3) [OF that] f2(3) [OF that] vb rest [of w c] ub
    by (cases "w = u"; cases "w = v") (simp_all add: engine_balance_def)
  ultimately show ?thesis using rest by (auto simp: engine_balance_def)
qed

theorem trade_conserves_funds_witness:
  "\<exists>re' e'. settle_event 0 0 2 131073 Bid 100 (sample_engine sample_spec
       [(2, 2, \<lparr>available = 0, locked = 500\<rparr>), (1, 1, \<lparr>available = 0, locked = 5\<rparr>)]) sample_trade = (re', e') \<and>
     funds_of (re_balances re') {1, 2} 1 = 5 \<and> funds_of (re_balances re') {1, 2} 2 = 500"
proof -
  let ?re = "sample_engine sample_spec [(2, 2, \<lparr>available = 0, locked = 500\<rparr>), (1, 1, \<lparr>available = 0, locked = 5\<rparr>)]"
  obtain re' e' where run: "settle_event 0 0 2 131073 Bid 100 ?re sample_trade = (re', e')" by (rule prod.exhaust)
  have fees: "trade_fee sample_spec mk = (if mk then 10 else 20)" "ms_taker_fee sample_spec = 20"
    "ms_maker_fee sample_spec = 10" for mk
    by (simp_all add: trade_fee_def sample_spec_def)
  have cost': "calculate_quote_cost sample_spec 90 5 = 450"
    by (simp add: calculate_quote_cost_def sample_spec_def Let_def)
  have st: "engine_balance ?re u a = get_balance (re_balances ?re) u a" for u a by (simp add: engine_balance_def)
  show ?thesis
    using trade_conserves_funds [of ?re 131073 sample_spec "{1, 2}" 2 sample_trade 0 0 Bid 100 re' e'] run
    by (simp add: side_ready_def refund_of_def spends_def assets_cases solvent_def income_def receives_def
        balance_default_def gross_def fee_fits_def fee_on_def fees cost' funds_of_def funds_def st [symmetric])
qed

section \<open>Inverse commands\<close>

lemma place_release:
  assumes "user_id_for_this_handler re (c_user_id cmd)" "c_command cmd = PlaceOrder"
    and "c_side cmd = Bid \<Longrightarrow> c_price cmd \<noteq> u64_MAX"
    and "solvent (engine_balance re (c_user_id cmd) (paid_asset (c_market_id cmd) (c_side cmd)))"
    and "pre_process_command re cmd pc = (re', cmd')" "c_status cmd' \<noteq> Rejected"
  shows "cmd' = cmd \<and> engine_balance (handle_cancellation re' cmd') w c = engine_balance re w c"
proof -
  let ?u = "c_user_id cmd" and ?m = "c_market_id cmd"
  let ?a = "paid_asset ?m (c_side cmd)"
  let ?b = "engine_balance re ?u ?a"
  from place_cases [OF assms(1,2), of pc] assms(5,6) obtain a n p where
    r: "reservation_of re cmd pc = Some (a, n, p)"
    by (cases "reservation_of re cmd pc") auto
  with place_cases [OF assms(1,2), of pc] assms(5,6) have
    n: "n \<le> available (engine_balance re ?u a)" and cmd': "cmd' = cmd\<lparr>c_price := p\<rparr>" and o: "only_user ?u re re'"
    and b: "engine_balance re' ?u a = (engine_balance re ?u a)
      \<lparr>available := available (engine_balance re ?u a) - n, locked := locked (engine_balance re ?u a) + n\<rparr>"
    and c: "\<And>c. c \<noteq> a \<Longrightarrow> engine_balance re' ?u c = engine_balance re ?u c"
    by (auto split: if_splits)
  obtain spec where spec: "re_symbol_specs re ?m = Some spec"
    using r by (auto simp: reservation_of_def split: option.splits)
  have amount: "a = ?a" "p = c_price cmd"
    "n = (case c_side cmd of Bid \<Rightarrow> calculate_quote_cost spec p (c_size cmd) | Ask \<Rightarrow> c_size cmd)"
    using r assms(3) by (cases "c_side cmd"; auto simp: reservation_of_def spec paid_asset_def split: if_splits)+
  have same: "cmd' = cmd" using cmd' amount(2) by simp
  have spec': "re_symbol_specs re' ?m = Some spec" using only_user_specs [OF o] spec by simp
  have "unat (locked ?b) + unat n < 2 ^ 64"
    using assms(4) n amount(1) by (simp add: solvent_def word_le_nat_alt)
  then have "n \<le> locked (engine_balance re' ?u ?a)"
    using b amount(1) by (simp add: word_le_nat_alt unat_add_no_overflow)
  from unlock_balance [OF this] obtain re2 where u:
    "on_store (unlock_funds ?u ?a n) re' = (Inr (), re2)" "only_user ?u re' re2"
    "engine_balance re2 ?u ?a = (engine_balance re' ?u ?a)
      \<lparr>locked := locked (engine_balance re' ?u ?a) - n, available := available (engine_balance re' ?u ?a) + n\<rparr>"
    "\<And>c. c \<noteq> ?a \<Longrightarrow> engine_balance re2 ?u c = engine_balance re' ?u c" by blast
  have "release_funds_for_order re' ?u ?m (c_side cmd) (c_price cmd) (c_size cmd) = (Inr (), re2)"
    using u(1) amount by (cases "c_side cmd") (simp_all add: release_funds_for_order_def spec' assets_cases)
  then have run: "handle_cancellation re' cmd' = re2" by (simp add: handle_cancellation_def same)
  have "engine_balance re2 w c = engine_balance re w c"
  proof (cases "w = ?u")
    case True
    then show ?thesis using b c u(3,4) amount(1) by (cases "c = ?a") simp_all
  next
    case False
    then show ?thesis using only_user_balance [OF o] only_user_balance [OF u(2)] by metis
  qed
  then show ?thesis by (simp add: same run [unfolded same])
qed

text \<open>Cancelling gives back what placing took: a limit order R1 accepted and that is then released
  whole, as R2 does for an order that did not trade, leaves every balance of the shard as it was.\<close>

theorem place_release_roundtrip:
  assumes "user_id_for_this_handler re (c_user_id cmd)" "c_command cmd = PlaceOrder"
    and "c_side cmd = Bid \<Longrightarrow> c_price cmd \<noteq> u64_MAX"
    and "solvent (engine_balance re (c_user_id cmd) (paid_asset (c_market_id cmd) (c_side cmd)))"
    and "pre_process_command re cmd pc = (re', cmd')" "c_status cmd' \<noteq> Rejected"
  shows "cmd' = cmd \<and> engine_balance (handle_cancellation re' cmd') w c = engine_balance re w c"
  by (rule place_release [OF assms])

theorem place_release_roundtrip_witness:
  "\<exists>re'. pre_process_command (sample_engine sample_spec [(1, 1, \<lparr>available = 9, locked = 0\<rparr>)])
       (mk_place_order Gtc 1 5 3 Ask 131073 0) Map.empty = (re', mk_place_order Gtc 1 5 3 Ask 131073 0) \<and>
     engine_balance re' 1 1 = \<lparr>available = 6, locked = 3\<rparr> \<and>
     engine_balance (handle_cancellation re' (mk_place_order Gtc 1 5 3 Ask 131073 0)) 1 1 = \<lparr>available = 9, locked = 0\<rparr>"
proof -
  let ?re = "sample_engine sample_spec [(1, 1, \<lparr>available = 9, locked = 0\<rparr>)]"
  let ?cmd = "mk_place_order Gtc 1 5 3 Ask 131073 0"
  have c: "c_command ?cmd = PlaceOrder" "c_user_id ?cmd = 1" "c_side ?cmd = Ask" "c_market_id ?cmd = 131073"
    "c_size ?cmd = 3" "c_status ?cmd = Processing" "c_price ?cmd = 5" by (simp_all add: mk_place_order_def)
  obtain re' cmd' where run: "pre_process_command ?re ?cmd Map.empty = (re', cmd')" by (rule prod.exhaust)
  have "reservation_of ?re ?cmd Map.empty = Some (1, 3, 5)" by (simp add: reservation_of_def c)
  with place_cases [of ?re ?cmd Map.empty] run
  have acc: "c_status cmd' \<noteq> Rejected" "engine_balance re' 1 1 = \<lparr>available = 6, locked = 3\<rparr>"
    by (auto simp: c)
  from place_release_roundtrip [OF _ _ _ _ run acc(1), of 1 1] acc(2) run show ?thesis
    by (auto simp: c solvent_def assets_cases)
qed

text \<open>Deposits and withdrawals: a deposit of \<open>n\<close> is processed exactly when the available balance has
  room for it, adds \<open>n\<close> to it and reports the new balance; withdrawing \<open>n\<close> from the result is processed
  and gives back the balances before the deposit.\<close>

theorem deposit_withdraw_roundtrip:
  fixes re cmd
  defines "u \<equiv> c_user_id cmd" and "a \<equiv> (ucast (c_market_id cmd) :: u16)" and "n \<equiv> c_size cmd"
  assumes "user_id_for_this_handler re (c_user_id cmd)" "c_command cmd = DepositFunds"
    and "c_command out = WithdrawFunds" "c_user_id out = u" "c_market_id out = c_market_id cmd" "c_size out = n"
  shows "if unat (available (engine_balance re u a)) + unat n < 2 ^ 64
    then \<exists>re' cmd' re'' out'. pre_process_command re cmd pc = (re', cmd') \<and> c_status cmd' = Processed \<and>
      fst (c_balance cmd') = engine_balance re' u a \<and>
      unat (available (engine_balance re' u a)) = unat (available (engine_balance re u a)) + unat n \<and>
      pre_process_command re' out pc = (re'', out') \<and> c_status out' = Processed \<and>
      (\<forall>v c. engine_balance re'' v c = engine_balance re v c)
    else \<exists>re' cmd'. pre_process_command re cmd pc = (re', cmd') \<and> c_status cmd' = Rejected \<and>
      (\<forall>v c. engine_balance re' v c = engine_balance re v c)"
proof (cases "unat (available (engine_balance re u a)) + unat n < 2 ^ 64")
  case True
  from credit_balance [OF True] obtain b re' where c:
    "on_store (add_funds u a n) re = (Inr b, re')" "only_user u re re'"
    "engine_balance re' u a = (engine_balance re u a)\<lparr>available := available (engine_balance re u a) + n\<rparr>"
    "\<And>c. c \<noteq> a \<Longrightarrow> engine_balance re' u c = engine_balance re u c" by blast
  have n: "n \<le> available (engine_balance re' u a)"
    using True by (simp add: c(3) word_le_nat_alt unat_add_no_overflow)
  from debit_balance [OF n] obtain b2 re2 where d:
    "on_store (subtract_funds u a n) re' = (Inr b2, re2)" "only_user u re' re2"
    "engine_balance re2 u a = (engine_balance re' u a)\<lparr>available := available (engine_balance re' u a) - n\<rparr>"
    "\<And>c. c \<noteq> a \<Longrightarrow> engine_balance re2 u c = engine_balance re' u c" by blast
  have h': "user_id_for_this_handler re' u"
    using c(2) assms(4) by (simp add: u_def user_id_for_this_handler_def only_user_def same_shard_def)
  have r1: "pre_process_command re cmd pc = (re', set_status Processed (record_balance0 (engine_balance re' u a) cmd))"
    using assms(4,5) c(1) by (simp add: pre_process_command_def handle_deposit_def u_def a_def n_def)
  have r2: "pre_process_command re' out pc = (re2, set_status Processed (record_balance0 (engine_balance re2 u a) out))"
    using assms(6-9) d(1) h' by (simp add: pre_process_command_def handle_withdrawal_def u_def a_def n_def)
  have "engine_balance re2 v x = engine_balance re v x" for v x
    using c(3,4) d(3,4) only_user_balance [OF c(2)] only_user_balance [OF d(2)]
    by (cases "v = u"; cases "x = a") auto
  with r1 r2 True show ?thesis
    by (auto simp: set_status_def record_balance0_def c(3) unat_add_no_overflow)
next
  case False
  then have g: "\<not> checked_add (available (get_balance (re_balances re) u a)) n \<noteq> None"
    by (simp add: checked_add_def engine_balance_def)
  obtain e re' where e: "on_store (add_funds u a n) re = (Inl (BalanceError e), re')"
    using credit.refuses [OF g] by (auto simp: on_store_def)
  have "pre_process_command re cmd pc = (re', set_status Rejected cmd)"
    using assms(4,5) e by (simp add: pre_process_command_def handle_deposit_def u_def a_def n_def)
  moreover have "engine_balance re' v c = engine_balance re v c" for v c
    using g store_after [OF e] by (simp add: engine_balance_def credit.balance_after)
  ultimately show ?thesis using False by (auto simp: set_status_def)
qed

theorem deposit_withdraw_roundtrip_witness:
  "\<exists>re' cmd' re'' out'. pre_process_command (sample_engine sample_spec []) (mk_deposit_funds 1 7 2) Map.empty = (re', cmd') \<and>
     unat (available (engine_balance re' 1 2)) = 7 \<and>
     pre_process_command re' (mk_withdraw_funds 1 7 2) Map.empty = (re'', out') \<and> c_status out' = Processed \<and>
     engine_balance re'' 1 2 = balance_default"
  using deposit_withdraw_roundtrip [of "sample_engine sample_spec []" "mk_deposit_funds 1 7 2" "mk_withdraw_funds 1 7 2" Map.empty]
  by (auto simp: mk_deposit_funds_def mk_withdraw_funds_def balance_default_def)

section \<open>Where the guarantees end\<close>

text \<open>C29. The cost of a bid is cut to 64 bits: \<open>calculate_quote_cost\<close> is the product of price, size and
  scale modulo 2^128, divided by the denominator, modulo 2^64, on every input. So a limit bid whose exact
  cost is C, with its product below 2^128, is accepted by the R1 handler of its user as soon as C mod 2^64
  is available, and locks only C mod 2^64 (the wrap of the locked amount included), whatever C is. If C
  is a multiple of 2^64 the bid is accepted and no balance changes at all: it is reserved for nothing.\<close>

theorem truncated_cost_reserves_nothing:
  fixes re cmd
  defines "u \<equiv> c_user_id cmd" and "q \<equiv> quote_asset (c_market_id cmd)"
  assumes own: "user_id_for_this_handler re (c_user_id cmd)"
    and bid: "c_command cmd = PlaceOrder" "c_side cmd = Bid" "c_price cmd \<noteq> u64_MAX"
    and spec: "re_symbol_specs re (c_market_id cmd) = Some spec"
  defines "product \<equiv> unat (c_price cmd) * unat (c_size cmd) * unat (ms_quote_native_scale spec)"
    and "C \<equiv> exact_cost spec (unat (c_price cmd)) (unat (c_size cmd))"
  shows "unat (calculate_quote_cost spec (c_price cmd) (c_size cmd)) =
      product mod 2 ^ 128 div cost_denominator spec mod 2 ^ 64 \<and>
    (product < 2 ^ 128 \<longrightarrow> C mod 2 ^ 64 \<le> unat (available (engine_balance re u q)) \<longrightarrow>
      (\<exists>re'. pre_process_command re cmd pc = (re', cmd) \<and>
        unat (available (engine_balance re' u q)) = unat (available (engine_balance re u q)) - C mod 2 ^ 64 \<and>
        unat (locked (engine_balance re' u q)) = (unat (locked (engine_balance re u q)) + C) mod 2 ^ 64 \<and>
        (\<forall>v c. v \<noteq> u \<or> c \<noteq> q \<longrightarrow> engine_balance re' v c = engine_balance re v c) \<and>
        (2 ^ 64 dvd C \<longrightarrow> engine_balance re' u q = engine_balance re u q)))"
proof -
  let ?n = "calculate_quote_cost spec (c_price cmd) (c_size cmd)" and ?b = "engine_balance re u q"
  have r: "reservation_of re cmd pc = Some (q, ?n, c_price cmd)"
    using bid spec by (simp add: reservation_of_def q_def)
  have n: "unat ?n = C mod 2 ^ 64" if "product < 2 ^ 128"
    using calculate_quote_cost_mod [of "c_price cmd" "c_size cmd" spec] that
    unfolding C_def product_def by blast
  have "\<exists>re'. pre_process_command re cmd pc = (re', cmd) \<and>
      unat (available (engine_balance re' u q)) = unat (available ?b) - C mod 2 ^ 64 \<and>
      unat (locked (engine_balance re' u q)) = (unat (locked ?b) + C) mod 2 ^ 64 \<and>
      (\<forall>v c. v \<noteq> u \<or> c \<noteq> q \<longrightarrow> engine_balance re' v c = engine_balance re v c) \<and>
      (2 ^ 64 dvd C \<longrightarrow> engine_balance re' u q = ?b)"
    if fit: "product < 2 ^ 128" "C mod 2 ^ 64 \<le> unat (available ?b)"
  proof -
    have le: "?n \<le> available ?b" using n [OF fit(1)] fit(2) by (simp add: word_le_nat_alt)
    obtain re' where p: "pre_process_command re cmd pc = (re', cmd\<lparr>c_price := c_price cmd\<rparr>)"
      "engine_balance re' u q = ?b\<lparr>available := available ?b - ?n, locked := locked ?b + ?n\<rparr>"
      "\<forall>c. c \<noteq> q \<longrightarrow> engine_balance re' u c = engine_balance re u c" "only_user u re re'"
      using place_cases [OF own bid(1), of pc] le unfolding r u_def by auto
    have "unat (locked ?b + ?n) = (unat (locked ?b) + C) mod 2 ^ 64"
      using n [OF fit(1)] by (simp add: unat_word_ariths mod_add_right_eq)
    moreover have "unat (available ?b - ?n) = unat (available ?b) - C mod 2 ^ 64"
      using n [OF fit(1)] le by (simp add: unat_sub)
    moreover have "?n = 0" if "2 ^ 64 dvd C"
      using n [OF fit(1)] that by (simp add: unat_eq_zero)
    moreover have "engine_balance re' v c = engine_balance re v c" if "v \<noteq> u \<or> c \<noteq> q" for v c
      using that p(3) only_user_balance [OF p(4), of v c] by (cases "v = u") auto
    ultimately show ?thesis using p(1,2) by (auto simp del: One_nat_def)
  qed
  moreover have "unat ?n = product mod 2 ^ 128 div cost_denominator spec mod 2 ^ 64"
    unfolding product_def by (rule calculate_quote_cost_law)
  ultimately show ?thesis by blast
qed

text \<open>In a market with all scales 1, an order for 2^32 units at price 2^32 costs 2^64; a user without any
  funds is accepted with nothing locked.\<close>

theorem truncated_cost_reserves_nothing_witness:
  "exact_cost sample_spec (2 ^ 32) (2 ^ 32) = 2 ^ 64 \<and>
   (\<exists>re'. pre_process_command (sample_engine sample_spec []) (mk_place_order Gtc 7 4294967296 4294967296 Bid 131073 0) Map.empty =
        (re', mk_place_order Gtc 7 4294967296 4294967296 Bid 131073 0) \<and>
      engine_balance re' 7 2 = balance_default)"
proof -
  let ?re = "sample_engine sample_spec []" and ?cmd = "mk_place_order Gtc 7 4294967296 4294967296 Bid 131073 0"
  have c: "c_command ?cmd = PlaceOrder" "c_user_id ?cmd = 7" "c_side ?cmd = Bid" "c_market_id ?cmd = 131073"
    "c_size ?cmd = 4294967296" "c_price ?cmd = 4294967296" by (simp_all add: mk_place_order_def)
  have cost: "exact_cost sample_spec 4294967296 4294967296 = 18446744073709551616"
    by (simp add: exact_cost_def cost_denominator_def sample_spec_def)
  have own: "user_id_for_this_handler ?re (c_user_id ?cmd)" and b: "engine_balance ?re 7 2 = balance_default"
    by simp_all
  from truncated_cost_reserves_nothing [of ?re ?cmd sample_spec Map.empty] own b c cost
  show ?thesis by (auto simp: balance_default_def sample_spec_def)
qed

text \<open>C28. A failed settlement loses the payment: when the income of a side does not fit its available
  balance, \<^verbatim>\<open>settle_trade\<close> returns the overflow after it has already taken the payment from the locked
  balance, and the caller only drops the error. The side has paid and received nothing.\<close>

theorem failed_settlement_loses_payment:
  assumes "re_symbol_specs re m = Some spec" "base_asset m \<noteq> quote_asset m"
    and "snd (spends spec m sd e) \<le> locked (engine_balance re u (paid_asset m sd))"
    and "2 ^ 64 \<le> unat (available (engine_balance re u (got_asset m sd))) + income spec m sd (u = e_maker_user_id e) e"
  shows "\<exists>re'. handle_trade_event re u m sd e None = (re', e) \<and>
    locked (engine_balance re' u (paid_asset m sd)) =
      locked (engine_balance re u (paid_asset m sd)) - snd (spends spec m sd e) \<and>
    available (engine_balance re' u (paid_asset m sd)) = available (engine_balance re u (paid_asset m sd)) \<and>
    engine_balance re' u (got_asset m sd) = engine_balance re u (got_asset m sd)"
proof -
  let ?a = "paid_asset m sd" and ?g = "got_asset m sd" and ?n = "snd (spends spec m sd e)"
  let ?k = "snd (receives spec m sd (u = e_maker_user_id e) e)"
  from debit_locked_balance [OF assms(3)] obtain b re1 where d:
    "on_store (subtract_locked_funds u ?a ?n) re = (Inr b, re1)"
    "engine_balance re1 u ?a = (engine_balance re u ?a)\<lparr>locked := locked (engine_balance re u ?a) - ?n\<rparr>"
    "\<And>c. c \<noteq> ?a \<Longrightarrow> engine_balance re1 u c = engine_balance re u c" by blast
  have ne: "?g \<noteq> ?a" using paid_got_distinct [OF assms(2)] by metis
  have g: "\<not> checked_add (available (get_balance (re_balances re1) u ?g)) ?k \<noteq> None"
    using assms(4) d(3) [OF ne] by (simp add: checked_add_def engine_balance_def income_def)
  obtain er re2 where e: "on_store (add_funds u ?g ?k) re1 = (Inl (BalanceError er), re2)"
    using credit.refuses [OF g] by (auto simp: on_store_def)
  have same: "engine_balance re2 v c = engine_balance re1 v c" for v c
    using g store_after [OF e] by (simp add: engine_balance_def credit.balance_after)
  obtain x where "settle_trade re u m sd e spec None = (Inl x, re2, e)"
    using d(1) e trade_amounts_eq [of spec m sd "u = e_maker_user_id e" e]
    by (auto simp: settle_trade_def Let_def refund_improvement_def)
  from handle_trade_event_eq [OF assms(1) this] show ?thesis
    using d(2,3) ne by (simp add: same)
qed

theorem failed_settlement_loses_payment_witness:
  "\<exists>re'. handle_trade_event (sample_engine sample_spec
       [(1, 1, \<lparr>available = 0, locked = 5\<rparr>), (1, 2, \<lparr>available = u64_MAX, locked = 0\<rparr>)]) 1 131073 Ask sample_trade None =
     (re', sample_trade) \<and> locked (engine_balance re' 1 1) = 0 \<and> available (engine_balance re' 1 2) = u64_MAX"
proof -
  have cost: "calculate_quote_cost sample_spec 90 5 = 450"
    by (simp add: calculate_quote_cost_def sample_spec_def Let_def)
  have fee: "trade_fee sample_spec True = 10" by (simp add: trade_fee_def sample_spec_def)
  show ?thesis
    using failed_settlement_loses_payment [of "sample_engine sample_spec
       [(1, 1, \<lparr>available = 0, locked = 5\<rparr>), (1, 2, \<lparr>available = u64_MAX, locked = 0\<rparr>)]" 131073 sample_spec Ask sample_trade 1]
    by (auto simp: assets_cases spends_def income_def receives_def cost fee)
qed

text \<open>Rounding gives away small fills and keeps the rest: with a base scale of 2, a bid for 2 units at
  price 1 reserves 1. Two fills of one unit cost 0 each, so the buyer receives both units for nothing,
  the seller nothing for them, and the reserved 1 stays locked after the order is filled.\<close>

lemma rounding_strands_reservation:
  defines "spec \<equiv> sample_spec\<lparr>ms_base_native_scale := 2\<rparr>"
    and "fill \<equiv> sample_trade\<lparr>e_price := 1, e_size := 1\<rparr>"
  shows "calculate_quote_cost spec 1 2 = 1 \<and>
    (case r2_settle 0 0 (sample_engine spec
        [(2, 2, \<lparr>available = 0, locked = 1\<rparr>), (1, 1, \<lparr>available = 0, locked = 2\<rparr>)])
        ((mk_place_order Gtc 2 1 0 Bid 131073 0)
           \<lparr>c_events := Some (Event fill (Some (Event fill None))), c_status := Filled\<rparr>) of (re', cmd') \<Rightarrow>
      engine_balance re' 2 1 = \<lparr>available = 2, locked = 0\<rparr> \<and> engine_balance re' 2 2 = \<lparr>available = 0, locked = 1\<rparr> \<and>
      engine_balance re' 1 1 = balance_default \<and> engine_balance re' 1 2 = balance_default)"
proof -
  let ?re = "sample_engine spec [(2, 2, \<lparr>available = 0, locked = 1\<rparr>), (1, 1, \<lparr>available = 0, locked = 2\<rparr>)]"
  have cost: "calculate_quote_cost spec 1 2 = 1" "calculate_quote_cost spec 1 1 = 0"
    and fees: "ms_taker_fee spec = 20" "ms_maker_fee spec = 10"
    by (simp_all add: calculate_quote_cost_def spec_def sample_spec_def Let_def)
  have f: "e_price fill = 1" "e_size fill = 1" "e_maker_user_id fill = 1" by (simp_all add: fill_def)
  show ?thesis
    by (simp add: r2_settle_def Let_def mk_place_order_def settle_event_def handle_trade_event_def
        settle_trade_def refund_improvement_def trade_fee_def trade_amounts_def f fees cost on_store_def
        sample_engine_def set_balance_def put_balance_def get_balance_mut_def subtract_locked_funds_def
        add_funds_def checked_add_def balance_store_new_def should_handle_cancellation_def
        record_balances_def engine_balance_def get_balance_def balance_default_def)
qed

end
