(* ===== verification/Wire_Text.thy ===== *)
theory Wire_Text
  imports Vex_Prelude
begin

text \<open>
  The part of Rust's strings the networking and configuration code uses. A \<^verbatim>\<open>&str\<close> is a \<open>string\<close> whose
  characters are its UTF-8 bytes; \<open>from_utf8\<close> and \<open>from_utf8_lossy\<close> decide which byte sequences are
  strings, the split at white space knows all white space of Unicode by its encoding, and numbers are
  parsed and formatted as \<^verbatim>\<open>core::num\<close> does, with its error kinds. The lemmas are the round trips of
  numbers and the split of a message into the words it was put together from.
\<close>

section \<open>UTF-8\<close>

definition str_of :: "u8 list \<Rightarrow> string" where
  "str_of bs = map (\<lambda>b. char_of (unat b)) bs"

definition as_bytes :: "string \<Rightarrow> u8 list" where
  "as_bytes s = map of_char s"

definition byte_at :: "u8 list \<Rightarrow> nat \<Rightarrow> u8" where
  "byte_at bs i = (if i < length bs then bs ! i else 0)"

definition continuation :: "u8 \<Rightarrow> bool" where
  "continuation b \<longleftrightarrow> 128 \<le> b \<and> b < 192"

text \<open>The character at the head: whether it is well formed, and how many bytes it takes (or, when it is
  not, how many bytes the ill-formed part has).\<close>

definition three_ok :: "u8 \<Rightarrow> u8 \<Rightarrow> bool" where
  "three_ok b c \<longleftrightarrow> (if b = 224 then 160 \<le> c \<and> c < 192 else if b = 237 then 128 \<le> c \<and> c < 160 else continuation c)"

definition four_ok :: "u8 \<Rightarrow> u8 \<Rightarrow> bool" where
  "four_ok b c \<longleftrightarrow> (if b = 240 then 144 \<le> c \<and> c < 192 else if b = 244 then 128 \<le> c \<and> c < 144 else continuation c)"

definition utf8_char :: "u8 list \<Rightarrow> bool \<times> nat" where
  "utf8_char bs =
     (let b = byte_at bs 0
      in if b < 128 then (True, 1)
         else if 194 \<le> b \<and> b < 224 then
           (if continuation (byte_at bs 1) then (True, 2) else (False, 1))
         else if 224 \<le> b \<and> b < 240 then
           (if \<not> three_ok b (byte_at bs 1) then (False, 1)
            else if continuation (byte_at bs 2) then (True, 3) else (False, 2))
         else if 240 \<le> b \<and> b < 245 then
           (if \<not> four_ok b (byte_at bs 1) then (False, 1)
            else if \<not> continuation (byte_at bs 2) then (False, 2)
            else if continuation (byte_at bs 3) then (True, 4) else (False, 3))
         else (False, 1))"

lemma utf8_char_pos: "snd (utf8_char bs) > 0"
  by (simp add: utf8_char_def Let_def)

text \<open>\<^verbatim>\<open>Utf8Error\<close>: where the valid part ends, and the length of the bad part, if it is not just cut off.\<close>

function utf8_check :: "nat \<Rightarrow> u8 list \<Rightarrow> (nat \<times> nat option) option" where
  "utf8_check i bs =
     (if bs = [] then None
      else if fst (utf8_char bs) then utf8_check (i + snd (utf8_char bs)) (drop (snd (utf8_char bs)) bs)
      else Some (i, if snd (utf8_char bs) = length bs \<and> 194 \<le> hd bs \<and> hd bs < 245 then None
                    else Some (snd (utf8_char bs))))"
  by auto
termination
  by (relation "measure (\<lambda>(i, bs). length bs)") (auto simp: utf8_char_pos)

declare utf8_check.simps [simp del]

function from_utf8_lossy :: "u8 list \<Rightarrow> string" where
  "from_utf8_lossy bs =
     (if bs = [] then []
      else (if fst (utf8_char bs) then str_of (take (snd (utf8_char bs)) bs)
            else str_of [239, 191, 189]) @ from_utf8_lossy (drop (snd (utf8_char bs)) bs))"
  by auto
termination
  by (relation "measure length") (auto simp: utf8_char_pos)

declare from_utf8_lossy.simps [simp del]

section \<open>White space\<close>

text \<open>The number of bytes of the white space character at the head, 0 if there is none there.\<close>

fun ws_bytes :: "nat list \<Rightarrow> nat" where
  "ws_bytes (a # b # c # _) =
     (if 9 \<le> a \<and> a \<le> 13 \<or> a = 32 then 1
      else if a = 194 \<and> b \<in> {133, 160} then 2
      else if (a, b, c) \<in> {(225, 154, 128), (226, 128, 168), (226, 128, 169), (226, 128, 175),
          (226, 129, 159), (227, 128, 128)} \<or> a = 226 \<and> b = 128 \<and> 128 \<le> c \<and> c \<le> 138 then 3
      else 0)"
| "ws_bytes (a # b # []) =
     (if 9 \<le> a \<and> a \<le> 13 \<or> a = 32 then 1 else if a = 194 \<and> b \<in> {133, 160} then 2 else 0)"
| "ws_bytes (a # []) = (if 9 \<le> a \<and> a \<le> 13 \<or> a = 32 then 1 else 0)"
| "ws_bytes [] = 0"

definition ws_prefix :: "string \<Rightarrow> nat" where
  "ws_prefix s = ws_bytes (map of_char (take 3 s))"

function split_ws :: "string \<Rightarrow> string \<Rightarrow> string list" where
  "split_ws acc s =
     (if s = [] then (if acc = [] then [] else [rev acc])
      else if 0 < ws_prefix s then (if acc = [] then [] else [rev acc]) @ split_ws [] (drop (ws_prefix s) s)
      else split_ws (hd s # acc) (tl s))"
  by auto
termination
  by (relation "measure (\<lambda>(acc, s). length s)") auto

declare split_ws.simps [simp del]

definition split_whitespace :: "string \<Rightarrow> string list" where
  "split_whitespace s = split_ws [] s"

function trim_start :: "string \<Rightarrow> string" where
  "trim_start s = (if s \<noteq> [] \<and> 0 < ws_prefix s then trim_start (drop (ws_prefix s) s) else s)"
  by auto
termination by (relation "measure length") auto

declare trim_start.simps [simp del]

fun trim_end :: "string \<Rightarrow> string" where
  "trim_end [] = []"
| "trim_end (c # s) = (if trim_start (c # s) = [] then [] else c # trim_end s)"

definition trim :: "string \<Rightarrow> string" where
  "trim s = trim_end (trim_start s)"

definition trim_matches :: "char \<Rightarrow> string \<Rightarrow> string" where
  "trim_matches c s = rev (dropWhile (\<lambda>x. x = c) (rev (dropWhile (\<lambda>x. x = c) s)))"

fun join_with :: "string \<Rightarrow> string list \<Rightarrow> string" where
  "join_with sep [] = []"
| "join_with sep [w] = w"
| "join_with sep (w # ws) = w @ sep @ join_with sep ws"

fun strip_prefix :: "string \<Rightarrow> string \<Rightarrow> string option" where
  "strip_prefix [] s = Some s"
| "strip_prefix (p # ps) [] = None"
| "strip_prefix (p # ps) (c # s) = (if p = c then strip_prefix ps s else None)"

section \<open>Numbers\<close>

text \<open>\<^verbatim>\<open>format!("{}", n)\<close> for unsigned and signed integers.\<close>

definition digit :: "nat \<Rightarrow> char" where
  "digit d = (if d < 10 then ''0123456789'' ! d else CHR ''?'')"

function dec :: "nat \<Rightarrow> string" where
  "dec n = (if n < 10 then [digit n] else dec (n div 10) @ [digit (n mod 10)])"
  by auto
termination by (relation "measure id") auto

declare dec.simps [simp del]

definition dec_i32 :: "i32 \<Rightarrow> string" where
  "dec_i32 x = (if sint x < 0 then CHR ''-'' # dec (nat (- sint x)) else dec (nat (sint x)))"

datatype parse_int_error = EmptyNumber | InvalidDigit | PosOverflow | NegOverflow

fun parse_int_error_display :: "parse_int_error \<Rightarrow> string" where
  "parse_int_error_display EmptyNumber = ''cannot parse integer from empty string''"
| "parse_int_error_display InvalidDigit = ''invalid digit found in string''"
| "parse_int_error_display PosOverflow = ''number too large to fit in target type''"
| "parse_int_error_display NegOverflow = ''number too small to fit in target type''"

definition to_digit :: "char \<Rightarrow> nat option" where
  "to_digit c = (let n = of_char c :: nat in if 48 \<le> n \<and> n < 58 then Some (n - 48) else None)"

text \<open>The loop over the digits; the magnitude must not exceed \<open>hi\<close>.\<close>

fun parse_digits :: "parse_int_error \<Rightarrow> nat \<Rightarrow> nat \<Rightarrow> string \<Rightarrow> parse_int_error + nat" where
  "parse_digits overflow hi n [] = Inr n"
| "parse_digits overflow hi n (c # cs) =
     (case to_digit c of
        None \<Rightarrow> Inl InvalidDigit
      | Some d \<Rightarrow> if 10 * n + d \<le> hi then parse_digits overflow hi (10 * n + d) cs else Inl overflow)"

fun parse_unsigned :: "nat \<Rightarrow> string \<Rightarrow> parse_int_error + nat" where
  "parse_unsigned hi [] = Inl EmptyNumber"
| "parse_unsigned hi (c # cs) =
     (if cs = [] \<and> c \<in> {CHR ''+'', CHR ''-''} then Inl InvalidDigit
      else if c = CHR ''+'' then parse_digits PosOverflow hi 0 cs
      else parse_digits PosOverflow hi 0 (c # cs))"

definition parse_u8 :: "string \<Rightarrow> parse_int_error + u8" where
  "parse_u8 s = map_sum id of_nat (parse_unsigned 255 s)"

definition parse_u16 :: "string \<Rightarrow> parse_int_error + u16" where
  "parse_u16 s = map_sum id of_nat (parse_unsigned 65535 s)"

definition parse_u32 :: "string \<Rightarrow> parse_int_error + u32" where
  "parse_u32 s = map_sum id of_nat (parse_unsigned 4294967295 s)"

definition parse_i32 :: "string \<Rightarrow> parse_int_error + i32" where
  "parse_i32 s =
     (case s of
        c # cs \<Rightarrow> if c = CHR ''-'' \<and> cs \<noteq> []
                  then map_sum id (\<lambda>n. - of_nat n) (parse_digits NegOverflow 2147483648 0 cs)
                  else map_sum id of_nat (parse_unsigned 2147483647 s)
      | [] \<Rightarrow> Inl EmptyNumber)"

section \<open>Decimal numbers\<close>

lemma dec_digits: "c \<in> set (dec n) \<Longrightarrow> \<exists>d<10. c = digit d"
proof (induction n rule: dec.induct)
  case (1 n)
  have "\<exists>d<10. digit (n mod 10) = digit d" by (rule exI [of _ "n mod 10"]) simp
  with 1 show ?case by (subst (asm) (2) dec.simps) (auto split: if_splits)
qed

lemma digit_inj: "a < 10 \<Longrightarrow> b < 10 \<Longrightarrow> digit a = digit b \<Longrightarrow> a = b"
proof -
  have d: "digit n = ''0123456789'' ! n" if "n < 10" for n using that by (simp add: digit_def)
  have "distinct ''0123456789''" by simp
  then show "a < 10 \<Longrightarrow> b < 10 \<Longrightarrow> digit a = digit b \<Longrightarrow> a = b"
    using d by (simp add: nth_eq_iff_index_eq)
qed

lemma colon_not_in_dec: "CHR '':'' \<notin> set (dec n)"
proof
  assume "CHR '':'' \<in> set (dec n)"
  then obtain d where d: "d < 10" "CHR '':'' = digit d" using dec_digits by blast
  then have "digit d \<in> set ''0123456789''" unfolding digit_def by (simp only: if_True) (rule nth_mem, simp)
  then have "CHR '':'' \<in> set ''0123456789''" by (simp only: d(2))
  then show False by simp
qed

lemma dec_not_Nil [simp]: "dec n \<noteq> []"
  by (subst dec.simps) simp

lemma dec_inj: "dec m = dec n \<Longrightarrow> m = n"
proof (induction m arbitrary: n rule: dec.induct)
  case (1 m)
  have len: "length (dec k) \<ge> 2" if "\<not> k < 10" for k
    using that dec_not_Nil [of "k div 10"] by (subst dec.simps) (cases "dec (k div 10)", auto)
  have one: "length (dec k) = 1" if "k < 10" for k using that by (subst dec.simps) simp
  show ?case
  proof (cases "m < 10 \<or> n < 10")
    case True
    then have "m < 10" "n < 10" using len [of m] len [of n] one [of m] one [of n] "1.prems" by fastforce+
    with "1.prems" show ?thesis by (simp add: dec.simps digit_inj)
  next
    case False
    then have "dec (m div 10) = dec (n div 10)" "digit (m mod 10) = digit (n mod 10)"
      using "1.prems" by (simp_all add: dec.simps [of m] dec.simps [of n])
    then have "m div 10 = n div 10" "m mod 10 = n mod 10"
      using False "1.IH" digit_inj by simp_all
    then show ?thesis by (metis div_mult_mod_eq)
  qed
qed

lemma split_at_unique:
  "c \<notin> set xs \<Longrightarrow> c \<notin> set ys \<Longrightarrow> xs @ c # as = ys @ c # bs \<Longrightarrow> xs = ys \<and> as = bs"
  by (induction xs arbitrary: ys) (case_tac ys; auto)+

lemma to_digit_digit: "d < 10 \<Longrightarrow> to_digit (digit d) = Some d"
proof -
  assume "d < 10"
  then have "d \<in> {0, 1, 2, 3, 4, 5, 6, 7, 8, 9}" by auto
  then show ?thesis by (auto simp: to_digit_def digit_def Let_def)
qed

lemma parse_digits_append:
  "parse_digits ov hi n (s @ t) =
     (case parse_digits ov hi n s of Inl e \<Rightarrow> Inl e | Inr m \<Rightarrow> parse_digits ov hi m t)"
  by (induction s arbitrary: n) (auto split: option.split)

lemma parse_digits_dec: "n \<le> hi \<Longrightarrow> parse_digits ov hi 0 (dec n) = Inr n"
proof (induction n rule: dec.induct)
  case (1 n)
  show ?case
  proof (cases "n < 10")
    case True
    with 1 show ?thesis by (simp add: dec.simps [of n] to_digit_digit)
  next
    case False
    moreover have "n div 10 \<le> hi" using 1(2) by linarith
    ultimately show ?thesis using 1
      by (simp add: dec.simps [of n] parse_digits_append to_digit_digit)
  qed
qed

lemma digit_char: "d < 10 \<Longrightarrow> of_char (digit d) = 48 + d"
proof -
  assume "d < 10"
  then have "d \<in> {0, 1, 2, 3, 4, 5, 6, 7, 8, 9}" by auto
  then show ?thesis by (auto simp: digit_def)
qed

lemma dec_chars: "c \<in> set (dec n) \<Longrightarrow> 48 \<le> (of_char c :: nat) \<and> (of_char c :: nat) < 58"
  using dec_digits [of c n] digit_char by fastforce

lemma parse_unsigned_dec: "n \<le> hi \<Longrightarrow> parse_unsigned hi (dec n) = Inr n"
proof -
  assume n: "n \<le> hi"
  obtain c cs where d: "dec n = c # cs" using dec_not_Nil by (cases "dec n") auto
  then have "48 \<le> (of_char c :: nat)" using dec_chars [of c n] by simp
  then have "c \<noteq> CHR ''+''" "c \<noteq> CHR ''-''" by auto
  with d parse_digits_dec [OF n, of PosOverflow] show ?thesis by (simp add: d)
qed

lemma parse_u16_dec: "parse_u16 (dec (unat p)) = Inr p"
  using parse_unsigned_dec [of "unat p" 65535] unat_lt_2p [of p] by (simp add: parse_u16_def)

lemma parse_u8_dec: "parse_u8 (dec (unat p)) = Inr p"
  using parse_unsigned_dec [of "unat p" 255] unat_lt_2p [of p] by (simp add: parse_u8_def)

lemma parse_i32_dec: "parse_i32 (dec_i32 x) = Inr x"
proof -
  have r: "- 2147483648 \<le> sint x" "sint x < 2147483648"
    using sint_ge [of x] sint_lt [of x] by simp_all
  show ?thesis
  proof (cases "sint x < 0")
    case True
    have "nat (- sint x) \<le> 2147483648" using r by linarith
    moreover have "- (of_nat (nat (- sint x)) :: i32) = x"
      using True by (simp add: of_nat_nat)
    ultimately show ?thesis
      using True by (simp add: parse_i32_def dec_i32_def parse_digits_dec)
  next
    case False
    obtain c cs where d: "dec (nat (sint x)) = c # cs" using dec_not_Nil by (cases "dec (nat (sint x))") auto
    then have "48 \<le> (of_char c :: nat)" using dec_chars [of c "nat (sint x)"] by simp
    then have "c \<noteq> CHR ''-''" by auto
    moreover have "nat (sint x) \<le> 2147483647" using r by linarith
    ultimately show ?thesis
      using False parse_unsigned_dec [of "nat (sint x)" 2147483647] d
      by (simp add: parse_i32_def dec_i32_def of_nat_nat)
  qed
qed

section \<open>Words of a message\<close>

text \<open>Words of visible ASCII characters.\<close>

definition visible :: "char \<Rightarrow> bool" where
  "visible c \<longleftrightarrow> 33 \<le> (of_char c :: nat) \<and> (of_char c :: nat) < 127"

definition word :: "string \<Rightarrow> bool" where
  "word w \<longleftrightarrow> w \<noteq> [] \<and> (\<forall>c\<in>set w. visible c)"

lemma ws_prefix_visible: "visible c \<Longrightarrow> ws_prefix (c # s) = 0"
  by (cases "map of_char (take 3 (c # s)) :: nat list" rule: ws_bytes.cases)
    (auto simp: ws_prefix_def visible_def)

lemma ws_prefix_space: "ws_prefix (CHR '' '' # s) = 1"
  by (cases "map of_char (take 3 (CHR '' '' # s)) :: nat list" rule: ws_bytes.cases)
    (auto simp: ws_prefix_def)

lemma split_ws_visible: "\<forall>c\<in>set w. visible c \<Longrightarrow> split_ws acc (w @ s) = split_ws (rev w @ acc) s"
proof (induction w arbitrary: acc)
  case (Cons c w)
  then show ?case by (simp add: split_ws.simps [of acc "c # w @ s"] ws_prefix_visible)
qed simp

lemma split_whitespace_join:
  "\<forall>w\<in>set ws. word w \<Longrightarrow> split_whitespace (join_with '' '' ws) = ws"
proof (induction "'' ''" ws rule: join_with.induct)
  case (2 w)
  then show ?case
    using split_ws_visible [of w "[]" "[]"]
    by (simp add: split_whitespace_def word_def split_ws.simps [of _ "[]"])
next
  case (3 w v vs)
  then have "split_ws [] (w @ CHR '' '' # join_with '' '' (v # vs)) = w # split_ws [] (join_with '' '' (v # vs))"
    by (simp add: word_def split_ws_visible split_ws.simps [of _ "CHR '' '' # _"] ws_prefix_space)
  with 3 show ?case by (simp add: split_whitespace_def)
qed (simp add: split_whitespace_def split_ws.simps)

lemma word_dec: "word (dec n)"
  using dec_chars by (fastforce simp: word_def visible_def)

lemma word_dec_i32: "word (dec_i32 x)"
  using word_dec by (auto simp: dec_i32_def word_def visible_def)

lemma trim_start_visible: "visible c \<Longrightarrow> trim_start (c # s) = c # s"
  by (subst trim_start.simps) (simp add: ws_prefix_visible)

lemma ws_prefix_last:
  assumes "0 < ws_prefix s" "length s \<le> ws_prefix s"
  shows "\<not> visible (last s)"
proof (cases "map of_char (take 3 s) :: nat list" rule: ws_bytes.cases)
  case (1 a b c t)
  then have l: "min (length s) 3 = Suc (Suc (Suc (length t)))" by (metis length_map length_take min.commute length_Cons)
  then have "t = []" by (cases t) auto
  moreover have "ws_prefix s \<le> 3" using 1 by (simp add: ws_prefix_def)
  ultimately have "length s = 3" using assms l by auto
  with 1 assms obtain x y z where "s = [x, y, z]" "of_char x = a" "of_char y = b" "of_char z = c"
    by (auto simp: length_Suc_conv numeral_3_eq_3)
  with 1 \<open>t = []\<close> assms show ?thesis by (auto simp: ws_prefix_def visible_def split: if_splits)
next
  case (2 a b)
  then obtain x y where "s = [x, y]" "of_char x = a" "of_char y = b"
    by (cases s; cases "tl s"; cases "tl (tl s)") auto
  with 2 assms show ?thesis by (auto simp: ws_prefix_def visible_def split: if_splits)
next
  case (3 a)
  then obtain x where "s = [x]" "of_char x = a"
    by (cases s; cases "tl s") auto
  with 3 assms show ?thesis by (auto simp: ws_prefix_def visible_def split: if_splits)
qed (use assms in \<open>simp add: ws_prefix_def\<close>)

lemma trim_start_not_Nil: "s \<noteq> [] \<Longrightarrow> visible (last s) \<Longrightarrow> trim_start s \<noteq> []"
proof (induction s rule: trim_start.induct)
  case (1 s)
  show ?case
  proof (cases "0 < ws_prefix s")
    case True
    then have "ws_prefix s < length s" using ws_prefix_last [of s] 1(3) by (meson not_le)
    with 1 True show ?thesis by (subst trim_start.simps) (simp add: last_drop)
  qed (use 1 in \<open>subst trim_start.simps, simp\<close>)
qed

lemma trim_end_visible: "s = [] \<or> visible (last s) \<Longrightarrow> trim_end s = s"
proof (induction s)
  case (Cons c s)
  then have "trim_start (c # s) \<noteq> []" by (intro trim_start_not_Nil) auto
  moreover have "s = [] \<or> visible (last s)" using Cons(2) by (cases "s = []") auto
  ultimately show ?case using Cons(1) by simp
qed simp

lemma trim_visible: "s \<noteq> [] \<Longrightarrow> visible (hd s) \<Longrightarrow> visible (last s) \<Longrightarrow> trim s = s"
  using trim_end_visible [of s] by (cases s) (auto simp: trim_def trim_start_visible)

lemma trim_matches_visible:
  "s \<noteq> [] \<Longrightarrow> visible (hd s) \<Longrightarrow> visible (last s) \<Longrightarrow> \<not> visible c \<Longrightarrow> trim_matches c s = s"
proof -
  assume a: "s \<noteq> []" "visible (hd s)" "visible (last s)" "\<not> visible c"
  then have "hd s \<noteq> c" "last s \<noteq> c" by auto
  moreover have "dropWhile (\<lambda>x. x = c) t = t" if "t \<noteq> []" "hd t \<noteq> c" for t using that by (cases t) auto
  ultimately show ?thesis using a(1) by (simp add: trim_matches_def hd_rev)
qed

lemma join_ends:
  "ws \<noteq> [] \<Longrightarrow> \<forall>w\<in>set ws. word w \<Longrightarrow>
     join_with '' '' ws \<noteq> [] \<and> visible (hd (join_with '' '' ws)) \<and> visible (last (join_with '' '' ws))"
proof (induction "'' ''" ws rule: join_with.induct)
  case (3 w v vs)
  then show ?case by (cases w) (auto simp: word_def)
qed (auto simp: word_def)

lemmas message_words = split_whitespace_join word_dec word_dec_i32

text \<open>ASCII is UTF-8, so decoding the bytes of such a message gives it back.\<close>

lemma utf8_ascii: "b < 128 \<Longrightarrow> utf8_char (b # bs) = (True, 1)"
  by (simp add: utf8_char_def byte_at_def)

lemma utf8_check_ascii: "\<forall>b\<in>set bs. b < 128 \<Longrightarrow> utf8_check i bs = None"
proof (induction bs arbitrary: i)
  case (Cons b bs)
  then show ?case by (simp add: utf8_check.simps [of i "b # bs"] utf8_ascii)
qed (simp add: utf8_check.simps)

lemma lossy_ascii: "\<forall>b\<in>set bs. b < 128 \<Longrightarrow> from_utf8_lossy bs = str_of bs"
proof (induction bs)
  case (Cons b bs)
  then show ?case by (simp add: from_utf8_lossy.simps [of "b # bs"] utf8_ascii str_of_def)
qed (simp add: from_utf8_lossy.simps str_of_def)

lemma str_of_as_bytes: "str_of (as_bytes s) = s"
proof -
  have "char_of (unat (of_char c :: u8)) = c" for c
  proof -
    have "unat (of_char c :: u8) = of_char c"
      by (simp only: of_nat_of_char [symmetric, where c = c and 'a = u8] unat_of_nat) simp
    then show ?thesis by simp
  qed
  then show ?thesis by (simp add: str_of_def as_bytes_def o_def)
qed

lemma visible_byte: "visible c \<Longrightarrow> (of_char c :: u8) < 128"
proof -
  assume "visible c"
  moreover have "unat (of_char c :: u8) = of_char c"
    by (simp only: of_nat_of_char [symmetric, where c = c and 'a = u8] unat_of_nat) simp
  ultimately show ?thesis by (simp add: word_less_nat_alt visible_def)
qed

lemma join_chars: "c \<in> set (join_with sep ws) \<Longrightarrow> c \<in> set sep \<or> (\<exists>w\<in>set ws. c \<in> set w)"
  by (induction sep ws rule: join_with.induct) auto

lemma message_ascii: "\<forall>w\<in>set ws. word w \<Longrightarrow> \<forall>b\<in>set (as_bytes (join_with '' '' ws)). b < 128"
  using visible_byte by (fastforce simp: as_bytes_def word_def dest: join_chars)

text \<open>The bytes of a message of words decode to it, on either side of the wire.\<close>

lemma message_decodes:
  assumes "\<forall>w\<in>set ws. word w"
  shows "utf8_check i (as_bytes (join_with '' '' ws)) = None"
    and "from_utf8_lossy (as_bytes (join_with '' '' ws)) = join_with '' '' ws"
    and "split_whitespace (join_with '' '' ws) = ws"
    and "ws \<noteq> [] \<Longrightarrow> trim (trim_matches (CHR 0x00) (join_with '' '' ws)) = join_with '' '' ws"
  using message_ascii [OF assms] join_ends [OF _ assms]
  by (simp_all add: utf8_check_ascii lossy_ascii str_of_as_bytes split_whitespace_join assms
      trim_matches_visible trim_visible visible_def)

end
