(* ===== verification/Kafka_Events.thy ===== *)
theory Kafka_Events
  imports Publications Market_Spec Wire_Text "HOL-Library.Multiset"
begin

text \<open>
  The events handler of \<^verbatim>\<open>processors/src/events.rs\<close>: the messages a processed command puts on the
  Kafka topics and the response it sends to the gateway. \<^verbatim>\<open>publish_proto\<close> sends nothing itself: it spawns
  an asynchronous task on a multi-threaded runtime, which encodes the message (prost and the schema
  registry) and hands it to the producer; a failed encoding or send is only logged. Here
  \<open>publish_proto\<close> and the publishers return the tasks they spawn, in spawn order; a task is its message:
  topic, key, type name and the fields of its protobuf record, whose enums are \<^verbatim>\<open>i32\<close> codes
  (\<^verbatim>\<open>protos/trading.proto\<close>). \<open>run_task\<close> is the body of a task and \<open>run_tasks\<close> what reaches the producer
  when the runtime runs the tasks in some order. The JSON text of the levels of a book is \<^verbatim>\<open>serde_json\<close>'s,
  a parameter \<open>to_json\<close>; the registry's encoder is the parameter \<open>encode\<close>. What the producer then delivers,
  logging and the flush on drop are not modelled.
\<close>

section \<open>Messages\<close>

record proto_order =
  po_order_id :: u64
  po_user_id :: u64
  po_price :: u64
  po_size :: u64
  po_side :: i32
  po_time_in_force :: i32
  po_status :: i32
  po_timestamp :: u64
  po_filled_size :: u64

record proto_trade =
  pt_maker_user_id :: u64
  pt_taker_user_id :: u64
  pt_market_id :: u32
  pt_price :: u64
  pt_size :: u64
  pt_maker_order_id :: u64
  pt_taker_order_id :: u64
  pt_taker_side :: i32
  pt_timestamp :: u64

record proto_balance =
  pb_user_id :: u64
  pb_asset_id :: u32
  pb_available :: u64
  pb_locked :: u64
  pb_total :: u64
  pb_timestamp :: u64

record proto_orderbook =
  pk_market_id :: u32
  pk_bids :: string
  pk_asks :: string
  pk_timestamp :: u64

text \<open>Order id, market, user, time stamp of a cancel; user, asset, amount, time stamp of a transfer.\<close>

datatype proto_data =
  OrderEvent proto_order u32
| TradeEvent proto_trade
| BalanceEvent proto_balance
| OrderbookEvent proto_orderbook
| CancelOrderEvent u64 u32 u64 u64
| DepositEvent u64 u32 u64 u64
| WithdrawEvent u64 u32 u64 u64

record kafka_message =
  km_topic :: string
  km_key :: string
  km_full_name :: string
  km_data :: proto_data

fun proto_side :: "side \<Rightarrow> i32" where
  "proto_side Bid = 1"
| "proto_side Ask = 2"

fun proto_time_in_force :: "time_in_force \<Rightarrow> i32" where
  "proto_time_in_force Gtc = 1"
| "proto_time_in_force Ioc = 2"
| "proto_time_in_force Fok = 3"

fun proto_status :: "status \<Rightarrow> i32" where
  "proto_status Rejected = 1"
| "proto_status Placed = 2"
| "proto_status Cancelled = 3"
| "proto_status PartiallyFilled = 4"
| "proto_status Filled = 5"
| "proto_status Processing = 6"
| "proto_status Processed = 7"

definition publish_proto :: "string \<Rightarrow> string \<Rightarrow> string \<Rightarrow> proto_data \<Rightarrow> kafka_message list" where
  "publish_proto topic key full_name data =
     [\<lparr>km_topic = topic, km_key = key, km_full_name = full_name, km_data = data\<rparr>]"

text \<open>
  The body of the spawned task: encode, and on success hand the topic, the key and the payload to
  \<^verbatim>\<open>producer.send\<close>. The encoder asks the registry over the network, so its answer may differ from task to
  task: \<open>encode\<close> is also given the number of the task.
\<close>

type_synonym 'b producer_record = "string \<times> string \<times> 'b"

definition run_task ::
    "(nat \<Rightarrow> proto_data \<Rightarrow> string \<Rightarrow> string \<Rightarrow> 'b option) \<Rightarrow> nat \<Rightarrow> kafka_message \<Rightarrow> 'b producer_record option" where
  "run_task encode i m =
     (case encode i (km_data m) (km_full_name m) (km_topic m) of
        Some encoded_payload \<Rightarrow> Some (km_topic m, km_key m, encoded_payload)
      | None \<Rightarrow> None)"

text \<open>
  The runtime runs spawned tasks in any order, each at most once, and drops those still pending when it
  shuts down. \<open>order\<close> lists the numbers of the tasks in the order they reach the producer; \<open>run_tasks\<close> is
  what the producer is handed: the message each record is made from, and the record.
\<close>

definition scheduled :: "kafka_message list \<Rightarrow> nat list \<Rightarrow> bool" where
  "scheduled tasks order \<longleftrightarrow> distinct order \<and> set order \<subseteq> {..<length tasks}"

definition run_tasks ::
    "(nat \<Rightarrow> proto_data \<Rightarrow> string \<Rightarrow> string \<Rightarrow> 'b option) \<Rightarrow> kafka_message list \<Rightarrow> nat list \<Rightarrow>
     (kafka_message \<times> 'b producer_record) list" where
  "run_tasks encode tasks order =
     List.map_filter (\<lambda>i. map_option (\<lambda>r. (tasks ! i, r)) (run_task encode i (tasks ! i))) order"

section \<open>The publishers\<close>

definition composite_key :: "u64 \<Rightarrow> u16 \<Rightarrow> string" where
  "composite_key user_id asset_id = dec (unat user_id) @ '':'' @ dec (unat asset_id)"

definition balance_message :: "u64 \<Rightarrow> u16 \<Rightarrow> user_balance \<Rightarrow> u64 \<Rightarrow> kafka_message list" where
  "balance_message user_id asset_id b timestamp =
     publish_proto ''balances'' (composite_key user_id asset_id) ''trading.BalanceEvent''
       (BalanceEvent \<lparr>pb_user_id = user_id, pb_asset_id = ucast asset_id, pb_available = available b,
          pb_locked = locked b, pb_total = balance_total b, pb_timestamp = timestamp\<rparr>)"

definition publish_balance_event ::
    "u64 \<Rightarrow> order_command \<Rightarrow> user_balance \<times> user_balance \<Rightarrow> kafka_message list" where
  "publish_balance_event user_id cmd balance =
     concat (map (\<lambda>(b, asset_id). balance_message user_id asset_id b (c_timestamp cmd))
       (zip [fst balance, snd balance] [base_asset (c_market_id cmd), quote_asset (c_market_id cmd)]))"

definition publish_deposit_withdrawal_event :: "order_command \<Rightarrow> kafka_message list" where
  "publish_deposit_withdrawal_event cmd =
     balance_message (c_user_id cmd) (ucast (c_market_id cmd)) (fst (c_balance cmd)) (c_timestamp cmd)"

definition publish_order_event :: "order_command \<Rightarrow> u64 \<Rightarrow> u64 \<Rightarrow> kafka_message list" where
  "publish_order_event cmd sz filled_size =
     publish_proto ''orders'' (dec (unat (c_order_id cmd))) ''trading.OrderEvent''
       (OrderEvent \<lparr>po_order_id = c_order_id cmd, po_user_id = c_user_id cmd, po_price = c_price cmd,
          po_size = sz, po_side = proto_side (c_side cmd),
          po_time_in_force = proto_time_in_force (c_time_in_force cmd),
          po_status = proto_status (c_status cmd), po_timestamp = c_timestamp cmd,
          po_filled_size = filled_size\<rparr> (c_market_id cmd))"

definition publish_maker_order_event :: "trade_event \<Rightarrow> order_command \<Rightarrow> u32 \<Rightarrow> kafka_message list" where
  "publish_maker_order_event event cmd market_id =
     (let status = (if e_matched_order_completed event then Filled else PartiallyFilled);
          filled_size = e_maker_original_size event - e_maker_remaining_size event
      in publish_proto ''orders'' (dec (unat (e_matched_order_id event))) ''trading.OrderEvent''
           (OrderEvent \<lparr>po_order_id = e_matched_order_id event, po_user_id = e_maker_user_id event,
              po_price = e_price event, po_size = e_maker_original_size event,
              po_side = proto_side (op_side (c_side cmd)), po_time_in_force = proto_time_in_force Gtc,
              po_status = proto_status status, po_timestamp = c_timestamp cmd,
              po_filled_size = filled_size\<rparr> market_id))"

definition publish_trade_event ::
    "trade_event \<Rightarrow> order_command \<Rightarrow> u32 \<Rightarrow> u64 \<Rightarrow> u64 \<Rightarrow> kafka_message list" where
  "publish_trade_event event cmd market_id taker_id taker_order_id =
     publish_proto ''trades''
       (dec (unat taker_order_id) @ '':'' @ dec (unat (e_matched_order_id event))) ''trading.TradeEvent''
       (TradeEvent \<lparr>pt_maker_user_id = e_maker_user_id event, pt_taker_user_id = taker_id,
          pt_market_id = market_id, pt_price = e_price event, pt_size = e_size event,
          pt_maker_order_id = e_matched_order_id event, pt_taker_order_id = taker_order_id,
          pt_taker_side = proto_side (c_side cmd), pt_timestamp = c_timestamp cmd\<rparr>)"

definition publish_cancel_order_event :: "order_command \<Rightarrow> kafka_message list" where
  "publish_cancel_order_event cmd =
     publish_proto ''cancels'' (dec (unat (c_order_id cmd))) ''trading.CancelOrderEvent''
       (CancelOrderEvent (c_order_id cmd) (c_market_id cmd) (c_user_id cmd) (c_timestamp cmd))"

text \<open>The levels with a positive price; indexing the volumes out of range is a panic.\<close>

fun json_levels :: "u64 list \<Rightarrow> u64 list \<Rightarrow> (u64 \<times> u64) list option" where
  "json_levels [] volumes = Some []"
| "json_levels (p # prices) [] = (if p > 0 then None else json_levels prices [])"
| "json_levels (p # prices) (v # volumes) =
     map_option (\<lambda>ls. if p > 0 then (p, v) # ls else ls) (json_levels prices volumes)"

definition to_json_or_empty :: "((u64 \<times> u64) list \<Rightarrow> string option) \<Rightarrow> (u64 \<times> u64) list \<Rightarrow> string" where
  "to_json_or_empty to_json levels = (case to_json levels of Some s \<Rightarrow> s | None \<Rightarrow> ''[]'')"

definition publish_orderbook_event ::
    "((u64 \<times> u64) list \<Rightarrow> string option) \<Rightarrow> u32 \<Rightarrow> l2_market_data option \<Rightarrow> kafka_message list option" where
  "publish_orderbook_event to_json market_id orderbook_snapshot =
     (case orderbook_snapshot of
        None \<Rightarrow> Some []
      | Some snapshot \<Rightarrow>
          (case json_levels (l2_bid_prices snapshot) (l2_bid_volumes snapshot) of
             None \<Rightarrow> None
           | Some bids \<Rightarrow>
               (case json_levels (l2_ask_prices snapshot) (l2_ask_volumes snapshot) of
                  None \<Rightarrow> None
                | Some asks \<Rightarrow>
                    Some (publish_proto ''orderbook'' (dec (unat market_id)) ''trading.OrderbookEvent''
                      (OrderbookEvent \<lparr>pk_market_id = market_id, pk_bids = to_json_or_empty to_json bids,
                         pk_asks = to_json_or_empty to_json asks,
                         pk_timestamp = l2_timestamp snapshot\<rparr>)))))"

definition publish_deposit_event :: "order_command \<Rightarrow> kafka_message list" where
  "publish_deposit_event cmd =
     publish_proto ''deposits'' (dec (unat (c_user_id cmd))) ''trading.DepositEvent''
       (DepositEvent (c_user_id cmd) (c_market_id cmd) (c_size cmd) (c_timestamp cmd))"

definition publish_withdraw_event :: "order_command \<Rightarrow> kafka_message list" where
  "publish_withdraw_event cmd =
     publish_proto ''withdrawals'' (dec (unat (c_user_id cmd))) ''trading.WithdrawEvent''
       (WithdrawEvent (c_user_id cmd) (c_market_id cmd) (c_size cmd) (c_timestamp cmd))"

section \<open>The handler\<close>

text \<open>The body of the loops over the events of a command.\<close>

definition publish_fill :: "order_command \<Rightarrow> trade_event \<Rightarrow> kafka_message list" where
  "publish_fill cmd event =
     publish_trade_event event cmd (c_market_id cmd) (c_user_id cmd) (c_order_id cmd) @
     publish_balance_event (e_maker_user_id event) cmd (e_maker_balance event) @
     publish_maker_order_event event cmd (c_market_id cmd)"

definition publish_fills :: "order_command \<Rightarrow> kafka_message list" where
  "publish_fills cmd = concat (map (publish_fill cmd) (events_list (c_events cmd)))"

definition filled_of :: "order_command \<Rightarrow> u64" where
  "filled_of cmd = (case c_events cmd of Some e \<Rightarrow> calc_filled_size e | None \<Rightarrow> 0)"

definition cancelled_messages :: "order_command \<Rightarrow> kafka_message list" where
  "cancelled_messages cmd =
     (if c_events cmd \<noteq> None then
        publish_fills cmd @ publish_order_event cmd (filled_of cmd + c_size cmd) (filled_of cmd)
      else if c_command cmd = CancelOrder then
        publish_order_event cmd (c_original_size cmd) (c_original_size cmd - c_size cmd)
      else publish_order_event cmd (c_size cmd) 0) @
     publish_balance_event (c_user_id cmd) cmd (c_balance cmd) @
     publish_cancel_order_event cmd"

text \<open>The match on the status; \<open>None\<close> is a panic.\<close>

definition status_messages ::
    "((u64 \<times> u64) list \<Rightarrow> string option) \<Rightarrow> order_command \<Rightarrow> kafka_message list option" where
  "status_messages to_json cmd =
     (let book = publish_orderbook_event to_json (c_market_id cmd) (c_l2_data cmd)
      in case c_status cmd of
           Rejected \<Rightarrow> Some []
         | Placed \<Rightarrow>
             map_option (\<lambda>b. publish_balance_event (c_user_id cmd) cmd (c_balance cmd) @
               publish_order_event cmd (c_size cmd) 0 @ b) book
         | Cancelled \<Rightarrow> map_option (\<lambda>b. cancelled_messages cmd @ b) book
         | PartiallyFilled \<Rightarrow>
             map_option (\<lambda>b. publish_fills cmd @ publish_balance_event (c_user_id cmd) cmd (c_balance cmd) @
               publish_order_event cmd (filled_of cmd + c_size cmd) (filled_of cmd) @ b) book
         | Filled \<Rightarrow>
             map_option (\<lambda>b. publish_fills cmd @ publish_balance_event (c_user_id cmd) cmd (c_balance cmd) @
               publish_order_event cmd (filled_of cmd + c_size cmd) (filled_of cmd) @ b) book
         | Processing \<Rightarrow> book
         | Processed \<Rightarrow> Some (publish_deposit_withdrawal_event cmd))"

definition handle_processed_command ::
    "((u64 \<times> u64) list \<Rightarrow> string option) \<Rightarrow> bool \<Rightarrow> 'p publications \<Rightarrow> order_command \<Rightarrow>
     (kafka_message list \<times> 'p offers) option" where
  "handle_processed_command to_json replay pubs cmd =
     (if replay then Some ([], [])
      else
        (let respond = (\<lambda>msgs. map_option (\<lambda>offers. (msgs, offers)) (publish_response pubs cmd))
         in case c_command cmd of
              DepositFunds \<Rightarrow>
                respond (if c_status cmd = Processed
                         then publish_deposit_event cmd @ publish_deposit_withdrawal_event cmd else [])
            | WithdrawFunds \<Rightarrow>
                respond (if c_status cmd = Processed
                         then publish_withdraw_event cmd @ publish_deposit_withdrawal_event cmd else [])
            | _ \<Rightarrow>
                (case status_messages to_json cmd of
                   None \<Rightarrow> None
                 | Some msgs \<Rightarrow> respond msgs)))"

section \<open>Keys\<close>

text \<open>Keys: two balance messages have the same Kafka key exactly when they are about the same user
  and the same asset, so the updates of one balance, and only they, share a key.\<close>

theorem composite_key_injective:
  "composite_key u a = composite_key v b \<longleftrightarrow> u = v \<and> a = b"
proof
  assume "composite_key u a = composite_key v b"
  then have "dec (unat u) = dec (unat v)" "dec (unat a) = dec (unat b)"
    using split_at_unique [OF colon_not_in_dec colon_not_in_dec, of "unat u" "dec (unat a)" "unat v" "dec (unat b)"]
    by (simp_all add: composite_key_def)
  then show "u = v \<and> a = b" using dec_inj by (simp add: word_unat_eq_iff)
qed simp

section \<open>What a command reports\<close>

definition snapshot_ok :: "order_command \<Rightarrow> bool" where
  "snapshot_ok cmd \<longleftrightarrow> (\<forall>d. c_l2_data cmd = Some d \<longrightarrow>
     length (l2_bid_prices d) \<le> length (l2_bid_volumes d) \<and> length (l2_ask_prices d) \<le> length (l2_ask_volumes d))"

lemma json_levels_total:
  "length ps \<le> length vs \<Longrightarrow> json_levels ps vs = Some (filter (\<lambda>(p, v). p > 0) (zip ps vs))"
  by (induction ps vs rule: json_levels.induct) auto

lemma orderbook_event_total:
  assumes "snapshot_ok cmd"
  obtains b where "publish_orderbook_event to_json (c_market_id cmd) (c_l2_data cmd) = Some b"
    "\<forall>m\<in>set b. km_topic m = ''orderbook''"
proof (cases "c_l2_data cmd")
  case (Some d)
  with assms have "length (l2_bid_prices d) \<le> length (l2_bid_volumes d)"
    "length (l2_ask_prices d) \<le> length (l2_ask_volumes d)" by (simp_all add: snapshot_ok_def)
  with Some that show thesis
    by (simp add: publish_orderbook_event_def json_levels_total publish_proto_def)
qed (use that in \<open>simp add: publish_orderbook_event_def\<close>)

text \<open>The messages of a topic, in the order of the list.\<close>

definition on_topic :: "string \<Rightarrow> kafka_message list \<Rightarrow> proto_data list" where
  "on_topic topic msgs = map km_data (filter (\<lambda>m. km_topic m = topic) msgs)"

lemma on_topic_simps [simp]:
  "on_topic t [] = []"
  "on_topic t (xs @ ys) = on_topic t xs @ on_topic t ys"
  "on_topic t (publish_proto u k f d) = (if u = t then [d] else [])"
  "on_topic t (concat (map g es)) = concat (map (\<lambda>e. on_topic t (g e)) es)"
  by (simp_all add: on_topic_def publish_proto_def filter_concat map_concat comp_def)

definition reported_trade :: "order_command \<Rightarrow> trade_event \<Rightarrow> proto_data" where
  "reported_trade cmd e = TradeEvent \<lparr>pt_maker_user_id = e_maker_user_id e, pt_taker_user_id = c_user_id cmd,
     pt_market_id = c_market_id cmd, pt_price = e_price e, pt_size = e_size e,
     pt_maker_order_id = e_matched_order_id e, pt_taker_order_id = c_order_id cmd,
     pt_taker_side = proto_side (c_side cmd), pt_timestamp = c_timestamp cmd\<rparr>"

lemma on_topic_foreign: "\<forall>m\<in>set b. km_topic m = ''orderbook'' \<Longrightarrow> t \<noteq> ''orderbook'' \<Longrightarrow> on_topic t b = []"
  by (auto simp: on_topic_def filter_empty_conv)

lemma publisher_topics:
  "on_topic ''trades'' (publish_balance_event u cmd b) = []"
  "on_topic ''trades'' (publish_deposit_withdrawal_event cmd) = []"
  "on_topic ''trades'' (publish_order_event cmd s f) = []"
  "on_topic ''trades'' (publish_cancel_order_event cmd) = []"
  "on_topic ''trades'' (publish_fills cmd) = map (reported_trade cmd) (events_list (c_events cmd))"
  by (simp_all add: publish_balance_event_def publish_deposit_withdrawal_event_def publish_order_event_def
      publish_cancel_order_event_def publish_fills_def publish_fill_def publish_maker_order_event_def
      publish_trade_event_def balance_message_def reported_trade_def Let_def)

text \<open>What the producer is handed of a list of tasks: never more than was spawned, whatever the order and
  the failures, and exactly that when every task runs and every encoding succeeds.\<close>

lemma mset_on_topic: "mset (on_topic t msgs) = image_mset km_data (filter_mset (\<lambda>m. km_topic m = t) (mset msgs))"
  by (simp add: on_topic_def)

lemma mset_scheduled:
  assumes "scheduled tasks order"
  shows "mset (map ((!) tasks) order) \<subseteq># mset tasks"
    and "set order = {..<length tasks} \<Longrightarrow> mset (map ((!) tasks) order) = mset tasks"
proof -
  have "image_mset ((!) tasks) (mset_set {..<length tasks}) = mset (map ((!) tasks) [0..<length tasks])"
    by (simp only: mset_map mset_upt atLeast0LessThan)
  then have all: "image_mset ((!) tasks) (mset_set {..<length tasks}) = mset tasks" by (simp only: map_nth)
  have o: "mset order = mset_set (set order)" using assms by (simp add: scheduled_def mset_set_set)
  have "mset_set (set order) \<subseteq># mset_set {..<length tasks}"
    using assms by (intro subset_imp_msubset_mset_set) (simp_all add: scheduled_def)
  from image_mset_subseteq_mono [OF this, of "(!) tasks"]
  show "mset (map ((!) tasks) order) \<subseteq># mset tasks" unfolding all mset_map o .
  show "mset (map ((!) tasks) order) = mset tasks" if "set order = {..<length tasks}"
    unfolding mset_map o that by (rule all)
qed

lemma run_tasks_messages:
  "map fst (run_tasks encode tasks order) =
     map ((!) tasks) (filter (\<lambda>i. run_task encode i (tasks ! i) \<noteq> None) order)"
  by (induction order) (auto simp: run_tasks_def List.map_filter_def)

lemma run_tasks_once:
  assumes "scheduled tasks order"
  shows "mset (on_topic t (map fst (run_tasks encode tasks order))) \<subseteq># mset (on_topic t tasks)"
proof -
  have "mset (map fst (run_tasks encode tasks order)) \<subseteq># mset (map ((!) tasks) order)"
    unfolding run_tasks_messages by (simp add: image_mset_subseteq_mono)
  also have "\<dots> \<subseteq># mset tasks" by (rule mset_scheduled(1) [OF assms])
  finally show ?thesis
    unfolding mset_on_topic by (intro image_mset_subseteq_mono multiset_filter_mono)
qed

lemma run_tasks_all:
  assumes "scheduled tasks order" "set order = {..<length tasks}"
    and "\<forall>i<length tasks. run_task encode i (tasks ! i) \<noteq> None"
  shows "mset (on_topic t (map fst (run_tasks encode tasks order))) = mset (on_topic t tasks)"
proof -
  have "filter (\<lambda>i. run_task encode i (tasks ! i) \<noteq> None) order = order"
    using assms(2,3) by (intro filter_True) auto
  then have "mset (map fst (run_tasks encode tasks order)) = mset tasks"
    unfolding run_tasks_messages using mset_scheduled(2) [OF assms(1,2)] by simp
  then show ?thesis unfolding mset_on_topic by simp
qed

text \<open>C21. One Kafka message per trade: outside replay the handler never panics on a command that carries
  a snapshot with as many volumes as prices. For an order command it spawns exactly one task for the
  trades topic per trade event of the command, each with the two parties and orders, the price and the
  size; a rejected command spawns nothing. In whatever order the runtime runs the tasks, and whichever of
  them it drops or whose encoding fails, the producer is handed each trade at most once and nothing that
  is not a trade of the command; when all tasks run and every encoding succeeds it is handed every trade
  exactly once. The order in which trades reach the topic is not promised: the tasks are independent.\<close>

theorem trades_published_once:
  assumes "pubs_wf pubs" "snapshot_ok cmd" "c_command cmd \<in> {PlaceOrder, CancelOrder}"
    and "c_status cmd \<in> {Rejected, Placed, Processing, Processed} \<longrightarrow> c_events cmd = None"
  shows "\<exists>tasks offers. handle_processed_command to_json False pubs cmd = Some (tasks, offers) \<and>
    on_topic ''trades'' tasks = map (reported_trade cmd) (events_list (c_events cmd)) \<and>
    (c_status cmd = Rejected \<longrightarrow> tasks = []) \<and>
    (\<forall>encode :: nat \<Rightarrow> proto_data \<Rightarrow> string \<Rightarrow> string \<Rightarrow> 'b option. \<forall>order. scheduled tasks order \<longrightarrow>
      (let handed = on_topic ''trades'' (map fst (run_tasks encode tasks order)) in
        mset handed \<subseteq># mset (map (reported_trade cmd) (events_list (c_events cmd))) \<and>
        (set order = {..<length tasks} \<and> (\<forall>i<length tasks. run_task encode i (tasks ! i) \<noteq> None) \<longrightarrow>
           mset handed = mset (map (reported_trade cmd) (events_list (c_events cmd))))))"
proof -
  obtain b where b: "publish_orderbook_event to_json (c_market_id cmd) (c_l2_data cmd) = Some b"
    "\<forall>m\<in>set b. km_topic m = ''orderbook''" by (rule orderbook_event_total [OF assms(2)])
  have nb: "on_topic ''trades'' b = []" by (rule on_topic_foreign [OF b(2)]) simp
  have "\<exists>msgs. status_messages to_json cmd = Some msgs \<and>
    on_topic ''trades'' msgs = map (reported_trade cmd) (events_list (c_events cmd)) \<and>
    (c_status cmd = Rejected \<longrightarrow> msgs = [])"
  proof (cases "c_status cmd")
    case Cancelled
    then show ?thesis
      using b(1) nb
      by (cases "c_events cmd")
        (simp_all add: status_messages_def cancelled_messages_def publisher_topics events_list_def)
  qed (use assms(4) b(1) nb in \<open>simp_all add: status_messages_def publisher_topics events_list_def\<close>)
  then obtain tasks where m: "status_messages to_json cmd = Some tasks"
    "on_topic ''trades'' tasks = map (reported_trade cmd) (events_list (c_events cmd))"
    "c_status cmd = Rejected \<longrightarrow> tasks = []" by blast
  obtain offers where "publish_response pubs cmd = Some offers"
    using publish_response_result [OF assms(1), of cmd] by blast
  with m assms(3) have "handle_processed_command to_json False pubs cmd = Some (tasks, offers)"
    by (auto simp: handle_processed_command_def)
  then show ?thesis
    unfolding Let_def m(2) [symmetric]
    using m(3) run_tasks_once run_tasks_all by (intro exI [of _ tasks] exI [of _ offers]) blast
qed

text \<open>A bid of user 1 filled by an ask of user 2.\<close>

definition filling_event :: trade_event where
  "filling_event = \<lparr>e_active_order_completed = True, e_matched_order_id = 41, e_maker_user_id = 2,
     e_matched_order_completed = True, e_price = 7, e_size = 5,
     e_maker_balance = (\<lparr>available = 0, locked = 0\<rparr>, \<lparr>available = 35, locked = 0\<rparr>),
     e_maker_remaining_size = 0, e_maker_original_size = 5\<rparr>"

definition filled_bid :: order_command where
  "filled_bid = (mk_place_order Gtc 1 7 0 Bid 131073 0)\<lparr>c_order_id := 42, c_status := Filled,
     c_events := Some (Event filling_event None)\<rparr>"

text \<open>Its tasks run last to first, and the trade reaches the producer once.\<close>

theorem trades_published_once_witness:
  "\<exists>tasks offers. handle_processed_command (\<lambda>_. None) False (publications_new :: nat publications) filled_bid =
       Some (tasks, offers) \<and>
     on_topic ''trades'' tasks = [reported_trade filled_bid filling_event] \<and>
     on_topic ''trades'' (map fst (run_tasks (\<lambda>_ _ _ _. Some ()) tasks (rev [0..<length tasks]))) =
       [reported_trade filled_bid filling_event]"
proof -
  have ev: "events_list (c_events filled_bid) = [filling_event]"
    and ok: "snapshot_ok filled_bid" "c_command filled_bid \<in> {PlaceOrder, CancelOrder}" "c_status filled_bid = Filled"
    by (simp_all add: filled_bid_def events_list_def snapshot_ok_def mk_place_order_def)
  obtain tasks offers where t: "handle_processed_command (\<lambda>_. None) False (publications_new :: nat publications) filled_bid =
       Some (tasks, offers)" "on_topic ''trades'' tasks = [reported_trade filled_bid filling_event]"
    "\<forall>encode :: nat \<Rightarrow> proto_data \<Rightarrow> string \<Rightarrow> string \<Rightarrow> unit option. \<forall>order. scheduled tasks order \<longrightarrow>
      mset (on_topic ''trades'' (map fst (run_tasks encode tasks order))) \<subseteq># {#reported_trade filled_bid filling_event#} \<and>
      (set order = {..<length tasks} \<and> (\<forall>i<length tasks. run_task encode i (tasks ! i) \<noteq> None) \<longrightarrow>
         mset (on_topic ''trades'' (map fst (run_tasks encode tasks order))) = {#reported_trade filled_bid filling_event#})"
    using trades_published_once [where 'b = unit, OF pubs_wf_new ok(1,2), of "\<lambda>_. None"] ok(3)
    unfolding ev Let_def by (auto simp del: not_None_eq)
  have "scheduled tasks (rev [0..<length tasks])" by (auto simp: scheduled_def)
  moreover have "set (rev [0..<length tasks]) = {..<length tasks}" by auto
  ultimately have "mset (on_topic ''trades'' (map fst (run_tasks (\<lambda>_ _ _ _. Some ()) tasks (rev [0..<length tasks])))) =
      {#reported_trade filled_bid filling_event#}"
    using t(3) by (simp add: run_task_def)
  with t(1,2) show ?thesis by simp
qed

text \<open>C22. The gateway gets one answer: outside replay the handler offers exactly one buffer to the
  publication of the gateway the command came from, and the buffer decodes to the processed command;
  it offers nothing exactly when that gateway has no publication (or no slot). In replay nothing is
  published at all.\<close>

theorem response_sent_once:
  assumes "pubs_wf pubs" "snapshot_ok cmd"
  shows "handle_processed_command to_json True pubs cmd = Some ([], []) \<and>
    (\<exists>msgs offers. handle_processed_command to_json False pubs cmd = Some (msgs, offers) \<and>
      (case offers of
         [] \<Rightarrow> MAX_GATEWAYS \<le> unat (c_route_gateway_id cmd) \<or> get_publication (c_route_gateway_id cmd) pubs = Some None
       | (p, bytes) # rest \<Rightarrow> rest = [] \<and> get_publication (c_route_gateway_id cmd) pubs = Some (Some p) \<and>
           decode_order_command bytes = Ok (wire_view cmd)))"
proof -
  obtain b where "publish_orderbook_event to_json (c_market_id cmd) (c_l2_data cmd) = Some b"
    by (rule orderbook_event_total [OF assms(2)])
  then obtain msgs where m: "status_messages to_json cmd = Some msgs"
    by (cases "c_status cmd") (simp_all add: status_messages_def)
  obtain offers where "publish_response pubs cmd = Some offers"
    "case offers of
       [] \<Rightarrow> MAX_GATEWAYS \<le> unat (c_route_gateway_id cmd) \<or> get_publication (c_route_gateway_id cmd) pubs = Some None
     | (p, bytes) # rest \<Rightarrow> rest = [] \<and> get_publication (c_route_gateway_id cmd) pubs = Some (Some p) \<and>
         decode_order_command bytes = Ok (wire_view cmd)"
    using publish_response_result [OF assms(1), of cmd] by blast
  with m show ?thesis
    by (cases "c_command cmd") (auto simp: handle_processed_command_def)
qed

theorem response_sent_once_witness:
  "\<exists>pubs msgs bytes. set_publication 0 (7::nat) publications_new = Some pubs \<and>
     handle_processed_command (\<lambda>_. None) False pubs (mk_place_order Gtc 1 5 3 Ask 131073 0) = Some (msgs, [(7, bytes)])"
proof -
  obtain pubs where s: "store_slot 0 (Some (7::nat)) publications_new = Some pubs"
    using store_in_range [OF pubs_wf_new, of 0 "Some (7::nat)"] by auto
  have g: "get_publication 0 pubs = Some (Some 7)" by (simp add: get_after_store [OF s])
  have "snapshot_ok (mk_place_order Gtc 1 5 3 Ask 131073 0)" by (simp add: snapshot_ok_def mk_place_order_def)
  moreover have "c_route_gateway_id (mk_place_order Gtc 1 5 3 Ask 131073 0) = 0" by (simp add: mk_place_order_def)
  ultimately obtain msgs offers where "handle_processed_command (\<lambda>_. None) False pubs (mk_place_order Gtc 1 5 3 Ask 131073 0) =
      Some (msgs, offers)" "\<exists>bytes. offers = [(7, bytes)]"
    using response_sent_once [OF pubs_wf_store [OF pubs_wf_new s], of "mk_place_order Gtc 1 5 3 Ask 131073 0" "\<lambda>_. None"] g
    by (fastforce simp: MAX_GATEWAYS_def split: list.splits)
  with s show ?thesis by (auto simp: set_publication_def)
qed

end
