(* ===== verification/Order_Book_Claims.thy ===== *)
theory Order_Book_Claims
  imports Order_Book_Props
begin

text \<open>
  The properties of the order book that the manifest lists, each followed by its witness on the book
  with one ask of five at 100. \<open>place_order\<close> and \<open>cancel_order\<close> are the code's functions; \<open>spec_place\<close> and
  \<open>spec_cancel\<close> act on the abstract book, the two queues of resting orders.
\<close>

section \<open>Refinement\<close>

text \<open>C2. Placing refines its specification: on a well-formed book, with a fresh id, a positive size and
  a known market, \<^verbatim>\<open>place_order\<close> never panics; the queues of both sides, the status, the size left
  and the trade events are those of \<open>spec_place\<close> (for GTC, FOK and IOC), the book stays well formed,
  and the price cache holds the new tops of both sides.\<close>

theorem place_order_refines:
  assumes "book_wf ob" "fresh_id (c_order_id cmd) (abs_book ob)" "c_size cmd \<noteq> 0"
    and "volume (abs_book ob (op_side (c_side cmd))) < 2 ^ 64"
    and "c_status cmd \<noteq> Rejected" "ob_market_id ob \<in> dom pc"
    and "spec_place cmd (abs_book ob) = (st, left, es, B')"
  shows "\<exists>ob' cmd'. place_order now ob cmd pc = Some (ob', cmd', quoted (ob_market_id ob) B' pc) \<and>
    abs_book ob' = B' \<and> book_wf ob' \<and> c_status cmd' = st \<and> c_size cmd' = left \<and>
    events_list (c_events cmd') = events_list (c_events cmd) @ es"
  using place_order_abs [OF assms] by blast

lemma sample_place_gtc:
  "spec_place (sample_bid Gtc 8) (abs_book sample_book) =
     (PartiallyFilled, 3, [trade_of sample_ask 5 3],
      (spec_match (sample_bid Gtc 8) (abs_book sample_book))
        (Bid := [residual (sample_bid Gtc 8) 3]))"
  by (simp add: spec_place_def spec_left_def spec_fills_def sample_ask_def spec_match_def
      queue_behind_def min_def)

theorem place_order_refines_witness:
  "\<exists>ob' cmd' pc'. place_order 7 sample_book (sample_bid Gtc 8) sample_cache = Some (ob', cmd', pc') \<and>
     c_status cmd' = PartiallyFilled \<and> c_size cmd' = 3 \<and>
     abs_book ob' Bid = [residual (sample_bid Gtc 8) 3]"
proof -
  from place_order_refines [OF sample_book_wf _ _ _ _ _ sample_place_gtc, of sample_cache 7]
  obtain ob' cmd' pc' where
    "place_order 7 sample_book (sample_bid Gtc 8) sample_cache = Some (ob', cmd', pc')"
    "abs_book ob' = (spec_match (sample_bid Gtc 8) (abs_book sample_book))
        (Bid := [residual (sample_bid Gtc 8) 3])"
    "c_status cmd' = PartiallyFilled" "c_size cmd' = 3" by auto
  then show ?thesis by auto
qed

text \<open>C18. Cancelling refines its specification: on a well-formed book \<^verbatim>\<open>cancel_order\<close> of a resting order
  removes exactly that order from its queue, copies its price, size, user, side and original size into
  the command with status Cancelled and the new snapshot, keeps the book well formed and updates the
  price cache; the one exception is an ask at a price where a bid rests as well (\<open>hidden\<close>).\<close>

theorem cancel_order_refines:
  assumes "book_wf ob" "x \<in> set (abs_book ob (o_side x))" "c_order_id cmd = o_order_id x"
    and "\<not> hidden (abs_book ob) x" "c_status cmd \<noteq> Rejected" "ob_market_id ob \<in> dom pc"
  shows "\<exists>ob'. cancel_order now ob cmd pc =
      Some (ob', record_snapshot now ob' (copy_order_to_command x cmd),
            quoted (ob_market_id ob) (spec_cancel (o_order_id x) (abs_book ob)) pc) \<and>
    abs_book ob' = spec_cancel (o_order_id x) (abs_book ob) \<and> book_wf ob'"
  using cancel_order_abs [OF assms] by blast

theorem cancel_order_refines_witness:
  "\<exists>ob' cmd' pc'. cancel_order 7 sample_book (mk_cancel_order 1 Ask 1) sample_cache =
     Some (ob', cmd', pc') \<and> abs_book ob' Ask = []"
proof -
  from cancel_order_refines [OF sample_book_wf, of sample_ask "mk_cancel_order 1 Ask 1" sample_cache 7]
  show ?thesis by (auto simp: hidden_def mk_cancel_order_def spec_cancel_def without_def)
qed

section \<open>What a match may do\<close>

text \<open>C14. Conservation: whatever the book, a match takes exactly the size it trades from the taker
  and from the opposite queue, and trades all that the taker wants or all that it may reach.\<close>

theorem match_order_conserves:
  assumes "book_wf ob" "c_events cmd = None"
  shows "\<exists>left ob' cmd'. match_order ob cmd = Some (left, ob', cmd') \<and>
    unat (c_size cmd) = unat left + traded (events_list (c_events cmd')) \<and>
    volume (abs_book ob (op_side (c_side cmd))) =
      volume (abs_book ob' (op_side (c_side cmd))) + traded (events_list (c_events cmd')) \<and>
    abs_book ob' (c_side cmd) = abs_book ob (c_side cmd) \<and>
    traded (events_list (c_events cmd')) =
      min (unat (c_size cmd)) (volume (open_to (c_user_id cmd) (reach cmd (abs_book ob))))"
proof -
  let ?B = "abs_book ob" and ?es = "spec_fills cmd (abs_book ob)"
  from match_order_abs [OF assms(1), of cmd] obtain ob' where
    m: "match_order ob cmd = Some (spec_left cmd ?B, ob', with_events ?es cmd)"
    and ob': "abs_book ob' = spec_match cmd ?B" by blast
  have "unat (c_size cmd) = unat (spec_left cmd ?B) + traded ?es"
    "traded ?es = min (unat (c_size cmd)) (volume (open_to (c_user_id cmd) (reach cmd ?B)))"
    using traded_left_over [of "c_user_id cmd" "c_size cmd" "reach cmd ?B"]
    by (simp_all add: spec_left_def spec_fills_def traded_fills)
  then show ?thesis
    using m volume_after_match [of cmd ?B] assms(2) by (simp add: ob') (simp add: spec_match_def)
qed

theorem match_order_conserves_witness:
  "\<exists>left ob' cmd'. match_order sample_book (sample_bid Ioc 8) = Some (left, ob', cmd') \<and>
     8 = unat left + traded (events_list (c_events cmd')) \<and> traded (events_list (c_events cmd')) = 5"
  using match_order_conserves [OF sample_book_wf, of "sample_bid Ioc 8"]
  by (auto simp: sample_ask_def)

text \<open>C7. Price-time priority, limit and no self-trade: the trades of a match hit, one each and in this
  order, the first orders of other users in the opposite queue, which is sorted by price and then by
  id; every trade but the last completes its maker, is at the maker's own price, and that price is
  within the taker's limit.\<close>

theorem match_order_priority:
  assumes "book_wf ob" "c_events cmd = None"
  shows "\<exists>left ob' cmd'. match_order ob cmd = Some (left, ob', cmd') \<and>
    (let es = events_list (c_events cmd'); opp = abs_book ob (op_side (c_side cmd)) in
      sorted_wrt (ahead (op_side (c_side cmd))) opp \<and>
      map e_matched_order_id es =
        take (length es) (map o_order_id (open_to (c_user_id cmd)
          (takeWhile (\<lambda>x. crosses cmd (o_price x)) opp))) \<and>
      (\<forall>e\<in>set (butlast es). e_matched_order_completed e) \<and>
      (\<forall>e\<in>set es. e_maker_user_id e \<noteq> c_user_id cmd \<and> e_size e \<noteq> 0 \<and> crosses cmd (e_price e) \<and>
        (\<exists>x\<in>set opp. o_order_id x = e_matched_order_id e \<and> o_price x = e_price e \<and>
          e_size e \<le> o_size x)))"
proof -
  let ?B = "abs_book ob" and ?es = "spec_fills cmd (abs_book ob)"
  let ?opp = "?B (op_side (c_side cmd))"
  from match_order_abs [OF assms(1), of cmd] obtain ob' where
    m: "match_order ob cmd = Some (spec_left cmd ?B, ob', with_events ?es cmd)" by blast
  have es: "events_list (c_events (with_events ?es cmd)) = ?es" using assms(2) by simp
  have each: "e_maker_user_id e \<noteq> c_user_id cmd \<and> e_size e \<noteq> 0 \<and> crosses cmd (e_price e) \<and>
      (\<exists>x\<in>set ?opp. o_order_id x = e_matched_order_id e \<and> o_price x = e_price e \<and> e_size e \<le> o_size x)"
    if "e \<in> set ?es" for e
  proof -
    from fills_maker [OF that [unfolded spec_fills_def]] obtain x r' where
      x: "x \<in> set (reach cmd ?B)" "o_user_id x \<noteq> c_user_id cmd" "r' \<noteq> 0"
      and e: "e = trade_of x (min r' (o_size x)) (r' - min r' (o_size x))" by blast
    from x(1) have opp: "x \<in> set ?opp" "crosses cmd (o_price x)"
      by (auto simp: reach_def dest: set_takeWhileD)
    have "o_size x \<noteq> 0" using book_wf_side(2) [OF assms(1)] opp(1) by (simp add: abs_book_def)
    with x(2,3) opp show ?thesis by (auto simp: e trade_of_def min_def)
  qed
  have "map e_matched_order_id ?es = take (length ?es) (map o_order_id (open_to (c_user_id cmd)
      (takeWhile (\<lambda>x. crosses cmd (o_price x)) ?opp)))"
    using fills_priority by (simp add: spec_fills_def reach_def)
  moreover have "\<forall>e\<in>set (butlast ?es). e_matched_order_completed e"
    unfolding spec_fills_def by (rule fills_complete_but_last)
  ultimately show ?thesis
    using m es each abs_book_ahead [OF assms(1)] by (auto simp: Let_def)
qed

theorem match_order_priority_witness:
  "\<exists>left ob' cmd'. match_order sample_book (sample_bid Ioc 8) = Some (left, ob', cmd') \<and>
     (\<forall>e\<in>set (events_list (c_events cmd')). e_maker_user_id e \<noteq> 2 \<and> e_price e \<le> 100)"
  using match_order_priority [OF sample_book_wf, of "sample_bid Ioc 8"]
  by (auto simp: Let_def crosses_def)

text \<open>C16. Fill or kill is all or nothing: either the whole size trades and the command is Filled, or
  nothing trades, the book is untouched, and the command is Cancelled with its size; and it is filled
  exactly when the orders of other users within its limit have that much volume.\<close>

theorem fok_all_or_nothing:
  assumes "book_wf ob" "fresh_id (c_order_id cmd) (abs_book ob)" "c_size cmd \<noteq> 0"
    and "volume (abs_book ob (op_side (c_side cmd))) < 2 ^ 64"
    and "c_status cmd \<noteq> Rejected" "ob_market_id ob \<in> dom pc"
    and "c_time_in_force cmd = Fok" "c_events cmd = None"
  shows "\<exists>ob' cmd' pc'. place_order now ob cmd pc = Some (ob', cmd', pc') \<and>
    (let B = abs_book ob; available = volume (open_to (c_user_id cmd) (reach cmd B));
         es = events_list (c_events cmd')
     in if unat (c_size cmd) \<le> available
        then c_status cmd' = Filled \<and> c_size cmd' = 0 \<and> traded es = unat (c_size cmd) \<and>
          volume (B (op_side (c_side cmd))) =
            volume (abs_book ob' (op_side (c_side cmd))) + unat (c_size cmd)
        else c_status cmd' = Cancelled \<and> c_size cmd' = c_size cmd \<and> es = [] \<and> abs_book ob' = B)"
proof -
  let ?B = "abs_book ob"
  obtain st left es B' where spec: "spec_place cmd ?B = (st, left, es, B')"
    by (metis prod_cases4)
  from place_order_abs [OF assms(1-6) spec, of now] obtain ob' cmd' where run:
    "place_order now ob cmd pc = Some (ob', cmd', quoted (ob_market_id ob) B' pc)"
    "abs_book ob' = B'" "c_status cmd' = st" "c_size cmd' = left"
    "events_list (c_events cmd') = es" using assms(8) by auto
  have "traded (spec_fills cmd ?B) = min (unat (c_size cmd)) (volume (open_to (c_user_id cmd) (reach cmd ?B)))"
    by (simp add: spec_fills_def traded_fills)
  then show ?thesis
    using run spec assms(7) volume_after_match [of cmd ?B]
    by (auto simp: spec_place_def Let_def spec_fillable_def split: if_splits)
qed

theorem fok_all_or_nothing_witness:
  "\<exists>ob' cmd' pc'. place_order 7 sample_book (sample_bid Fok 8) sample_cache = Some (ob', cmd', pc') \<and>
     c_status cmd' = Cancelled \<and> abs_book ob' = abs_book sample_book"
  using fok_all_or_nothing [OF sample_book_wf, of "sample_bid Fok 8" sample_cache 7]
  by (auto simp: Let_def sample_ask_def)

text \<open>C17. Immediate or cancel never rests: it trades as much as it can, that is the smaller of its size and
  the volume of the orders of other users within its limit; it reports those trades, the size it reports
  as left is what did not trade, and the other side of the book loses exactly the traded volume. Its own
  side is untouched, no new id is indexed, and the status says whether all, a part or none of the size
  traded.\<close>

theorem ioc_never_rests:
  assumes "book_wf ob" "fresh_id (c_order_id cmd) (abs_book ob)" "c_size cmd \<noteq> 0"
    and "volume (abs_book ob (op_side (c_side cmd))) < 2 ^ 64"
    and "c_status cmd \<noteq> Rejected" "ob_market_id ob \<in> dom pc" "c_time_in_force cmd = Ioc"
  shows "\<exists>ob' cmd' pc' es. place_order now ob cmd pc = Some (ob', cmd', pc') \<and>
    events_list (c_events cmd') = events_list (c_events cmd) @ es \<and>
    traded es = min (unat (c_size cmd)) (volume (open_to (c_user_id cmd) (reach cmd (abs_book ob)))) \<and>
    unat (c_size cmd') + traded es = unat (c_size cmd) \<and>
    volume (abs_book ob' (op_side (c_side cmd))) + traded es = volume (abs_book ob (op_side (c_side cmd))) \<and>
    abs_book ob' (c_side cmd) = abs_book ob (c_side cmd) \<and> ob_orders ob' (c_order_id cmd) = None \<and>
    c_status cmd' = (if c_size cmd' = 0 then Filled else if c_size cmd' < c_size cmd
      then PartiallyFilled else Cancelled) \<and> c_size cmd' \<le> c_size cmd"
proof -
  let ?B = "abs_book ob"
  obtain st left es B' where spec: "spec_place cmd ?B = (st, left, es, B')"
    by (metis prod_cases4)
  from place_order_abs [OF assms(1-6) spec, of now] obtain ob' cmd' where run:
    "place_order now ob cmd pc = Some (ob', cmd', quoted (ob_market_id ob) B' pc)"
    "abs_book ob' = B'" "c_status cmd' = st" "c_size cmd' = left" "book_wf ob'"
    "events_list (c_events cmd') = events_list (c_events cmd) @ es" by blast
  have B': "B' = spec_match cmd ?B" "left = spec_left cmd ?B" "es = spec_fills cmd ?B"
    "st = (if left = 0 then Filled else if left < c_size cmd then PartiallyFilled else Cancelled)"
    using spec assms(7) by (auto simp: spec_place_def Let_def)
  have "ob_orders ob' (c_order_id cmd) = None"
  proof (rule ccontr)
    assume "ob_orders ob' (c_order_id cmd) \<noteq> None"
    from book_ids(4) [OF run(5) this] obtain sd x
      where "x \<in> set (abs_book ob' sd)" "o_order_id x = c_order_id cmd" by auto
    moreover have "fresh_id (c_order_id cmd) (abs_book ob')"
      using fresh_id_match [OF assms(2)] run(2) B'(1) by simp
    ultimately have "c_order_id cmd < c_order_id cmd" unfolding fresh_id_def by metis
    then show False by simp
  qed
  moreover have "left \<le> c_size cmd" by (simp add: B'(2) spec_left_def left_over_le)
  moreover have size: "traded es = min (unat (c_size cmd)) (volume (open_to (c_user_id cmd) (reach cmd ?B)))"
    "unat left + traded es = unat (c_size cmd)"
    using traded_left_over [of "c_user_id cmd" "c_size cmd" "reach cmd ?B"]
    by (simp_all add: B'(2,3) spec_left_def spec_fills_def traded_fills)
  moreover have gone: "volume (B' (op_side (c_side cmd))) + traded es = volume (?B (op_side (c_side cmd)))"
    using volume_after_match [of cmd ?B] B'(1,3) by simp
  ultimately show ?thesis using run B'(1,4) size gone by (fastforce simp: spec_match_def)
qed

theorem ioc_never_rests_witness:
  "\<exists>ob' cmd' pc' es. place_order 7 sample_book (sample_bid Ioc 8) sample_cache = Some (ob', cmd', pc') \<and>
     events_list (c_events cmd') = es \<and> traded es = 5 \<and> unat (c_size cmd') = 3 \<and>
     c_status cmd' = PartiallyFilled \<and> abs_book ob' Bid = [] \<and> volume (abs_book ob' Ask) = 0"
proof -
  have r: "reach (sample_bid Ioc 8) (abs_book sample_book) = [sample_ask]" by (simp add: reach_def crosses_def)
  obtain ob' cmd' pc' es where p: "place_order 7 sample_book (sample_bid Ioc 8) sample_cache = Some (ob', cmd', pc')"
    "events_list (c_events cmd') = es" "traded es = 5" "unat (c_size cmd') + 5 = 8" "abs_book ob' Bid = []"
    "volume (abs_book ob' Ask) + 5 = 5"
    "c_status cmd' = (if c_size cmd' = 0 then Filled else if c_size cmd' < 8 then PartiallyFilled else Cancelled)"
    using ioc_never_rests [OF sample_book_wf, of "sample_bid Ioc 8" sample_cache 7]
    by (auto simp: r sample_ask_def)
  have "unat (c_size cmd') = 3" using p(4) by simp
  then have "c_size cmd' = 3" by (simp add: word_unat_eq_iff)
  with p show ?thesis by auto
qed

text \<open>C15. The book of different users never crosses: if every bid is below every ask of another user
  before an order is placed, it is so after, for every time in force and price.\<close>

theorem place_order_uncrossed:
  assumes "book_wf ob" "fresh_id (c_order_id cmd) (abs_book ob)" "c_size cmd \<noteq> 0"
    and "volume (abs_book ob (op_side (c_side cmd))) < 2 ^ 64"
    and "c_status cmd \<noteq> Rejected" "ob_market_id ob \<in> dom pc" "uncrossed (abs_book ob)"
  shows "\<exists>ob' cmd' pc'. place_order now ob cmd pc = Some (ob', cmd', pc') \<and>
    book_wf ob' \<and> uncrossed (abs_book ob')"
proof -
  obtain st left es B' where spec: "spec_place cmd (abs_book ob) = (st, left, es, B')"
    by (metis prod_cases4)
  from place_order_abs [OF assms(1-6) spec, of now] obtain ob' cmd' where
    "place_order now ob cmd pc = Some (ob', cmd', quoted (ob_market_id ob) B' pc)"
    "abs_book ob' = B'" "book_wf ob'" by blast
  with uncrossed_place [OF assms(7) abs_book_ahead [OF assms(1)] spec] show ?thesis by auto
qed

theorem place_order_uncrossed_witness:
  "\<exists>ob' cmd' pc'. place_order 7 sample_book (sample_bid Gtc 8) sample_cache = Some (ob', cmd', pc') \<and>
     uncrossed (abs_book ob')"
proof -
  have "uncrossed (abs_book sample_book)" by (simp add: uncrossed_def)
  with place_order_uncrossed [OF sample_book_wf, of "sample_bid Gtc 8" sample_cache 7]
  show ?thesis by auto
qed

lemma place_then_cancel:
  assumes "book_wf ob" "fresh_id (c_order_id cmd) (abs_book ob)" "c_size cmd \<noteq> 0"
    and "volume (abs_book ob (op_side (c_side cmd))) < 2 ^ 64"
    and "c_status cmd \<noteq> Rejected" "ob_market_id ob \<in> dom pc" "c_time_in_force cmd = Gtc"
    and "reach cmd (abs_book ob) = []" "c_order_id req = c_order_id cmd" "c_status req \<noteq> Rejected"
  shows "\<exists>ob1 cmd1 pc1 ob2 cmd2 pc2.
    place_order now ob cmd pc = Some (ob1, cmd1, pc1) \<and>
    cmd1 = record_snapshot now ob1 (cmd\<lparr>c_status := Placed, c_events := c_events (with_events [] cmd),
      c_price := reported_price (with_events [] cmd)\<rparr>) \<and>
    cancel_order later ob1 req pc1 = Some (ob2, cmd2, pc2) \<and>
    cmd2 = record_snapshot later ob2 (copy_order_to_command (residual cmd (c_size cmd)) req) \<and>
    abs_book ob2 = abs_book ob \<and> book_wf ob2 \<and> dom pc1 = dom pc"
proof -
  let ?B = "abs_book ob" and ?x = "residual cmd (c_size cmd)" and ?sd = "c_side cmd"
  let ?B1 = "?B(?sd := queue_behind ?x (?B ?sd))"
  have drop: "dropWhile (\<lambda>x. crosses cmd (o_price x)) (?B (op_side ?sd)) = ?B (op_side ?sd)"
    using assms(8) unfolding reach_def by (metis self_append_conv2 takeWhile_dropWhile_id)
  have M: "spec_match cmd ?B = ?B"
    by (rule ext) (simp add: spec_match_def assms(8) drop)
  have spec: "spec_place cmd ?B = (Placed, c_size cmd, [], ?B1)"
    using assms(3,7,8) by (simp add: spec_place_def spec_left_def spec_fills_def M Let_def)
  from place_order_abs [OF assms(1-6) spec, of now] obtain ob1 cmd1 where one:
    "place_order now ob cmd pc = Some (ob1, cmd1, quoted (ob_market_id ob) ?B1 pc)"
    "abs_book ob1 = ?B1" "book_wf ob1" "ob_market_id ob1 = ob_market_id ob"
    "cmd1 = record_snapshot now ob1 (cmd\<lparr>c_status := Placed, c_size := c_size cmd,
      c_events := c_events (with_events [] cmd), c_price := reported_price (with_events [] cmd)\<rparr>)" by blast
  have x: "o_order_id ?x = c_order_id cmd" "o_side ?x = ?sd" "o_price ?x = c_price cmd"
    by (simp_all add: residual_def)
  have in1: "?x \<in> set (abs_book ob1 (o_side ?x))" by (simp add: one(2) x(2))
  have id: "c_order_id req = o_order_id ?x" by (simp add: x assms(9))
  have vis: "\<not> hidden (abs_book ob1) ?x"
  proof
    assume "hidden (abs_book ob1) ?x"
    then have sd: "?sd = Ask" and bid: "\<exists>y\<in>set (?B Bid). o_price y = c_price cmd"
      by (auto simp: hidden_def x one(2))
    then obtain y where y: "y \<in> set (?B Bid)" "crosses cmd (o_price y)"
      by (auto simp: crosses_def sd)
    with drop sd beyond_not_crossing [of cmd "?B Bid" y] abs_book_ahead [OF assms(1), of Bid]
    show False by simp
  qed
  have m1: "ob_market_id ob1 \<in> dom (quoted (ob_market_id ob) ?B1 pc)" by (simp add: quoted_def one(4))
  from cancel_order_abs [OF one(3) in1 id vis assms(10) m1, of later] obtain ob2 where two:
    "cancel_order later ob1 req (quoted (ob_market_id ob) ?B1 pc) =
      Some (ob2, record_snapshot later ob2 (copy_order_to_command ?x req),
        quoted (ob_market_id ob1) (spec_cancel (o_order_id ?x) (abs_book ob1)) (quoted (ob_market_id ob) ?B1 pc))"
    "abs_book ob2 = spec_cancel (o_order_id ?x) (abs_book ob1)" "book_wf ob2" by blast
  have gone: "without (c_order_id cmd) (?B sd) = ?B sd" for sd
    using assms(2) by (intro without_absent) (force simp: fresh_id_def)
  have "without (c_order_id cmd) (queue_behind ?x (?B ?sd)) = ?B ?sd"
  proof -
    have "without (c_order_id cmd) (queue_behind ?x (?B ?sd)) =
        filter (\<lambda>y. \<not> priority ?sd (c_price cmd) (o_price y)) (without (c_order_id cmd) (?B ?sd)) @
        filter (\<lambda>y. priority ?sd (c_price cmd) (o_price y)) (without (c_order_id cmd) (?B ?sd))"
      by (simp add: queue_behind_def x without_def conj_commute)
    moreover have srt: "sorted_wrt (ahead ?sd) (?B ?sd)" by (rule abs_book_ahead [OF assms(1)])
    moreover have "filter (\<lambda>y. \<not> P y) os @ filter P os = os"
      if "sorted_wrt (ahead ?sd) os" "P = (\<lambda>y. priority ?sd (c_price cmd) (o_price y))" for os P
      using that
    proof (induction os)
      case (Cons y os)
      have "filter (\<lambda>z. \<not> P z) os = [] \<and> filter P os = os" if "P y"
        using that Cons.prems by (cases ?sd)
          (auto simp: filter_empty_conv ahead_def priority_def intro!: filter_all)
      with Cons show ?case by auto
    qed simp
    from this [OF srt refl] have "filter (\<lambda>y. \<not> priority ?sd (c_price cmd) (o_price y)) (?B ?sd) @
        filter (\<lambda>y. priority ?sd (c_price cmd) (o_price y)) (?B ?sd) = ?B ?sd" .
    ultimately show ?thesis by (simp add: gone)
  qed
  then have "abs_book ob2 = ?B"
    using gone two(2) one(2) by (auto simp: spec_cancel_def x)
  moreover have "dom (quoted (ob_market_id ob) ?B1 pc) = dom pc" using assms(6) by (auto simp: quoted_def)
  moreover have "cmd1 = record_snapshot now ob1 (cmd\<lparr>c_status := Placed,
      c_events := c_events (with_events [] cmd), c_price := reported_price (with_events [] cmd)\<rparr>)"
    unfolding one(5) by simp
  ultimately show ?thesis using one(1) two(1,3) by blast
qed

text \<open>Place and cancel: an order that rests without trading and is cancelled at once leaves both
  queues as they were, unless an ask was placed at a price where a bid of its own user rests.\<close>

theorem place_cancel_roundtrip:
  assumes "book_wf ob" "fresh_id (c_order_id cmd) (abs_book ob)" "c_size cmd \<noteq> 0"
    and "volume (abs_book ob (op_side (c_side cmd))) < 2 ^ 64"
    and "c_status cmd \<noteq> Rejected" "ob_market_id ob \<in> dom pc" "c_time_in_force cmd = Gtc"
    and "reach cmd (abs_book ob) = []" "c_order_id req = c_order_id cmd" "c_status req \<noteq> Rejected"
  shows "\<exists>ob1 cmd1 pc1 ob2 cmd2 pc2.
    place_order now ob cmd pc = Some (ob1, cmd1, pc1) \<and> c_status cmd1 = Placed \<and>
    cancel_order later ob1 req pc1 = Some (ob2, cmd2, pc2) \<and> c_status cmd2 = Cancelled \<and>
    abs_book ob2 = abs_book ob \<and> book_wf ob2"
  using place_then_cancel [OF assms, of now later]
  by (force simp: record_snapshot_def copy_order_to_command_def Let_def)

theorem place_cancel_roundtrip_witness:
  "\<exists>ob1 cmd1 pc1 ob2 cmd2 pc2.
     place_order 7 sample_book ((sample_bid Gtc 8)\<lparr>c_price := 90\<rparr>) sample_cache = Some (ob1, cmd1, pc1) \<and>
     cancel_order 8 ob1 (mk_cancel_order 2 Bid 1) pc1 = Some (ob2, cmd2, pc2) \<and>
     abs_book ob2 = abs_book sample_book"
proof -
  let ?cmd = "(sample_bid Gtc 8)\<lparr>c_price := 90\<rparr>"
  have "reach ?cmd (abs_book sample_book) = []"
    by (simp add: reach_def crosses_def sample_ask_def)
  with place_cancel_roundtrip [OF sample_book_wf, of ?cmd sample_cache "mk_cancel_order 2 Bid 1" 7 8]
  show ?thesis by (auto simp: mk_cancel_order_def)
qed

section \<open>What is reported\<close>

definition volume_at :: "order list \<Rightarrow> u64 \<Rightarrow> u64" where
  "volume_at os p = sum_list (map o_size (filter (\<lambda>x. o_price x = p) os))"

lemma orders_at_level:
  assumes "distinct (map fst t)" "all_levels_wf sd t" "(p, l) \<in> set t"
  shows "filter (\<lambda>x. o_price x = p) (resting t) = lv_orders l"
  using assms
proof (induction t)
  case (Cons y t)
  obtain q m where y: "y = (q, m)" by fastforce
  have at: "\<forall>x\<in>set (lv_orders m). o_price x = q" and wf: "all_levels_wf sd t" and d: "distinct (map fst t)"
    using Cons.prems by (auto simp: y all_levels_wf_def level_wf_def)
  have away: "filter (\<lambda>x. o_price x = q) (resting t) = []"
    using Cons.prems(1) wf
    by (fastforce simp: y filter_empty_conv resting_def all_levels_wf_def level_wf_def)
  show ?case
  proof (cases "p = q")
    case True
    then have "m = l" using Cons.prems(1,3) by (force simp: y)
    with True at away show ?thesis by (auto simp: y)
  next
    case False
    then have "filter (\<lambda>x. o_price x = p) (lv_orders m) = []"
      using at by (auto simp: filter_empty_conv)
    with False Cons.IH [OF d wf] Cons.prems(3) show ?thesis by (auto simp: y)
  qed
qed simp

lemma level_prices:
  "no_empty_level t \<Longrightarrow> all_levels_wf sd t \<Longrightarrow> fst ` set t = o_price ` set (resting t)"
proof (induction t)
  case (Cons y t)
  obtain q m where y: "y = (q, m)" by fastforce
  from Cons.prems have "\<forall>x\<in>set (lv_orders m). o_price x = q" "lv_orders m \<noteq> []"
    by (auto simp: y all_levels_wf_def no_empty_level_def level_wf_def)
  then have "o_price ` set (lv_orders m) = {q}" by (cases "lv_orders m") auto
  with Cons show ?case by (auto simp: y all_levels_wf_def no_empty_level_def image_Un)
qed simp

lemma snapshot_side:
  assumes "book_wf ob"
  shows "\<exists>ps. sorted_wrt (priority sd) ps \<and> set ps = o_price ` set (abs_book ob sd) \<and>
    map fst (take n (side_levels sd ob)) = take n ps \<and>
    map (\<lambda>(_, l). total_volume l) (take n (side_levels sd ob)) =
      map (volume_at (abs_book ob sd)) (take n ps)"
proof (intro exI conjI)
  let ?t = "side_levels sd ob" and ?ps = "map fst (side_levels sd ob)"
  show srt: "sorted_wrt (priority sd) ?ps"
    using assms by (simp add: book_wf_def levels_wf_def keys_sorted_def)
  show "set ?ps = o_price ` set (abs_book ob sd)"
    using level_prices [OF book_levels(2,1) [OF assms], of sd]
    by (simp add: abs_book_def side_orders_def)
  show "map fst (take n ?t) = take n ?ps" by (simp add: take_map)
  have d: "distinct ?ps"
    using srt ascending.distinct_keys descending.distinct_keys
    by (cases sd) (simp_all add: priority_simps keys_sorted_def)
  have "total_volume l = volume_at (abs_book ob sd) p" if "(p, l) \<in> set ?t" for p l
    using orders_at_level [OF d book_levels(1) [OF assms] that] book_levels(1) [OF assms, of sd] that
    by (auto simp: volume_at_def abs_book_def side_orders_def all_levels_wf_def level_wf_def)
  then show "map (\<lambda>(_, l). total_volume l) (take n ?t) = map (volume_at (abs_book ob sd)) (take n ?ps)"
    by (auto simp: take_map dest: in_set_takeD)
qed

text \<open>C25. The L2 snapshot is exact: on each side it lists, from the best price on, at most ten of the
  prices at which orders rest, and for each price the sum of the sizes of the orders at that price.\<close>

theorem snapshot_exact:
  assumes "book_wf ob"
  shows "\<exists>d asks bids. c_l2_data (record_snapshot now ob cmd) = Some d \<and> l2_timestamp d = now \<and>
    sorted_wrt (<) asks \<and> set asks = o_price ` set (abs_book ob Ask) \<and>
    sorted_wrt (>) bids \<and> set bids = o_price ` set (abs_book ob Bid) \<and>
    l2_ask_prices d = take 10 asks \<and> l2_bid_prices d = take 10 bids \<and>
    l2_ask_volumes d = map (volume_at (abs_book ob Ask)) (l2_ask_prices d) \<and>
    l2_bid_volumes d = map (volume_at (abs_book ob Bid)) (l2_bid_prices d)"
proof -
  let ?d = "the (c_l2_data (record_snapshot now ob cmd))"
  from snapshot_side [OF assms, of Ask L2SIZE] obtain asks where a: "sorted_wrt (<) asks"
    "set asks = o_price ` set (abs_book ob Ask)" "l2_ask_prices ?d = take 10 asks"
    "l2_ask_volumes ?d = map (volume_at (abs_book ob Ask)) (take 10 asks)"
    by (auto simp: record_snapshot_def Let_def priority_simps L2SIZE_def)
  from snapshot_side [OF assms, of Bid L2SIZE] obtain bids where b: "sorted_wrt (>) bids"
    "set bids = o_price ` set (abs_book ob Bid)" "l2_bid_prices ?d = take 10 bids"
    "l2_bid_volumes ?d = map (volume_at (abs_book ob Bid)) (take 10 bids)"
    by (auto simp: record_snapshot_def Let_def priority_simps L2SIZE_def)
  have "c_l2_data (record_snapshot now ob cmd) = Some ?d" "l2_timestamp ?d = now"
    by (simp_all add: record_snapshot_def Let_def)
  with a b show ?thesis by metis
qed

theorem snapshot_exact_witness:
  "\<exists>d. c_l2_data (record_snapshot 7 sample_book (sample_bid Gtc 8)) = Some d \<and>
     set (l2_ask_prices d) = {100} \<and> l2_bid_prices d = []"
proof -
  from snapshot_exact [OF sample_book_wf, of 7 "sample_bid Gtc 8"] obtain d asks bids where d:
    "c_l2_data (record_snapshot 7 sample_book (sample_bid Gtc 8)) = Some d"
    "sorted_wrt (<) asks" "set asks = {100}" "set bids = {}"
    "l2_ask_prices d = take 10 asks" "l2_bid_prices d = take 10 bids" by auto
  have "distinct asks" using d(2) by (simp add: strict_sorted_iff)
  then have "length asks = 1" using distinct_card [of asks] d(3) by simp
  with d show ?thesis by auto
qed

section \<open>Cancellations that do not cancel\<close>

text \<open>Unknown ids: cancelling an id that rests nowhere is Rejected and leaves both queues, the index
  and the events of the command as they were.\<close>

theorem cancel_unknown_rejected:
  assumes "book_wf ob" "\<forall>sd. c_order_id cmd \<notin> o_order_id ` set (abs_book ob sd)"
    and "c_status cmd \<noteq> Rejected" "ob_market_id ob \<in> dom pc"
  shows "cancel_order now ob cmd pc =
    Some (ob, set_status Rejected cmd, quoted (ob_market_id ob) (abs_book ob) pc)"
proof -
  have "ob_orders ob (c_order_id cmd) = None"
    using book_ids(4) [OF assms(1)] assms(2) by blast
  with assms(3) update_price_cache_quoted [OF assms(1,4)] show ?thesis
    by (simp add: cancel_order_def cancel_in_book_def)
qed

theorem cancel_unknown_rejected_witness:
  "\<exists>pc'. cancel_order 7 sample_book (mk_cancel_order 9 Ask 1) sample_cache =
     Some (sample_book, set_status Rejected (mk_cancel_order 9 Ask 1), pc')"
  using cancel_unknown_rejected [OF sample_book_wf, of "mk_cancel_order 9 Ask 1" sample_cache 7]
  by (simp add: mk_cancel_order_def all_sides)

text \<open>C27. A hidden ask cannot be cancelled: an ask at a price where a bid of the same user rests is not
  found, since \<^verbatim>\<open>cancel_order\<close> searches the bid level of that price and never the ask level. The request
  is Rejected and the book keeps resting as it was, but the id, which was in the index, has left it, so
  every later request for it is rejected too.\<close>

theorem hidden_ask_uncancellable:
  assumes "book_wf ob" "x \<in> set (abs_book ob Ask)" "hidden (abs_book ob) x"
    and "c_order_id cmd = o_order_id x" "c_status cmd \<noteq> Rejected" "ob_market_id ob \<in> dom pc"
    and "c_order_id again = o_order_id x" "c_status again \<noteq> Rejected"
  shows "\<exists>ob' cmd' pc' cmd'' pc''. cancel_order now ob cmd pc = Some (ob', cmd', pc') \<and>
    c_status cmd' = Rejected \<and> x \<in> set (abs_book ob' Ask) \<and> abs_book ob' = abs_book ob \<and>
    ob_orders ob (o_order_id x) = Some (o_price x) \<and>
    ob_orders ob' = (ob_orders ob)(o_order_id x := None) \<and>
    cancel_order later ob' again pc' = Some (ob', cmd'', pc'') \<and> c_status cmd'' = Rejected"
proof -
  let ?i = "o_order_id x" and ?p = "o_price x"
  have wfs: "levels_wf (>) Bid (bid_iter (ob_bids ob))" "keys_sorted (>) (bid_iter (ob_bids ob))"
    and ix: "index_of (set (all_orders ob)) (ob_orders ob)"
    using assms(1) by (auto simp: book_wf_iff levels_wf_def)
  have "x \<in> set (all_orders ob)" using assms(2) by (simp add: all_orders_def abs_book_def)
  then have idx: "ob_orders ob ?i = Some ?p" by (rule index_ofD [OF ix])
  obtain y where y: "y \<in> set (abs_book ob Bid)" "o_price y = ?p"
    using assms(3) by (auto simp: hidden_def)
  then obtain l where l: "map_of (bid_iter (ob_bids ob)) ?p = Some l" "y \<in> set (lv_orders l)"
    using bids.resting_at [OF wfs(1), of y] by (auto simp: abs_book_def side_orders_def)
  have notin: "?i \<notin> o_order_id ` set (lv_orders l)"
  proof -
    have "set (lv_orders l) \<subseteq> set (abs_book ob Bid)"
      using map_of_SomeD [OF l(1)] by (force simp: abs_book_def side_orders_def resting_def)
    then show ?thesis using book_ids(2) [OF assms(1)] assms(2) by blast
  qed
  have "level_wf Bid ?p l" using wfs(1) l(1) by (simp add: levels_wf_def)
  then have rem: "remove_order ?i l cmd = (l, set_status Rejected cmd)"
    by (rule remove_order_absent [OF _ notin])
  have "bid_iter (bid_write ?p l (ob_bids ob)) = bid_iter (ob_bids ob)"
    using bids.write_law [OF wfs(2), of ?p l] wfs(2) l(1)
    by (intro descending.sorted_unique) (auto simp: fun_upd_idem)
  then have same: "bid_write ?p l (ob_bids ob) = ob_bids ob" by (simp add: bid_iter_def)
  have "bid_remove_level_if_empty ?p (ob_bids ob) = ob_bids ob"
    using l by (auto simp: bid_remove_level_if_empty_def bid_iter_def)
  let ?ob = "ob\<lparr>ob_orders := (ob_orders ob)(?i := None)\<rparr>"
  have run: "cancel_in_book now ob cmd = (?ob, record_snapshot now ?ob (set_status Rejected cmd))"
    using idx l(1) rem same \<open>bid_remove_level_if_empty ?p (ob_bids ob) = ob_bids ob\<close> assms(4)
    by (simp add: cancel_in_book_def Let_def bids.get_level_law)
  have "side_levels sd ?ob = side_levels sd ob" for sd by (cases sd) simp_all
  then have B: "abs_book ?ob = abs_book ob" by (simp add: abs_book_def side_orders_def)
  have pc: "update_price_cache ?ob pc = Some (quoted (ob_market_id ob) (abs_book ob) pc)"
    if "ob_market_id ob \<in> dom pc" for pc using update_price_cache_quoted [OF assms(1) that]
    by (simp add: update_price_cache_def)
  have one: "cancel_order now ob cmd pc = Some (?ob, record_snapshot now ?ob (set_status Rejected cmd),
      quoted (ob_market_id ob) (abs_book ob) pc)"
    using run pc [OF assms(6)] assms(5) by (simp add: cancel_order_def)
  have two: "cancel_order later ?ob again (quoted (ob_market_id ob) (abs_book ob) pc) =
      Some (?ob, set_status Rejected again,
        quoted (ob_market_id ob) (abs_book ob) (quoted (ob_market_id ob) (abs_book ob) pc))"
    using pc [of "quoted (ob_market_id ob) (abs_book ob) pc"] assms(7,8)
    by (simp add: cancel_order_def cancel_in_book_def quoted_def)
  show ?thesis
    using one two assms(2) B idx by (auto simp: record_snapshot_def Let_def set_status_def)
qed

theorem hidden_ask_uncancellable_witness:
  "\<exists>ob cmd pc ob' cmd' pc'.
     place_order 7 sample_book ((sample_bid Gtc 3)\<lparr>c_user_id := 1\<rparr>) sample_cache = Some (ob, cmd, pc) \<and>
     cancel_order 8 ob (mk_cancel_order 1 Ask 1) pc = Some (ob', cmd', pc') \<and>
     c_status cmd' = Rejected \<and> sample_ask \<in> set (abs_book ob' Ask) \<and>
     ob_orders ob 1 = Some (o_price sample_ask) \<and> ob_orders ob' 1 = None"
proof -
  let ?cmd = "(sample_bid Gtc 3)\<lparr>c_user_id := 1\<rparr>"
  have r: "reach ?cmd (abs_book sample_book) = [sample_ask]"
    by (simp add: reach_def crosses_def)
  obtain st left es B' where spec: "spec_place ?cmd (abs_book sample_book) = (st, left, es, B')"
    and B': "B' Ask = [sample_ask]" "B' Bid = [residual ?cmd 3]"
    by (simp add: spec_place_def spec_left_def spec_fills_def r spec_match_def queue_behind_def
        crosses_def Let_def)
  from place_order_abs [OF sample_book_wf _ _ _ _ _ spec, of sample_cache 7] obtain ob cmd where p:
    "place_order 7 sample_book ?cmd sample_cache = Some (ob, cmd, quoted 1 B' sample_cache)"
    "abs_book ob = B'" "ob_market_id ob = 1" "book_wf ob" by auto
  have "hidden (abs_book ob) sample_ask" "sample_ask \<in> set (abs_book ob Ask)"
    by (simp_all add: hidden_def p(2) B' residual_def)
  from hidden_ask_uncancellable [OF p(4) this(2,1), of "mk_cancel_order 1 Ask 1"
      "quoted 1 B' sample_cache" "mk_cancel_order 1 Ask 1" 8 9] p(1,3) show ?thesis
    by (auto simp: mk_cancel_order_def quoted_def)
qed

end
