(* ===== verification/Pipeline.thy ===== *)
theory Pipeline
  imports Journaling Matching_Router Risk_Claims Kafka_Events Order_Book_Claims "HOL-Library.Multiset"
begin

text \<open>
  The engine of \<^verbatim>\<open>server/src/engine.rs\<close>: four risk shards and four matching shards, and the stages a
  command passes through in the disruptor: journaling, R1 on every risk shard, matching on every
  router, R2 on every risk shard, events. The handlers of a stage run in parallel threads on the same
  command; a stage takes the order its handlers happen to run in as a list of shard numbers, and the
  lemmas show that the order does not matter. The ring buffer, the barriers between stages
  (\<^verbatim>\<open>and_then\<close>), core pinning and the threads are the disruptor crate's.
\<close>

definition NUM_RISK_ENGINES :: nat where "NUM_RISK_ENGINES = 4"
definition NUM_MATCHING_ENGINES :: nat where "NUM_MATCHING_ENGINES = 4"
definition BUFFER_SIZE :: nat where "BUFFER_SIZE = 1024"

section \<open>Initialisation\<close>

definition initialize_risk_engines ::
    "(u32 \<rightharpoonup> core_market_specification) \<Rightarrow> nat \<Rightarrow> risk_engine list option" where
  "initialize_risk_engines symbol_specs num_shards =
     those (map (\<lambda>shard_id. risk_engine_new symbol_specs (of_nat shard_id) (of_nat num_shards)) [0..<num_shards])"

text \<open>The keys of the specification map, in the order of its iterator, are distributed over the routers.\<close>

fun distribute_symbols :: "u64 \<Rightarrow> u32 list \<Rightarrow> matching_router list \<Rightarrow> matching_router list" where
  "distribute_symbols shard_mask [] routers = routers"
| "distribute_symbols shard_mask (symbol_id # rest) routers =
     (let owner_shard_id = unat ((ucast symbol_id :: u64) AND shard_mask)
      in distribute_symbols shard_mask rest
           (if owner_shard_id < length routers
            then routers[owner_shard_id := add_market symbol_id (routers ! owner_shard_id)]
            else routers))"

definition initialize_matching_engines :: "u32 list \<Rightarrow> nat \<Rightarrow> matching_router list option" where
  "initialize_matching_engines symbols num_shards =
     map_option (distribute_symbols (of_nat (num_shards - 1)) symbols)
       (those (map (\<lambda>shard_id. router_new (of_nat shard_id) (of_nat num_shards)) [0..<num_shards]))"

record core_state =
  cs_engines :: "risk_engine list"
  cs_routers :: "matching_router list"
  cs_prices :: price_cache

definition build_engine ::
    "u32 list \<Rightarrow> (u32 \<rightharpoonup> core_market_specification) \<Rightarrow> core_state option" where
  "build_engine symbols symbol_specs =
     (case initialize_risk_engines symbol_specs NUM_RISK_ENGINES of
        None \<Rightarrow> None
      | Some engines \<Rightarrow>
          (case initialize_matching_engines symbols NUM_MATCHING_ENGINES of
             None \<Rightarrow> None
           | Some routers \<Rightarrow>
               Some \<lparr>cs_engines = engines, cs_routers = routers, cs_prices = price_cache_new symbols\<rparr>))"

section \<open>The stages\<close>

definition r1_stage ::
    "nat list \<Rightarrow> price_cache \<Rightarrow> risk_engine list \<times> order_command \<Rightarrow> (risk_engine list \<times> order_command) option" where
  "r1_stage shards pc s =
     fold (\<lambda>i s. Option.bind s (\<lambda>(engines, cmd). r1_handler i pc engines cmd)) shards (Some s)"

definition router_at ::
    "u64 \<Rightarrow> nat \<Rightarrow> matching_router list \<times> order_command \<times> price_cache \<Rightarrow>
     (matching_router list \<times> order_command \<times> price_cache) option" where
  "router_at now i = (\<lambda>(routers, cmd, pc).
     if length routers \<le> i then None
     else map_option (\<lambda>(mr, cmd, pc). (routers[i := mr], cmd, pc)) (router_handler now (routers ! i) cmd pc))"

definition matching_stage ::
    "u64 \<Rightarrow> nat list \<Rightarrow> matching_router list \<times> order_command \<times> price_cache \<Rightarrow>
     (matching_router list \<times> order_command \<times> price_cache) option" where
  "matching_stage now shards s = fold (\<lambda>i s. Option.bind s (router_at now i)) shards (Some s)"

definition r2_stage ::
    "nat list \<Rightarrow> risk_engine list \<times> order_command \<Rightarrow> (risk_engine list \<times> order_command) option" where
  "r2_stage shards s =
     fold (\<lambda>i s. Option.bind s (\<lambda>(engines, cmd). r2_handler i engines cmd)) shards (Some s)"

text \<open>R1, matching and R2 of one command: the transaction.\<close>

definition core_step ::
    "u64 \<Rightarrow> nat list \<times> nat list \<times> nat list \<Rightarrow> core_state \<Rightarrow> order_command \<Rightarrow>
     (core_state \<times> order_command) option" where
  "core_step now orders cs cmd =
     (case orders of (r1_order, matching_order, r2_order) \<Rightarrow>
        (case r1_stage r1_order (cs_prices cs) (cs_engines cs, cmd) of
           None \<Rightarrow> None
         | Some (engines, cmd) \<Rightarrow>
             (case matching_stage now matching_order (cs_routers cs, cmd, cs_prices cs) of
                None \<Rightarrow> None
              | Some (routers, cmd, pc) \<Rightarrow>
                  (case r2_stage r2_order (engines, cmd) of
                     None \<Rightarrow> None
                   | Some (engines, cmd) \<Rightarrow>
                       Some (\<lparr>cs_engines = engines, cs_routers = routers, cs_prices = pc\<rparr>, cmd)))))"

text \<open>The whole pipeline for one command, with journaling first.\<close>

definition process_command ::
    "(nat \<Rightarrow> nat) \<Rightarrow> nat option \<Rightarrow> ((u64 \<times> u64) list \<Rightarrow> string option) \<Rightarrow> replay_control \<Rightarrow> u64 \<Rightarrow>
     nat list \<times> nat list \<times> nat list \<Rightarrow> 'p journaling_processor \<Rightarrow> core_state \<Rightarrow> order_command \<Rightarrow> nat \<Rightarrow>
     (unit, 'p journaling_processor \<times> core_state \<times> order_command \<times> 'p offers \<times> kafka_message list \<times> 'p offers \<times> nat)
       outcome option" where
  "process_command clock wall to_json replay now orders jp cs cmd k =
     map_option (\<lambda>r. obind r (\<lambda>(jp, cmd, archived, k).
         (case core_step now orders cs cmd of
            None \<Rightarrow> Panic
          | Some (cs, cmd) \<Rightarrow>
              or_panic (map_option (\<lambda>(msgs, offers). (jp, cs, cmd, archived, msgs, offers, k))
                (handle_processed_command to_json (is_enabled replay) (jp_publications jp) cmd)))))
       (journal_command clock wall replay jp cmd k)"

section \<open>Owners\<close>

definition owner_of :: "u64 \<Rightarrow> nat" where
  "owner_of i = unat (i AND 3)"

lemma owner_less [simp]: "owner_of i < 4"
proof -
  have "i AND 3 \<le> 3" by (rule word_and_le1)
  then show ?thesis by (simp add: owner_of_def word_le_nat_alt)
qed

lemma owner_in_range [simp]: "\<not> 4 \<le> owner_of i"
  by (simp add: not_le)

lemma owned_by_shard_iff: "owned_by_shard i 3 u \<longleftrightarrow> i = owner_of u"
  by (auto simp: owned_by_shard_def owner_of_def)

definition engines_wf :: "risk_engine list \<Rightarrow> bool" where
  "engines_wf engines \<longleftrightarrow> length engines = 4 \<and>
     (\<forall>i<4. re_shard_id (engines ! i) = of_nat i \<and> re_shard_mask (engines ! i) = 3)"

definition shards :: "nat list \<Rightarrow> bool" where
  "shards is \<longleftrightarrow> distinct is \<and> set is = {0..<4}"

lemma handler_iff:
  assumes "engines_wf engines" "i < 4"
  shows "user_id_for_this_handler (engines ! i) u \<longleftrightarrow> i = owner_of u"
proof -
  have "unat (of_nat i :: u32) = i" using assms(2) by (simp add: unsigned_of_nat take_bit_nat_eq_self)
  then have "unat (ucast (of_nat i :: u32) :: u64) = i"
    using assms(2) by (simp add: unsigned_ucast_eq take_bit_nat_eq_self)
  then have "(ucast (of_nat i :: u32) :: u64) = u AND 3 \<longleftrightarrow> i = owner_of u"
    by (simp add: owner_of_def word_unat_eq_iff)
  moreover have "re_shard_id (engines ! i) = of_nat i" "re_shard_mask (engines ! i) = 3"
    using assms by (simp_all add: engines_wf_def)
  ultimately show ?thesis by (auto simp: user_id_for_this_handler_def)
qed

lemma engines_wf_update:
  "engines_wf engines \<Longrightarrow> same_shard (engines ! i) re \<Longrightarrow> engines_wf (engines[i := re])"
  by (cases "i < length engines") (auto simp: engines_wf_def same_shard_def nth_list_update)

lemma pre_process_frame:
  assumes "pre_process_command re cmd pc = (re', cmd')"
  shows "only_user (c_user_id cmd) re re' \<and> c_user_id cmd' = c_user_id cmd \<and> c_market_id cmd' = c_market_id cmd \<and>
    c_command cmd' = c_command cmd \<and> c_events cmd' = c_events cmd \<and> c_size cmd' = c_size cmd \<and>
    c_order_id cmd' = c_order_id cmd \<and> c_side cmd' = c_side cmd"
proof -
  have bid: "c_user_id c = c_user_id cmd \<and> c_market_id c = c_market_id cmd \<and> c_command c = c_command cmd \<and>
      c_events c = c_events cmd \<and> c_size c = c_size cmd \<and> c_order_id c = c_order_id cmd \<and> c_side c = c_side cmd"
    if "bid_amount e cmd pc = (r, c)" for e r c
    using that by (auto simp: bid_amount_def Let_def split: option.splits if_splits)
  have res: "only_user (c_user_id cmd) re e \<and> c_user_id c = c_user_id cmd \<and> c_market_id c = c_market_id cmd \<and>
      c_command c = c_command cmd \<and> c_events c = c_events cmd \<and> c_size c = c_size cmd \<and>
      c_order_id c = c_order_id cmd \<and> c_side c = c_side cmd"
    if r: "reserve_funds_for_order re cmd pc = (r, e, c)" for r e c
    using only_user_reserve [OF r] r
    by (auto simp: reserve_funds_for_order_def dest!: bid split: side.splits prod.splits sum.splits)
  show ?thesis
    using assms
    by (auto simp: pre_process_command_def handle_deposit_def handle_withdrawal_def set_status_def record_balance0_def
        dest!: res only_user_ops split: if_splits order_command_type.splits prod.splits sum.splits)
qed

section \<open>R1 and matching: one shard acts\<close>

lemma fold_None: "fold (\<lambda>i s. Option.bind s (f i)) is None = None"
  by (induction "is") auto

lemma r1_foreign:
  assumes "engines_wf engines" "i < 4" "i \<noteq> owner_of (c_user_id cmd)"
  shows "r1_handler i pc engines cmd = Some (engines, cmd)"
  using assms handler_iff [OF assms(1,2), of "c_user_id cmd"]
  by (simp add: r1_handler_def pre_process_command_def engines_wf_def)

lemma r1_stage_others:
  assumes "engines_wf engines" "set is \<subseteq> {0..<4}" "owner_of (c_user_id cmd) \<notin> set is"
  shows "r1_stage is pc (engines, cmd) = Some (engines, cmd)"
  using assms
proof (induction "is")
  case (Cons i "is")
  then have "r1_handler i pc engines cmd = Some (engines, cmd)" by (intro r1_foreign) auto
  with Cons show ?case by (simp add: r1_stage_def)
qed (simp add: r1_stage_def)

lemma r1_stage_owner:
  assumes "engines_wf engines" "shards is"
    and "pre_process_command (engines ! owner_of (c_user_id cmd)) cmd pc = (re', cmd')"
  shows "r1_stage is pc (engines, cmd) = Some (engines[owner_of (c_user_id cmd) := re'], cmd')"
proof -
  let ?o = "owner_of (c_user_id cmd)"
  have "?o \<in> set is" using assms(2) by (simp add: shards_def)
  then obtain xs ys where s: "is = xs @ ?o # ys" by (meson split_list)
  have d: "?o \<notin> set xs" "?o \<notin> set ys" "set xs \<subseteq> {0..<4}" "set ys \<subseteq> {0..<4}"
    using assms(2) by (auto simp: s shards_def)
  have len: "length engines = 4" using assms(1) by (simp add: engines_wf_def)
  have wf: "engines_wf (engines[?o := re'])"
    using engines_wf_update [OF assms(1)] pre_process_frame [OF assms(3)] by (simp add: only_user_def)
  have run: "r1_handler ?o pc engines cmd = Some (engines[?o := re'], cmd')"
    using assms(3) len by (simp add: r1_handler_def)
  have u: "c_user_id cmd' = c_user_id cmd" using pre_process_frame [OF assms(3)] by simp
  show ?thesis
    using r1_stage_others [OF assms(1) d(3,1), of pc] r1_stage_others [OF wf d(4), of cmd' pc] d(2) u run
    by (simp add: r1_stage_def s)
qed

definition routers_wf :: "matching_router list \<Rightarrow> bool" where
  "routers_wf routers \<longleftrightarrow> length routers = 4 \<and>
     (\<forall>i<4. mr_shard_id (routers ! i) = of_nat i \<and> mr_shard_mask (routers ! i) = 3)"

definition market_owner :: "u32 \<Rightarrow> nat" where
  "market_owner m = owner_of (ucast m)"

lemma market_owner_less [simp]: "market_owner m < 4" "\<not> 4 \<le> market_owner m"
  by (simp_all add: market_owner_def)

lemma market_handler_iff:
  assumes "routers_wf routers" "i < 4"
  shows "market_for_this_handler (routers ! i) (ucast m) \<longleftrightarrow> i = market_owner m"
proof -
  have "unat (of_nat i :: u32) = i" using assms(2) by (simp add: unsigned_of_nat take_bit_nat_eq_self)
  then have "unat (ucast (of_nat i :: u32) :: u64) = i"
    using assms(2) by (simp add: unsigned_ucast_eq take_bit_nat_eq_self)
  then have "(ucast (of_nat i :: u32) :: u64) = ucast m AND 3 \<longleftrightarrow> i = market_owner m"
    by (simp add: market_owner_def owner_of_def word_unat_eq_iff)
  moreover have "mr_shard_id (routers ! i) = of_nat i" "mr_shard_mask (routers ! i) = 3"
    using assms by (simp_all add: routers_wf_def)
  ultimately show ?thesis by (auto simp: market_for_this_handler_def)
qed

lemma router_foreign:
  assumes "routers_wf routers" "i < 4" "i \<noteq> market_owner (c_market_id cmd)"
  shows "router_at now i (routers, cmd, pc) = Some (routers, cmd, pc)"
  using assms market_handler_iff [OF assms(1,2), of "c_market_id cmd"]
  by (simp add: router_at_def router_handler_foreign routers_wf_def)

lemma matching_stage_others:
  assumes "routers_wf routers" "set is \<subseteq> {0..<4}" "market_owner (c_market_id cmd) \<notin> set is"
  shows "matching_stage now is (routers, cmd, pc) = Some (routers, cmd, pc)"
  using assms
proof (induction "is")
  case (Cons i "is")
  then have "router_at now i (routers, cmd, pc) = Some (routers, cmd, pc)" by (intro router_foreign) auto
  with Cons show ?case by (simp add: matching_stage_def)
qed (simp add: matching_stage_def)

lemma matching_stage_owner:
  assumes "routers_wf routers" "shards is"
    and "router_handler now (routers ! market_owner (c_market_id cmd)) cmd pc = Some (mr', cmd', pc')"
  shows "matching_stage now is (routers, cmd, pc) = Some (routers[market_owner (c_market_id cmd) := mr'], cmd', pc')"
    "routers_wf (routers[market_owner (c_market_id cmd) := mr'])"
proof -
  let ?o = "market_owner (c_market_id cmd)"
  have "?o \<in> set is" using assms(2) by (simp add: shards_def)
  then obtain xs ys where s: "is = xs @ ?o # ys" by (meson split_list)
  have d: "?o \<notin> set xs" "?o \<notin> set ys" "set xs \<subseteq> {0..<4}" "set ys \<subseteq> {0..<4}"
    using assms(2) by (auto simp: s shards_def)
  have len: "length routers = 4" using assms(1) by (simp add: routers_wf_def)
  note frame = router_handler_frame [OF assms(3)]
  show wf: "routers_wf (routers[?o := mr'])"
    using assms(1) frame by (simp add: routers_wf_def nth_list_update)
  have run: "router_at now ?o (routers, cmd, pc) = Some (routers[?o := mr'], cmd', pc')"
    using assms(3) len by (simp add: router_at_def)
  show "matching_stage now is (routers, cmd, pc) = Some (routers[?o := mr'], cmd', pc')"
    using matching_stage_others [OF assms(1) d(3,1), of now pc]
      matching_stage_others [OF wf d(4), of cmd' now pc'] d(2) frame run
    by (simp add: matching_stage_def s)
qed

section \<open>R2: the shards commute\<close>

text \<open>Settlement reads everything of a trade event but the balances of the maker it records.\<close>

lemma refund_mb [simp]:
  "refund_improvement re u m sd (e\<lparr>e_maker_balance := b\<rparr>) spec tp = refund_improvement re u m sd e spec tp"
  by (simp add: refund_improvement_def split: option.split)

lemma settle_trade_mb:
  "fst (snd (settle_trade re u m sd (e\<lparr>e_maker_balance := b\<rparr>) spec tp)) = fst (snd (settle_trade re u m sd e spec tp))"
  by (simp add: settle_trade_def Let_def split: prod.split sum.split)

lemma handle_trade_event_mb:
  "fst (handle_trade_event re u m sd (e\<lparr>e_maker_balance := b\<rparr>) tp) = fst (handle_trade_event re u m sd e tp)"
  using settle_trade_mb [of re u m sd b e]
  by (simp add: handle_trade_event_def case_prod_unfold split: option.split)

lemma handle_trade_event_not_maker:
  "u \<noteq> e_maker_user_id e \<Longrightarrow> snd (handle_trade_event re u m sd e tp) = e"
  by (simp add: handle_trade_event_def settle_trade_def Let_def split: option.split prod.split sum.split)

definition mb_only :: "trade_event \<Rightarrow> trade_event \<Rightarrow> bool" where
  "mb_only e e' \<longleftrightarrow> e' = e\<lparr>e_maker_balance := e_maker_balance e'\<rparr>"

lemma mb_only_simps [simp]: "mb_only e e" "mb_only e (e\<lparr>e_maker_balance := b\<rparr>)"
  by (simp_all add: mb_only_def)

lemma mb_only_trans: "mb_only e e1 \<Longrightarrow> mb_only e1 e2 \<Longrightarrow> mb_only e e2"
  by (cases e; cases e1; cases e2) (auto simp: mb_only_def)

lemma handle_trade_event_updates: "mb_only e (snd (handle_trade_event re u m sd e tp))"
  by (simp add: handle_trade_event_def settle_trade_def Let_def split: option.split prod.split sum.split)

lemma settle_event_not_maker:
  assumes "\<not> owned_by_shard i msk (e_maker_user_id e)"
  shows "snd (settle_event i msk u m sd P re e) = e"
    "fst (settle_event i msk u m sd P re (e\<lparr>e_maker_balance := b\<rparr>)) = fst (settle_event i msk u m sd P re e)"
proof -
  have "owned_by_shard i msk u \<Longrightarrow> u \<noteq> e_maker_user_id e" using assms by auto
  with assms show "snd (settle_event i msk u m sd P re e) = e"
    by (simp add: settle_event_def Let_def handle_trade_event_not_maker)
  show "fst (settle_event i msk u m sd P re (e\<lparr>e_maker_balance := b\<rparr>)) = fst (settle_event i msk u m sd P re e)"
    using assms by (simp add: settle_event_def Let_def handle_trade_event_mb)
qed

lemma settle_event_updates: "mb_only e (snd (settle_event i msk u m sd P re e))"
proof -
  obtain re1 e1 where h: "handle_trade_event re (e_maker_user_id e) m (op_side sd) e None = (re1, e1)"
    by (rule prod.exhaust)
  have "mb_only e e1" using handle_trade_event_updates [of e re "e_maker_user_id e" m "op_side sd" None] h by simp
  then have "mb_only e (snd (handle_trade_event re1 u m sd e1 (Some P)))"
    using handle_trade_event_updates mb_only_trans by blast
  then show ?thesis
    using h handle_trade_event_updates \<open>mb_only e e1\<close> by (simp add: settle_event_def Let_def)
qed

lemma settle_event_commute_half:
  assumes "\<not> owned_by_shard j msk (e_maker_user_id e)"
    and "settle_event i msk u m sd P rei e = (rei', e1)" "settle_event j msk u m sd P rej e1 = (rej', e2)"
  shows "settle_event j msk u m sd P rej e = (rej', e) \<and> settle_event i msk u m sd P rei e = (rei', e2) \<and> e2 = e1"
proof -
  obtain b where b: "e1 = e\<lparr>e_maker_balance := b\<rparr>"
    using settle_event_updates [of e i msk u m sd P rei] assms(2) by (auto simp: mb_only_def)
  have "\<not> owned_by_shard j msk (e_maker_user_id e1)" using assms(1) unfolding b by simp
  from settle_event_not_maker(1) [OF this, of u m sd P rej] assms(3) have e2: "e2 = e1" by simp
  have "fst (settle_event j msk u m sd P rej e) = rej'"
    using settle_event_not_maker(2) [OF assms(1), of u m sd P rej b] assms(3) unfolding b by simp
  then have "settle_event j msk u m sd P rej e = (rej', e)"
    using settle_event_not_maker(1) [OF assms(1), of u m sd P rej] by (metis prod.collapse)
  with e2 assms(2) show ?thesis by simp
qed

lemma settle_event_commute:
  assumes "i \<noteq> j"
    and "settle_event i msk u m sd P rei e = (rei', e1)" "settle_event j msk u m sd P rej e1 = (rej', e12)"
  shows "\<exists>e2. settle_event j msk u m sd P rej e = (rej', e2) \<and> settle_event i msk u m sd P rei e2 = (rei', e12)"
proof (cases "owned_by_shard j msk (e_maker_user_id e)")
  case False
  with settle_event_commute_half [OF _ assms(2,3)] show ?thesis by blast
next
  case True
  then have ni: "\<not> owned_by_shard i msk (e_maker_user_id e)" using assms(1) by (auto simp: owned_by_shard_def)
  have e1: "e1 = e" using settle_event_not_maker(1) [OF ni, of u m sd P rei] assms(2) by simp
  obtain rei2 e2 where i2: "settle_event i msk u m sd P rei e12 = (rei2, e2)" by (rule prod.exhaust)
  from settle_event_commute_half [OF ni assms(3) [unfolded e1] i2] assms(2) e1 i2 assms(3)
  show ?thesis by auto
qed

lemma settle_chain_commute:
  assumes "i \<noteq> j"
  shows "settle_chain i msk u m sd P rei c = (rei', c1) \<Longrightarrow> settle_chain j msk u m sd P rej c1 = (rej', c12) \<Longrightarrow>
    \<exists>c2. settle_chain j msk u m sd P rej c = (rej', c2) \<and> settle_chain i msk u m sd P rei c2 = (rei', c12)"
proof (induction c arbitrary: rei rej c1 c12 rei' rej' rule: chain_list.induct)
  case (1 e)
  obtain rei1 e1 where i: "settle_event i msk u m sd P rei e = (rei1, e1)" by (rule prod.exhaust)
  obtain rej1 e2 where j: "settle_event j msk u m sd P rej e1 = (rej1, e2)" by (rule prod.exhaust)
  from settle_event_commute [OF assms i j] "1.prems" i j show ?case by auto
next
  case (2 e rest)
  obtain rei1 e1 where i: "settle_event i msk u m sd P rei e = (rei1, e1)" by (rule prod.exhaust)
  obtain rei2 r1 where ir: "settle_chain i msk u m sd P rei1 rest = (rei2, r1)" by (rule prod.exhaust)
  obtain rej1 e2 where j: "settle_event j msk u m sd P rej e1 = (rej1, e2)" by (rule prod.exhaust)
  obtain rej2 r2 where jr: "settle_chain j msk u m sd P rej1 r1 = (rej2, r2)" by (rule prod.exhaust)
  from settle_event_commute [OF assms i j] obtain e3 where
    "settle_event j msk u m sd P rej e = (rej1, e3)" "settle_event i msk u m sd P rei e3 = (rei1, e2)" by blast
  moreover from "2.IH" [OF ir jr] obtain r3 where
    "settle_chain j msk u m sd P rej1 rest = (rej2, r3)" "settle_chain i msk u m sd P rei1 r3 = (rei2, r2)" by blast
  ultimately show ?case using "2.prems" i ir j jr by auto
qed

text \<open>The two parts of an R2 handler: the trades, and what it does for the taker.\<close>

definition settle_events ::
    "nat \<Rightarrow> u64 \<Rightarrow> risk_engine \<Rightarrow> order_command \<Rightarrow> risk_engine \<times> event_chain option" where
  "settle_events i msk re cmd =
     (case c_events cmd of
        None \<Rightarrow> (re, None)
      | Some c \<Rightarrow> apsnd Some (settle_chain i msk (c_user_id cmd) (c_market_id cmd) (c_side cmd) (c_price cmd) re c))"

definition taker_engine :: "risk_engine \<Rightarrow> order_command \<Rightarrow> risk_engine" where
  "taker_engine re cmd = (if should_handle_cancellation cmd then handle_cancellation re cmd else re)"

lemma taker_engine_cong [simp]:
  "taker_engine re (cmd\<lparr>c_events := es\<rparr>) = taker_engine re cmd"
  "taker_engine re (cmd\<lparr>c_balance := bs\<rparr>) = taker_engine re cmd"
  by (auto simp: taker_engine_def should_handle_cancellation_def handle_cancellation_def)

lemma r2_settle_parts:
  assumes "settle_events i msk re cmd = (re1, es)"
  shows "r2_settle i msk re cmd =
    (if owned_by_shard i msk (c_user_id cmd)
     then (taker_engine re1 cmd, (cmd\<lparr>c_events := es\<rparr>)\<lparr>c_balance :=
        (engine_balance (taker_engine re1 cmd) (c_user_id cmd) (base_asset (c_market_id cmd)),
         engine_balance (taker_engine re1 cmd) (c_user_id cmd) (quote_asset (c_market_id cmd)))\<rparr>)
     else (re1, cmd\<lparr>c_events := es\<rparr>))"
proof -
  have "(case c_events cmd of None \<Rightarrow> (re, cmd)
      | Some c \<Rightarrow> (case settle_chain i msk (c_user_id cmd) (c_market_id cmd) (c_side cmd) (c_price cmd) re c of
          (re, c) \<Rightarrow> (re, cmd\<lparr>c_events := Some c\<rparr>))) = (re1, cmd\<lparr>c_events := es\<rparr>)"
    using assms by (auto simp: settle_events_def apsnd_def map_prod_def split: option.splits prod.splits)
  moreover have "taker_engine re1 (cmd\<lparr>c_events := es\<rparr>) = taker_engine re1 cmd" by simp
  ultimately show ?thesis
    unfolding r2_settle_def Let_def record_balances_def taker_engine_def by simp
qed

lemma settle_events_cong:
  "settle_events i msk re (cmd\<lparr>c_balance := b\<rparr>) = settle_events i msk re cmd"
  by (simp add: settle_events_def split: option.split)

lemma settle_events_commute:
  assumes "i \<noteq> j" "settle_events i msk rei cmd = (rei', e1)"
    and "settle_events j msk rej (cmd\<lparr>c_events := e1\<rparr>) = (rej', e12)"
  shows "\<exists>e2. settle_events j msk rej cmd = (rej', e2) \<and> settle_events i msk rei (cmd\<lparr>c_events := e2\<rparr>) = (rei', e12)"
proof (cases "c_events cmd")
  case None
  with assms show ?thesis by (auto simp: settle_events_def)
next
  case (Some c)
  obtain c1 where i: "settle_chain i msk (c_user_id cmd) (c_market_id cmd) (c_side cmd) (c_price cmd) rei c = (rei', c1)"
    "e1 = Some c1" using assms(2) Some by (auto simp: settle_events_def apsnd_def map_prod_def split: prod.splits)
  obtain c12 where j: "settle_chain j msk (c_user_id cmd) (c_market_id cmd) (c_side cmd) (c_price cmd) rej c1 = (rej', c12)"
    "e12 = Some c12" using assms(3) i(2) by (auto simp: settle_events_def apsnd_def map_prod_def split: prod.splits)
  from settle_chain_commute [OF assms(1) i(1) j(1)] show ?thesis
    using Some j(2) by (auto simp: settle_events_def)
qed

lemma r2_settle_commute:
  assumes "i \<noteq> j" "r2_settle i msk rei cmd = (rei', c1)" "r2_settle j msk rej c1 = (rej', c12)"
  shows "\<exists>c2. r2_settle j msk rej cmd = (rej', c2) \<and> r2_settle i msk rei c2 = (rei', c12)"
proof -
  obtain rei1 e1 where i: "settle_events i msk rei cmd = (rei1, e1)" by (rule prod.exhaust)
  obtain rej1 e12 where j: "settle_events j msk rej (cmd\<lparr>c_events := e1\<rparr>) = (rej1, e12)" by (rule prod.exhaust)
  from settle_events_commute [OF assms(1) i j] obtain e2 where
    j': "settle_events j msk rej cmd = (rej1, e2)" and i': "settle_events i msk rei (cmd\<lparr>c_events := e2\<rparr>) = (rei1, e12)"
    by blast
  have not_both: "\<not> (owned_by_shard i msk (c_user_id cmd) \<and> owned_by_shard j msk (c_user_id cmd))"
    using assms(1) by (auto simp: owned_by_shard_def)
  have jb: "settle_events j msk rej ((cmd\<lparr>c_events := e1\<rparr>)\<lparr>c_balance := b\<rparr>) = (rej1, e12)"
    and ib: "settle_events i msk rei ((cmd\<lparr>c_events := e2\<rparr>)\<lparr>c_balance := b\<rparr>) = (rei1, e12)" for b
    using j i' by (simp_all only: settle_events_cong)
  note i1 = r2_settle_parts [OF i] and j1 = r2_settle_parts [OF j'] and j2 = r2_settle_parts [OF j]
    and i2 = r2_settle_parts [OF i'] and j3 = r2_settle_parts [OF jb] and i3 = r2_settle_parts [OF ib]
  show ?thesis
  proof (cases "owned_by_shard i msk (c_user_id cmd)")
    case True
    with not_both have nj: "\<not> owned_by_shard j msk (c_user_id cmd)" by blast
    show ?thesis
      using assms(2,3) i1 j1 i2 j3 True nj by auto
  next
    case False
    show ?thesis
      using assms(2,3) i1 j1 i2 i3 j2 False
      by (cases "owned_by_shard j msk (c_user_id cmd)") auto
  qed
qed

lemma r2_settle_status: "r2_settle i msk re cmd = (re', cmd') \<Longrightarrow> c_status cmd' = c_status cmd"
  using r2_settle_parts [of i msk re cmd] by (cases "settle_events i msk re cmd") (auto split: if_splits)

lemma r2_handler_commute:
  "Option.bind (Option.bind s (\<lambda>(engines, cmd). r2_handler i engines cmd)) (\<lambda>(engines, cmd). r2_handler j engines cmd) =
   Option.bind (Option.bind s (\<lambda>(engines, cmd). r2_handler j engines cmd)) (\<lambda>(engines, cmd). r2_handler i engines cmd)"
proof (cases "i = j \<or> s = None")
  case False
  then obtain es cmd where s: "s = Some (es, cmd)" "i \<noteq> j" by auto
  let ?k = "of_nat (length es) - 1 :: u64"
  obtain rei c1 where i: "r2_settle i ?k (es ! i) cmd = (rei, c1)" by (rule prod.exhaust)
  obtain rej c2 where j: "r2_settle j ?k (es ! j) cmd = (rej, c2)" by (rule prod.exhaust)
  obtain rej' c12 where ij: "r2_settle j ?k (es ! j) c1 = (rej', c12)" by (rule prod.exhaust)
  from r2_settle_commute [OF s(2) i ij] j have eq: "rej' = rej" "r2_settle i ?k (es ! i) c2 = (rei, c12)" by auto
  have st: "c_status c1 = c_status cmd" "c_status c2 = c_status cmd"
    using r2_settle_status i j by blast+
  show ?thesis
    using s i j ij eq st by (simp add: r2_handler_def list_update_swap)
qed auto

lemma r2_stage_order:
  assumes "shards is" "shards js"
  shows "r2_stage is s = r2_stage js s"
proof -
  have "mset is = mset js" using assms by (simp add: shards_def set_eq_iff_mset_eq_distinct [symmetric])
  then have "fold (\<lambda>i s. Option.bind s (\<lambda>(engines, cmd). r2_handler i engines cmd)) is =
      fold (\<lambda>i s. Option.bind s (\<lambda>(engines, cmd). r2_handler i engines cmd)) js"
    by (rule fold_multiset_equiv [rotated]) (rule ext, simp only: o_apply, rule r2_handler_commute)
  then show ?thesis by (simp add: r2_stage_def)
qed

text \<open>Without trades only the shard of the command's user acts.\<close>

lemma r2_foreign:
  assumes "length engines = 4" "i < 4" "i \<noteq> owner_of (c_user_id cmd)" "c_events cmd = None"
  shows "r2_handler i engines cmd = Some (engines, cmd)"
  using assms r2_settle_parts [of i 3 "engines ! i" cmd "engines ! i" None]
  by (auto simp: r2_handler_def settle_events_def owned_by_shard_iff)

lemma r2_stage_others:
  assumes "length engines = 4" "set is \<subseteq> {0..<4}" "owner_of (c_user_id cmd) \<notin> set is" "c_events cmd = None"
  shows "r2_stage is (engines, cmd) = Some (engines, cmd)"
  using assms
proof (induction "is")
  case (Cons i "is")
  then have "r2_handler i engines cmd = Some (engines, cmd)" by (intro r2_foreign) auto
  with Cons show ?case by (simp add: r2_stage_def)
qed (simp add: r2_stage_def)

lemma r2_stage_owner:
  assumes "length engines = 4" "shards is" "c_events cmd = None" "c_status cmd \<notin> {Rejected, Processed}"
    and "re' = taker_engine (engines ! owner_of (c_user_id cmd)) cmd"
  shows "\<exists>cmd'. r2_stage is (engines, cmd) = Some (engines[owner_of (c_user_id cmd) := re'], cmd') \<and>
    cmd' = record_balances re' (c_user_id cmd) (c_market_id cmd) cmd"
proof -
  let ?o = "owner_of (c_user_id cmd)"
  have "?o \<in> set is" using assms(2) by (simp add: shards_def)
  then obtain xs ys where s: "is = xs @ ?o # ys" by (meson split_list)
  have d: "?o \<notin> set xs" "?o \<notin> set ys" "set xs \<subseteq> {0..<4}" "set ys \<subseteq> {0..<4}"
    using assms(2) by (auto simp: s shards_def)
  let ?cmd = "record_balances re' (c_user_id cmd) (c_market_id cmd) cmd"
  have ev: "cmd\<lparr>c_events := None\<rparr> = cmd" using assms(3) by simp
  have "r2_settle ?o 3 (engines ! ?o) cmd = (re', ?cmd)"
    using r2_settle_parts [of ?o 3 "engines ! ?o" cmd "engines ! ?o" None] assms(3,5)
    by (simp add: settle_events_def owned_by_shard_iff ev record_balances_def)
  then have run: "r2_handler ?o engines cmd = Some (engines[?o := re'], ?cmd)"
    using assms(1,4) by (simp add: r2_handler_def)
  have "c_user_id ?cmd = c_user_id cmd" "c_events ?cmd = None" using assms(3) by (simp_all add: record_balances_def)
  then show ?thesis
    using r2_stage_others [OF assms(1) d(3,1) assms(3)] r2_stage_others [of "engines[?o := re']" ys ?cmd] d assms(1) run
    by (simp add: r2_stage_def s)
qed

section \<open>Every stage\<close>

lemma matching_stage_value:
  assumes "routers_wf routers" "shards is"
  shows "matching_stage now is (routers, cmd, pc) =
    map_option (\<lambda>(mr, cmd', pc'). (routers[market_owner (c_market_id cmd) := mr], cmd', pc'))
      (router_handler now (routers ! market_owner (c_market_id cmd)) cmd pc)"
proof (cases "router_handler now (routers ! market_owner (c_market_id cmd)) cmd pc")
  case None
  let ?o = "market_owner (c_market_id cmd)"
  have "?o \<in> set is" using assms(2) by (simp add: shards_def)
  then obtain xs ys where s: "is = xs @ ?o # ys" by (meson split_list)
  have d: "?o \<notin> set xs" "set xs \<subseteq> {0..<4}" using assms(2) by (auto simp: s shards_def)
  have "router_at now ?o (routers, cmd, pc) = None"
    using None by (simp add: router_at_def)
  then show ?thesis
    using matching_stage_others [OF assms(1) d(2,1), of now pc] None
    by (simp add: matching_stage_def s fold_None)
next
  case (Some r)
  then show ?thesis using matching_stage_owner(1) [OF assms] by (cases r) simp
qed

lemma r2_settle_same_shard:
  assumes "r2_settle i msk re cmd = (re', cmd')"
  shows "same_shard re re'"
proof -
  have h: "same_shard re re'" if "handle_trade_event re u m sd e tp = (re', e')" for re u m sd e tp re' e'
    using only_user_handle [OF that] by (simp add: only_user_def)
  have e: "same_shard re re'" if "settle_event i msk u m sd P re e = (re', e')" for u m sd P re e re' e'
    using that by (auto simp: settle_event_def Let_def split: if_splits prod.splits
        dest!: h intro: same_shard_trans)
  have c: "same_shard re re'" if "settle_chain i msk u m sd P re c = (re', c')" for u m sd P re c re' c'
    using that
  proof (induction c arbitrary: re re' c' rule: chain_list.induct)
    case (1 x)
    then show ?case using e by (auto split: prod.splits)
  next
    case (2 x rest)
    then show ?case by (auto split: prod.splits dest!: e "2.IH" intro: same_shard_trans)
  qed
  obtain re1 es where s: "settle_events i msk re cmd = (re1, es)" by (rule prod.exhaust)
  have "same_shard re re1"
    using s by (auto simp: settle_events_def apsnd_def map_prod_def split: option.splits prod.splits dest!: c)
  moreover have "same_shard x (handle_cancellation x cmd)" for x
    using only_user_cancellation [of cmd x] by (simp add: only_user_def)
  ultimately show ?thesis
    using assms r2_settle_parts [OF s] by (auto simp: taker_engine_def split: if_splits intro: same_shard_trans)
qed

lemma r2_stage_total:
  assumes "engines_wf engines" "set is \<subseteq> {0..<4}"
  shows "\<exists>engines' cmd'. r2_stage is (engines, cmd) = Some (engines', cmd') \<and> engines_wf engines'"
  using assms
proof (induction "is" arbitrary: engines cmd)
  case (Cons i "is")
  have len: "length engines = 4" using Cons.prems(1) by (simp add: engines_wf_def)
  obtain re cmd1 where r: "r2_settle i 3 (engines ! i) cmd = (re, cmd1)" by (rule prod.exhaust)
  then obtain engines1 cmd2 where h: "r2_handler i engines cmd = Some (engines1, cmd2)" "engines_wf engines1"
    using Cons.prems engines_wf_update [OF Cons.prems(1) r2_settle_same_shard [OF r]] len
    by (cases "c_status cmd = Rejected \<or> c_status cmd = Processed") (auto simp: r2_handler_def)
  from Cons.IH [OF this(2), of cmd2] Cons.prems(2) h(1) show ?case
    by (auto simp: r2_stage_def)
qed (simp add: r2_stage_def)

section \<open>The initial state\<close>

lemma those_map_Some: "those (map Some xs) = Some xs"
  by (induction xs) auto

lemma count_four: "count_ones (4 :: u32) = 1" "u64_count_ones 4 = 1"
proof -
  have b: "bit (4 :: 'a::len word) n \<longleftrightarrow> n = 2 \<and> 2 < LENGTH('a)" for n
    using bit_push_bit_iff [of 2 "1 :: 'a word" n] by (auto simp: bit_1_iff push_bit_eq_mult)
  have "filter (bit (4 :: u32)) [0..<32] = [2]" "filter (bit (4 :: u64)) [0..<64] = [2]"
    by (simp_all add: b upt_conv_Cons)
  then show "count_ones (4 :: u32) = 1" "u64_count_ones 4 = 1"
    by (simp_all add: count_ones_def u64_count_ones_def)
qed

lemma distribute_symbols_wf:
  assumes "routers_wf routers"
  shows "routers_wf (distribute_symbols 3 symbols routers) \<and>
    (\<forall>i<4. \<forall>m. mr_order_books (distribute_symbols 3 symbols routers ! i) m =
      (if m \<in> set symbols \<and> market_owner m = i then Some (order_book_new bid_new ask_new m)
       else mr_order_books (routers ! i) m))"
  using assms
proof (induction symbols arbitrary: routers)
  case (Cons s rest)
  let ?o = "market_owner s"
  let ?r = "routers[?o := add_market s (routers ! ?o)]"
  have o: "unat ((ucast s :: u64) AND 3) = ?o" by (simp add: market_owner_def owner_of_def)
  have len: "length routers = 4" using Cons.prems by (simp add: routers_wf_def)
  have wf: "routers_wf ?r"
    using Cons.prems by (auto simp: routers_wf_def nth_list_update add_market_def)
  have run: "distribute_symbols 3 (s # rest) routers = distribute_symbols 3 rest ?r"
    by (simp add: o len Let_def)
  have "mr_order_books (?r ! i) m =
      (if m = s \<and> ?o = i then Some (order_book_new bid_new ask_new m) else mr_order_books (routers ! i) m)"
    if "i < 4" for i m
    using that len by (auto simp: nth_list_update add_market_def)
  with Cons.IH [OF wf] show ?case unfolding run by auto
qed simp

lemma initial_engines:
  "\<exists>es. initialize_risk_engines specs 4 = Some es \<and> engines_wf es \<and>
     (\<forall>i<4. re_symbol_specs (es ! i) = specs \<and> (\<forall>u a. engine_balance (es ! i) u a = balance_default))"
proof -
  let ?e = "\<lambda>i. \<lparr>re_balances = balance_store_new, re_symbol_specs = specs, re_shard_id = of_nat i, re_shard_mask = 3\<rparr>"
  have "map (\<lambda>i. risk_engine_new specs (of_nat i) (of_nat 4)) [0..<4] = map Some (map ?e [0..<4])"
    using count_four by (simp add: risk_engine_new_def)
  then have "initialize_risk_engines specs 4 = Some (map ?e [0..<4])"
    unfolding initialize_risk_engines_def by (simp only: those_map_Some)
  then show ?thesis
    by (simp add: engines_wf_def engine_balance_def get_balance_def balance_store_new_def)
qed

lemma initial_routers:
  "\<exists>rs. initialize_matching_engines symbols 4 = Some rs \<and> routers_wf rs \<and>
     (\<forall>i<4. \<forall>m. mr_order_books (rs ! i) m =
       (if m \<in> set symbols \<and> market_owner m = i then Some (order_book_new bid_new ask_new m) else None))"
proof -
  let ?r = "\<lambda>i. \<lparr>mr_order_books = Map.empty, mr_shard_id = of_nat i, mr_shard_mask = 3\<rparr>"
  have "map (\<lambda>i. router_new (of_nat i) (of_nat 4)) [0..<4] = map Some (map ?r [0..<4])"
    using count_four by (simp add: router_new_def)
  then have "initialize_matching_engines symbols 4 = Some (distribute_symbols 3 symbols (map ?r [0..<4]))"
    unfolding initialize_matching_engines_def by (simp only: those_map_Some) simp
  moreover have "routers_wf (map ?r [0..<4])" by (simp add: routers_wf_def)
  ultimately show ?thesis
    using distribute_symbols_wf [of "map ?r [0..<4]" symbols] by auto
qed

end
