(* ===== verification/Engine_Invariant.thy ===== *)
theory Engine_Invariant
  imports Pipeline
begin

text \<open>
  The invariant of the whole engine, that the initial engine satisfies it, and that the transaction of an
  admissible command returns and keeps it.
\<close>

section \<open>The invariant of the engine\<close>

text \<open>The shards are where they should be, the books are well formed and live in the router that owns
  their market.\<close>

definition core_wf :: "core_state \<Rightarrow> bool" where
  "core_wf cs \<longleftrightarrow> engines_wf (cs_engines cs) \<and> routers_wf (cs_routers cs) \<and>
     (\<forall>i<4. router_wf (cs_routers cs ! i) (cs_prices cs))"

definition book_of :: "core_state \<Rightarrow> u32 \<Rightarrow> order_book option" where
  "book_of cs m = mr_order_books (cs_routers cs ! market_owner m) m"

definition balance_of :: "core_state \<Rightarrow> u64 \<Rightarrow> u16 \<Rightarrow> user_balance" where
  "balance_of cs u a = engine_balance (cs_engines cs ! owner_of u) u a"

lemma core_wfD:
  assumes "core_wf cs" "book_of cs m = Some ob"
  shows "book_wf ob" "ob_market_id ob = m" "m \<in> dom (cs_prices cs)"
proof -
  have "router_wf (cs_routers cs ! market_owner m) (cs_prices cs)" using assms(1) by (simp add: core_wf_def)
  with assms(2) show "book_wf ob" "ob_market_id ob = m" "m \<in> dom (cs_prices cs)"
    by (auto simp: router_wf_def book_of_def)
qed

lemma initial_state:
  "\<exists>cs. build_engine symbols specs = Some cs \<and> core_wf cs \<and>
     (\<forall>m. book_of cs m = (if m \<in> set symbols then Some (order_book_new bid_new ask_new m) else None)) \<and>
     (\<forall>u a. balance_of cs u a = balance_default) \<and> (\<forall>i<4. re_symbol_specs (cs_engines cs ! i) = specs) \<and>
     (\<forall>m. m \<in> dom (cs_prices cs) \<longleftrightarrow> m \<in> set symbols)"
proof -
  from initial_engines obtain es where es: "initialize_risk_engines specs 4 = Some es" "engines_wf es"
    "\<forall>i<4. re_symbol_specs (es ! i) = specs \<and> (\<forall>u a. engine_balance (es ! i) u a = balance_default)" by blast
  from initial_routers obtain rs where rs: "initialize_matching_engines symbols 4 = Some rs" "routers_wf rs"
    "\<forall>i<4. \<forall>m. mr_order_books (rs ! i) m =
       (if m \<in> set symbols \<and> market_owner m = i then Some (order_book_new bid_new ask_new m) else None)" by blast
  let ?cs = "\<lparr>cs_engines = es, cs_routers = rs, cs_prices = price_cache_new symbols\<rparr>"
  have "build_engine symbols specs = Some ?cs"
    using es(1) rs(1) by (simp add: build_engine_def NUM_RISK_ENGINES_def NUM_MATCHING_ENGINES_def)
  moreover have "core_wf ?cs"
    using es(2) rs(2,3) book_wf_new
    by (auto simp: core_wf_def router_wf_def order_book_new_def price_cache_new_apply split: if_splits)
  moreover have "\<forall>m. book_of ?cs m = (if m \<in> set symbols then Some (order_book_new bid_new ask_new m) else None)"
    using rs(3) by (simp add: book_of_def)
  ultimately show ?thesis
    using es(3) by (auto simp: balance_of_def price_cache_new_apply dom_def)
qed

section \<open>What the invariant gives\<close>

text \<open>A command the engine accepts from the network: an order with a fresh id and a size, whose market,
  if known, has a total resting volume that fits 64 bits; a cancellation of an order that its book can
  find; a transfer.\<close>

definition admissible :: "core_state \<Rightarrow> order_command \<Rightarrow> bool" where
  "admissible cs cmd \<longleftrightarrow>
     (\<forall>ob. book_of cs (c_market_id cmd) = Some ob \<longrightarrow>
        (case c_command cmd of
           PlaceOrder \<Rightarrow> fresh_id (c_order_id cmd) (abs_book ob) \<and> c_size cmd \<noteq> 0 \<and>
             volume (abs_book ob (op_side (c_side cmd))) < 2 ^ 64
         | CancelOrder \<Rightarrow> (\<forall>sd. \<forall>x\<in>set (abs_book ob sd). o_order_id x = c_order_id cmd \<longrightarrow> \<not> hidden (abs_book ob) x)
         | _ \<Rightarrow> True))"

lemma quoted_dom: "m \<in> dom pc \<Longrightarrow> dom (quoted m B pc) = dom pc"
  by (auto simp: quoted_def)

lemma order_step_total:
  assumes wf: "book_wf ob" "ob_market_id ob \<in> dom pc"
    and adm: "c_command cmd = PlaceOrder \<Longrightarrow> fresh_id (c_order_id cmd) (abs_book ob) \<and> c_size cmd \<noteq> 0 \<and>
        volume (abs_book ob (op_side (c_side cmd))) < 2 ^ 64"
      "c_command cmd = CancelOrder \<Longrightarrow>
        \<forall>sd. \<forall>x\<in>set (abs_book ob sd). o_order_id x = c_order_id cmd \<longrightarrow> \<not> hidden (abs_book ob) x"
    and st: "c_status cmd \<noteq> Rejected"
  shows "\<exists>ob' cmd' pc'. (case c_command cmd of PlaceOrder \<Rightarrow> place_order now ob cmd pc
      | CancelOrder \<Rightarrow> cancel_order now ob cmd pc | _ \<Rightarrow> Some (ob, cmd, pc)) = Some (ob', cmd', pc') \<and>
    book_wf ob' \<and> ob_market_id ob' = ob_market_id ob \<and> dom pc' = dom pc"
proof (cases "c_command cmd")
  case PlaceOrder
  obtain s left es B where "spec_place cmd (abs_book ob) = (s, left, es, B)" by (metis prod_cases4)
  from place_order_abs [OF wf(1) _ _ _ st wf(2) this, of now] adm(1) [OF PlaceOrder] obtain ob' cmd' where
    "place_order now ob cmd pc = Some (ob', cmd', quoted (ob_market_id ob) B pc)"
    "book_wf ob'" "ob_market_id ob' = ob_market_id ob" by blast
  then show ?thesis using PlaceOrder quoted_dom [OF wf(2)] by simp
next
  case CancelOrder
  show ?thesis
  proof (cases "\<exists>sd. \<exists>x\<in>set (abs_book ob sd). o_order_id x = c_order_id cmd")
    case True
    then obtain sd x where x: "x \<in> set (abs_book ob sd)" "o_order_id x = c_order_id cmd" by blast
    have "o_side x = sd" using book_wf_side [OF wf(1)] x(1) by (simp add: abs_book_def)
    with x adm(2) [OF CancelOrder] cancel_order_abs [OF wf(1) _ _ _ st wf(2), of x now] obtain ob' cmd' where
      "cancel_order now ob cmd pc = Some (ob', cmd', quoted (ob_market_id ob) (spec_cancel (o_order_id x) (abs_book ob)) pc)"
      "book_wf ob'" "ob_market_id ob' = ob_market_id ob" by metis
    then show ?thesis using CancelOrder quoted_dom [OF wf(2)] by simp
  next
    case False
    then have "ob_orders ob (c_order_id cmd) = None"
      using book_ids(4) [OF wf(1), of "c_order_id cmd"] by (metis imageE)
    with update_price_cache_quoted [OF wf] st
    have "cancel_order now ob cmd pc = Some (ob, set_status Rejected cmd, quoted (ob_market_id ob) (abs_book ob) pc)"
      by (simp add: cancel_order_def cancel_in_book_def)
    then show ?thesis using CancelOrder wf quoted_dom [OF wf(2)] by simp
  qed
qed (use wf in auto)

lemma router_step:
  assumes wf: "core_wf cs" and adm: "admissible cs cmd"
    and same: "c_market_id cmd1 = c_market_id cmd" "c_command cmd1 = c_command cmd"
      "c_order_id cmd1 = c_order_id cmd" "c_size cmd1 = c_size cmd" "c_side cmd1 = c_side cmd"
  shows "\<exists>mr' cmd' pc'. router_handler now (cs_routers cs ! market_owner (c_market_id cmd)) cmd1 (cs_prices cs) =
      Some (mr', cmd', pc') \<and> router_wf mr' pc' \<and> dom pc' = dom (cs_prices cs)"
proof -
  let ?o = "market_owner (c_market_id cmd)"
  let ?mr = "cs_routers cs ! ?o"
  have rwf: "router_wf ?mr (cs_prices cs)" using wf by (simp add: core_wf_def)
  show ?thesis
  proof (cases "c_command cmd1 = DepositFunds \<or> c_command cmd1 = WithdrawFunds \<or> c_status cmd1 = Rejected
      \<or> book_of cs (c_market_id cmd) = None")
    case True
    have "market_for_this_handler ?mr (ucast (c_market_id cmd1))"
      using wf same(1) by (simp add: core_wf_def market_handler_iff)
    with True rwf same(1) show ?thesis
      by (auto simp: router_handler_def process_order_def book_of_def)
  next
    case False
    then obtain ob where ob: "book_of cs (c_market_id cmd) = Some ob" by blast
    note b = core_wfD [OF wf ob]
    have here: "market_for_this_handler ?mr (ucast (c_market_id cmd))"
      using wf by (simp add: core_wf_def market_handler_iff)
    have "\<exists>ob' cmd' pc'. (case c_command cmd1 of PlaceOrder \<Rightarrow> place_order now ob cmd1 (cs_prices cs)
        | CancelOrder \<Rightarrow> cancel_order now ob cmd1 (cs_prices cs) | _ \<Rightarrow> Some (ob, cmd1, cs_prices cs)) =
        Some (ob', cmd', pc') \<and> book_wf ob' \<and> ob_market_id ob' = ob_market_id ob \<and> dom pc' = dom (cs_prices cs)"
      using adm ob same False b by (intro order_step_total) (auto simp: admissible_def)
    then obtain ob' cmd' pc' where step: "(case c_command cmd1 of PlaceOrder \<Rightarrow> place_order now ob cmd1 (cs_prices cs)
        | CancelOrder \<Rightarrow> cancel_order now ob cmd1 (cs_prices cs) | _ \<Rightarrow> Some (ob, cmd1, cs_prices cs)) = Some (ob', cmd', pc')"
      "book_wf ob'" "ob_market_id ob' = ob_market_id ob" "dom pc' = dom (cs_prices cs)" by blast
    have "router_handler now ?mr cmd1 (cs_prices cs) =
        Some (?mr\<lparr>mr_order_books := (mr_order_books ?mr)(c_market_id cmd \<mapsto> ob')\<rparr>, cmd', pc')"
      using False here ob step(1) same(1) by (simp add: router_handler_def process_order_def book_of_def)
    moreover have "router_wf (?mr\<lparr>mr_order_books := (mr_order_books ?mr)(c_market_id cmd \<mapsto> ob')\<rparr>) pc'"
      using rwf step(2-4) b(2,3) by (auto simp: router_wf_def)
    ultimately show ?thesis using step(4) by blast
  qed
qed

lemma core_step_ok:
  assumes "core_wf cs" "admissible cs cmd" "shards r1" "shards mt" "shards r2"
  shows "\<exists>cs' cmd'. core_step now (r1, mt, r2) cs cmd = Some (cs', cmd') \<and> core_wf cs'"
proof -
  let ?o = "owner_of (c_user_id cmd)" and ?m = "market_owner (c_market_id cmd)"
  have wf: "engines_wf (cs_engines cs)" "routers_wf (cs_routers cs)"
    using assms(1) by (simp_all add: core_wf_def)
  obtain re cmd1 where p: "pre_process_command (cs_engines cs ! ?o) cmd (cs_prices cs) = (re, cmd1)"
    by (rule prod.exhaust)
  note r1 = r1_stage_owner [OF wf(1) assms(3) p] and f = pre_process_frame [OF p]
  have wf1: "engines_wf ((cs_engines cs)[?o := re])"
    using engines_wf_update [OF wf(1)] f by (simp add: only_user_def)
  have mk: "c_market_id cmd1 = c_market_id cmd" using f by simp
  from router_step [OF assms(1,2), of cmd1 now] f obtain mr' cmd2 pc' where
    h: "router_handler now (cs_routers cs ! ?m) cmd1 (cs_prices cs) = Some (mr', cmd2, pc')"
    and rwf: "router_wf mr' pc'" and dom: "dom pc' = dom (cs_prices cs)" by blast
  note mt = matching_stage_owner [OF wf(2) assms(4) h [folded mk]]
  have "router_wf ((cs_routers cs)[?m := mr'] ! i) pc'" if "i < 4" for i
    using that rwf dom assms(1) by (cases "i = ?m") (auto simp: core_wf_def routers_wf_def router_wf_def)
  then have books: "\<forall>i<4. router_wf ((cs_routers cs)[?m := mr'] ! i) pc'" by blast
  obtain engines' cmd3 where r2: "r2_stage r2 ((cs_engines cs)[?o := re], cmd2) = Some (engines', cmd3)"
    "engines_wf engines'"
    using r2_stage_total [OF wf1] assms(5) by (force simp: shards_def)
  have "core_step now (r1, mt, r2) cs cmd =
      Some (\<lparr>cs_engines = engines', cs_routers = (cs_routers cs)[?m := mr'], cs_prices = pc'\<rparr>, cmd3)"
    using r1 mt(1) r2(1) by (simp add: core_step_def mk)
  moreover have "core_wf \<lparr>cs_engines = engines', cs_routers = (cs_routers cs)[?m := mr'], cs_prices = pc'\<rparr>"
    using r2(2) mt(2) books by (simp add: core_wf_def mk)
  ultimately show ?thesis by blast
qed

end
