(* ===== verification/Backing.thy ===== *)
theory Backing
  imports Order_Book_Props Reservation
begin

text \<open>
  What the resting orders of a book and the trades of a command claim of the locked funds. Everything is
  counted in natural numbers with the exact cost: a resting order claims its reservation, a trade claims
  the reservation of the traded size of its maker, and for the taker what its settlement takes. The
  lemmas say that matching, placing and cancelling only move claims around and never create any. The
  amounts the code computes are at most the exact ones, whatever overflows.
\<close>

section \<open>Amounts\<close>

lemma unat_ucast_le: "unat (ucast x :: 'b::len word) \<le> unat x" for x :: "'a::len word"
  by (simp add: unsigned_ucast_eq take_bit_nat_less_eq_self)

lemma cost_le_exact: "unat (calculate_quote_cost spec p s) \<le> exact_cost spec (unat p) (unat s)"
proof -
  let ?num = "(ucast p :: u128) * ucast s * ucast (ms_quote_native_scale spec)"
  let ?den = "(ucast (ms_base_native_scale spec) :: u128) * ucast (ms_quote_scale_k spec)"
  have den: "unat ?den = cost_denominator spec" by (simp add: cost_denominator_def unat_u64_product)
  have "unat (a * b) \<le> unat a * unat b" for a b :: u128 by (simp add: unat_word_ariths)
  then have "unat ?num \<le> unat ((ucast p :: u128) * ucast s) * unat (ucast (ms_quote_native_scale spec) :: u128)" by blast
  also have "\<dots> = unat p * unat s * unat (ms_quote_native_scale spec)"
    by (simp add: unat_u64_product unsigned_ucast_eq take_bit_nat_eq_self order.strict_trans2 [OF unat_lt_2p])
  finally have "unat (?num div ?den) \<le> exact_cost spec (unat p) (unat s)"
    by (simp add: unat_div den exact_cost_def div_le_mono)
  then show ?thesis
    using unat_ucast_le [of "?num div ?den", where 'b = 64] by (simp add: calculate_quote_cost_def Let_def)
qed

lemma exact_cost_mono_size: "s \<le> t \<Longrightarrow> exact_cost spec p s \<le> exact_cost spec p t"
  using exact_cost_superadditive_size [of spec p s "t - s"] by simp

lemma reserve_mono: "s \<le> t \<Longrightarrow> reserve spec sd p s \<le> reserve spec sd p t"
  using reserve_superadditive [of spec sd p s "t - s"] by simp

text \<open>What settlement takes of the taker and of the maker, whatever the costs overflow to.\<close>

lemma due_le:
  assumes "within_limit sd P e"
  shows "due spec m sd P e \<le> reserve spec sd (unat P) (unat (e_size e))"
proof (cases sd)
  case Bid
  with assms have le: "e_price e \<le> P" by (simp add: within_limit_def)
  then have d: "unat (P - e_price e) = unat P - unat (e_price e)" by (rule unat_sub_no_underflow)
  have "unat (taker_refund spec sd P e) \<le> exact_cost spec (unat P - unat (e_price e)) (unat (e_size e))"
    using cost_le_exact [of spec "P - e_price e" "e_size e"] by (simp add: taker_refund_def d)
  with cost_le_exact [of spec "e_price e" "e_size e"]
    exact_cost_superadditive_price [of spec "unat P - unat (e_price e)" "unat (e_size e)" "unat (e_price e)"]
  show ?thesis using le Bid by (simp add: due_def spends_def reserve_def word_le_nat_alt)
next
  case Ask
  then show ?thesis by (simp add: due_def taker_refund_def spends_def reserve_def)
qed

lemma dues_le:
  assumes "\<forall>e\<in>set es. within_limit sd P e"
  shows "(\<Sum>e\<leftarrow>es. due spec m sd P e) \<le> reserve spec sd (unat P) (traded es)"
  using assms
proof (induction es)
  case (Cons e es)
  then show ?case
    using due_le [of sd P e spec m] reserve_superadditive [of spec sd "unat P" "unat (e_size e)" "traded es"]
    by (simp add: traded_def)
qed simp

lemma spends_le: "unat (snd (spends spec m sd e)) \<le> reserve spec sd (unat (e_price e)) (unat (e_size e))"
  using cost_le_exact [of spec "e_price e" "e_size e"] by (cases sd) (simp_all add: spends_def reserve_def)

section \<open>Claims\<close>

text \<open>Of user \<open>u\<close> on asset \<open>a\<close>: by the orders of one side, by a book, by the trades as their maker.\<close>

definition queue_claim ::
    "core_market_specification \<Rightarrow> u32 \<Rightarrow> u64 \<Rightarrow> u16 \<Rightarrow> side \<Rightarrow> order list \<Rightarrow> nat" where
  "queue_claim spec m u a sd os =
     (\<Sum>x\<leftarrow>os. if o_user_id x = u \<and> paid_asset m sd = a
              then reserve spec sd (unat (o_price x)) (unat (o_size x)) else 0)"

definition book_claim :: "core_market_specification \<Rightarrow> u32 \<Rightarrow> u64 \<Rightarrow> u16 \<Rightarrow> abstract_book \<Rightarrow> nat" where
  "book_claim spec m u a B = queue_claim spec m u a Ask (B Ask) + queue_claim spec m u a Bid (B Bid)"

definition maker_claim ::
    "core_market_specification \<Rightarrow> u32 \<Rightarrow> u64 \<Rightarrow> u16 \<Rightarrow> side \<Rightarrow> trade_event list \<Rightarrow> nat" where
  "maker_claim spec m u a sd es =
     (\<Sum>e\<leftarrow>es. if e_maker_user_id e = u \<and> paid_asset m sd = a
              then reserve spec sd (unat (e_price e)) (unat (e_size e)) else 0)"

lemma queue_claim_simps [simp]:
  "queue_claim spec m u a sd [] = 0"
  "queue_claim spec m u a sd (x # os) =
     (if o_user_id x = u \<and> paid_asset m sd = a then reserve spec sd (unat (o_price x)) (unat (o_size x)) else 0) +
     queue_claim spec m u a sd os"
  "queue_claim spec m u a sd (os @ os') = queue_claim spec m u a sd os + queue_claim spec m u a sd os'"
  by (simp_all add: queue_claim_def)

lemma maker_claim_simps [simp]:
  "maker_claim spec m u a sd [] = 0"
  "maker_claim spec m u a sd (e # es) =
     (if e_maker_user_id e = u \<and> paid_asset m sd = a then reserve spec sd (unat (e_price e)) (unat (e_size e)) else 0) +
     maker_claim spec m u a sd es"
  by (simp_all add: maker_claim_def)

lemma book_claim_sides: "book_claim spec m u a B = queue_claim spec m u a sd (B sd) + queue_claim spec m u a (op_side sd) (B (op_side sd))"
  by (cases sd) (simp_all add: book_claim_def)

lemma filter_claim:
  "queue_claim spec m u a sd (filter P os) + queue_claim spec m u a sd (filter (\<lambda>x. \<not> P x) os) = queue_claim spec m u a sd os"
  by (induction os) auto

section \<open>Matching\<close>

lemma kept_claim:
  "queue_claim spec m u a sd (kept tu r os) + maker_claim spec m u a sd (fills tu r os) \<le> queue_claim spec m u a sd os"
proof (induction os arbitrary: r)
  case (Cons x os)
  show ?case
  proof (cases "r = 0 \<or> o_user_id x = tu")
    case True
    with Cons show ?thesis by auto
  next
    case False
    show ?thesis
    proof (cases "o_size x \<le> r")
      case True
      with False Cons [of "r - o_size x"] show ?thesis by (auto simp: trade_of_def Let_def min_def)
    next
      case less: False
      then have t: "min r (o_size x) = r" by (rule min_unfilled)
      have "unat (o_size x - r) = unat (o_size x) - unat r" "unat r \<le> unat (o_size x)"
        using less by (simp_all add: unat_sub_no_underflow word_le_nat_alt)
      then have "reserve spec sd (unat (o_price x)) (unat (o_size x - r)) + reserve spec sd (unat (o_price x)) (unat r) \<le>
          reserve spec sd (unat (o_price x)) (unat (o_size x))"
        using reserve_superadditive [of spec sd "unat (o_price x)" "unat (o_size x) - unat r" "unat r"] by simp
      with False less show ?thesis by (simp add: t trade_of_def Let_def)
    qed
  qed
qed simp

lemma match_claim:
  "book_claim spec m u a (spec_match cmd B) + maker_claim spec m u a (op_side (c_side cmd)) (spec_fills cmd B) \<le>
     book_claim spec m u a B"
proof -
  let ?o = "op_side (c_side cmd)"
  have other: "spec_match cmd B (c_side cmd) = B (c_side cmd)"
    by (cases "c_side cmd") (simp_all add: spec_match_def)
  have "queue_claim spec m u a ?o (B ?o) = queue_claim spec m u a ?o (reach cmd B) +
      queue_claim spec m u a ?o (dropWhile (\<lambda>x. crosses cmd (o_price x)) (B ?o))"
    unfolding reach_def by (metis queue_claim_simps(3) takeWhile_dropWhile_id)
  with kept_claim [of spec m u a ?o "c_user_id cmd" "c_size cmd" "reach cmd B"] show ?thesis
    unfolding book_claim_sides [where sd = "c_side cmd"] other by (simp add: spec_match_def spec_fills_def)
qed

lemma crosses_limit: "e \<in> set (spec_fills cmd B) \<Longrightarrow> within_limit (c_side cmd) (c_price cmd) e"
  unfolding spec_fills_def using fills_maker [of e "c_user_id cmd" "c_size cmd" "reach cmd B"]
  by (auto simp: within_limit_def reach_def crosses_def trade_of_def dest!: set_takeWhileD)

section \<open>Placing\<close>

text \<open>What a command claims of the funds its user has locked for it: before matching its reservation,
  after matching what settlement takes for its trades and what is released.\<close>

definition taker_claim ::
    "core_market_specification \<Rightarrow> u32 \<Rightarrow> side \<Rightarrow> u64 \<Rightarrow> bool \<Rightarrow> u64 \<Rightarrow> trade_event list \<Rightarrow> nat" where
  "taker_claim spec m sd P released left es =
     (\<Sum>e\<leftarrow>es. due spec m sd P e) + (if released then reserve spec sd (unat P) (unat left) else 0)"

definition released_status :: "time_in_force \<Rightarrow> status \<Rightarrow> bool" where
  "released_status tif st \<longleftrightarrow> st = PartiallyFilled \<and> tif \<in> {Ioc, Fok} \<or> st = Cancelled"

lemma taker_share: "(\<Sum>e\<leftarrow>spec_fills cmd B. due spec m (c_side cmd) (c_price cmd) e) +
    reserve spec (c_side cmd) (unat (c_price cmd)) (unat (spec_left cmd B)) \<le>
    reserve spec (c_side cmd) (unat (c_price cmd)) (unat (c_size cmd))"
proof -
  have "(\<Sum>e\<leftarrow>spec_fills cmd B. due spec m (c_side cmd) (c_price cmd) e) \<le>
      reserve spec (c_side cmd) (unat (c_price cmd)) (traded (spec_fills cmd B))"
    using crosses_limit by (intro dues_le) blast
  moreover have "traded (spec_fills cmd B) + unat (spec_left cmd B) = unat (c_size cmd)"
    by (simp add: spec_fills_def spec_left_def traded_left_over)
  ultimately show ?thesis
    using reserve_superadditive [of spec "c_side cmd" "unat (c_price cmd)" "traded (spec_fills cmd B)" "unat (spec_left cmd B)"]
    by simp
qed

lemma place_claim:
  assumes "spec_place cmd B = (st, left, es, B')"
  shows "book_claim spec m u a B' + maker_claim spec m u a (op_side (c_side cmd)) es +
      (if u = c_user_id cmd \<and> a = paid_asset m (c_side cmd)
       then taker_claim spec m (c_side cmd) (c_price cmd) (released_status (c_time_in_force cmd) st) left es else 0) \<le>
    book_claim spec m u a B +
      (if u = c_user_id cmd \<and> a = paid_asset m (c_side cmd)
       then reserve spec (c_side cmd) (unat (c_price cmd)) (unat (c_size cmd)) else 0)"
proof -
  let ?sd = "c_side cmd" and ?l = "spec_left cmd B" and ?M = "spec_match cmd B"
  define D where "D = (\<Sum>e\<leftarrow>spec_fills cmd B. due spec m ?sd (c_price cmd) e)"
  note match = match_claim [of spec m u a cmd B]
    and share = taker_share [where cmd = cmd and B = B and spec = spec and m = m, folded D_def]
  have taker: "taker_claim spec m ?sd (c_price cmd) b l (spec_fills cmd B) =
      D + (if b then reserve spec ?sd (unat (c_price cmd)) (unat l) else 0)"
    "taker_claim spec m ?sd (c_price cmd) b l [] = (if b then reserve spec ?sd (unat (c_price cmd)) (unat l) else 0)" for b l
    by (simp_all add: taker_claim_def D_def)
  have queue: "queue_claim spec m u a sd (queue_behind x os) = queue_claim spec m u a sd os + queue_claim spec m u a sd [x]" for sd x os
    using filter_claim [of spec m u a sd "\<lambda>y. \<not> priority (o_side x) (o_price x) (o_price y)" os] by (simp add: queue_behind_def)
  have rest: "book_claim spec m u a (?M(?sd := queue_behind (residual cmd ?l) (?M ?sd))) = book_claim spec m u a ?M +
      (if u = c_user_id cmd \<and> a = paid_asset m ?sd then reserve spec ?sd (unat (c_price cmd)) (unat ?l) else 0)"
    unfolding book_claim_sides [where sd = ?sd] using queue [of ?sd]
    by (cases ?sd) (auto simp: residual_def)
  show ?thesis
  proof (cases "c_time_in_force cmd")
    case Gtc
    with assms match share rest show ?thesis
      by (cases "?l = 0")
        (auto simp: spec_place_def Let_def taker released_status_def split: if_splits)
  next
    case Ioc
    with assms match share show ?thesis
      by (cases "?l = 0")
        (auto simp: spec_place_def Let_def taker released_status_def split: if_splits)
  next
    case Fok
    with assms match share show ?thesis
      by (cases "spec_fillable cmd B")
        (auto simp: spec_place_def Let_def taker released_status_def split: if_splits)
  qed
qed

section \<open>Cancelling\<close>

lemma cancel_claim:
  assumes "x \<in> set (B (o_side x))"
  shows "book_claim spec m u a (spec_cancel (o_order_id x) B) +
      (if u = o_user_id x \<and> a = paid_asset m (o_side x) then reserve spec (o_side x) (unat (o_price x)) (unat (o_size x)) else 0) \<le>
    book_claim spec m u a B"
proof -
  let ?sd = "o_side x" and ?i = "o_order_id x"
  have gone: "queue_claim spec m u a sd (without ?i os) \<le> queue_claim spec m u a sd os" for sd os
    using filter_claim [of spec m u a sd "\<lambda>y. o_order_id y \<noteq> ?i" os] by (simp add: without_def)
  have "queue_claim spec m u a ?sd [x] \<le> queue_claim spec m u a ?sd (filter (\<lambda>y. o_order_id y = ?i) (B ?sd))"
  proof -
    have "x \<in> set (filter (\<lambda>y. o_order_id y = ?i) (B ?sd))" using assms by simp
    then obtain ys zs where "filter (\<lambda>y. o_order_id y = ?i) (B ?sd) = ys @ x # zs" by (meson split_list)
    then show ?thesis by simp
  qed
  then have "queue_claim spec m u a ?sd (without ?i (B ?sd)) + queue_claim spec m u a ?sd [x] \<le> queue_claim spec m u a ?sd (B ?sd)"
    using filter_claim [of spec m u a ?sd "\<lambda>y. o_order_id y \<noteq> ?i" "B ?sd"] by (simp add: without_def)
  with gone [of "op_side ?sd" "B (op_side ?sd)"] show ?thesis
    unfolding book_claim_sides [where sd = ?sd] spec_cancel_def by auto
qed

end
