(* ===== verification/Solvency.thy ===== *)
theory Solvency
  imports Backing Pipeline
begin

text \<open>
  How the risk handlers move the locked half of a balance. R1 locks at least what the command claims when
  it is accepted; R2 of a shard takes at most what the command claims of the users of that shard, whatever
  succeeds or fails in it; deposits and withdrawals leave locked funds alone. The claims are those of
  theory \<open>Backing\<close>.
\<close>

definition locked_of :: "risk_engine \<Rightarrow> u64 \<Rightarrow> u16 \<Rightarrow> nat" where
  "locked_of re u a = unat (locked (engine_balance re u a))"

section \<open>Movements\<close>

lemma locked_ops:
  "on_store (unlock_funds v b n) re = (r1, re') \<Longrightarrow>
     locked_of re u a \<le> locked_of re' u a + (if u = v \<and> a = b then unat n else 0)"
  "on_store (subtract_locked_funds v b n) re = (r2, re') \<Longrightarrow>
     locked_of re u a \<le> locked_of re' u a + (if u = v \<and> a = b then unat n else 0)"
  "on_store (add_funds v b n) re = (r3, re') \<Longrightarrow> locked_of re' u a = locked_of re u a"
  "on_store (subtract_funds v b n) re = (r4, re') \<Longrightarrow> locked_of re' u a = locked_of re u a"
  by (auto simp: locked_of_def engine_balance_def store_after unlock.balance_after debit_locked.balance_after
      credit.balance_after debit.balance_after unat_sub_no_underflow)

lemma refund_locked:
  assumes "refund_improvement re v m sd e spec tp = (r, re')"
  shows "locked_of re u a \<le> locked_of re' u a +
    (if u = v \<and> a = paid_asset m sd then unat (refund_of spec v sd e tp) else 0)"
  using assms
  by (auto simp: refund_improvement_def refund_of_def assets_cases split: option.splits if_splits dest: locked_ops(1))

lemma trade_locked:
  assumes "handle_trade_event re v m sd e tp = (re', e')" "re_symbol_specs re m = Some spec"
  shows "locked_of re u a \<le> locked_of re' u a +
    (if u = v \<and> a = paid_asset m sd then unat (refund_of spec v sd e tp) + unat (snd (spends spec m sd e)) else 0)"
proof -
  obtain r where run: "settle_trade re v m sd e spec tp = (r, re', e')"
    using assms by (auto simp: handle_trade_event_def split: prod.splits)
  obtain r1 re1 where ref: "refund_improvement re v m sd e spec tp = (r1, re1)" by (rule prod.exhaust)
  note one = refund_locked [OF ref, of u a]
  show ?thesis
  proof (cases r1)
    case (Inl x)
    with run ref one show ?thesis by (auto simp: settle_trade_def Let_def)
  next
    case (Inr x)
    obtain r2 re2 where sub: "on_store (subtract_locked_funds v (paid_asset m sd) (snd (spends spec m sd e))) re1 = (r2, re2)"
      by (rule prod.exhaust)
    note two = locked_ops(2) [OF sub, of u a]
    show ?thesis
    proof (cases r2)
      case (Inl y)
      with run ref Inr sub one two show ?thesis
        by (auto simp: settle_trade_def Let_def trade_amounts_eq split: if_splits)
    next
      case r2: (Inr y)
      obtain b n r3 re3 where add: "on_store (add_funds v b n) re2 = (r3, re3)" "re' = re3"
        using run ref Inr sub r2
        by (cases "on_store (add_funds v (fst (receives spec m sd (v = e_maker_user_id e) e))
            (snd (receives spec m sd (v = e_maker_user_id e) e))) re2")
          (auto simp: settle_trade_def Let_def trade_amounts_eq split: sum.splits)
      with locked_ops(3) [OF add(1), of u a] one two show ?thesis by (auto split: if_splits)
    qed
  qed
qed

lemma trade_no_spec: "re_symbol_specs re m = None \<Longrightarrow> handle_trade_event re v m sd e tp = (re, e)"
  by (simp add: handle_trade_event_def)

lemma release_locked:
  assumes "re_symbol_specs re (c_market_id cmd) = Some spec"
  shows "locked_of re u a \<le> locked_of (handle_cancellation re cmd) u a +
    (if u = c_user_id cmd \<and> a = paid_asset (c_market_id cmd) (c_side cmd)
     then reserve spec (c_side cmd) (unat (c_price cmd)) (unat (c_size cmd)) else 0)"
proof (cases "c_side cmd")
  case Bid
  obtain r re' where run: "on_store (unlock_funds (c_user_id cmd) (quote_asset (c_market_id cmd))
      (calculate_quote_cost spec (c_price cmd) (c_size cmd))) re = (r, re')" by (rule prod.exhaust)
  with locked_ops(1) [OF run, of u a] cost_le_exact [of spec "c_price cmd" "c_size cmd"] assms Bid show ?thesis
    by (auto simp: handle_cancellation_def release_funds_for_order_def assets_cases reserve_def)
next
  case Ask
  obtain r re' where run: "on_store (unlock_funds (c_user_id cmd) (base_asset (c_market_id cmd)) (c_size cmd)) re = (r, re')"
    by (rule prod.exhaust)
  with locked_ops(1) [OF run, of u a] assms Ask show ?thesis
    by (auto simp: handle_cancellation_def release_funds_for_order_def assets_cases reserve_def)
qed

section \<open>The trades of a command\<close>

definition trades_claim ::
    "core_market_specification \<Rightarrow> u32 \<Rightarrow> u64 \<Rightarrow> u16 \<Rightarrow> u64 \<Rightarrow> side \<Rightarrow> u64 \<Rightarrow> trade_event list \<Rightarrow> nat" where
  "trades_claim spec m u a tk sd P es = maker_claim spec m u a (op_side sd) es +
     (if u = tk \<and> a = paid_asset m sd then \<Sum>e\<leftarrow>es. due spec m sd P e else 0)"

lemma trades_claim_Nil [simp]: "trades_claim spec m u a tk sd P [] = 0"
  by (simp add: trades_claim_def)

lemma trades_claim_Cons:
  "trades_claim spec m u a tk sd P (e # es) = trades_claim spec m u a tk sd P [e] + trades_claim spec m u a tk sd P es"
  by (simp add: trades_claim_def)

definition same_amounts :: "trade_event \<Rightarrow> trade_event \<Rightarrow> bool" where
  "same_amounts e e' \<longleftrightarrow> e_price e' = e_price e \<and> e_size e' = e_size e \<and> e_maker_user_id e' = e_maker_user_id e"

lemma same_amounts_claim:
  "list_all2 same_amounts es es' \<Longrightarrow> trades_claim spec m u a tk sd P es' = trades_claim spec m u a tk sd P es"
proof (induction rule: list_all2_induct)
  case (Cons e es e' es')
  then have "trades_claim spec m u a tk sd P [e'] = trades_claim spec m u a tk sd P [e]"
    using event_amounts_cong(1) [of e' e] by (simp add: same_amounts_def trades_claim_def)
  with Cons show ?case
    using trades_claim_Cons [of spec m u a tk sd P e es] trades_claim_Cons [of spec m u a tk sd P e' es'] by simp
qed simp

lemma handled_amounts:
  "(if own then handle_trade_event re v m sd e tp else (re, e)) = (re', e') \<Longrightarrow> same_amounts e e' \<and> same_shard re re'"
  using handle_trade_event_event [of re v m sd e tp re' e'] only_user_handle [of re v m sd e tp re' e']
  by (auto simp: same_amounts_def only_user_def split: if_splits)

lemma settle_event_amounts:
  assumes "settle_event i msk tk m sd P re e = (re', e')"
  shows "same_amounts e e' \<and> same_shard re re'"
proof -
  obtain re1 e1 where one: "(if owned_by_shard i msk (e_maker_user_id e)
      then handle_trade_event re (e_maker_user_id e) m (op_side sd) e None else (re, e)) = (re1, e1)" by (rule prod.exhaust)
  have two: "(if owned_by_shard i msk tk then handle_trade_event re1 tk m sd e1 (Some P) else (re1, e1)) = (re', e')"
    using assms one by (simp add: settle_event_def Let_def split: prod.splits)
  show ?thesis using handled_amounts [OF one] handled_amounts [OF two]
    by (auto simp: same_amounts_def intro: same_shard_trans)
qed

lemma settle_event_locked:
  assumes "settle_event i msk tk m sd P re e = (re', e')" "re_symbol_specs re m = Some spec"
  shows "locked_of re u a \<le> locked_of re' u a + trades_claim spec m u a tk sd P [e]"
proof -
  obtain re1 e1 where one: "(if owned_by_shard i msk (e_maker_user_id e)
      then handle_trade_event re (e_maker_user_id e) m (op_side sd) e None else (re, e)) = (re1, e1)" by (rule prod.exhaust)
  have mk: "locked_of re u a \<le> locked_of re1 u a + maker_claim spec m u a (op_side sd) [e] \<and>
      same_amounts e e1 \<and> re_symbol_specs re1 m = Some spec"
  proof (cases "owned_by_shard i msk (e_maker_user_id e)")
    case True
    with one have run: "handle_trade_event re (e_maker_user_id e) m (op_side sd) e None = (re1, e1)" by simp
    show ?thesis
      using trade_locked [OF run assms(2), of u a] spends_le [of spec m "op_side sd" e] only_user_handle [OF run]
        handle_trade_event_event [OF run] assms(2)
      by (auto simp: refund_of_def same_amounts_def only_user_def same_shard_def split: if_splits)
  qed (use one assms(2) in \<open>auto simp: same_amounts_def\<close>)
  have two: "(if owned_by_shard i msk tk then handle_trade_event re1 tk m sd e1 (Some P) else (re1, e1)) = (re', e')"
    using assms(1) one by (simp add: settle_event_def Let_def split: prod.splits)
  have "locked_of re1 u a \<le> locked_of re' u a + (if u = tk \<and> a = paid_asset m sd then due spec m sd P e else 0)"
  proof (cases "owned_by_shard i msk tk")
    case True
    with two have run: "handle_trade_event re1 tk m sd e1 (Some P) = (re', e')" by simp
    have "unat (refund_of spec tk sd e1 (Some P)) + unat (snd (spends spec m sd e1)) \<le> due spec m sd P e"
      using mk event_amounts_cong(1) [of e1 e spec m sd P]
      by (auto simp: refund_of_def due_def taker_refund_def same_amounts_def)
    with trade_locked [OF run, of spec u a] mk show ?thesis by (auto split: if_splits)
  qed (use two in auto)
  with mk show ?thesis by (auto simp: trades_claim_def split: if_splits)
qed

lemma settle_chain_locked:
  "settle_chain i msk tk m sd P re c = (re', c') \<Longrightarrow> re_symbol_specs re m = Some spec \<Longrightarrow>
     locked_of re u a \<le> locked_of re' u a + trades_claim spec m u a tk sd P (chain_list c) \<and>
     list_all2 same_amounts (chain_list c) (chain_list c') \<and> same_shard re re'"
proof (induction c arbitrary: re re' c' rule: chain_list.induct)
  case (1 e)
  then obtain e' where run: "settle_event i msk tk m sd P re e = (re', e')" "c' = Event e' None"
    by (auto split: prod.splits)
  show ?case using settle_event_locked [OF run(1) 1(2), of u a] settle_event_amounts [OF run(1)] run(2) by simp
next
  case (2 e rest)
  obtain re1 e1 where run: "settle_event i msk tk m sd P re e = (re1, e1)" by (rule prod.exhaust)
  with 2(2) obtain c1 where next': "settle_chain i msk tk m sd P re1 rest = (re', c1)" "c' = Event e1 (Some c1)"
    by (auto split: prod.splits)
  have s: "same_amounts e e1" "same_shard re re1" using settle_event_amounts [OF run] by simp_all
  then have "re_symbol_specs re1 m = Some spec" using 2(3) by (simp add: same_shard_def)
  from 2(1) [OF next'(1) this] settle_event_locked [OF run 2(3), of u a] s next'(2)
    trades_claim_Cons [of spec m u a tk sd P e "chain_list rest"] show ?case
    by (auto intro: same_shard_trans)
qed

lemma settle_chain_no_spec:
  "re_symbol_specs re m = None \<Longrightarrow> settle_chain i msk tk m sd P re c = (re, c)"
  by (induction c rule: chain_list.induct) (simp_all add: settle_event_def trade_no_spec Let_def)

section \<open>R2\<close>

text \<open>What a matched command claims of the locked funds of a user.\<close>

definition settled_claim :: "(u32 \<rightharpoonup> core_market_specification) \<Rightarrow> u64 \<Rightarrow> u16 \<Rightarrow> order_command \<Rightarrow> nat" where
  "settled_claim specs u a cmd =
     (case specs (c_market_id cmd) of
        None \<Rightarrow> 0
      | Some spec \<Rightarrow>
          if c_status cmd = Rejected \<or> c_status cmd = Processed then 0
          else trades_claim spec (c_market_id cmd) u a (c_user_id cmd) (c_side cmd) (c_price cmd)
                 (events_list (c_events cmd)) +
               (if u = c_user_id cmd \<and> a = paid_asset (c_market_id cmd) (c_side cmd) \<and> should_handle_cancellation cmd
                then reserve spec (c_side cmd) (unat (c_price cmd)) (unat (c_size cmd)) else 0))"

lemma settled_claim_cong:
  assumes "c_market_id c' = c_market_id c \<and> c_status c' = c_status c \<and> c_user_id c' = c_user_id c \<and>
      c_side c' = c_side c \<and> c_price c' = c_price c \<and> c_size c' = c_size c \<and>
      c_time_in_force c' = c_time_in_force c \<and> c_command c' = c_command c"
    and "list_all2 same_amounts (events_list (c_events c)) (events_list (c_events c'))"
  shows "settled_claim specs u a c' = settled_claim specs u a c"
proof (cases "specs (c_market_id c)")
  case None
  with assms(1) show ?thesis by (simp add: settled_claim_def)
next
  case (Some spec)
  have "should_handle_cancellation c' = should_handle_cancellation c"
    using assms(1) by (simp add: should_handle_cancellation_def)
  with Some assms(1) same_amounts_claim [OF assms(2)] show ?thesis by (simp add: settled_claim_def)
qed

lemma settle_events_locked:
  assumes "settle_events i msk re cmd = (re', es)"
  shows "same_shard re re' \<and> list_all2 same_amounts (events_list (c_events cmd)) (events_list es) \<and>
    (case re_symbol_specs re (c_market_id cmd) of
       None \<Rightarrow> re' = re
     | Some spec \<Rightarrow> locked_of re u a \<le> locked_of re' u a + trades_claim spec (c_market_id cmd) u a (c_user_id cmd)
         (c_side cmd) (c_price cmd) (events_list (c_events cmd)))"
proof (cases "c_events cmd")
  case None
  with assms show ?thesis by (auto simp: settle_events_def split: option.split)
next
  case (Some c)
  obtain c' where run: "settle_chain i msk (c_user_id cmd) (c_market_id cmd) (c_side cmd) (c_price cmd) re c = (re', c')"
    "es = Some c'"
    using assms Some by (auto simp: settle_events_def apsnd_def map_prod_def split: prod.splits)
  show ?thesis
  proof (cases "re_symbol_specs re (c_market_id cmd)")
    case (Some spec)
    with settle_chain_locked [OF run(1) Some, of u a] run(2) \<open>c_events cmd = Some c\<close> show ?thesis by simp
  next
    case None
    have "list_all2 same_amounts xs xs" for xs by (rule list_all2_refl) (simp add: same_amounts_def)
    with None settle_chain_no_spec [OF None] run \<open>c_events cmd = Some c\<close> show ?thesis by auto
  qed
qed

lemma r2_settle_locked:
  assumes "r2_settle i msk re cmd = (re', cmd')" "re_symbol_specs re = specs"
    and "c_status cmd \<noteq> Rejected" "c_status cmd \<noteq> Processed"
  shows "same_shard re re' \<and> locked_of re u a \<le> locked_of re' u a + settled_claim specs u a cmd \<and>
    settled_claim specs v b cmd' = settled_claim specs v b cmd \<and> c_status cmd' = c_status cmd \<and>
    c_user_id cmd' = c_user_id cmd \<and> c_market_id cmd' = c_market_id cmd"
proof -
  obtain re1 es where st: "settle_events i msk re cmd = (re1, es)" by (rule prod.exhaust)
  note law = settle_events_locked [OF st]
  have shard: "same_shard re re1" using law by blast
  then have spec1: "re_symbol_specs re1 = specs" using assms(2) by (simp add: same_shard_def)
  define re2 where "re2 = (if owned_by_shard i msk (c_user_id cmd) then taker_engine re1 cmd else re1)"
  have out: "re' = re2" "\<exists>bs. cmd' = (cmd\<lparr>c_events := es\<rparr>)\<lparr>c_balance := bs\<rparr> \<or> cmd' = cmd\<lparr>c_events := es\<rparr>"
    using assms(1) r2_settle_parts [OF st] by (auto simp: re2_def split: if_splits)
  have amounts: "list_all2 same_amounts (events_list (c_events cmd)) (events_list es)" using law by blast
  obtain bs where cmd': "cmd' = (cmd\<lparr>c_events := es\<rparr>)\<lparr>c_balance := bs\<rparr> \<or> cmd' = cmd\<lparr>c_events := es\<rparr>"
    using out(2) by blast
  have claim: "settled_claim specs v b cmd' = settled_claim specs v b cmd"
    using cmd' by (intro settled_claim_cong) (auto simp: amounts)
  have "same_shard re1 re2"
    using only_user_cancellation [of cmd re1] by (auto simp: re2_def taker_engine_def only_user_def)
  moreover have "locked_of re u a \<le> locked_of re2 u a + settled_claim specs u a cmd"
  proof (cases "specs (c_market_id cmd)")
    case None
    then have "re1 = re" using law assms(2) by simp
    moreover have "locked_of (handle_cancellation re cmd) u a = locked_of re u a"
      using None assms(2) by (simp add: handle_cancellation_def release_funds_for_order_def)
    ultimately show ?thesis by (simp add: re2_def taker_engine_def)
  next
    case (Some spec)
    have "locked_of re1 u a \<le> locked_of re2 u a +
        (if u = c_user_id cmd \<and> a = paid_asset (c_market_id cmd) (c_side cmd) \<and> should_handle_cancellation cmd
         then reserve spec (c_side cmd) (unat (c_price cmd)) (unat (c_size cmd)) else 0)"
      using release_locked [of re1 cmd spec u a] Some spec1 by (auto simp: re2_def taker_engine_def split: if_splits)
    with law [of u a] Some assms(2-4) show ?thesis by (simp add: settled_claim_def)
  qed
  ultimately show ?thesis using claim out shard by (auto intro: same_shard_trans)
qed

section \<open>R1\<close>

text \<open>What an accepted order claims before it is matched, and when R1 locks exactly that: the cost fits
  the arithmetic and the user's total does not wrap.\<close>

definition reserved_claim :: "(u32 \<rightharpoonup> core_market_specification) \<Rightarrow> u64 \<Rightarrow> u16 \<Rightarrow> order_command \<Rightarrow> nat" where
  "reserved_claim specs u a cmd =
     (case specs (c_market_id cmd) of
        None \<Rightarrow> 0
      | Some spec \<Rightarrow>
          if c_command cmd = PlaceOrder \<and> c_status cmd \<noteq> Rejected \<and> u = c_user_id cmd \<and>
            a = paid_asset (c_market_id cmd) (c_side cmd)
          then reserve spec (c_side cmd) (unat (c_price cmd)) (unat (c_size cmd)) else 0)"

definition reservation_fits :: "risk_engine \<Rightarrow> order_command \<Rightarrow> order_command \<Rightarrow> bool" where
  "reservation_fits re cmd cmd' \<longleftrightarrow>
     solvent (engine_balance re (c_user_id cmd) (paid_asset (c_market_id cmd) (c_side cmd))) \<and>
     (case re_symbol_specs re (c_market_id cmd) of
        None \<Rightarrow> True
      | Some spec \<Rightarrow> trade_fits spec (c_side cmd) (c_price cmd') (unat (c_size cmd)))"

lemma reservation_amount:
  assumes "reservation_of re cmd pc = Some (a, n, p)" "re_symbol_specs re (c_market_id cmd) = Some spec"
    and "trade_fits spec (c_side cmd) p (unat (c_size cmd))"
  shows "a = paid_asset (c_market_id cmd) (c_side cmd) \<and>
    unat n = reserve spec (c_side cmd) (unat p) (unat (c_size cmd))"
  using assms
  by (cases "c_side cmd")
    (auto simp: reservation_of_def trade_fits_def reserve_def assets_cases Let_def calculate_quote_cost_exact split: if_splits)

lemma pre_process_locked:
  assumes "pre_process_command re cmd pc = (re', cmd')" "user_id_for_this_handler re (c_user_id cmd)"
    and "reservation_fits re cmd cmd'"
  shows "locked_of re u a + reserved_claim (re_symbol_specs re) u a cmd' \<le> locked_of re' u a"
proof (cases "c_command cmd = PlaceOrder")
  case True
  note f = pre_process_frame [OF assms(1)]
  note cases' = place_cases [OF assms(2) True, of pc]
  show ?thesis
  proof (cases "\<exists>a n p. reservation_of re cmd pc = Some (a, n, p) \<and> n \<le> available (engine_balance re (c_user_id cmd) a)")
    case False
    then have "c_status cmd' = Rejected" "\<And>u c. engine_balance re' u c = engine_balance re u c"
      using cases' assms(1) by (auto split: option.splits)
    then show ?thesis by (simp add: locked_of_def reserved_claim_def split: option.split)
  next
    case Tr: True
    then obtain b n p where r: "reservation_of re cmd pc = Some (b, n, p)" "n \<le> available (engine_balance re (c_user_id cmd) b)"
      by blast
    then obtain spec where spec: "re_symbol_specs re (c_market_id cmd) = Some spec"
      by (auto simp: reservation_of_def split: option.splits)
    have out: "cmd' = cmd\<lparr>c_price := p\<rparr>" "locked (engine_balance re' (c_user_id cmd) b) = locked (engine_balance re (c_user_id cmd) b) + n"
      "\<forall>c. c \<noteq> b \<longrightarrow> engine_balance re' (c_user_id cmd) c = engine_balance re (c_user_id cmd) c" "only_user (c_user_id cmd) re re'"
      using cases' r assms(1) by auto
    have b: "b = paid_asset (c_market_id cmd) (c_side cmd)" "unat n = reserve spec (c_side cmd) (unat p) (unat (c_size cmd))"
      using reservation_amount [OF r(1) spec] assms(3) spec out(1) by (simp_all add: reservation_fits_def)
    have "unat (locked (engine_balance re (c_user_id cmd) b) + n) = unat (locked (engine_balance re (c_user_id cmd) b)) + unat n"
      using assms(3) r(2) b(1) by (intro unat_add_no_overflow) (auto simp: reservation_fits_def solvent_def word_le_nat_alt)
    with out b spec show ?thesis
      by (cases "u = c_user_id cmd"; cases "a = b") (auto simp: locked_of_def reserved_claim_def only_user_def)
  qed
next
  case False
  have "locked_of re' u a = locked_of re u a"
    using assms(1) False
    by (auto simp: pre_process_command_def handle_deposit_def handle_withdrawal_def
        split: if_splits order_command_type.splits prod.splits sum.splits dest!: locked_ops(3,4) [where u = u and a = a])
  moreover have "c_command cmd' \<noteq> PlaceOrder" using pre_process_frame [OF assms(1)] False by simp
  ultimately show ?thesis by (simp add: reserved_claim_def split: option.split)
qed

end
