(* ===== verification/Command_Core.thy ===== *)
theory Command_Core
  imports Pipeline
begin

text \<open>
  What the transaction reads of a command: neither the gateway it came from nor the market data attached
  to it influence the balances, the books or the prices, and the order id and the time stamp do not
  influence R1. Each function of the three stages commutes with forgetting these fields. These lemmas
  carry the proofs about the archive, which does not keep the gateway.
\<close>

named_theorems core_simps

definition core_part :: "order_command \<Rightarrow> order_command" where
  "core_part cmd = cmd\<lparr>c_l2_data := None, c_route_gateway_id := 0\<rparr>"

lemma core_part_fields [simp]:
  "c_command (core_part cmd) = c_command cmd" "c_client_order_id (core_part cmd) = c_client_order_id cmd"
  "c_order_id (core_part cmd) = c_order_id cmd" "c_user_id (core_part cmd) = c_user_id cmd"
  "c_market_id (core_part cmd) = c_market_id cmd" "c_price (core_part cmd) = c_price cmd"
  "c_size (core_part cmd) = c_size cmd" "c_side (core_part cmd) = c_side cmd"
  "c_time_in_force (core_part cmd) = c_time_in_force cmd" "c_timestamp (core_part cmd) = c_timestamp cmd"
  "c_status (core_part cmd) = c_status cmd" "c_events (core_part cmd) = c_events cmd"
  "c_balance (core_part cmd) = c_balance cmd" "c_original_size (core_part cmd) = c_original_size cmd"
  by (simp_all add: core_part_def)

lemma core_part_updates [core_simps]:
  "core_part (cmd\<lparr>c_price := p\<rparr>) = core_part cmd\<lparr>c_price := p\<rparr>"
  "core_part (cmd\<lparr>c_status := st\<rparr>) = core_part cmd\<lparr>c_status := st\<rparr>"
  "core_part (cmd\<lparr>c_size := n\<rparr>) = core_part cmd\<lparr>c_size := n\<rparr>"
  "core_part (cmd\<lparr>c_side := sd\<rparr>) = core_part cmd\<lparr>c_side := sd\<rparr>"
  "core_part (cmd\<lparr>c_user_id := u\<rparr>) = core_part cmd\<lparr>c_user_id := u\<rparr>"
  "core_part (cmd\<lparr>c_events := es\<rparr>) = core_part cmd\<lparr>c_events := es\<rparr>"
  "core_part (cmd\<lparr>c_balance := b\<rparr>) = core_part cmd\<lparr>c_balance := b\<rparr>"
  "core_part (cmd\<lparr>c_original_size := n\<rparr>) = core_part cmd\<lparr>c_original_size := n\<rparr>"
  "core_part (cmd\<lparr>c_order_id := i\<rparr>) = core_part cmd\<lparr>c_order_id := i\<rparr>"
  "core_part (cmd\<lparr>c_timestamp := t\<rparr>) = core_part cmd\<lparr>c_timestamp := t\<rparr>"
  "core_part (cmd\<lparr>c_l2_data := l\<rparr>) = core_part cmd"
  "core_part (cmd\<lparr>c_route_gateway_id := g\<rparr>) = core_part cmd"
  "core_part (core_part cmd) = core_part cmd"
  by (simp_all add: core_part_def)

lemma core_part_setters [core_simps]:
  "core_part (set_size n cmd) = set_size n (core_part cmd)"
  "core_part (set_price p cmd) = set_price p (core_part cmd)"
  "core_part (set_user_id u cmd) = set_user_id u (core_part cmd)"
  "core_part (set_side sd cmd) = set_side sd (core_part cmd)"
  "core_part (set_status st cmd) = set_status st (core_part cmd)"
  "core_part (attach_event ev cmd) = attach_event ev (core_part cmd)"
  "core_part (record_balance0 b cmd) = record_balance0 b (core_part cmd)"
  "core_part (record_snapshot now ob cmd) = core_part cmd"
  by (simp_all add: setter_defs attach_event_def record_balance0_def record_snapshot_def Let_def core_simps
      split: option.split)

section \<open>R1\<close>

lemma bid_amount_core: "bid_amount re (core_part cmd) pc = apsnd core_part (bid_amount re cmd pc)"
  by (simp add: bid_amount_def Let_def core_simps split: option.split)

lemma reserve_core:
  "reserve_funds_for_order re (core_part cmd) pc = apsnd (apsnd core_part) (reserve_funds_for_order re cmd pc)"
  by (simp add: reserve_funds_for_order_def bid_amount_core split: side.split prod.split sum.split)

lemma transfers_core:
  "handle_deposit re (core_part cmd) = handle_deposit re cmd"
  "handle_withdrawal re (core_part cmd) = handle_withdrawal re cmd"
  by (simp_all add: handle_deposit_def handle_withdrawal_def)

lemma pre_process_core:
  "pre_process_command re (core_part cmd) pc = apsnd core_part (pre_process_command re cmd pc)"
  by (cases "c_command cmd")
    (auto simp: pre_process_command_def reserve_core transfers_core core_simps split: prod.splits sum.splits)

section \<open>Matching\<close>

definition core_state_of :: "match_state \<Rightarrow> match_state" where
  "core_state_of st = st\<lparr>m_cmd := core_part (m_cmd st)\<rparr>"

lemma match_orders_core:
  "match_orders price idx os vol (core_state_of st) =
     (case match_orders price idx os vol st of (os', rem, vol', st') \<Rightarrow> (os', rem, vol', core_state_of st'))"
proof (induction os arbitrary: idx vol st)
  case (Cons maker rest)
  have IH: "match_orders price (Suc idx) rest v \<lparr>m_remaining = r, m_cmd = core_part c, m_orders = ids\<rparr> =
      (case match_orders price (Suc idx) rest v \<lparr>m_remaining = r, m_cmd = c, m_orders = ids\<rparr> of
         (os', rem, vol', st') \<Rightarrow> (os', rem, vol', st'\<lparr>m_cmd := core_part (m_cmd st')\<rparr>))" for v r c ids
    using Cons.IH [of "Suc idx" v "\<lparr>m_remaining = r, m_cmd = c, m_orders = ids\<rparr>"] by (simp add: core_state_of_def)
  show ?case
    using Cons.IH [of "Suc idx" vol st]
    by (simp add: Let_def core_state_of_def core_part_setters(6) [symmetric] IH split: prod.split)
qed (simp add: core_state_of_def)

lemma match_level_core:
  "match_level price l (core_state_of st) = map_option (apsnd core_state_of) (match_level price l st)"
  by (simp add: match_level_def match_orders_core split: prod.split option.split)

lemma match_levels_core:
  "match_levels check ls (core_state_of st) =
     map_option (\<lambda>(t, filled, st'). (t, filled, core_state_of st')) (match_levels check ls st)"
proof (induction check ls st rule: match_levels.induct)
  case (2 check price l rest st)
  have [simp]: "m_remaining (core_state_of st) = m_remaining st" for st by (simp add: core_state_of_def)
  show ?case
  proof (cases "\<not> check price \<or> m_remaining st = 0")
    case False
    with 2 show ?thesis
      by (cases "match_level price l st") (auto simp: match_level_core split: option.split)
  qed auto
qed simp

lemma match_order_core:
  "match_order ob (core_part cmd) = map_option (\<lambda>(r, ob', cmd'). (r, ob', core_part cmd')) (match_order ob cmd)"
proof -
  have st: "\<lparr>m_remaining = c_size cmd, m_cmd = core_part cmd, m_orders = ob_orders ob\<rparr> =
      core_state_of \<lparr>m_remaining = c_size cmd, m_cmd = cmd, m_orders = ob_orders ob\<rparr>"
    by (simp add: core_state_of_def)
  show ?thesis
    by (simp add: match_order_def Let_def st match_levels_core) (auto simp: core_state_of_def split: option.split)
qed

lemma add_to_book_core: "add_to_book (core_part cmd) n ob = add_to_book cmd n ob"
  by (cases "c_side cmd") (simp_all add: add_to_book_def Let_def)

lemma can_fill_core: "can_fill_completely ob (core_part cmd) = can_fill_completely ob cmd"
  by (cases "c_side cmd") (simp_all add: can_fill_completely_def is_market_order_def)

lemma place_by_tif_core:
  "place_by_tif ob (core_part cmd) = map_option (apsnd core_part) (place_by_tif ob cmd)"
  by (cases "c_time_in_force cmd")
    (auto simp: place_by_tif_def place_gtc_def place_fok_def place_ioc_def match_order_core add_to_book_core
      can_fill_core core_simps split: option.split)

text \<open>From the snapshot on the market data differ, also by the clock.\<close>

lemma place_order_core:
  "map_option (apsnd (apfst core_part)) (place_order now ob cmd pc) =
     map_option (apsnd (apfst core_part)) (place_order now' ob (core_part cmd) pc)"
  by (auto simp: place_order_def place_by_tif_core Let_def core_simps split: option.split)

lemma remove_order_core: "remove_order i l (core_part cmd) = apsnd core_part (remove_order i l cmd)"
  by (simp add: remove_order_def core_simps split: option.split)

lemma cancel_in_book_core:
  "apsnd core_part (cancel_in_book now ob cmd) = apsnd core_part (cancel_in_book now' ob (core_part cmd))"
  by (auto simp: cancel_in_book_def Let_def remove_order_core core_simps split: option.split prod.split)

lemma cancel_order_core:
  "map_option (apsnd (apfst core_part)) (cancel_order now ob cmd pc) =
     map_option (apsnd (apfst core_part)) (cancel_order now' ob (core_part cmd) pc)"
  using cancel_in_book_core [of now ob cmd now']
  by (cases "cancel_in_book now ob cmd"; cases "cancel_in_book now' ob (core_part cmd)")
    (auto simp: cancel_order_def core_simps split: option.split)

lemma router_handler_core:
  "map_option (apsnd (apfst core_part)) (router_handler now mr cmd pc) =
     map_option (apsnd (apfst core_part)) (router_handler now' mr (core_part cmd) pc)"
proof -
  have wrap: "map_option (apsnd (apfst core_part)) (map_option (\<lambda>(ob, y). (f ob, y)) x) =
      map_option (apfst f) (map_option (apsnd (apfst core_part)) x)" for f and x :: "(order_book \<times> order_command \<times> price_cache) option"
    by (cases x) auto
  show ?thesis
    using place_order_core [of now _ cmd pc now'] cancel_order_core [of now _ cmd pc now']
    by (cases "c_command cmd")
      (auto simp: router_handler_def process_order_def wrap core_simps simp del: option.map_comp split: option.split)
qed

section \<open>R2\<close>

lemma cancellation_core:
  "should_handle_cancellation (core_part cmd) = should_handle_cancellation cmd"
  "handle_cancellation re (core_part cmd) = handle_cancellation re cmd"
  by (simp_all add: should_handle_cancellation_def handle_cancellation_def)

lemma r2_settle_core: "r2_settle shard msk re (core_part cmd) = apsnd core_part (r2_settle shard msk re cmd)"
proof -
  obtain re1 es where ev: "settle_events shard msk re cmd = (re1, es)" by (rule prod.exhaust)
  then have ev': "settle_events shard msk re (core_part cmd) = (re1, es)"
    by (cases "c_events cmd") (simp_all add: settle_events_def)
  have "taker_engine re1 (core_part cmd) = taker_engine re1 cmd"
    by (simp add: taker_engine_def cancellation_core)
  then show ?thesis by (simp add: r2_settle_parts [OF ev] r2_settle_parts [OF ev'] core_simps)
qed

lemma r2_handler_core: "r2_handler i engines (core_part cmd) = map_option (apsnd core_part) (r2_handler i engines cmd)"
  by (simp add: r2_handler_def r2_settle_core case_prod_unfold)

section \<open>The stages\<close>

lemma r1_stage_append:
  "r1_stage (xs @ ys) pc s = Option.bind (r1_stage xs pc s) (r1_stage ys pc)"
  by (cases "r1_stage xs pc s") (simp_all add: r1_stage_def fold_None)

lemma r2_stage_core:
  "r2_stage is (engines, core_part cmd) = map_option (apsnd core_part) (r2_stage is (engines, cmd))"
proof (induction "is" arbitrary: engines cmd)
  case (Cons i "is")
  then show ?case
    by (cases "r2_handler i engines cmd") (auto simp: r2_stage_def r2_handler_core fold_None)
qed (simp add: r2_stage_def)

text \<open>What follows R1.\<close>

definition after_r1 ::
    "u64 \<Rightarrow> nat list \<Rightarrow> nat list \<Rightarrow> core_state \<Rightarrow> risk_engine list \<times> order_command \<Rightarrow>
     (core_state \<times> order_command) option" where
  "after_r1 now matching_order r2_order cs = (\<lambda>(engines, cmd).
     Option.bind (matching_stage now matching_order (cs_routers cs, cmd, cs_prices cs)) (\<lambda>(routers, cmd, pc).
     map_option (\<lambda>(engines, cmd). (\<lparr>cs_engines = engines, cs_routers = routers, cs_prices = pc\<rparr>, cmd))
       (r2_stage r2_order (engines, cmd))))"

lemma core_step_parts:
  "core_step now (r1, mt, r2) cs cmd = Option.bind (r1_stage r1 (cs_prices cs) (cs_engines cs, cmd)) (after_r1 now mt r2 cs)"
  by (auto simp: core_step_def after_r1_def split: option.split)

lemma after_r1_core:
  assumes "routers_wf (cs_routers cs)" "shards mt" "shards r2" "shards mt'" "shards r2'"
    and "core_part cmd' = core_part cmd"
  shows "map_option fst (after_r1 now mt r2 cs (engines, cmd)) = map_option fst (after_r1 now' mt' r2' cs (engines, cmd'))"
proof -
  let ?o = "market_owner (c_market_id cmd)"
  have same: "c_market_id cmd' = c_market_id cmd" using assms(6) by (metis core_part_fields(5))
  have h: "map_option (apsnd (apfst core_part)) (router_handler now (cs_routers cs ! ?o) cmd (cs_prices cs)) =
      map_option (apsnd (apfst core_part)) (router_handler now' (cs_routers cs ! ?o) cmd' (cs_prices cs))"
    using router_handler_core [of now _ cmd _ now] router_handler_core [of now' _ cmd' _ now] assms(6) by metis
  have r2: "map_option fst (r2_stage r2 (engines, c)) = map_option fst (r2_stage r2' (engines, c'))"
    if "core_part c = core_part c'" for c c'
  proof -
    have "map_option fst (r2_stage r2 (engines, c)) = map_option fst (r2_stage r2 (engines, core_part c))" for c
      by (simp add: r2_stage_core option.map_comp o_def)
    then show ?thesis using that r2_stage_order [OF assms(3,5)] by metis
  qed
  show ?thesis
  proof (cases "router_handler now (cs_routers cs ! ?o) cmd (cs_prices cs)")
    case None
    with h have "router_handler now' (cs_routers cs ! ?o) cmd' (cs_prices cs) = None" by simp
    with None show ?thesis
      by (simp add: after_r1_def matching_stage_value [OF assms(1,2)] matching_stage_value [OF assms(1,4)] same)
  next
    case (Some x)
    obtain mr c pc where x: "x = (mr, c, pc)" by (rule prod_cases3)
    with h Some obtain c' where s': "router_handler now' (cs_routers cs ! ?o) cmd' (cs_prices cs) = Some (mr, c', pc)"
      "core_part c = core_part c'"
      by (cases "router_handler now' (cs_routers cs ! ?o) cmd' (cs_prices cs)") auto
    have "map_option (\<lambda>x. g (fst x)) a = map_option (\<lambda>x. g (fst x)) b"
      if "map_option fst a = map_option fst b"
      for g :: "risk_engine list \<Rightarrow> core_state" and a b :: "(risk_engine list \<times> order_command) option"
      using that by (cases a; cases b) auto
    from this [OF r2 [OF s'(2)], of "\<lambda>es. \<lparr>cs_engines = es, cs_routers = (cs_routers cs)[?o := mr], cs_prices = pc\<rparr>"]
    show ?thesis
      by (simp add: after_r1_def matching_stage_value [OF assms(1,2)] matching_stage_value [OF assms(1,4)] same
          Some x s'(1) option.map_comp o_def case_prod_unfold)
  qed
qed

end
