(* ===== verification/Port_Allocation.thy ===== *)
theory Port_Allocation
  imports Wire_Text "HOL-Library.AList"
begin

text \<open>
  The allocators and channel helpers of \<^verbatim>\<open>networking/src/utils.rs\<close>. Random numbers come from the
  \<^verbatim>\<open>rand\<close> crate: a sequence \<open>draws\<close> gives the k-th number a call draws, and the lemmas assume of it what
  \<^verbatim>\<open>gen_range\<close> documents, that it lies in the range. Instants are natural numbers of nanoseconds; the
  table of freed ports is an association list with distinct keys. Aeron's clients are parameters: the
  functions that add a publication or a subscription to a URI and a stream, and the results of the offers.
  An Aeron error is its code, and \<open>show_code\<close> its message. \<open>None\<close> as the code of a \<^verbatim>\<open>CString\<close> is the
  panic of \<^verbatim>\<open>expect\<close>.
\<close>

section \<open>Errors of the server\<close>

datatype server_error =
  AeronConnectionError i32
| IoError string
| InvalidInput string
| ResourceAllocationError string
| GatewayMessageError string
| AuthenticationError string
| CapacityExceededError string
| ConfigurationError string

fun server_error_display :: "(i32 \<Rightarrow> string) \<Rightarrow> server_error \<Rightarrow> string" where
  "server_error_display show_code (AeronConnectionError code) = ''Aeron connection failed: '' @ show_code code"
| "server_error_display show_code (IoError e) = ''IO error: '' @ e"
| "server_error_display show_code (InvalidInput e) = ''Invalid input: '' @ e"
| "server_error_display show_code (ResourceAllocationError e) = ''Resource allocation error: '' @ e"
| "server_error_display show_code (GatewayMessageError e) = ''Gateway message error: '' @ e"
| "server_error_display show_code (AuthenticationError e) = ''Authentication failed: '' @ e"
| "server_error_display show_code (CapacityExceededError e) = ''Capacity exceeded: '' @ e"
| "server_error_display show_code (ConfigurationError e) = ''Configuration error: '' @ e"

section \<open>Channels\<close>

text \<open>\<^verbatim>\<open>CString::new(..).expect(..)\<close>: a NUL byte is a panic.\<close>

definition c_string :: "string \<Rightarrow> string option" where
  "c_string s = (if CHR 0x00 \<in> set s then None else Some s)"

definition add_channel :: "(string \<Rightarrow> i32 \<Rightarrow> i32 + 'c) \<Rightarrow> string \<Rightarrow> i32 \<Rightarrow> (i32, 'c) outcome" where
  "add_channel add uri stream_id =
     (case c_string uri of None \<Rightarrow> Panic | Some uri \<Rightarrow> of_result (add uri stream_id))"

definition endpoint_of :: "string \<Rightarrow> u16 \<Rightarrow> string" where
  "endpoint_of address port = address @ '':'' @ dec (unat port)"

definition new_publication ::
    "(string \<Rightarrow> i32 \<Rightarrow> i32 + 'p) \<Rightarrow> string \<Rightarrow> u16 \<Rightarrow> i32 \<Rightarrow> (i32, 'p) outcome" where
  "new_publication add address port stream_id =
     add_channel add (''aeron:udp?endpoint='' @ endpoint_of address port) stream_id"

definition new_publication_with_mdc_and_session ::
    "(string \<Rightarrow> i32 \<Rightarrow> i32 + 'p) \<Rightarrow> string \<Rightarrow> u16 \<Rightarrow> i32 \<Rightarrow> i32 \<Rightarrow> (i32, 'p) outcome" where
  "new_publication_with_mdc_and_session add address port stream_id session_id =
     add_channel add (''aeron:udp?control='' @ endpoint_of address port @
       ''|control-mode=dynamic|session-id='' @ dec_i32 session_id) stream_id"

definition new_publication_with_mdc ::
    "(string \<Rightarrow> i32 \<Rightarrow> i32 + 'p) \<Rightarrow> string \<Rightarrow> u16 \<Rightarrow> i32 \<Rightarrow> (i32, 'p) outcome" where
  "new_publication_with_mdc add address port stream_id =
     add_channel add (''aeron:udp?control='' @ endpoint_of address port @ ''|control-mode=dynamic'') stream_id"

definition new_publication_with_session ::
    "(string \<Rightarrow> i32 \<Rightarrow> i32 + 'p) \<Rightarrow> string \<Rightarrow> u16 \<Rightarrow> i32 \<Rightarrow> i32 \<Rightarrow> (i32, 'p) outcome" where
  "new_publication_with_session add address port stream_id session_id =
     add_channel add (''aeron:udp?endpoint='' @ endpoint_of address port @
       ''|session-id='' @ dec_i32 session_id) stream_id"

definition new_subscription_with_mdc ::
    "(string \<Rightarrow> i32 \<Rightarrow> i32 + 's) \<Rightarrow> string \<Rightarrow> u16 \<Rightarrow> i32 \<Rightarrow> (i32, 's) outcome" where
  "new_subscription_with_mdc add address port stream_id =
     add_channel add (''aeron:udp?control='' @ endpoint_of address port @ ''|control-mode=dynamic'') stream_id"

definition new_subscription_with_mdc_and_session ::
    "(string \<Rightarrow> i32 \<Rightarrow> i32 + 's) \<Rightarrow> string \<Rightarrow> u16 \<Rightarrow> i32 \<Rightarrow> i32 \<Rightarrow> (i32, 's) outcome" where
  "new_subscription_with_mdc_and_session add address port stream_id session_id =
     add_channel add (''aeron:udp?control='' @ endpoint_of address port @
       ''|control-mode=dynamic|session-id='' @ dec_i32 session_id) stream_id"

definition new_subscription_with_handlers_and_session ::
    "(string \<Rightarrow> i32 \<Rightarrow> i32 + 's) \<Rightarrow> string \<Rightarrow> u16 \<Rightarrow> i32 \<Rightarrow> i32 \<Rightarrow> (i32, 's) outcome" where
  "new_subscription_with_handlers_and_session add address port stream_id session_id =
     add_channel add (''aeron:udp?endpoint='' @ endpoint_of address port @
       ''|session-id='' @ dec_i32 session_id) stream_id"

definition new_subscription_with_handlers ::
    "(string \<Rightarrow> i32 \<Rightarrow> i32 + 's) \<Rightarrow> string \<Rightarrow> u16 \<Rightarrow> i32 \<Rightarrow> (i32, 's) outcome" where
  "new_subscription_with_handlers add address port stream_id =
     add_channel add (''aeron:udp?endpoint='' @ endpoint_of address port) stream_id"

section \<open>Sending\<close>

text \<open>The result of an offer is negative when it fails; the error keeps its low 32 bits.\<close>

definition send_message :: "i64 \<Rightarrow> i32 + unit" where
  "send_message result = (if result <s 0 then Inl (ucast result) else Inr ())"

definition MESSAGE_RETRY_COUNT :: nat where "MESSAGE_RETRY_COUNT = 5"

text \<open>The loop over the attempts \<open>i..<MESSAGE_RETRY_COUNT\<close>, with the number of attempts made.\<close>

function send_loop :: "(nat \<Rightarrow> i64) \<Rightarrow> nat \<Rightarrow> (i32 + unit) \<times> nat" where
  "send_loop offer i =
     (if i < MESSAGE_RETRY_COUNT then
        (if 0 \<le>s offer i then (Inr (), Suc i)
         else if i = MESSAGE_RETRY_COUNT - 1 then (Inl (ucast (offer i)), Suc i)
         else send_loop offer (Suc i))
      else (Inr (), i))"
  by auto
termination by (relation "measure (\<lambda>(offer, i). MESSAGE_RETRY_COUNT - i)") auto

declare send_loop.simps [simp del]

definition send_message_with_retries :: "(nat \<Rightarrow> i64) \<Rightarrow> (i32 + unit) \<times> nat" where
  "send_message_with_retries offer = send_loop offer 0"

section \<open>Ports\<close>

record port_allocator =
  pa_low :: u16
  pa_high :: u16
  pa_freed :: "(u16 \<times> nat) list"

definition PORT_COOLDOWN_SECONDS :: nat where "PORT_COOLDOWN_SECONDS = 10"

definition port_allocator_new :: "u16 \<Rightarrow> u64 \<Rightarrow> server_error + port_allocator" where
  "port_allocator_new port_base max_ports =
     (if port_base = 0 then Inl (ResourceAllocationError ''Base port must be greater than 0'')
      else if max_ports = 0 then Inl (ResourceAllocationError ''Max ports must be greater than 0'')
      else
        (let hi_u32 = (ucast port_base + ucast max_ports - 1 :: u32)
         in if hi_u32 > 65535 then Inl (ResourceAllocationError ''Port range exceeds u16::MAX'')
            else Inr \<lparr>pa_low = port_base, pa_high = ucast hi_u32, pa_freed = []\<rparr>))"

definition total_ports :: "port_allocator \<Rightarrow> nat" where
  "total_ports pa = Suc (unat (pa_high pa)) - unat (pa_low pa)"

definition cleanup_expired_ports :: "nat \<Rightarrow> port_allocator \<Rightarrow> port_allocator" where
  "cleanup_expired_ports now pa =
     pa\<lparr>pa_freed := filter (\<lambda>(_, timestamp). now - timestamp < PORT_COOLDOWN_SECONDS * 1000000000) (pa_freed pa)\<rparr>"

definition mark_freed :: "nat \<Rightarrow> u16 list \<Rightarrow> port_allocator \<Rightarrow> port_allocator" where
  "mark_freed now ports pa = pa\<lparr>pa_freed := fold (\<lambda>port freed. AList.update port now freed) ports (pa_freed pa)\<rparr>"

text \<open>The loop of \<^verbatim>\<open>allocate\<close>: \<open>Inl\<close> the ports found when the attempts are used up.\<close>

function allocate_loop ::
    "(nat \<Rightarrow> u16) \<Rightarrow> nat \<Rightarrow> nat \<Rightarrow> u16 list \<Rightarrow> u16 list \<Rightarrow> nat \<Rightarrow> u16 list \<Rightarrow> u16 list + u16 list" where
  "allocate_loop draws count max_attempts ports_in_use recently_freed attempts result =
     (if length result < count then
        (if max_attempts \<le> attempts then Inl result
         else
           (let port = draws attempts
            in allocate_loop draws count max_attempts ports_in_use recently_freed (attempts + 1)
                 (if port \<notin> set ports_in_use \<and> port \<notin> set recently_freed \<and> port \<notin> set result
                  then result @ [port] else result)))
      else Inr result)"
  by auto
termination
  by (relation "measure (\<lambda>(d, c, max_attempts, u, f, attempts, r). max_attempts - attempts)") auto

declare allocate_loop.simps [simp del]

definition allocate_ports ::
    "(nat \<Rightarrow> u16) \<Rightarrow> nat \<Rightarrow> nat \<Rightarrow> u16 list \<Rightarrow> port_allocator \<Rightarrow>
     (server_error, u16 list) outcome \<times> port_allocator" where
  "allocate_ports draws now count ports_in_use pa =
     (if count = 0 then (Ok [], pa)
      else
        (let pa = cleanup_expired_ports now pa;
             recently_freed = map fst (pa_freed pa);
             total = total_ports pa;
             used = length ports_in_use;
             in_cooldown = length recently_freed;
             available = total - used - in_cooldown;
             max_attempts = max (total * 2) 100
         in (if available < count then
               Err (ResourceAllocationError (''Requested '' @ dec count @ '' ports, but only '' @ dec available @
                 '' available ('' @ dec used @ '' in use, '' @ dec in_cooldown @ '' in cooldown)''))
             else if pa_high pa < pa_low pa then Panic
             else
               (case allocate_loop draws count max_attempts ports_in_use recently_freed 0 [] of
                  Inl result \<Rightarrow>
                    Err (ResourceAllocationError (''Failed to allocate '' @ dec count @ '' ports after '' @
                      dec max_attempts @ '' attempts ('' @ dec (length result) @ '' already allocated, '' @
                      dec in_cooldown @ '' in cooldown)''))
                | Inr result \<Rightarrow> Ok result), pa)))"

section \<open>Sessions\<close>

record session_allocator =
  sa_min :: i32
  sa_max_count :: i32

definition session_allocator_new :: "i32 \<Rightarrow> i32 \<Rightarrow> server_error + session_allocator" where
  "session_allocator_new mn mx =
     (if mx \<le>s mn then
        Inl (ResourceAllocationError (''Maximum value '' @ dec_i32 mx @ '' must be >= minimum value '' @ dec_i32 mn))
      else Inr \<lparr>sa_min = mn, sa_max_count = (if 1 \<le>s mx - mn then mx - mn else 1)\<rparr>)"

fun session_loop :: "(nat \<Rightarrow> i32) \<Rightarrow> i32 list \<Rightarrow> nat \<Rightarrow> nat \<Rightarrow> i32 option" where
  "session_loop draws sessions_in_use k 0 = None"
| "session_loop draws sessions_in_use k (Suc n) =
     (if draws k \<notin> set sessions_in_use then Some (draws k) else session_loop draws sessions_in_use (Suc k) n)"

definition allocate_session ::
    "(nat \<Rightarrow> i32) \<Rightarrow> i32 list \<Rightarrow> session_allocator \<Rightarrow> server_error + i32" where
  "allocate_session draws sessions_in_use sa =
     (if sa_max_count sa \<le>s of_nat (length sessions_in_use) then
        Inl (ResourceAllocationError ''No session IDs left to allocate'')
      else
        (case session_loop draws sessions_in_use 0 (nat (sint (sa_max_count sa))) of
           Some session \<Rightarrow> Inr session
         | None \<Rightarrow>
             Inl (ResourceAllocationError (''Unable to allocate a session ID after '' @ dec_i32 (sa_max_count sa) @
               '' attempts ('' @ dec (length sessions_in_use) @ '' values in use)''))))"

definition max_sessions :: "session_allocator \<Rightarrow> i32" where
  "max_sessions sa = sa_max_count sa"

section \<open>What the allocators return\<close>

definition port_free :: "u16 list \<Rightarrow> u16 list \<Rightarrow> u16 \<Rightarrow> bool" where
  "port_free ports_in_use recently_freed port \<longleftrightarrow> port \<notin> set ports_in_use \<and> port \<notin> set recently_freed"

text \<open>The loop returns the first \<open>count\<close> different free ports of the draws, if there are so many.\<close>

lemma allocate_loop_Inr:
  assumes "allocate_loop draws count m u f k r = Inr ps" "distinct r" "length r \<le> count" "\<forall>p\<in>set r. port_free u f p"
  shows "length ps = count \<and> distinct ps \<and> (\<forall>p\<in>set ps. port_free u f p) \<and> set ps \<subseteq> set r \<union> range draws"
  using assms
proof (induction draws count m u f k r rule: allocate_loop.induct)
  case (1 draws count m u f k r)
  show ?case
  proof (cases "length r < count")
    case True
    with 1(2) have more: "\<not> m \<le> k" by (subst (asm) allocate_loop.simps) (auto split: if_splits)
    let ?r = "if draws k \<notin> set u \<and> draws k \<notin> set f \<and> draws k \<notin> set r then r @ [draws k] else r"
    have "allocate_loop draws count m u f (k + 1) ?r = Inr ps"
      using 1(2) True more by (subst (asm) allocate_loop.simps) (simp add: Let_def)
    moreover have "distinct ?r" "length ?r \<le> count" "\<forall>p\<in>set ?r. port_free u f p"
      using 1(3-5) True by (auto simp: port_free_def)
    ultimately have "length ps = count \<and> distinct ps \<and> (\<forall>p\<in>set ps. port_free u f p) \<and> set ps \<subseteq> set ?r \<union> range draws"
      by (intro 1(1) [OF True more refl])
    then show ?thesis by (auto split: if_splits)
  qed (use 1 in \<open>subst (asm) allocate_loop.simps, auto\<close>)
qed

lemma allocate_loop_Inl:
  assumes "allocate_loop draws count m u f k r = Inl ps" "distinct r" "\<forall>p\<in>set r. port_free u f p"
  shows "card ({p \<in> draws ` {k..<m}. port_free u f p} \<union> set r) < count"
  using assms
proof (induction draws count m u f k r rule: allocate_loop.induct)
  case (1 draws count m u f k r)
  have less: "length r < count" using 1(2) by (subst (asm) allocate_loop.simps) (auto split: if_splits)
  show ?case
  proof (cases "m \<le> k")
    case True
    with less 1(3) show ?thesis by (simp add: distinct_card)
  next
    case False
    let ?r = "if draws k \<notin> set u \<and> draws k \<notin> set f \<and> draws k \<notin> set r then r @ [draws k] else r"
    have "allocate_loop draws count m u f (k + 1) ?r = Inl ps"
      using 1(2) less False by (subst (asm) allocate_loop.simps) (simp add: Let_def)
    moreover have "distinct ?r" "\<forall>p\<in>set ?r. port_free u f p" using 1(3,4) by (auto simp: port_free_def)
    ultimately have "card ({p \<in> draws ` {k + 1..<m}. port_free u f p} \<union> set ?r) < count"
      by (intro 1(1) [OF less False refl])
    moreover have "{p \<in> draws ` {k + 1..<m}. port_free u f p} \<union> set ?r = {p \<in> draws ` {k..<m}. port_free u f p} \<union> set r"
    proof -
      have "{k..<m} = insert k {k + 1..<m}" using False by auto
      then show ?thesis by (auto simp: port_free_def)
    qed
    ultimately show ?thesis by simp
  qed
qed

text \<open>The ports freed less than ten seconds ago.\<close>

definition cooling :: "nat \<Rightarrow> port_allocator \<Rightarrow> u16 list" where
  "cooling now pa = map fst (filter (\<lambda>(_, t). now < t + 10000000000) (pa_freed pa))"

lemma cleanup_cooling: "map fst (pa_freed (cleanup_expired_ports now pa)) = cooling now pa"
proof -
  have "(now - t < 10000000000) = (now < t + 10000000000)" for t :: nat by auto
  then show ?thesis by (simp add: cleanup_expired_ports_def cooling_def PORT_COOLDOWN_SECONDS_def)
qed

lemma cleanup_range [simp]:
  "pa_low (cleanup_expired_ports now pa) = pa_low pa"
  "pa_high (cleanup_expired_ports now pa) = pa_high pa"
  "total_ports (cleanup_expired_ports now pa) = total_ports pa"
  by (simp_all add: cleanup_expired_ports_def total_ports_def)

lemma mark_freed_range [simp]:
  "pa_low (mark_freed now ports pa) = pa_low pa"
  "pa_high (mark_freed now ports pa) = pa_high pa"
  by (simp_all add: mark_freed_def)

definition draws_in_range :: "(nat \<Rightarrow> u16) \<Rightarrow> port_allocator \<Rightarrow> bool" where
  "draws_in_range draws pa \<longleftrightarrow> (\<forall>k. pa_low pa \<le> draws k \<and> draws k \<le> pa_high pa)"

lemma allocate_ports_cases:
  assumes "draws_in_range draws pa"
  shows "case allocate_ports draws now count ports_in_use pa of (r, pa') \<Rightarrow>
    pa_low pa' = pa_low pa \<and> pa_high pa' = pa_high pa \<and>
    (case r of
       Panic \<Rightarrow> False
     | Ok ps \<Rightarrow> length ps = count \<and> distinct ps \<and> set ps \<subseteq> {pa_low pa..pa_high pa} \<and>
         (\<forall>p\<in>set ps. port_free ports_in_use (cooling now pa) p)
     | Err e \<Rightarrow> total_ports pa < count + length ports_in_use + length (cooling now pa) \<or>
         card {p \<in> draws ` {0..<max (total_ports pa * 2) 100}. port_free ports_in_use (cooling now pa) p} < count)"
proof (cases "count = 0 \<or> total_ports pa - length ports_in_use - length (cooling now pa) < count")
  case True
  have l: "length (pa_freed (cleanup_expired_ports now pa)) = length (cooling now pa)"
    using arg_cong [OF cleanup_cooling [of now pa], of length] by simp
  from True l show ?thesis by (auto simp: allocate_ports_def Let_def l)
next
  case False
  have l: "length (pa_freed (cleanup_expired_ports now pa)) = length (cooling now pa)"
    using arg_cong [OF cleanup_cooling [of now pa], of length] by simp
  have "pa_low pa \<le> draws 0" "draws 0 \<le> pa_high pa" using assms by (simp_all add: draws_in_range_def)
  then have "\<not> pa_high pa < pa_low pa" by auto
  have ran: "range draws \<subseteq> {pa_low pa..pa_high pa}" using assms by (auto simp: draws_in_range_def)
  show ?thesis
  proof (cases "allocate_loop draws count (max (total_ports pa * 2) 100) ports_in_use (cooling now pa) 0 []")
    case (Inl ps)
    then show ?thesis
      using False \<open>\<not> pa_high pa < pa_low pa\<close> allocate_loop_Inl [OF Inl]
      by (simp add: allocate_ports_def Let_def l cleanup_cooling)
  next
    case (Inr ps)
    have "length ps = count \<and> distinct ps \<and> (\<forall>p\<in>set ps. port_free ports_in_use (cooling now pa) p) \<and> set ps \<subseteq> range draws"
      using allocate_loop_Inr [OF Inr] by simp
    moreover from this ran have "set ps \<subseteq> {pa_low pa..pa_high pa}" by blast
    ultimately show ?thesis
      using False \<open>\<not> pa_high pa < pa_low pa\<close> Inr
      by (simp add: allocate_ports_def Let_def l cleanup_cooling)
  qed
qed

lemma session_loop_Some: "session_loop draws use k n = Some s \<Longrightarrow> s \<notin> set use \<and> (\<exists>i<n. s = draws (k + i))"
proof (induction n arbitrary: k)
  case (Suc n)
  show ?case
  proof (cases "draws k \<in> set use")
    case True
    then obtain i where "i < n" "s = draws (Suc k + i)" "s \<notin> set use" using Suc.IH [of "Suc k"] Suc.prems by auto
    then show ?thesis by (intro conjI exI [of _ "Suc i"]) simp_all
  qed (use Suc(2) in auto)
qed simp

lemma allocate_session_fresh: "allocate_session draws use sa = Inr s \<Longrightarrow> s \<notin> set use"
  using session_loop_Some by (fastforce simp: allocate_session_def split: if_splits option.splits)

text \<open>C32. Port allocation: with random numbers from its range the allocator never panics. What it returns
  are as many different ports of the range as were asked for, none in use and none freed within the
  last ten seconds. It fails only when the range less the used and cooling ports is too small, or when
  the draws of its bounded number of attempts contain too few different free ports.\<close>

theorem ports_allocated:
  assumes "draws_in_range draws pa"
  shows "case fst (allocate_ports draws now count ports_in_use pa) of
      Panic \<Rightarrow> False
    | Ok ps \<Rightarrow> length ps = count \<and> distinct ps \<and> set ps \<subseteq> {pa_low pa..pa_high pa} \<and>
        set ps \<inter> set ports_in_use = {} \<and> set ps \<inter> set (cooling now pa) = {}
    | Err e \<Rightarrow> total_ports pa < count + length ports_in_use + length (cooling now pa) \<or>
        card {p \<in> draws ` {0..<max (total_ports pa * 2) 100}. port_free ports_in_use (cooling now pa) p} < count"
  using allocate_ports_cases [OF assms, where now = now and count = count and ports_in_use = ports_in_use]
  by (cases "allocate_ports draws now count ports_in_use pa"; cases "fst (allocate_ports draws now count ports_in_use pa)")
    (simp_all add: port_free_def disjoint_iff)

theorem ports_allocated_witness:
  "fst (allocate_ports (\<lambda>k. if k = 0 then 50001 else if k = 1 then 50003 else 50002) 30000000000 2 [50001]
      \<lparr>pa_low = 50000, pa_high = 50004, pa_freed = [(50003, 15000000000), (50004, 25000000000)]\<rparr>) = Ok [50003, 50002] \<and>
   (case Ok [50003, 50002] :: (server_error, u16 list) outcome of
      Panic \<Rightarrow> False
    | Ok ps \<Rightarrow> distinct ps \<and> set ps \<inter> set [50001] = {}
    | Err e \<Rightarrow> False)"
proof -
  let ?pa = "\<lparr>pa_low = 50000, pa_high = 50004, pa_freed = [(50003, 15000000000), (50004, 25000000000)]\<rparr>"
  let ?draws = "\<lambda>k :: nat. if k = 0 then 50001 else if k = 1 then 50003 else (50002 :: u16)"
  have "fst (allocate_ports ?draws 30000000000 2 [50001] ?pa) = Ok [50003, 50002]"
    by (simp add: allocate_ports_def Let_def cleanup_expired_ports_def PORT_COOLDOWN_SECONDS_def
        total_ports_def allocate_loop.simps)
  moreover have "draws_in_range ?draws ?pa" by (simp add: draws_in_range_def word_le_nat_alt)
  ultimately show ?thesis using ports_allocated [where draws = ?draws and pa = ?pa and now = 30000000000 and count = 2 and ports_in_use = "[50001]"] by simp
qed

end
