(* ===== verification/Replay.thy ===== *)
theory Replay
  imports Command_Core Port_Allocation
begin

text \<open>
  How commands enter the engine, from gateways (\<^verbatim>\<open>FragmentHandler\<close> of
  \<^verbatim>\<open>networking/src/server/cmd_handler.rs\<close>) and from the archive (\<^verbatim>\<open>ReplayFragmentHandler\<close>, the readers of
  \<^verbatim>\<open>replay.rs\<close>, \<^verbatim>\<open>start_replay\<close> and \<^verbatim>\<open>start_recording\<close> of \<^verbatim>\<open>server/mod.rs\<close>). What Aeron and its archive
  answer is an environment record. Whether the ring buffer takes a command is a parameter: \<^verbatim>\<open>try_publish\<close>
  of the disruptor refuses when the ring is full. A poll of the replay subscription reads at most one
  fragment; the polls are a list, and a loop that has not returned when they are used up is \<open>None\<close>.
  The waits for a connection are assumed to end.
\<close>

section \<open>Fragments of commands\<close>

text \<open>The commands that go to the ring: at most one. \<open>None\<close> is a panic of the decoder.\<close>

definition handle_fragment :: "u8 \<Rightarrow> bool \<Rightarrow> u8 list \<Rightarrow> order_command list option" where
  "handle_fragment gateway_id took buffer =
     (case decode_order_command buffer of
        Panic \<Rightarrow> None
      | Err _ \<Rightarrow> Some []
      | Ok cmd \<Rightarrow>
          (let cmd = cmd\<lparr>c_status := Processing, c_route_gateway_id := gateway_id\<rparr>
           in Some (if took then [cmd] else [])))"

definition handle_replay_fragment :: "bool \<Rightarrow> u8 list \<Rightarrow> order_command list option" where
  "handle_replay_fragment took buffer =
     (case decode_order_command buffer of
        Panic \<Rightarrow> None
      | Err _ \<Rightarrow> Some []
      | Ok cmd \<Rightarrow> (let cmd = cmd\<lparr>c_status := Processing\<rparr> in Some (if took then [cmd] else [])))"

section \<open>Recordings\<close>

text \<open>The fields of \<^verbatim>\<open>RecordingInfo\<close>, which copy those of Aeron's descriptor.\<close>

record recording_info =
  ri_control_session_id :: i64
  ri_correlation_id :: i64
  ri_recording_id :: i64
  ri_start_timestamp :: i64
  ri_stop_timestamp :: i64
  ri_start_position :: i64
  ri_stop_position :: i64
  ri_initial_term_id :: i32
  ri_segment_file_length :: i32
  ri_term_buffer_length :: i32
  ri_mtu_length :: i32
  ri_session_id :: i32
  ri_stream_id :: i32
  ri_stripped_channel_length :: u64
  ri_original_channel_length :: u64
  ri_source_identity_length :: u64

definition reader_new :: "recording_info option" where "reader_new = None"

definition read_descriptor :: "recording_info \<Rightarrow> recording_info option \<Rightarrow> recording_info option" where
  "read_descriptor d last_recording =
     (if 0 <s ri_stop_position d \<and> ri_start_position d <s ri_stop_position d then Some d else last_recording)"

definition active_reader_new :: "recording_info option" where "active_reader_new = None"

definition read_active_descriptor :: "recording_info \<Rightarrow> recording_info option \<Rightarrow> recording_info option" where
  "read_active_descriptor d active_recording = (if ri_stop_position d = 0 then Some d else active_recording)"

definition RECORDING_STREAM_ID :: i32 where "RECORDING_STREAM_ID = 2001"
definition REPLAY_STREAM_ID :: i32 where "REPLAY_STREAM_ID = 2002"
definition RECORDING_CHANNEL :: string where "RECORDING_CHANNEL = ''aeron:ipc''"
definition FRAMESIZE :: i64 where "FRAMESIZE = 96"

record extended_recording =
  er_recording_id :: i64
  er_channel :: string

text \<open>\<open>build_uri\<close> is the URI builder: position, initial term id and term length to a channel.\<close>

definition extended_recording_new ::
    "(i64 \<Rightarrow> i32 \<Rightarrow> i32 \<Rightarrow> i32 + string) \<Rightarrow> i32 \<Rightarrow> i64 \<Rightarrow> i32 \<Rightarrow> i64 \<Rightarrow> server_error + extended_recording" where
  "extended_recording_new build_uri initial_term_id position term_length recording_id =
     (case build_uri position initial_term_id term_length of
        Inl code \<Rightarrow> Inl (AeronConnectionError code)
      | Inr channel \<Rightarrow> Inr \<lparr>er_recording_id = recording_id, er_channel = channel\<rparr>)"

text \<open>A poll fails, reads nothing, or reads one fragment that the ring accepts or refuses.\<close>

type_synonym replay_poll = "i32 + (u8 list \<times> bool) option"

record archive_env =
  ar_recordings :: "i32 + recording_info list"
  ar_start_replay :: "i64 \<Rightarrow> i64 \<Rightarrow> i64 \<Rightarrow> i32 + i64"
  ar_add_subscription :: "string \<Rightarrow> i32 \<Rightarrow> i32 + unit"
  ar_shutdown :: "nat \<Rightarrow> bool"
  ar_polls :: "replay_poll list"
  ar_build_uri :: "i64 \<Rightarrow> i32 \<Rightarrow> i32 \<Rightarrow> i32 + string"
  ar_close :: "i32 + unit"
  ar_extend_recording :: "i64 \<Rightarrow> string \<Rightarrow> i32 \<Rightarrow> i32 + i64"
  ar_start_recording :: "string \<Rightarrow> i32 \<Rightarrow> i32 + i64"
  ar_show_code :: "i32 \<Rightarrow> string"

section \<open>Replaying\<close>

text \<open>The loop of \<^verbatim>\<open>start_replay\<close>: the position and the commands that went to the ring.\<close>

fun replay_loop ::
    "(nat \<Rightarrow> bool) \<Rightarrow> i64 \<Rightarrow> replay_poll list \<Rightarrow> nat \<Rightarrow> i64 \<Rightarrow> order_command list \<Rightarrow>
     (i32, i64 \<times> order_command list) outcome option" where
  "replay_loop shutdown stop [] k position published =
     (if shutdown k \<or> stop \<le>s position then Some (Ok (position, published)) else None)"
| "replay_loop shutdown stop (poll # polls) k position published =
     (if shutdown k \<or> stop \<le>s position then Some (Ok (position, published))
      else
        (case poll of
           Inl code \<Rightarrow> Some (Err code)
         | Inr None \<Rightarrow> replay_loop shutdown stop polls (Suc k) position published
         | Inr (Some (buffer, took)) \<Rightarrow>
             (case handle_replay_fragment took buffer of
                None \<Rightarrow> Some Panic
              | Some cmds \<Rightarrow>
                  replay_loop shutdown stop polls (Suc k) (position + FRAMESIZE) (published @ cmds))))"

definition list_recordings ::
    "archive_env \<Rightarrow> (recording_info \<Rightarrow> recording_info option \<Rightarrow> recording_info option) \<Rightarrow>
     recording_info option \<Rightarrow> server_error + recording_info option" where
  "list_recordings ae read start =
     (case ar_recordings ae of
        Inl code \<Rightarrow> Inl (AeronConnectionError code)
      | Inr descriptors \<Rightarrow> Inr (fold read descriptors start))"

definition replay_channel :: "i32 \<Rightarrow> string" where
  "replay_channel replay_session_id = RECORDING_CHANNEL @ ''?session-id='' @ dec_i32 replay_session_id"

text \<open>From the chosen recording on.\<close>

definition replay_recording ::
    "archive_env \<Rightarrow> recording_info \<Rightarrow>
     (server_error, extended_recording option \<times> order_command list) outcome option" where
  "replay_recording ae rec =
     (case ar_start_replay ae (ri_recording_id rec) (ri_start_position rec)
             (ri_stop_position rec - ri_start_position rec) of
        Inl code \<Rightarrow> Some (Err (AeronConnectionError code))
      | Inr replay_session \<Rightarrow>
          (case ar_add_subscription ae (replay_channel (ucast replay_session)) REPLAY_STREAM_ID of
             Inl code \<Rightarrow> Some (Err (AeronConnectionError code))
           | Inr _ \<Rightarrow>
               (case replay_loop (ar_shutdown ae) (ri_stop_position rec) (ar_polls ae) 0 (ri_start_position rec) [] of
                  None \<Rightarrow> None
                | Some Panic \<Rightarrow> Some Panic
                | Some (Err code) \<Rightarrow> Some (Err (AeronConnectionError code))
                | Some (Ok (position, published)) \<Rightarrow>
                    (case extended_recording_new (ar_build_uri ae) (ri_initial_term_id rec) (ri_stop_position rec)
                            (ri_term_buffer_length rec) (ri_recording_id rec) of
                       Inl e \<Rightarrow> Some (Err e)
                     | Inr extended \<Rightarrow>
                         (case ar_close ae of
                            Inl code \<Rightarrow> Some (Err (AeronConnectionError code))
                          | Inr _ \<Rightarrow> Some (Ok (Some extended, published)))))))"

definition start_replay ::
    "archive_env \<Rightarrow> (server_error, extended_recording option \<times> order_command list) outcome option" where
  "start_replay ae =
     (case list_recordings ae read_descriptor reader_new of
        Inl e \<Rightarrow> Some (Err e)
      | Inr None \<Rightarrow> Some (Ok (None, []))
      | Inr (Some rec) \<Rightarrow> replay_recording ae rec)"

section \<open>Recording\<close>

fun contains :: "string \<Rightarrow> string \<Rightarrow> bool" where
  "contains pat [] = (pat = [])"
| "contains pat (c # s) = (take (length pat) (c # s) = pat \<or> contains pat s)"

text \<open>The subscription that records, 0 when it is another one's, and the channel.\<close>

definition start_recording :: "archive_env \<Rightarrow> extended_recording option \<Rightarrow> server_error + i64 \<times> string" where
  "start_recording ae recording =
     (case recording of
        Some r \<Rightarrow>
          (case ar_extend_recording ae (er_recording_id r) (er_channel r) RECORDING_STREAM_ID of
             Inl code \<Rightarrow> Inl (AeronConnectionError code)
           | Inr subscription_id \<Rightarrow> Inr (subscription_id, er_channel r))
      | None \<Rightarrow>
          (case list_recordings ae read_active_descriptor active_reader_new of
             Inl e \<Rightarrow> Inl e
           | Inr (Some active_record) \<Rightarrow> Inr (0, RECORDING_CHANNEL)
           | Inr None \<Rightarrow>
               (case ar_start_recording ae RECORDING_CHANNEL RECORDING_STREAM_ID of
                  Inr subscription_id \<Rightarrow> Inr (subscription_id, RECORDING_CHANNEL)
                | Inl code \<Rightarrow>
                    if contains ''recording exists'' (ar_show_code ae code) then Inr (0, RECORDING_CHANNEL)
                    else Inl (AeronConnectionError code))))"

section \<open>Decoding what was archived\<close>

lemma handle_replay_archived:
  "decode_order_command bytes = Ok (wire_view cmd) \<Longrightarrow>
     handle_replay_fragment True bytes = Some [wire_view cmd\<lparr>c_status := Processing\<rparr>]"
  by (simp add: handle_replay_fragment_def)

text \<open>The fragments of a list of polls.\<close>

fun polled :: "replay_poll list \<Rightarrow> (u8 list \<times> bool) list" where
  "polled [] = []"
| "polled (Inr (Some x) # polls) = x # polled polls"
| "polled (_ # polls) = polled polls"

lemma sint_inj: "sint a = sint b \<Longrightarrow> a = b" for a b :: "'a::len word"
  by (rule signed_word_eqI)

lemma replay_loop_reads:
  assumes "\<forall>p\<in>set polls. \<exists>x. p = Inr x" "\<And>k. \<not> shutdown k"
    and "map (\<lambda>(b, a). handle_replay_fragment a b) (polled polls) = map Some cmds"
    and "sint stop = sint position + 96 * int (length (polled polls))"
  shows "replay_loop shutdown stop polls k position published = Some (Ok (stop, published @ concat cmds))"
  using assms
proof (induction polls arbitrary: k position published cmds)
  case Nil
  then have "stop = position" by (intro sint_inj) simp
  with Nil show ?case by simp
next
  case (Cons p polls)
  have stop: "sint stop < 2 ^ 63" using sint_lt [of stop] by simp
  obtain x where p: "p = Inr x" using Cons.prems(1) by auto
  show ?case
  proof (cases x)
    case None
    show ?thesis
    proof (cases "stop \<le>s position")
      case True
      then have "polled polls = []" "stop = position"
        using Cons.prems(4) by (auto simp: p None word_sle_eq intro!: sint_inj)
      with Cons.prems(3) True show ?thesis by (simp add: p None)
    next
      case False
      with Cons.prems Cons.IH [of cmds position "Suc k" published] show ?thesis by (simp add: p None)
    qed
  next
    case (Some y)
    obtain b a where y: "y = (b, a)" by (rule prod.exhaust)
    obtain c cs where cmds: "cmds = c # cs" "handle_replay_fragment a b = Some c"
      using Cons.prems(3) by (cases cmds) (auto simp: p Some y)
    have pos: "sint position + 96 * (1 + int (length (polled polls))) = sint stop"
      using Cons.prems(4) by (simp add: p Some)
    have "sint (position + FRAMESIZE) = sint position + 96"
    proof -
      have "- (2 ^ 63) \<le> sint position" using sint_ge [of position] by simp
      moreover have "sint FRAMESIZE = 96" by (simp add: FRAMESIZE_def)
      ultimately show ?thesis
        using pos stop signed_take_bit_int_eq_self [of 63 "sint position + 96"]
        by (simp add: sint_word_ariths)
    qed
    moreover have "\<not> stop \<le>s position" using pos by (simp add: word_sle_eq)
    ultimately show ?thesis
      using Cons.prems Cons.IH [of cs "position + FRAMESIZE" "Suc k" "published @ c"] cmds pos
      by (simp add: p Some y)
  qed
qed

end
