(* ===== verification/Recovery.thy ===== *)
theory Recovery
  imports Replay
begin

text \<open>
  The archive and the engine: a run of the engine in which every command is journaled, and the replay
  of what was archived. Journaling and the R1 handlers are one stage of the disruptor, so journaling may
  come before or after any of them; \<open>live_step\<close> has the number of R1 handlers that ran before it. The runs
  here take one command after the other; \<open>Disruptor\<close> relates them to the pipeline, where commands may
  overlap. For them the archive reproduces the state of the engine wherever journaling ran, on a replay
  whose ring always has room; the failures are when it has not or when the replay flag is taken away too
  early.
\<close>

section \<open>One command, with journaling anywhere in its stage\<close>

definition live_step ::
    "nat \<Rightarrow> (nat \<Rightarrow> nat) \<Rightarrow> nat option \<Rightarrow> replay_control \<Rightarrow> u64 \<Rightarrow> nat list \<times> nat list \<times> nat list \<Rightarrow>
     'p journaling_processor \<Rightarrow> core_state \<Rightarrow> order_command \<Rightarrow> nat \<Rightarrow>
     (unit, 'p journaling_processor \<times> core_state \<times> order_command \<times> 'p offers \<times> nat) outcome option" where
  "live_step before clock wall replay now orders jp cs cmd k =
     (case orders of (r1, mt, r2) \<Rightarrow>
        (case r1_stage (take before r1) (cs_prices cs) (cs_engines cs, cmd) of
           None \<Rightarrow> Some Panic
         | Some (engines, cmd) \<Rightarrow>
             map_option (\<lambda>r. obind r (\<lambda>(jp, cmd, archived, k).
                 or_panic (map_option (\<lambda>(cs, cmd). (jp, cs, cmd, archived, k))
                   (Option.bind (r1_stage (drop before r1) (cs_prices cs) (engines, cmd)) (after_r1 now mt r2 cs)))))
               (journal_command clock wall replay jp cmd k)))"

lemma obind_assoc: "obind (obind r f) g = obind r (\<lambda>x. obind (f x) g)"
  by (cases r) simp_all

lemma obind_or_panic: "obind (or_panic (map_option f m)) g = (case m of None \<Rightarrow> Panic | Some a \<Rightarrow> g (f a))"
  by (cases m) (simp_all add: or_panic_def)

text \<open>With journaling first it is the pipeline less the events handler, which keeps no state.\<close>

lemma process_command_parts:
  "process_command clock wall to_json replay now orders jp cs cmd k =
     map_option (\<lambda>r. obind r (\<lambda>(jp, cs, cmd, archived, k).
         or_panic (map_option (\<lambda>(msgs, offers). (jp, cs, cmd, archived, msgs, offers, k))
           (handle_processed_command to_json (is_enabled replay) (jp_publications jp) cmd))))
       (live_step 0 clock wall replay now orders jp cs cmd k)"
proof -
  obtain r1 mt r2 where o: "orders = (r1, mt, r2)" by (rule prod_cases3)
  show ?thesis
    by (simp add: o process_command_def live_step_def r1_stage_def core_step_parts option.map_comp o_def obind_assoc
        case_prod_unfold obind_or_panic cong: option.case_cong)
qed

section \<open>Stamps and R1\<close>

definition stamp :: "u64 \<Rightarrow> u64 \<Rightarrow> order_command \<Rightarrow> order_command" where
  "stamp i t cmd = cmd\<lparr>c_order_id := i, c_timestamp := t\<rparr>"

lemma bid_amount_stamp: "bid_amount re (stamp i t cmd) pc = apsnd (stamp i t) (bid_amount re cmd pc)"
  by (simp add: bid_amount_def Let_def stamp_def split: option.split)

lemma reserve_stamp:
  "reserve_funds_for_order re (stamp i t cmd) pc = apsnd (apsnd (stamp i t)) (reserve_funds_for_order re cmd pc)"
proof -
  have "c_user_id (stamp i t c) = c_user_id c" "c_market_id (stamp i t c) = c_market_id c"
    "c_size (stamp i t c) = c_size c" "c_side (stamp i t c) = c_side c" for c
    by (simp_all add: stamp_def)
  then show ?thesis
    by (simp add: reserve_funds_for_order_def bid_amount_stamp split: side.split prod.split sum.split)
qed

lemma pre_process_stamp:
  "pre_process_command re (stamp i t cmd) pc = apsnd (stamp i t) (pre_process_command re cmd pc)"
proof -
  have "handle_deposit re (stamp i t cmd) = handle_deposit re cmd"
    "handle_withdrawal re (stamp i t cmd) = handle_withdrawal re cmd"
    by (simp_all add: handle_deposit_def handle_withdrawal_def stamp_def)
  moreover have "c_command (stamp i t cmd) = c_command cmd" "c_user_id (stamp i t cmd) = c_user_id cmd"
    "c_market_id (stamp i t cmd) = c_market_id cmd" "set_status st (stamp i t c) = stamp i t (set_status st c)"
    "stamp i t cmd\<lparr>c_status := st\<rparr> = stamp i t (cmd\<lparr>c_status := st\<rparr>)"
    "record_balance0 b (stamp i t c) = stamp i t (record_balance0 b c)" for st b c
    by (simp_all add: stamp_def set_status_def record_balance0_def)
  ultimately show ?thesis
    by (cases "c_command cmd") (auto simp: pre_process_command_def reserve_stamp split: prod.splits sum.splits)
qed

lemma r1_stage_stamp:
  "r1_stage is pc (engines, stamp i t cmd) = map_option (apsnd (stamp i t)) (r1_stage is pc (engines, cmd))"
proof (induction "is" arbitrary: engines cmd)
  case (Cons j "is")
  have "r1_handler j pc engines (stamp i t cmd) = map_option (apsnd (stamp i t)) (r1_handler j pc engines cmd)"
    by (simp add: r1_handler_def pre_process_stamp case_prod_unfold)
  with Cons show ?case
    by (cases "r1_handler j pc engines cmd") (auto simp: r1_stage_def fold_None)
qed (simp add: r1_stage_def)

text \<open>R1 on a command that R1 has been at, with status and balances as they were: the same again.\<close>

definition fresh_command :: "order_command \<Rightarrow> bool" where
  "fresh_command cmd \<longleftrightarrow> c_status cmd = Processing \<and> c_events cmd = None \<and>
     c_balance cmd = (balance_default, balance_default) \<and> c_l2_data cmd = None \<and> c_original_size cmd = 0"

definition renewed :: "order_command \<Rightarrow> order_command" where
  "renewed cmd = cmd\<lparr>c_status := Processing, c_balance := (balance_default, balance_default)\<rparr>"

lemma renewed_fresh: "fresh_command cmd \<Longrightarrow> renewed cmd = cmd"
  by (simp add: fresh_command_def renewed_def)

lemma price_kept: "\<exists>p. cmd = cmd\<lparr>c_price := p\<rparr>" for cmd :: order_command
  by (rule exI [of _ "c_price cmd"]) simp

lemma bid_amount_again:
  assumes "bid_amount re cmd pc = (r, cmd1)"
  shows "bid_amount re cmd1 pc = (r, cmd1)" "\<exists>p. cmd1 = cmd\<lparr>c_price := p\<rparr>"
proof -
  show "\<exists>p. cmd1 = cmd\<lparr>c_price := p\<rparr>"
    using assms price_kept by (auto simp: bid_amount_def Let_def split: option.splits if_splits)
  show "bid_amount re cmd1 pc = (r, cmd1)"
    using assms by (auto simp: bid_amount_def Let_def split: option.splits if_splits)
qed

lemma reserve_again:
  assumes "reserve_funds_for_order re cmd pc = (r, re1, cmd1)"
  shows "reserve_funds_for_order re cmd1 pc = (r, re1, cmd1)" "\<exists>p. cmd1 = cmd\<lparr>c_price := p\<rparr>"
proof -
  obtain a c where b: "bid_amount re cmd pc = (a, c)" by (rule prod.exhaust)
  obtain p where c: "c = cmd\<lparr>c_price := p\<rparr>" using bid_amount_again(2) [OF b] by blast
  show "\<exists>p. cmd1 = cmd\<lparr>c_price := p\<rparr>"
    using assms price_kept b c by (auto simp: reserve_funds_for_order_def split: side.splits sum.splits prod.splits)
  show "reserve_funds_for_order re cmd1 pc = (r, re1, cmd1)"
    using assms b bid_amount_again(1) [OF b] c
    by (auto simp: reserve_funds_for_order_def split: side.splits sum.splits prod.splits)
qed

lemma pre_process_again:
  assumes "pre_process_command re cmd pc = (re1, cmd1)" "fresh_command cmd"
  shows "pre_process_command re (renewed cmd1) pc = (re1, cmd1) \<and> fresh_command (renewed cmd1)"
proof -
  have same: "renewed (set_status st (record_balance0 b cmd)) = cmd" "renewed (cmd\<lparr>c_status := st\<rparr>) = cmd"
    "renewed (set_status st cmd) = cmd" "renewed cmd = cmd" for st b
    using assms(2) by (simp_all add: renewed_def fresh_command_def set_status_def record_balance0_def)
  show ?thesis
  proof (cases "c_command cmd = PlaceOrder \<and> user_id_for_this_handler re (c_user_id cmd) \<and>
      re_symbol_specs re (c_market_id cmd) \<noteq> None")
    case True
    obtain r e c where res: "reserve_funds_for_order re cmd pc = (r, e, c)" by (rule prod_cases3)
    obtain p where c: "c = cmd\<lparr>c_price := p\<rparr>" using reserve_again(2) [OF res] by blast
    have out: "re1 = e" "cmd1 = (case r of Inl _ \<Rightarrow> set_status Rejected c | Inr _ \<Rightarrow> c)"
      using assms(1) True res by (auto simp: pre_process_command_def split: sum.splits)
    have fc: "fresh_command c" using assms(2) c by (simp add: fresh_command_def)
    have "renewed cmd1 = c"
      using out renewed_fresh [OF fc] by (auto simp: renewed_def set_status_def split: sum.splits)
    with True c out fc reserve_again(1) [OF res] show ?thesis
      by (auto simp: pre_process_command_def split: sum.splits)
  next
    case False
    obtain d e w f where t: "handle_deposit re cmd = (d, e)" "handle_withdrawal re cmd = (w, f)"
      by (metis prod.exhaust)
    with False have "renewed (snd (pre_process_command re cmd pc)) = cmd"
      by (cases "c_command cmd"; cases d; cases w) (simp_all add: pre_process_command_def same)
    then have "renewed cmd1 = cmd" using assms(1) by simp
    with assms show ?thesis by simp
  qed
qed

section \<open>The archive of one command\<close>

lemma journal_stamp:
  assumes "pubs_wf (jp_publications jp)" "jp_publications jp ! MAX_GATEWAYS = Some pub"
    and "journal_command clock wall False jp cmd k = Some (Ok (jp', cmd', archived, k'))"
  shows "\<exists>i t bytes. cmd' = stamp i t cmd \<and> archived = [(pub, bytes)] \<and>
    decode_order_command bytes = Ok (wire_view cmd') \<and> jp_publications jp' = jp_publications jp"
proof -
  have arch: "\<exists>bytes. stamp_and_archive wall (jp_publications jp) c = Some (c\<lparr>c_timestamp := snowflake_timestamp wall\<rparr>, [(pub, bytes)]) \<and>
      decode_order_command bytes = Ok (wire_view (c\<lparr>c_timestamp := snowflake_timestamp wall\<rparr>))" for c
    using stamp_and_archive_result [OF assms(1), of wall c] assms(2) by auto
  have cancel: "c\<lparr>c_timestamp := t\<rparr> = stamp (c_order_id c) t c" for c t by (simp add: stamp_def)
  have other: "c\<lparr>c_order_id := i, c_timestamp := t\<rparr> = stamp i t c" for c i t by (simp add: stamp_def)
  show ?thesis
  proof (cases "c_command cmd = CancelOrder")
    case True
    from arch [of cmd] assms(3) True show ?thesis
      by (auto simp: journal_command_def is_enabled_def or_panic_def cancel) blast
  next
    case False
    obtain r s k2 where g: "generate clock (ucast (c_route_gateway_id cmd)) (jp_snowflake jp) k = Some (r, s, k2)"
      using assms(3) False by (auto simp: journal_command_def is_enabled_def split: option.splits)
    obtain i where r: "r = Inr i"
      using assms(3) False g by (cases r) (simp_all add: journal_command_def is_enabled_def)
    from arch [of "cmd\<lparr>c_order_id := i\<rparr>"] assms(3) False g r show ?thesis
      by (auto simp: journal_command_def is_enabled_def or_panic_def other) blast
  qed
qed

lemma r1_partial:
  assumes "engines_wf engines" "set is \<subseteq> {0..<4}" "distinct is"
    and "pre_process_command (engines ! owner_of (c_user_id cmd)) cmd pc = (re', cmd')"
  shows "r1_stage is pc (engines, cmd) =
    Some (if owner_of (c_user_id cmd) \<in> set is then (engines[owner_of (c_user_id cmd) := re'], cmd') else (engines, cmd))"
proof (cases "owner_of (c_user_id cmd) \<in> set is")
  case True
  let ?o = "owner_of (c_user_id cmd)"
  from True obtain xs ys where s: "is = xs @ ?o # ys" by (meson split_list)
  have d: "?o \<notin> set xs" "?o \<notin> set ys" "set xs \<subseteq> {0..<4}" "set ys \<subseteq> {0..<4}" using assms(2,3) s by auto
  have wf: "engines_wf (engines[?o := re'])"
    using engines_wf_update [OF assms(1)] pre_process_frame [OF assms(4)] by (simp add: only_user_def)
  have run: "r1_handler ?o pc engines cmd = Some (engines[?o := re'], cmd')"
    using assms(1,4) by (simp add: r1_handler_def engines_wf_def)
  have "c_user_id cmd' = c_user_id cmd" using pre_process_frame [OF assms(4)] by simp
  then show ?thesis
    using r1_stage_others [OF assms(1) d(3,1), of pc] r1_stage_others [OF wf d(4), of cmd' pc] d(2) run True
    by (simp add: r1_stage_def s)
qed (simp add: r1_stage_others [OF assms(1,2)])

lemma after_r1_wf:
  assumes "engines_wf engines" "routers_wf (cs_routers cs)" "shards mt" "shards r2"
    and "after_r1 now mt r2 cs (engines, cmd) = Some (cs', cmd')"
  shows "engines_wf (cs_engines cs')" "routers_wf (cs_routers cs')"
proof -
  obtain routers c pc where m: "matching_stage now mt (cs_routers cs, cmd, cs_prices cs) = Some (routers, c, pc)"
    using assms(5) by (auto simp: after_r1_def bind_eq_Some_conv)
  then obtain mr where "router_handler now (cs_routers cs ! market_owner (c_market_id cmd)) cmd (cs_prices cs) = Some (mr, c, pc)"
    "routers = (cs_routers cs)[market_owner (c_market_id cmd) := mr]"
    by (auto simp: matching_stage_value [OF assms(2,3)])
  then have "routers_wf routers" using matching_stage_owner(2) [OF assms(2,3)] by blast
  moreover have "set r2 \<subseteq> {0..<4}" using assms(4) by (simp add: shards_def)
  ultimately show "engines_wf (cs_engines cs')" "routers_wf (cs_routers cs')"
    using r2_stage_total [OF assms(1), of r2 c] m assms(5) by (auto simp: after_r1_def)
qed

definition engine_ready :: "core_state \<Rightarrow> bool" where
  "engine_ready cs \<longleftrightarrow> engines_wf (cs_engines cs) \<and> routers_wf (cs_routers cs)"

definition orders_ok :: "nat list \<times> nat list \<times> nat list \<Rightarrow> bool" where
  "orders_ok orders = (case orders of (r1, mt, r2) \<Rightarrow> shards r1 \<and> shards mt \<and> shards r2)"

lemma replay_one:
  assumes "engine_ready cs" "orders_ok orders" "orders_ok orders'" "fresh_command cmd"
    and "pubs_wf (jp_publications jp)" "jp_publications jp ! MAX_GATEWAYS = Some pub"
    and "live_step before clock wall False now orders jp cs cmd k = Some (Ok (jp', cs', cmd', archived, k'))"
  shows "\<exists>bytes rc. archived = [(pub, bytes)] \<and> handle_replay_fragment True bytes = Some [rc] \<and>
    map_option fst (core_step now' orders' cs rc) = Some cs' \<and>
    engine_ready cs' \<and> jp_publications jp' = jp_publications jp"
proof -
  obtain r1 mt r2 where o: "orders = (r1, mt, r2)" by (rule prod_cases3)
  obtain r1' mt' r2' where o': "orders' = (r1', mt', r2')" by (rule prod_cases3)
  have sh: "shards r1" "shards mt" "shards r2" "shards r1'" "shards mt'" "shards r2'"
    using assms(2,3) by (simp_all add: orders_ok_def o o')
  have wf: "engines_wf (cs_engines cs)" "routers_wf (cs_routers cs)" using assms(1) by (simp_all add: engine_ready_def)
  let ?es = "cs_engines cs" and ?pc = "cs_prices cs" and ?o = "owner_of (c_user_id cmd)"
  obtain re c1 where p: "pre_process_command (?es ! ?o) cmd ?pc = (re, c1)" by (rule prod.exhaust)
  let ?es' = "?es[?o := re]"
  have u: "c_user_id c1 = c_user_id cmd" using pre_process_frame [OF p] by simp
  have wf': "engines_wf ?es'"
    using engines_wf_update [OF wf(1)] pre_process_frame [OF p] by (simp add: only_user_def)
  have tk: "set (take before r1) \<subseteq> {0..<4}" "distinct (take before r1)" "set (drop before r1) \<subseteq> {0..<4}"
    "distinct (drop before r1)" "set r1 = {0..<4}"
    using sh(1) set_take_subset [of before r1] set_drop_subset [of before r1] by (auto simp: shards_def)
  let ?in = "?o \<in> set (take before r1)"
  have split: "?in \<longleftrightarrow> ?o \<notin> set (drop before r1)"
  proof -
    have "set (take before r1) \<union> set (drop before r1) = {0..<4}" using tk(5) by (metis append_take_drop_id set_append)
    moreover have "set (take before r1) \<inter> set (drop before r1) = {}"
      using sh(1) by (metis append_take_drop_id distinct_append shards_def)
    ultimately show ?thesis by auto
  qed
  define x where "x = (if ?in then c1 else cmd)"
  define y where "y = (if ?in then renewed c1 else cmd)"
  have tkr: "r1_stage (take before r1) ?pc (?es, cmd) = Some (if ?in then ?es' else ?es, x)"
    using r1_partial [OF wf(1) tk(1,2) p] by (simp add: x_def)
  obtain jp1 c2 arch k1 where j: "journal_command clock wall False jp x k = Some (Ok (jp1, c2, arch, k1))"
    and rest: "Option.bind (r1_stage (drop before r1) ?pc (if ?in then ?es' else ?es, c2)) (after_r1 now mt r2 cs) = Some (cs', cmd')"
    and same: "jp' = jp1" "archived = arch"
    using assms(7) tkr by (auto simp: live_step_def o or_panic_def obind_or_panic elim!: obind.elims split: option.splits)
  obtain i t bytes where st: "c2 = stamp i t x" "arch = [(pub, bytes)]" "decode_order_command bytes = Ok (wire_view c2)"
    "jp_publications jp1 = jp_publications jp"
    using journal_stamp [OF assms(5,6) j] by blast
  have su: "c_user_id (stamp i t c) = c_user_id c" for c by (simp add: stamp_def)
  have "r1_stage (drop before r1) ?pc (if ?in then ?es' else ?es, c2) = Some (?es', stamp i t c1)"
  proof (cases ?in)
    case True
    then have "?o \<notin> set (drop before r1)" using split by simp
    then show ?thesis using True r1_stage_others [OF wf' tk(3), of "stamp i t c1" ?pc] u by (simp add: st(1) x_def su)
  next
    case False
    then show ?thesis using split r1_partial [OF wf(1) tk(3,4) p] by (simp add: st(1) x_def r1_stage_stamp)
  qed
  with rest have live: "after_r1 now mt r2 cs (?es', stamp i t c1) = Some (cs', cmd')" by simp
  have y: "fresh_command y" "pre_process_command (?es ! ?o) y ?pc = (re, c1)" "c_user_id y = c_user_id cmd"
    using pre_process_again [OF p assms(4)] assms(4) p u by (auto simp: y_def renewed_def)
  let ?rc = "wire_view c2\<lparr>c_status := Processing\<rparr>"
  have rc: "?rc = core_part (stamp i t y)"
    using y(1) assms(4) by (auto simp: st(1) x_def y_def wire_view_def core_part_def stamp_def fresh_command_def renewed_def)
  have "pre_process_command (?es ! ?o) ?rc ?pc = (re, core_part (stamp i t c1))"
    using y(2) by (simp add: rc pre_process_core pre_process_stamp)
  moreover have "c_user_id ?rc = c_user_id cmd" using y(3) by (simp add: rc su)
  ultimately have "r1_stage r1' ?pc (?es, ?rc) = Some (?es', core_part (stamp i t c1))"
    using r1_stage_owner [OF wf(1) sh(4), of ?rc] by simp
  then have "core_step now' orders' cs ?rc = after_r1 now' mt' r2' cs (?es', core_part (stamp i t c1))"
    by (simp add: o' core_step_parts)
  then have "map_option fst (core_step now' orders' cs ?rc) = Some cs'"
    using after_r1_core [OF wf(2) sh(2,3,5,6), of "core_part (stamp i t c1)" "stamp i t c1" now ?es' now'] live
    by (simp add: core_simps)
  with handle_replay_archived [OF st(3)] after_r1_wf [OF wf' wf(2) sh(2,3) live] same st(2,4)
  show ?thesis by (auto simp: engine_ready_def)
qed

section \<open>Runs\<close>

text \<open>How one command is scheduled: the R1 handlers that run before journaling, the clocks, the orders.\<close>

record schedule =
  sc_before :: nat
  sc_wall :: "nat option"
  sc_now :: u64
  sc_orders :: "nat list \<times> nat list \<times> nat list"

text \<open>The commands one after the other, each through all the stages before the next is published, with the
  log of what was archived; \<open>None\<close> when a thread panicked. The disruptor does not do this by itself: it is
  what it does when the producer waits (\<open>Disruptor\<close>).\<close>

fun engine_run ::
    "(nat \<Rightarrow> nat) \<Rightarrow> replay_control \<Rightarrow> (schedule \<times> order_command) list \<Rightarrow> 'p journaling_processor \<Rightarrow> core_state \<Rightarrow>
     nat \<Rightarrow> ('p journaling_processor \<times> core_state \<times> u8 list list \<times> nat) option" where
  "engine_run clock replay [] jp cs k = Some (jp, cs, [], k)"
| "engine_run clock replay ((s, cmd) # rest) jp cs k =
     (case live_step (sc_before s) clock (sc_wall s) replay (sc_now s) (sc_orders s) jp cs cmd k of
        Some (Ok (jp, cs, _, archived, k)) \<Rightarrow>
          map_option (\<lambda>(jp, cs, log, k). (jp, cs, map snd archived @ log, k)) (engine_run clock replay rest jp cs k)
      | _ \<Rightarrow> None)"

text \<open>What comes in from the gateways: the gateway, whether the ring takes it, the bytes.\<close>

fun ingest :: "(u8 \<times> bool \<times> u8 list) list \<Rightarrow> order_command list option" where
  "ingest [] = Some []"
| "ingest ((gateway_id, took, buffer) # rest) =
     Option.bind (handle_fragment gateway_id took buffer) (\<lambda>cmds. map_option ((@) cmds) (ingest rest))"

lemma decoded_fields:
  "decode_order_command buf = Ok cmd \<Longrightarrow> c_events cmd = None \<and> c_balance cmd = (balance_default, balance_default) \<and>
     c_l2_data cmd = None \<and> c_route_gateway_id cmd = 0 \<and> c_original_size cmd = 0"
  by (auto simp: decode_order_command_def obind_Ok_iff)

lemma handle_fragment_fresh: "handle_fragment g took buffer = Some cmds \<Longrightarrow> cmd \<in> set cmds \<Longrightarrow> fresh_command cmd"
  by (auto simp: handle_fragment_def fresh_command_def Let_def dest!: decoded_fields split: outcome.splits if_splits)

lemma ingest_fresh: "ingest fs = Some cmds \<Longrightarrow> cmd \<in> set cmds \<Longrightarrow> fresh_command cmd"
proof (induction fs arbitrary: cmds)
  case (Cons f fs)
  obtain g took buffer where f: "f = (g, took, buffer)" by (rule prod_cases3)
  obtain c rest where c: "handle_fragment g took buffer = Some c" "ingest fs = Some rest" "cmds = c @ rest"
    using Cons.prems(1) by (auto simp: f bind_eq_Some_conv)
  then show ?case using Cons.IH [OF c(2)] handle_fragment_fresh [OF c(1)] Cons.prems(2) by auto
qed simp

text \<open>During a replay journaling does nothing.\<close>

lemma replay_step:
  assumes "engine_ready cs" "orders_ok orders" "map_option fst (core_step now orders cs cmd) = Some cs'"
  shows "\<exists>cmd'. live_step before clock wall True now orders jp cs cmd k = Some (Ok (jp, cs', cmd', [], k))"
proof -
  obtain r1 mt r2 where o: "orders = (r1, mt, r2)" by (rule prod_cases3)
  have "core_step now orders cs cmd =
      Option.bind (r1_stage (take before r1) (cs_prices cs) (cs_engines cs, cmd)) (\<lambda>s.
      Option.bind (r1_stage (drop before r1) (cs_prices cs) s) (after_r1 now mt r2 cs))"
    using r1_stage_append [of "take before r1" "drop before r1" "cs_prices cs" "(cs_engines cs, cmd)"]
    by (cases "r1_stage (take before r1) (cs_prices cs) (cs_engines cs, cmd)") (simp_all add: o core_step_parts)
  moreover obtain cmd1 where "core_step now orders cs cmd = Some (cs', cmd1)" using assms(3) by auto
  ultimately obtain es c where "r1_stage (take before r1) (cs_prices cs) (cs_engines cs, cmd) = Some (es, c)"
    "Option.bind (r1_stage (drop before r1) (cs_prices cs) (es, c)) (after_r1 now mt r2 cs) = Some (cs', cmd1)"
    by (cases "r1_stage (take before r1) (cs_prices cs) (cs_engines cs, cmd)") auto
  then show ?thesis
    by (simp add: o live_step_def journal_command_def is_enabled_def or_panic_def)
qed

lemma live_step_first:
  assumes "journal_command clock wall replay jp cmd k = Some (Ok (jp', cmd', archived, k'))"
    and "core_step now orders cs cmd' = Some (cs', cmd'')"
  shows "live_step 0 clock wall replay now orders jp cs cmd k = Some (Ok (jp', cs', cmd'', archived, k'))"
proof -
  obtain r1 mt r2 where o: "orders = (r1, mt, r2)" by (rule prod_cases3)
  show ?thesis using assms by (simp add: o live_step_def r1_stage_def core_step_parts or_panic_def)
qed

lemma log_replays:
  assumes "engine_ready cs" "pubs_wf (jp_publications jp)" "jp_publications jp ! MAX_GATEWAYS = Some pub"
    and "\<forall>c\<in>set cmds. fresh_command c" "length ss = length cmds" "\<forall>s\<in>set ss. orders_ok (sc_orders s)"
    and "engine_run clock False (zip ss cmds) jp cs k = Some (jp', cs', log, k')"
  shows "\<exists>rcs. map (handle_replay_fragment True) log = map (\<lambda>rc. Some [rc]) rcs \<and> length rcs = length cmds \<and>
    (\<forall>ss2 clock2 jp2 k2. length ss2 = length rcs \<longrightarrow> (\<forall>s\<in>set ss2. orders_ok (sc_orders s)) \<longrightarrow>
       engine_run clock2 True (zip ss2 rcs) jp2 cs k2 = Some ((jp2 :: 'q journaling_processor), cs', [], k2))"
  using assms
proof (induction cmds arbitrary: ss jp cs k log)
  case (Cons c cmds)
  obtain s ss1 where ss: "ss = s # ss1" using Cons.prems(5) by (cases ss) auto
  obtain jp1 cs1 c1 arch k1 log1 where step: "live_step (sc_before s) clock (sc_wall s) False (sc_now s) (sc_orders s) jp cs c k =
      Some (Ok (jp1, cs1, c1, arch, k1))"
    and rest: "engine_run clock False (zip ss1 cmds) jp1 cs1 k1 = Some (jp', cs', log1, k')" "log = map snd arch @ log1"
    using Cons.prems(7) by (auto simp: ss split: option.splits outcome.splits)
  note one = replay_one [OF Cons.prems(1) _ _ _ Cons.prems(2,3) step]
  have ok: "orders_ok (sc_orders s)" "fresh_command c" using Cons.prems(4,6) by (simp_all add: ss)
  obtain bytes rc where a: "arch = [(pub, bytes)]" "handle_replay_fragment True bytes = Some [rc]"
    "engine_ready cs1" "jp_publications jp1 = jp_publications jp"
    using one [OF ok(1) ok(1) ok(2)] by blast
  have state: "map_option fst (core_step now orders cs rc) = Some cs1" if "orders_ok orders" for now orders
    using one [OF ok(1) that ok(2), of now] a(1,2) by auto
  obtain rcs where ih: "map (handle_replay_fragment True) log1 = map (\<lambda>rc. Some [rc]) rcs" "length rcs = length cmds"
    "\<And>ss2 clock2 jp2 k2. length ss2 = length rcs \<Longrightarrow> \<forall>s\<in>set ss2. orders_ok (sc_orders s) \<Longrightarrow>
       engine_run clock2 True (zip ss2 rcs) jp2 cs1 k2 = Some ((jp2 :: 'q journaling_processor), cs', [], k2)"
    using Cons.IH [of cs1 jp1 ss1 k1 log1] Cons.prems(2-6) a(3,4) rest(1) by (auto simp: ss)
  have "engine_run clock2 True (zip ss2 (rc # rcs)) jp2 cs k2 = Some (jp2, cs', [], k2)"
    if len: "length ss2 = length (rc # rcs)" and oks: "\<forall>s\<in>set ss2. orders_ok (sc_orders s)" for ss2 clock2 and jp2 :: "'q journaling_processor" and k2
  proof -
    obtain s2 ss3 where ss2: "ss2 = s2 # ss3" using len by (cases ss2) auto
    have ok2: "orders_ok (sc_orders s2)" using oks by (simp add: ss2)
    obtain c2 where "live_step (sc_before s2) clock2 (sc_wall s2) True (sc_now s2) (sc_orders s2) jp2 cs rc k2 =
        Some (Ok (jp2, cs1, c2, [], k2))"
      using replay_step [OF Cons.prems(1) ok2 state [OF ok2]] by blast
    with ih(3) [of ss3 clock2 jp2 k2] len oks show ?thesis by (simp add: ss2)
  qed
  with ih(1,2) a(1,2) rest(2) show ?case by (intro exI [of _ "rc # rcs"]) simp
qed simp

section \<open>The archive\<close>

text \<open>The recording of a log: the last one with positions that make sense, as long as the frames of the
  log, delivered by the polls in order, with the answers of the ring.\<close>

definition archive_holds :: "archive_env \<Rightarrow> recording_info \<Rightarrow> u8 list list \<Rightarrow> bool list \<Rightarrow> bool" where
  "archive_holds ae rec log takes \<longleftrightarrow>
     (\<exists>ds. ar_recordings ae = Inr ds \<and> fold read_descriptor ds None = Some rec) \<and>
     sint (ri_stop_position rec) = sint (ri_start_position rec) + 96 * int (length log) \<and>
     polled (ar_polls ae) = zip log takes \<and> length takes = length log \<and>
     list_all (\<lambda>p. case p of Inl _ \<Rightarrow> False | Inr _ \<Rightarrow> True) (ar_polls ae) \<and> ar_shutdown ae = (\<lambda>_. False) \<and>
     (\<exists>session. ar_start_replay ae (ri_recording_id rec) (ri_start_position rec)
        (ri_stop_position rec - ri_start_position rec) = Inr session \<and>
      ar_add_subscription ae (replay_channel (ucast session)) REPLAY_STREAM_ID = Inr ()) \<and>
     (\<exists>channel. ar_build_uri ae (ri_stop_position rec) (ri_initial_term_id rec) (ri_term_buffer_length rec) = Inr channel) \<and>
     ar_close ae = Inr ()"

lemma start_replay_reads:
  assumes "archive_holds ae rec log takes" "map (handle_replay_fragment True) log = map (\<lambda>rc. Some [rc]) rcs"
  shows "\<exists>er. start_replay ae = Some (Ok (Some er, map fst (filter snd (zip rcs takes)))) \<and>
    er_recording_id er = ri_recording_id rec"
proof -
  have polls: "\<forall>p\<in>set (ar_polls ae). \<exists>x. p = Inr x"
  proof
    fix p assume "p \<in> set (ar_polls ae)"
    moreover have "list_all (\<lambda>p. case p of Inl _ \<Rightarrow> False | Inr _ \<Rightarrow> True) (ar_polls ae)"
      using assms(1) unfolding archive_holds_def by blast
    ultimately have "case p of Inl _ \<Rightarrow> False | Inr _ \<Rightarrow> True" unfolding list_all_iff by blast
    then show "\<exists>x. p = Inr x" by (cases p) auto
  qed
  have took: "handle_replay_fragment False b = Some []" if "handle_replay_fragment True b = Some [rc]" for b rc
    using that by (auto simp: handle_replay_fragment_def split: outcome.splits)
  have frames: "map (\<lambda>(b, a). handle_replay_fragment a b) (zip log takes) =
      map Some (map (\<lambda>(rc, a). if a then [rc] else []) (zip rcs takes))"
    using assms(2)
  proof (induction log arbitrary: rcs takes)
    case (Cons b log)
    then obtain rc rcs1 where "rcs = rc # rcs1" by (cases rcs) auto
    with Cons show ?case by (cases takes) (auto simp: took)
  qed simp
  have concat: "concat (map (\<lambda>(rc, a). if a then [rc] else []) xs) = map fst (filter snd xs)"
    for xs :: "(order_command \<times> bool) list"
    by (induction xs) auto
  have "replay_loop (ar_shutdown ae) (ri_stop_position rec) (ar_polls ae) 0 (ri_start_position rec) [] =
      Some (Ok (ri_stop_position rec, map fst (filter snd (zip rcs takes))))"
    using replay_loop_reads [OF polls, where shutdown = "ar_shutdown ae" and stop = "ri_stop_position rec"
        and position = "ri_start_position rec" and k = 0 and published = "[]"
        and cmds = "map (\<lambda>(rc, a). if a then [rc] else []) (zip rcs takes)"] frames assms(1)
    by (simp add: archive_holds_def concat)
  then show ?thesis
    using assms(1)
    by (auto simp: archive_holds_def start_replay_def list_recordings_def reader_new_def replay_recording_def
        extended_recording_new_def)
qed

end
