(* ===== verification/Interleaving.thy ===== *)
theory Interleaving
  imports Engine_Invariant Solvency Recovery
begin

text \<open>
  The disruptor with many commands in it. \<^verbatim>\<open>build_disruptor_pipeline\<close> of \<^verbatim>\<open>server/src/engine.rs\<close> gives every
  handler a thread of its own that takes the commands of the ring in order; a handler of a stage may take
  a command once every handler of the stage before has done it, and the producer may publish as long as
  the slowest handler is less than the ring's size behind. So R1 of a command runs while earlier commands
  are still being matched and settled. Here a handler's run on one command is atomic (in the code each
  operation on the balances is, under its lock), the state has the position of each handler, and an action
  is one handler taking its next command. The invariant is that the locked funds of every user cover what
  the resting orders and the commands in flight claim of them.
\<close>

section \<open>The pipeline\<close>

datatype action =
    Publish order_command
  | Journal "u64 option" u64
  | Reserve nat
  | Match nat u64
  | Settle nat
  | Report

text \<open>The commands published so far, and how many of them each handler has done.\<close>

record pipe =
  p_core :: core_state
  p_ring :: "order_command list"
  p_journal :: nat
  p_reserve :: "nat list"
  p_match :: "nat list"
  p_settle :: "nat list"
  p_report :: nat

definition pipe_new :: "core_state \<Rightarrow> pipe" where
  "pipe_new cs = \<lparr>p_core = cs, p_ring = [], p_journal = 0,
     p_reserve = replicate NUM_RISK_ENGINES 0, p_match = replicate NUM_MATCHING_ENGINES 0,
     p_settle = replicate NUM_RISK_ENGINES 0, p_report = 0\<rparr>"

fun enabled :: "action \<Rightarrow> pipe \<Rightarrow> bool" where
  "enabled (Publish cmd) p \<longleftrightarrow> length (p_ring p) < p_report p + BUFFER_SIZE"
| "enabled (Journal i t) p \<longleftrightarrow> p_journal p < length (p_ring p)"
| "enabled (Reserve i) p \<longleftrightarrow> i < length (p_reserve p) \<and> p_reserve p ! i < length (p_ring p)"
| "enabled (Match j now) p \<longleftrightarrow> j < length (p_match p) \<and>
     list_all (\<lambda>c. p_match p ! j < c) (p_journal p # p_reserve p)"
| "enabled (Settle i) p \<longleftrightarrow> i < length (p_settle p) \<and> list_all (\<lambda>c. p_settle p ! i < c) (p_match p)"
| "enabled Report p \<longleftrightarrow> list_all (\<lambda>c. p_report p < c) (p_settle p)"

text \<open>What \<open>journal_command\<close> writes into a command: a new order id, except for a cancellation, and the time.\<close>

definition journaled :: "u64 \<Rightarrow> u64 \<Rightarrow> order_command \<Rightarrow> order_command" where
  "journaled i t cmd = stamp (if c_command cmd = CancelOrder then c_order_id cmd else i) t cmd"

text \<open>One handler on its next command; \<open>None\<close> is a panic. The journaling action carries what the generator
  answers: an id, or \<open>None\<close> when it refuses, which \<open>journal_command\<close> unwraps unless the command is a
  cancellation. The events handler runs \<open>handle_processed_command\<close> on the finished command; only whether
  it panics matters here, and that does not depend on the publications nor on the JSON of the levels
  (\<open>report_independent\<close>).\<close>

definition put_back :: "nat \<Rightarrow> order_command \<Rightarrow> pipe \<Rightarrow> pipe" where
  "put_back k cmd p = p\<lparr>p_ring := (p_ring p)[k := cmd]\<rparr>"

definition do_journal :: "u64 option \<Rightarrow> u64 \<Rightarrow> pipe \<Rightarrow> pipe option" where
  "do_journal i t p = (let k = p_journal p; cmd = p_ring p ! k
     in map_option (\<lambda>i. put_back k (journaled i t cmd) (p\<lparr>p_journal := Suc k\<rparr>))
          (if c_command cmd = CancelOrder then Some (c_order_id cmd) else i))"

definition do_reserve :: "nat \<Rightarrow> pipe \<Rightarrow> pipe option" where
  "do_reserve i p = (let k = p_reserve p ! i; cs = p_core p
     in map_option (\<lambda>(engines, cmd).
            put_back k cmd (p\<lparr>p_core := cs\<lparr>cs_engines := engines\<rparr>, p_reserve := (p_reserve p)[i := Suc k]\<rparr>))
          (r1_handler i (cs_prices cs) (cs_engines cs) (p_ring p ! k)))"

definition do_match :: "nat \<Rightarrow> u64 \<Rightarrow> pipe \<Rightarrow> pipe option" where
  "do_match j now p = (let k = p_match p ! j; cs = p_core p
     in map_option (\<lambda>(routers, cmd, pc).
            put_back k cmd (p\<lparr>p_core := cs\<lparr>cs_routers := routers, cs_prices := pc\<rparr>, p_match := (p_match p)[j := Suc k]\<rparr>))
          (router_at now j (cs_routers cs, p_ring p ! k, cs_prices cs)))"

definition do_settle :: "nat \<Rightarrow> pipe \<Rightarrow> pipe option" where
  "do_settle i p = (let k = p_settle p ! i; cs = p_core p
     in map_option (\<lambda>(engines, cmd).
            put_back k cmd (p\<lparr>p_core := cs\<lparr>cs_engines := engines\<rparr>, p_settle := (p_settle p)[i := Suc k]\<rparr>))
          (r2_handler i (cs_engines cs) (p_ring p ! k)))"

definition do_report :: "pipe \<Rightarrow> pipe option" where
  "do_report p = (let k = p_report p
     in map_option (\<lambda>_. p\<lparr>p_report := Suc k\<rparr>)
          (handle_processed_command (\<lambda>_. None) False (publications_new :: nat publications) (p_ring p ! k)))"

definition perform :: "action \<Rightarrow> pipe \<Rightarrow> pipe option" where
  "perform a p =
     (case a of
        Publish cmd \<Rightarrow> Some (p\<lparr>p_ring := p_ring p @ [cmd]\<rparr>)
      | Journal i t \<Rightarrow> do_journal i t p
      | Reserve i \<Rightarrow> do_reserve i p
      | Match j now \<Rightarrow> do_match j now p
      | Settle i \<Rightarrow> do_settle i p
      | Report \<Rightarrow> do_report p)"

text \<open>
  The bounds a run is assumed to stay in; the code checks none of them. A published command is new. When
  R1 of the user makes a reservation, its exact amount fits 64 bits, and so does the user's balance with
  it (the code truncates the amount of a bid, so a larger order would reserve less than it can spend). A
  command that is matched is admissible in its book: its order id is not resting there, its size is not
  0, the volumes of the book fit 64 bits and a cancellation does not name a hidden ask (one that rests at
  the price of a bid). Every property of a run below is about runs in these bounds.
\<close>

definition fits :: "action \<Rightarrow> pipe \<Rightarrow> bool" where
  "fits a p =
     (case a of
        Publish cmd \<Rightarrow> fresh_command cmd
      | Reserve i \<Rightarrow>
          (let cmd = p_ring p ! (p_reserve p ! i); re = cs_engines (p_core p) ! i
           in i = owner_of (c_user_id cmd) \<longrightarrow>
                reservation_fits re cmd (snd (pre_process_command re cmd (cs_prices (p_core p)))))
      | Match j now \<Rightarrow>
          (let cmd = p_ring p ! (p_match p ! j)
           in j = market_owner (c_market_id cmd) \<longrightarrow> c_status cmd \<noteq> Rejected \<longrightarrow> admissible (p_core p) cmd)
      | _ \<Rightarrow> True)"

inductive pipe_run :: "pipe \<Rightarrow> action list \<Rightarrow> pipe \<Rightarrow> bool" where
  Start: "pipe_run p [] p"
| Step: "pipe_run p as q \<Longrightarrow> enabled a q \<Longrightarrow> fits a q \<Longrightarrow> perform a q = Some r \<Longrightarrow> pipe_run p (as @ [a]) r"

text \<open>The journaling processor itself does what the action says: it stamps the command, or panics on a
  command that is not a cancellation.\<close>

lemma journal_command_stamps:
  assumes "pubs_wf (jp_publications jp)" "journal_command clock wall False jp cmd k = Some r"
  shows "case r of
      Ok (jp', cmd', sent, k') \<Rightarrow> \<exists>i t. cmd' = journaled i t cmd
    | Err e \<Rightarrow> False
    | Panic \<Rightarrow> c_command cmd \<noteq> CancelOrder"
proof -
  have "\<exists>offers. stamp_and_archive wall (jp_publications jp) c =
      Some (c\<lparr>c_timestamp := snowflake_timestamp wall\<rparr>, offers)" for c
    using stamp_and_archive_result [OF assms(1), of wall c] by blast
  then show ?thesis
    using assms(2)
    by (auto simp: journal_command_def is_enabled_def journaled_def stamp_def or_panic_def
        split: if_splits option.splits sum.splits prod.splits) (metis option.inject option.distinct(1) prod.inject)+
qed

text \<open>Whether the events handler panics.\<close>

lemma handler_total:
  assumes "pubs_wf pubs" "snapshot_ok cmd"
  shows "handle_processed_command to_json replay pubs cmd \<noteq> None"
proof -
  obtain b where "publish_orderbook_event to_json (c_market_id cmd) (c_l2_data cmd) = Some b"
    by (rule orderbook_event_total [OF assms(2)])
  then obtain msgs where "status_messages to_json cmd = Some msgs"
    by (cases "c_status cmd") (simp_all add: status_messages_def)
  moreover obtain offers where "publish_response pubs cmd = Some offers"
    using publish_response_result [OF assms(1), of cmd] by blast
  ultimately show ?thesis
    by (cases "c_command cmd") (simp_all add: handle_processed_command_def)
qed

lemma report_independent:
  assumes "pubs_wf pubs" "pubs_wf pubs'"
  shows "handle_processed_command to_json False pubs cmd = None \<longleftrightarrow>
    handle_processed_command to_json' False pubs' cmd = None"
proof -
  have "status_messages to_json cmd = None \<longleftrightarrow> status_messages to_json' cmd = None"
    by (cases "c_status cmd") (simp_all add: status_messages_def publish_orderbook_event_def split: option.split)
  moreover obtain a b where "publish_response pubs cmd = Some a" "publish_response pubs' cmd = Some b"
    using publish_response_result [OF assms(1), of cmd] publish_response_result [OF assms(2), of cmd] by blast
  ultimately show ?thesis
    by (cases "c_command cmd") (auto simp: handle_processed_command_def split: option.split)
qed

lemma do_report_ok: "snapshot_ok (p_ring p ! p_report p) \<Longrightarrow> do_report p = Some (p\<lparr>p_report := Suc (p_report p)\<rparr>)"
  using handler_total [OF pubs_wf_new, of "p_ring p ! p_report p" "\<lambda>_. None" False]
  by (auto simp: do_report_def Let_def)

section \<open>Claims on locked funds\<close>

definition market_claim :: "core_state \<Rightarrow> (u32 \<rightharpoonup> core_market_specification) \<Rightarrow> u64 \<Rightarrow> u16 \<Rightarrow> u32 \<Rightarrow> nat" where
  "market_claim cs specs u a m =
     (case (book_of cs m, specs m) of
        (Some ob, Some spec) \<Rightarrow> book_claim spec m u a (abs_book ob)
      | _ \<Rightarrow> 0)"

text \<open>A command with number \<open>k\<close> of the ring claims its reservation from R1 to matching, and of each user what
  settlement will take from R1 to the R2 handler of that user.\<close>

definition command_claim ::
    "(u32 \<rightharpoonup> core_market_specification) \<Rightarrow> nat list \<Rightarrow> nat list \<Rightarrow> nat list \<Rightarrow> u64 \<Rightarrow> u16 \<Rightarrow> nat \<Rightarrow> order_command \<Rightarrow> nat" where
  "command_claim specs reserved matched settled u a k cmd =
     (if matched ! market_owner (c_market_id cmd) \<le> k
      then (if k < reserved ! owner_of (c_user_id cmd) then reserved_claim specs u a cmd else 0)
      else (if k < settled ! owner_of u then 0 else settled_claim specs u a cmd))"

definition flight_claim :: "(u32 \<rightharpoonup> core_market_specification) \<Rightarrow> pipe \<Rightarrow> u64 \<Rightarrow> u16 \<Rightarrow> nat \<Rightarrow> nat" where
  "flight_claim specs p u a k = command_claim specs (p_reserve p) (p_match p) (p_settle p) u a k (p_ring p ! k)"

text \<open>The locked funds of every user cover the resting orders and the commands in flight.\<close>

definition claims :: "(u32 \<rightharpoonup> core_market_specification) \<Rightarrow> pipe \<Rightarrow> u64 \<Rightarrow> u16 \<Rightarrow> nat" where
  "claims specs p u a = (\<Sum>m\<in>UNIV. market_claim (p_core p) specs u a m) +
     (\<Sum>k<length (p_ring p). flight_claim specs p u a k)"

definition held :: "pipe \<Rightarrow> u64 \<Rightarrow> u16 \<Rightarrow> nat" where
  "held p u a = locked_of (cs_engines (p_core p) ! owner_of u) u a"

definition backed :: "(u32 \<rightharpoonup> core_market_specification) \<Rightarrow> pipe \<Rightarrow> bool" where
  "backed specs p \<longleftrightarrow> (\<forall>u a. claims specs p u a \<le> held p u a)"

definition unmatched :: "order_command \<Rightarrow> bool" where
  "unmatched cmd \<longleftrightarrow> c_events cmd = None \<and> c_status cmd \<notin> {PartiallyFilled, Cancelled}"

definition pipe_wf :: "(u32 \<rightharpoonup> core_market_specification) \<Rightarrow> pipe \<Rightarrow> bool" where
  "pipe_wf specs p \<longleftrightarrow> core_wf (p_core p) \<and> (\<forall>i<4. re_symbol_specs (cs_engines (p_core p) ! i) = specs) \<and>
     length (p_reserve p) = 4 \<and> length (p_match p) = 4 \<and> length (p_settle p) = 4 \<and>
     p_journal p \<le> length (p_ring p) \<and>
     (\<forall>i<4. p_reserve p ! i \<le> length (p_ring p)) \<and>
     (\<forall>j<4. p_match p ! j \<le> p_journal p \<and> (\<forall>i<4. p_match p ! j \<le> p_reserve p ! i)) \<and>
     (\<forall>i<4. \<forall>j<4. p_settle p ! i \<le> p_match p ! j) \<and>
     (\<forall>k<length (p_ring p). p_match p ! market_owner (c_market_id (p_ring p ! k)) \<le> k \<longrightarrow> unmatched (p_ring p ! k)) \<and>
     (\<forall>i<4. p_report p \<le> p_settle p ! i) \<and> (\<forall>k<length (p_ring p). snapshot_ok (p_ring p ! k))"

section \<open>Claims per handler\<close>

lemma reserved_claim_cong:
  assumes "c_market_id c' = c_market_id c \<and> c_status c' = c_status c \<and> c_user_id c' = c_user_id c \<and>
      c_side c' = c_side c \<and> c_price c' = c_price c \<and> c_size c' = c_size c \<and> c_command c' = c_command c"
  shows "reserved_claim specs u a c' = reserved_claim specs u a c"
  using assms by (cases "specs (c_market_id c)") (simp_all add: reserved_claim_def)

lemma journaled_frame [simp]:
  "c_user_id (journaled i t cmd) = c_user_id cmd" "c_market_id (journaled i t cmd) = c_market_id cmd"
  "reserved_claim specs u a (journaled i t cmd) = reserved_claim specs u a cmd"
  "unmatched (journaled i t cmd) = unmatched cmd" "snapshot_ok (journaled i t cmd) = snapshot_ok cmd"
proof -
  show "reserved_claim specs u a (journaled i t cmd) = reserved_claim specs u a cmd"
    by (rule reserved_claim_cong) (simp add: journaled_def stamp_def)
qed (simp_all add: journaled_def stamp_def unmatched_def snapshot_ok_def)

text \<open>The snapshot a handler leaves on a command has as many volumes as prices.\<close>

lemma pre_process_snapshot:
  assumes "pre_process_command re cmd pc = (re', cmd')"
  shows "snapshot_ok cmd' = snapshot_ok cmd"
proof -
  have bid: "c_l2_data c = c_l2_data cmd" if "bid_amount e cmd pc = (r, c)" for e r c
    using that by (auto simp: bid_amount_def Let_def split: option.splits if_splits)
  have res: "c_l2_data c = c_l2_data cmd" if "reserve_funds_for_order e cmd pc = (r, e', c)" for e e' r c
    using that by (auto simp: reserve_funds_for_order_def dest!: bid split: side.splits prod.splits sum.splits)
  have "c_l2_data cmd' = c_l2_data cmd"
    using assms
    by (auto simp: pre_process_command_def set_status_def record_balance0_def dest!: res
        split: if_splits order_command_type.splits prod.splits sum.splits)
  then show ?thesis by (simp add: snapshot_ok_def)
qed

lemma record_snapshot_ok: "snapshot_ok (record_snapshot now ob cmd)"
  by (simp add: snapshot_ok_def record_snapshot_def Let_def)

lemma router_handler_snapshot:
  assumes "router_handler now mr cmd pc = Some (mr', cmd', pc')" "snapshot_ok cmd"
  shows "snapshot_ok cmd'"
proof -
  have rejected: "snapshot_ok (set_status st c) = snapshot_ok c" for st c
    by (simp add: snapshot_ok_def set_status_def)
  have "snapshot_ok cmd'" if "place_order now ob cmd pc = Some (ob', cmd', pc')" for ob ob'
    using that assms(2) by (auto simp: place_order_def Let_def record_snapshot_ok split: if_splits option.splits prod.splits)
  moreover have "snapshot_ok cmd'" if "cancel_order now ob cmd pc = Some (ob', cmd', pc')" for ob ob'
    using that assms(2) by (auto simp: cancel_order_def cancel_in_book_def Let_def record_snapshot_ok rejected
        split: if_splits option.splits prod.splits)
  ultimately show ?thesis
    using assms
    by (auto simp: router_handler_def process_order_def rejected split: if_splits option.splits order_command_type.splits)
qed

lemma r2_settle_snapshot:
  assumes "r2_settle i msk re cmd = (re', cmd')"
  shows "snapshot_ok cmd' = snapshot_ok cmd"
proof -
  have "c_l2_data cmd' = c_l2_data cmd"
    using assms r2_settle_parts [of i msk re cmd] by (cases "settle_events i msk re cmd") (auto split: if_splits)
  then show ?thesis by (simp add: snapshot_ok_def)
qed

lemma pre_process_unmatched:
  assumes "pre_process_command re cmd pc = (re', cmd')" "unmatched cmd"
  shows "unmatched cmd'"
proof -
  have bid: "c_status c = c_status cmd" if "bid_amount e cmd pc = (r, c)" for e r c
    using that by (auto simp: bid_amount_def Let_def split: option.splits if_splits)
  have res: "c_status c = c_status cmd" if "reserve_funds_for_order e cmd pc = (r, e', c)" for e e' r c
    using that by (auto simp: reserve_funds_for_order_def dest!: bid split: side.splits prod.splits sum.splits)
  have "c_status cmd' \<in> {c_status cmd, Rejected, Processed}"
    using assms(1)
    by (auto simp: pre_process_command_def set_status_def record_balance0_def dest!: res
        split: if_splits order_command_type.splits prod.splits sum.splits)
  with assms pre_process_frame [OF assms(1)] show ?thesis by (auto simp: unmatched_def)
qed

text \<open>A price that is reported for an ask does not change what it claims.\<close>

lemma reported_price_claims:
  "due spec m (c_side cmd) (reported_price cmd) = due spec m (c_side cmd) (c_price cmd)"
  "reserve spec (c_side cmd) (unat (reported_price cmd)) n = reserve spec (c_side cmd) (unat (c_price cmd)) n"
  by (cases "c_side cmd"; simp add: due_def [abs_def] taker_refund_def reserve_def reported_price_def)+

lemma settled_placed:
  assumes "specs (c_market_id cmd) = Some spec" "c_events cmd = None"
    and "spec_place cmd B = (st, left, es, B')"
    and "cmd' = record_snapshot now ob' (cmd\<lparr>c_status := st, c_size := left,
      c_events := c_events (with_events es cmd), c_price := reported_price (with_events es cmd)\<rparr>)"
  shows "settled_claim specs u a cmd' \<le> maker_claim spec (c_market_id cmd) u a (op_side (c_side cmd)) es +
    (if u = c_user_id cmd \<and> a = paid_asset (c_market_id cmd) (c_side cmd)
     then taker_claim spec (c_market_id cmd) (c_side cmd) (c_price cmd) (released_status (c_time_in_force cmd) st) left es else 0)"
proof -
  let ?p = "reported_price (with_events es cmd)"
  have f: "c_market_id cmd' = c_market_id cmd" "c_user_id cmd' = c_user_id cmd" "c_side cmd' = c_side cmd"
    "c_status cmd' = st" "c_price cmd' = ?p" "c_size cmd' = left" "c_time_in_force cmd' = c_time_in_force cmd"
    "events_list (c_events cmd') = es"
    using assms(2) by (simp_all add: assms(4) record_snapshot_def Let_def)
  note P = reported_price_claims [where cmd = "with_events es cmd", simplified]
  have "should_handle_cancellation cmd' \<longleftrightarrow> released_status (c_time_in_force cmd) st"
    by (auto simp: should_handle_cancellation_def released_status_def f)
  then have "settled_claim specs u a cmd' = (if st = Rejected \<or> st = Processed then 0
      else maker_claim spec (c_market_id cmd) u a (op_side (c_side cmd)) es +
        (if u = c_user_id cmd \<and> a = paid_asset (c_market_id cmd) (c_side cmd)
         then taker_claim spec (c_market_id cmd) (c_side cmd) (c_price cmd) (released_status (c_time_in_force cmd) st) left es
         else 0))"
    using assms(1) by (auto simp: settled_claim_def f P trades_claim_def taker_claim_def)
  then show ?thesis by simp
qed

lemma settled_quiet: "unmatched cmd \<Longrightarrow> settled_claim specs u a cmd = 0"
  by (auto simp: unmatched_def settled_claim_def should_handle_cancellation_def split: option.split)

lemma book_step_claim:
  assumes wf: "book_wf ob" "ob_market_id ob \<in> dom pc" and m: "m = c_market_id cmd" and spec: "specs m = Some spec"
    and adm: "c_command cmd = PlaceOrder \<Longrightarrow> fresh_id (c_order_id cmd) (abs_book ob) \<and> c_size cmd \<noteq> 0 \<and>
        volume (abs_book ob (op_side (c_side cmd))) < 2 ^ 64"
      "c_command cmd = CancelOrder \<Longrightarrow>
        \<forall>sd. \<forall>x\<in>set (abs_book ob sd). o_order_id x = c_order_id cmd \<longrightarrow> \<not> hidden (abs_book ob) x"
    and st: "c_status cmd \<noteq> Rejected" "unmatched cmd"
    and run: "(case c_command cmd of PlaceOrder \<Rightarrow> place_order now ob cmd pc
      | CancelOrder \<Rightarrow> cancel_order now ob cmd pc | _ \<Rightarrow> Some (ob, cmd, pc)) = Some (ob', cmd', pc')"
  shows "book_claim spec m u a (abs_book ob') + settled_claim specs u a cmd' \<le>
    book_claim spec m u a (abs_book ob) + reserved_claim specs u a cmd"
proof (cases "c_command cmd")
  case PlaceOrder
  obtain s left es B where sp: "spec_place cmd (abs_book ob) = (s, left, es, B)" by (metis prod_cases4)
  from place_order_abs [OF wf(1) _ _ _ st(1) wf(2) sp, of now] adm(1) [OF PlaceOrder] run PlaceOrder
  have ob': "abs_book ob' = B" and cmd': "cmd' = record_snapshot now ob' (cmd\<lparr>c_status := s, c_size := left,
      c_events := c_events (with_events es cmd), c_price := reported_price (with_events es cmd)\<rparr>)" by auto
  have "reserved_claim specs u a cmd = (if u = c_user_id cmd \<and> a = paid_asset m (c_side cmd)
      then reserve spec (c_side cmd) (unat (c_price cmd)) (unat (c_size cmd)) else 0)"
    using PlaceOrder st(1) spec m by (simp add: reserved_claim_def)
  moreover have "settled_claim specs u a cmd' \<le> maker_claim spec m u a (op_side (c_side cmd)) es +
    (if u = c_user_id cmd \<and> a = paid_asset m (c_side cmd)
     then taker_claim spec m (c_side cmd) (c_price cmd) (released_status (c_time_in_force cmd) s) left es else 0)"
    unfolding m by (rule settled_placed [OF _ _ sp cmd']) (use spec m st(2) in \<open>simp_all add: unmatched_def\<close>)
  ultimately show ?thesis using place_claim [OF sp, of spec m u a] unfolding ob' by linarith
next
  case CancelOrder
  show ?thesis
  proof (cases "\<exists>sd. \<exists>x\<in>set (abs_book ob sd). o_order_id x = c_order_id cmd")
    case True
    then obtain sd x where x: "x \<in> set (abs_book ob sd)" "o_order_id x = c_order_id cmd" by blast
    have "o_side x = sd" using book_wf_side [OF wf(1)] x(1) by (simp add: abs_book_def)
    with x have x': "x \<in> set (abs_book ob (o_side x))" by simp
    from cancel_order_abs [OF wf(1) x' x(2) [symmetric] _ st(1) wf(2), of now] adm(2) [OF CancelOrder] x run CancelOrder
    have "abs_book ob' = spec_cancel (o_order_id x) (abs_book ob)"
      and cmd': "cmd' = record_snapshot now ob' (copy_order_to_command x cmd)" by auto
    moreover have "settled_claim specs u a cmd' = (if u = o_user_id x \<and> a = paid_asset m (o_side x)
        then reserve spec (o_side x) (unat (o_price x)) (unat (o_size x)) else 0)"
    proof -
      have "events_list (c_events cmd') = []" "c_status cmd' = Cancelled" "c_market_id cmd' = m"
        "c_user_id cmd' = o_user_id x" "c_side cmd' = o_side x" "c_price cmd' = o_price x" "c_size cmd' = o_size x"
        using st(2) by (simp_all add: cmd' record_snapshot_def copy_order_to_command_def Let_def m unmatched_def)
      then show ?thesis using spec m by (simp add: settled_claim_def should_handle_cancellation_def)
    qed
    ultimately show ?thesis using cancel_claim [where B = "abs_book ob" and spec = spec and m = m and u = u and a = a, OF x'] by simp
  next
    case False
    then have "ob_orders ob (c_order_id cmd) = None"
      using book_ids(4) [OF wf(1), of "c_order_id cmd"] by (metis imageE)
    then have "ob' = ob" "cmd' = set_status Rejected cmd"
      using run CancelOrder st by (auto simp: cancel_order_def cancel_in_book_def split: option.splits)
    then show ?thesis by (simp add: settled_claim_def set_status_def split: option.split)
  qed
qed (use run settled_quiet [OF st(2)] in auto)

lemma market_claim_Some:
  "book_of cs m = Some ob \<Longrightarrow> specs m = Some spec \<Longrightarrow> market_claim cs specs u a m = book_claim spec m u a (abs_book ob)"
  by (simp add: market_claim_def)

lemma market_claim_None: "specs m = None \<Longrightarrow> market_claim cs specs u a m = 0"
  by (simp add: market_claim_def split: option.split)

lemma core_wf_router:
  assumes "core_wf cs" "router_handler now (cs_routers cs ! market_owner (c_market_id cmd)) cmd (cs_prices cs) = Some (mr', cmd', pc')"
    and "router_wf mr' pc'" "dom pc' = dom (cs_prices cs)"
  shows "core_wf (cs\<lparr>cs_routers := (cs_routers cs)[market_owner (c_market_id cmd) := mr'], cs_prices := pc'\<rparr>)"
proof -
  let ?m = "market_owner (c_market_id cmd)"
  have "shards [0, 1, 2, 3]" by (auto simp: shards_def)
  then have "routers_wf ((cs_routers cs)[?m := mr'])"
    using matching_stage_owner(2) [OF _ _ assms(2)] assms(1) by (simp add: core_wf_def)
  moreover have "router_wf ((cs_routers cs)[?m := mr'] ! i) pc'" if "i < 4" for i
    using that assms by (cases "i = ?m") (auto simp: core_wf_def routers_wf_def router_wf_def)
  ultimately show ?thesis using assms(1) by (simp add: core_wf_def)
qed

lemma router_claim:
  assumes wf: "core_wf cs" and un: "unmatched cmd" and adm: "c_status cmd \<noteq> Rejected \<Longrightarrow> admissible cs cmd"
    and run: "router_handler now (cs_routers cs ! market_owner (c_market_id cmd)) cmd (cs_prices cs) = Some (mr', cmd', pc')"
  defines "cs' \<equiv> cs\<lparr>cs_routers := (cs_routers cs)[market_owner (c_market_id cmd) := mr'], cs_prices := pc'\<rparr>"
  shows "market_claim cs' specs u a (c_market_id cmd) + settled_claim specs u a cmd' \<le>
      market_claim cs specs u a (c_market_id cmd) + reserved_claim specs u a cmd"
    and "m \<noteq> c_market_id cmd \<Longrightarrow> market_claim cs' specs u a m = market_claim cs specs u a m"
proof -
  let ?o = "market_owner (c_market_id cmd)"
  let ?mr = "cs_routers cs ! ?o"
  have len: "length (cs_routers cs) = 4" using wf by (simp add: core_wf_def routers_wf_def)
  have here: "market_for_this_handler ?mr (ucast (c_market_id cmd))"
    using wf by (simp add: core_wf_def market_handler_iff)
  have mk: "c_market_id cmd' = c_market_id cmd" using router_handler_frame [OF run] by simp
  have books: "book_of cs' k = mr_order_books (if market_owner k = ?o then mr' else cs_routers cs ! market_owner k) k" for k
    using len by (simp add: book_of_def cs'_def nth_list_update)
  consider (skip) "c_command cmd = DepositFunds \<or> c_command cmd = WithdrawFunds \<or> c_status cmd = Rejected"
    | (no_book) "c_status cmd \<noteq> Rejected" "book_of cs (c_market_id cmd) = None"
        "c_command cmd \<noteq> DepositFunds" "c_command cmd \<noteq> WithdrawFunds"
    | (book) ob where "c_status cmd \<noteq> Rejected" "book_of cs (c_market_id cmd) = Some ob"
        "c_command cmd \<noteq> DepositFunds" "c_command cmd \<noteq> WithdrawFunds" by blast
  then have "(market_claim cs' specs u a (c_market_id cmd) + settled_claim specs u a cmd' \<le>
      market_claim cs specs u a (c_market_id cmd) + reserved_claim specs u a cmd) \<and>
    (m \<noteq> c_market_id cmd \<longrightarrow> market_claim cs' specs u a m = market_claim cs specs u a m)"
  proof cases
    case skip
    then have out: "mr' = ?mr" "cmd' = cmd" using run by (auto simp: router_handler_def)
    then have "book_of cs' k = book_of cs k" for k by (simp add: books) (simp add: book_of_def)
    then show ?thesis using settled_quiet [OF un] out by (simp add: market_claim_def)
  next
    case no_book
    then have out: "mr' = ?mr" "cmd' = set_status Rejected cmd"
      using run here by (auto simp: router_handler_def process_order_def book_of_def)
    then have "book_of cs' k = book_of cs k" for k by (simp add: books) (simp add: book_of_def)
    then show ?thesis
      using out by (simp add: market_claim_def settled_claim_def set_status_def split: option.split)
  next
    case (book ob)
    obtain ob' where step: "(case c_command cmd of PlaceOrder \<Rightarrow> place_order now ob cmd (cs_prices cs)
        | CancelOrder \<Rightarrow> cancel_order now ob cmd (cs_prices cs) | _ \<Rightarrow> Some (ob, cmd, cs_prices cs)) = Some (ob', cmd', pc')"
      and mr': "mr' = ?mr\<lparr>mr_order_books := (mr_order_books ?mr)(c_market_id cmd \<mapsto> ob')\<rparr>"
      using run here book by (auto simp: router_handler_def process_order_def book_of_def)
    have new: "book_of cs' (c_market_id cmd) = Some ob'" by (simp add: books mr')
    have "book_of cs' m = book_of cs m" if "m \<noteq> c_market_id cmd" using that by (simp add: books mr') (simp add: book_of_def)
    then have rest: "m \<noteq> c_market_id cmd \<longrightarrow> market_claim cs' specs u a m = market_claim cs specs u a m"
      by (simp add: market_claim_def)
    show ?thesis
    proof (cases "specs (c_market_id cmd)")
      case None
      with rest mk show ?thesis by (simp add: market_claim_None settled_claim_def)
    next
      case (Some spec)
      have "book_claim spec (c_market_id cmd) u a (abs_book ob') + settled_claim specs u a cmd' \<le>
          book_claim spec (c_market_id cmd) u a (abs_book ob) + reserved_claim specs u a cmd"
        using core_wfD [OF wf book(2)] adm [OF book(1)] book Some un step
        by (intro book_step_claim [where pc = "cs_prices cs" and now = now and pc' = pc'])
          (auto simp: admissible_def)
      with rest new book Some show ?thesis by (simp add: market_claim_Some)
    qed
  qed
  then show "market_claim cs' specs u a (c_market_id cmd) + settled_claim specs u a cmd' \<le>
      market_claim cs specs u a (c_market_id cmd) + reserved_claim specs u a cmd"
    and "m \<noteq> c_market_id cmd \<Longrightarrow> market_claim cs' specs u a m = market_claim cs specs u a m" by blast+
qed

section \<open>The invariant\<close>

lemma list4: "length xs = 4 \<Longrightarrow> list_all P xs \<longleftrightarrow> (\<forall>i<4. P (xs ! i))"
  by (simp add: list_all_length)

text \<open>A handler that puts back the command it has taken moves its own position past it; the claims of
  the other commands stay.\<close>

lemma flight_sum_update:
  fixes f f' :: "nat \<Rightarrow> nat"
  assumes "k < n" "\<And>l. l < n \<Longrightarrow> l \<noteq> k \<Longrightarrow> f' l = f l"
  shows "(\<Sum>l<n. f' l) + f k = (\<Sum>l<n. f l) + f' k"
proof -
  have "(\<Sum>l<n. g l) = g k + (\<Sum>l\<in>{..<n} - {k}. g l)" for g :: "nat \<Rightarrow> nat"
    using assms(1) by (simp add: sum.remove)
  moreover have "(\<Sum>l\<in>{..<n} - {k}. f' l) = (\<Sum>l\<in>{..<n} - {k}. f l)" using assms(2) by (intro sum.cong) auto
  ultimately show ?thesis by simp
qed

lemma market_sum_update:
  fixes f f' :: "u32 \<Rightarrow> nat"
  assumes "\<And>m. m \<noteq> k \<Longrightarrow> f' m = f m"
  shows "(\<Sum>m\<in>UNIV. f' m) + f k = (\<Sum>m\<in>UNIV. f m) + f' k"
proof -
  have "(\<Sum>m\<in>UNIV. g m) = g k + (\<Sum>m\<in>UNIV - {k}. g m)" for g :: "u32 \<Rightarrow> nat"
    by (simp add: sum.remove)
  moreover have "(\<Sum>m\<in>UNIV - {k}. f' m) = (\<Sum>m\<in>UNIV - {k}. f m)" using assms by (intro sum.cong) auto
  ultimately show ?thesis by simp
qed

lemma pipe_wfD:
  assumes "pipe_wf specs p"
  shows "core_wf (p_core p)" "engines_wf (cs_engines (p_core p))" "routers_wf (cs_routers (p_core p))"
    "length (cs_engines (p_core p)) = 4" "length (cs_routers (p_core p)) = 4"
    "\<And>i. i < 4 \<Longrightarrow> re_symbol_specs (cs_engines (p_core p) ! i) = specs"
    "length (p_reserve p) = 4" "length (p_match p) = 4" "length (p_settle p) = 4"
    "p_journal p \<le> length (p_ring p)"
    "\<And>i. i < 4 \<Longrightarrow> p_reserve p ! i \<le> length (p_ring p)"
    "\<And>j. j < 4 \<Longrightarrow> p_match p ! j \<le> p_journal p" "\<And>i j. i < 4 \<Longrightarrow> j < 4 \<Longrightarrow> p_match p ! j \<le> p_reserve p ! i"
    "\<And>i j. i < 4 \<Longrightarrow> j < 4 \<Longrightarrow> p_settle p ! i \<le> p_match p ! j"
    "\<And>k. k < length (p_ring p) \<Longrightarrow> p_match p ! market_owner (c_market_id (p_ring p ! k)) \<le> k \<Longrightarrow> unmatched (p_ring p ! k)"
    "\<And>i. i < 4 \<Longrightarrow> p_report p \<le> p_settle p ! i" "\<And>k. k < length (p_ring p) \<Longrightarrow> snapshot_ok (p_ring p ! k)"
  using assms by (auto simp: pipe_wf_def core_wf_def engines_wf_def routers_wf_def)

lemma publish_keeps:
  assumes "pipe_wf specs p" "fresh_command cmd" "q = p\<lparr>p_ring := p_ring p @ [cmd]\<rparr>"
  shows "pipe_wf specs q" "p_core q = p_core p"
    "k < length (p_ring p) \<Longrightarrow> flight_claim specs q u a k = flight_claim specs p u a k"
    "flight_claim specs q u a (length (p_ring p)) = 0"
proof -
  note w = pipe_wfD [OF assms(1)]
  show "p_core q = p_core p" using assms(3) by simp
  show "pipe_wf specs q"
    using assms(1,2) w(15) by (auto simp: pipe_wf_def assms(3) nth_append less_Suc_eq le_SucI unmatched_def fresh_command_def snapshot_ok_def)
  show "k < length (p_ring p) \<Longrightarrow> flight_claim specs q u a k = flight_claim specs p u a k"
    by (simp add: flight_claim_def assms(3) nth_append)
  have "p_match p ! market_owner (c_market_id cmd) \<le> length (p_ring p)"
    using w(10) w(12) [of "market_owner (c_market_id cmd)"] by simp
  then show "flight_claim specs q u a (length (p_ring p)) = 0"
    using w(11) [of "owner_of (c_user_id cmd)"] by (simp add: flight_claim_def command_claim_def assms(3))
qed

lemma journal_keeps:
  assumes "pipe_wf specs p" "p_journal p < length (p_ring p)" "do_journal i t p = Some q"
  shows "pipe_wf specs q" "p_core q = p_core p" "length (p_ring q) = length (p_ring p)"
    "k < length (p_ring p) \<Longrightarrow> flight_claim specs q u a k = flight_claim specs p u a k"
proof -
  note w = pipe_wfD [OF assms(1)]
  obtain i' where q: "q = put_back (p_journal p) (journaled i' t (p_ring p ! p_journal p)) (p\<lparr>p_journal := Suc (p_journal p)\<rparr>)"
    using assms(3) by (auto simp: do_journal_def Let_def)
  show "p_core q = p_core p" "length (p_ring q) = length (p_ring p)"
    by (simp_all add: q put_back_def)
  show "pipe_wf specs q"
    using assms(1,2) w(12,15,17)
    by (auto simp: pipe_wf_def q put_back_def nth_list_update le_SucI)
  show "k < length (p_ring p) \<Longrightarrow> flight_claim specs q u a k = flight_claim specs p u a k"
    using w(12) [of "market_owner (c_market_id (p_ring p ! k))"] assms(2)
    by (cases "k = p_journal p") (simp_all add: flight_claim_def command_claim_def q put_back_def)
qed

lemma reserved_claim_other: "u \<noteq> c_user_id cmd \<Longrightarrow> reserved_claim specs u a cmd = 0"
  by (simp add: reserved_claim_def split: option.split)

text \<open>A handler that has done command \<open>k\<close> has its position changed for \<open>k\<close> only.\<close>

lemma cursor_moved:
  assumes "xs ! i = k" "l \<noteq> k"
  shows "l < xs[i := Suc k] ! j \<longleftrightarrow> l < xs ! j" "xs[i := Suc k] ! j \<le> l \<longleftrightarrow> xs ! j \<le> l"
  using assms by (cases "i < length xs"; cases "i = j"; auto simp: nth_list_update list_update_beyond)+

lemma command_claim_moved:
  assumes "l \<noteq> k"
  shows "reserved ! i = k \<Longrightarrow>
      command_claim specs (reserved[i := Suc k]) matched settled u a l cmd = command_claim specs reserved matched settled u a l cmd"
    "matched ! i = k \<Longrightarrow>
      command_claim specs reserved (matched[i := Suc k]) settled u a l cmd = command_claim specs reserved matched settled u a l cmd"
    "settled ! i = k \<Longrightarrow>
      command_claim specs reserved matched (settled[i := Suc k]) u a l cmd = command_claim specs reserved matched settled u a l cmd"
  using assms by (simp_all add: command_claim_def cursor_moved)

lemma reserve_keeps:
  assumes wf: "pipe_wf specs p" and i: "i < 4" "p_reserve p ! i < length (p_ring p)" and fit: "fits (Reserve i) p"
  shows "\<exists>q. do_reserve i p = Some q \<and> pipe_wf specs q \<and>
    (\<forall>u a. claims specs q u a + held p u a \<le> claims specs p u a + held q u a)"
proof -
  note w = pipe_wfD [OF wf]
  let ?k = "p_reserve p ! i" and ?cs = "p_core p"
  let ?cmd = "p_ring p ! ?k" and ?re = "cs_engines ?cs ! i"
  obtain re' cmd' where p: "pre_process_command ?re ?cmd (cs_prices ?cs) = (re', cmd')" by (rule prod.exhaust)
  note fr = pre_process_frame [OF p]
  define q where "q = put_back ?k cmd' (p\<lparr>p_core := ?cs\<lparr>cs_engines := (cs_engines ?cs)[i := re']\<rparr>,
      p_reserve := (p_reserve p)[i := Suc ?k]\<rparr>)"
  have q: "do_reserve i p = Some q"
    using p i w(4) by (simp add: do_reserve_def r1_handler_def q_def Let_def)
  have parts: "p_ring q = (p_ring p)[?k := cmd']" "p_reserve q = (p_reserve p)[i := Suc ?k]" "p_match q = p_match p"
    "p_settle q = p_settle p" "p_journal q = p_journal p" "p_report q = p_report p" "cs_engines (p_core q) = (cs_engines ?cs)[i := re']"
    "cs_routers (p_core q) = cs_routers ?cs" "cs_prices (p_core q) = cs_prices ?cs"
    by (simp_all add: q_def put_back_def)
  have le: "p_match p ! market_owner (c_market_id ?cmd) \<le> ?k" using w(13) i(1) by simp
  have shard: "same_shard ?re re'" using fr by (simp add: only_user_def)
  have books: "market_claim (p_core q) specs u a m = market_claim ?cs specs u a m" for u a m
    by (simp add: market_claim_def book_of_def parts)
  have "pipe_wf specs q"
    using wf w i le shard engines_wf_update [OF w(2) shard] pre_process_unmatched [OF p w(15) [OF i(2) le]] fr
      pre_process_snapshot [OF p] w(17) [OF i(2)]
    by (auto simp: pipe_wf_def core_wf_def parts nth_list_update same_shard_def le_SucI)
  moreover have "claims specs q u a + held p u a \<le> claims specs p u a + held q u a" for u a
  proof -
    have "flight_claim specs q u a l = flight_claim specs p u a l" if "l \<noteq> ?k" for l
      using that by (simp add: flight_claim_def parts command_claim_moved)
    from flight_sum_update [OF i(2), of "flight_claim specs q u a", OF this]
    have sum: "claims specs q u a + flight_claim specs p u a ?k = claims specs p u a + flight_claim specs q u a ?k"
      by (simp add: claims_def books) (simp add: parts)
    have "flight_claim specs q u a ?k + held p u a \<le> flight_claim specs p u a ?k + held q u a"
    proof (cases "owner_of (c_user_id ?cmd) = i")
      case True
      have now: "flight_claim specs p u a ?k = 0" "flight_claim specs q u a ?k = reserved_claim specs u a cmd'"
        using le True w(7) i fr by (simp_all add: flight_claim_def command_claim_def parts)
      show ?thesis
      proof (cases "owner_of u = i")
        case own: True
        have "user_id_for_this_handler ?re (c_user_id ?cmd)" using handler_iff [OF w(2) i(1)] True by simp
        moreover have "reservation_fits ?re ?cmd cmd'" using fit True p by (simp add: fits_def Let_def)
        ultimately have "locked_of ?re u a + reserved_claim specs u a cmd' \<le> locked_of re' u a"
          using pre_process_locked [OF p, of u a] w(6) [OF i(1)] by simp
        then show ?thesis using now own i(1) w(4) by (simp add: held_def parts)
      next
        case False
        then have "u \<noteq> c_user_id cmd'" using True fr by auto
        with now False show ?thesis by (simp add: reserved_claim_other held_def parts)
      qed
    next
      case False
      then have "re' = ?re" "cmd' = ?cmd"
        using r1_foreign [OF w(2) i(1), of ?cmd "cs_prices ?cs"] p w(4) i(1)
        by (auto simp: r1_handler_def pre_process_command_def handler_iff [OF w(2)])
      with False show ?thesis by (simp add: flight_claim_def command_claim_def parts held_def)
    qed
    with sum show ?thesis by linarith
  qed
  ultimately show ?thesis using q by blast
qed

lemma match_keeps:
  assumes wf: "pipe_wf specs p" and j: "j < 4" "p_match p ! j < p_journal p" "\<And>i. i < 4 \<Longrightarrow> p_match p ! j < p_reserve p ! i"
    and fit: "fits (Match j now) p"
  shows "\<exists>q. do_match j now p = Some q \<and> pipe_wf specs q \<and>
    (\<forall>u a. claims specs q u a + held p u a \<le> claims specs p u a + held q u a)"
proof -
  note w = pipe_wfD [OF wf]
  let ?k = "p_match p ! j" and ?cs = "p_core p"
  let ?cmd = "p_ring p ! ?k" and ?mr = "cs_routers ?cs ! j"
  have k: "?k < length (p_ring p)" using j(2) w(10) by simp
  have "\<exists>mr' cmd' pc'. router_handler now ?mr ?cmd (cs_prices ?cs) = Some (mr', cmd', pc') \<and>
      core_wf (?cs\<lparr>cs_routers := (cs_routers ?cs)[j := mr'], cs_prices := pc'\<rparr>) \<and> c_market_id cmd' = c_market_id ?cmd"
  proof (cases "market_owner (c_market_id ?cmd) = j")
    case True
    show ?thesis
    proof (cases "c_status ?cmd = Rejected")
      case rej: True
      then show ?thesis using w(1) by (simp add: router_handler_def)
    next
      case False
      then have "admissible ?cs ?cmd" using fit True by (simp add: fits_def Let_def)
      from router_step [OF w(1) this, of ?cmd now] obtain mr' cmd' pc' where
        run: "router_handler now (cs_routers ?cs ! market_owner (c_market_id ?cmd)) ?cmd (cs_prices ?cs) = Some (mr', cmd', pc')"
        "router_wf mr' pc'" "dom pc' = dom (cs_prices ?cs)" by blast
      from run(1) core_wf_router [OF w(1) run] router_handler_frame [OF run(1)] show ?thesis unfolding True by blast
    qed
  next
    case False
    then show ?thesis
      using router_handler_foreign [of ?mr ?cmd now "cs_prices ?cs"] w(1) by (simp add: market_handler_iff [OF w(3) j(1)])
  qed
  then obtain mr' cmd' pc' where run: "router_handler now ?mr ?cmd (cs_prices ?cs) = Some (mr', cmd', pc')"
    and cwf: "core_wf (?cs\<lparr>cs_routers := (cs_routers ?cs)[j := mr'], cs_prices := pc'\<rparr>)"
    and mk: "c_market_id cmd' = c_market_id ?cmd" by blast
  define q where "q = put_back ?k cmd' (p\<lparr>p_core := ?cs\<lparr>cs_routers := (cs_routers ?cs)[j := mr'], cs_prices := pc'\<rparr>,
      p_match := (p_match p)[j := Suc ?k]\<rparr>)"
  have q: "do_match j now p = Some q"
    using run j(1) w(5) by (simp add: do_match_def router_at_def q_def Let_def)
  have parts: "p_ring q = (p_ring p)[?k := cmd']" "p_reserve q = p_reserve p" "p_match q = (p_match p)[j := Suc ?k]"
    "p_settle q = p_settle p" "p_journal q = p_journal p" "p_report q = p_report p" "cs_engines (p_core q) = cs_engines ?cs"
    "p_core q = ?cs\<lparr>cs_routers := (cs_routers ?cs)[j := mr'], cs_prices := pc'\<rparr>"
    by (simp_all add: q_def put_back_def)
  have other: "mr' = ?mr \<and> cmd' = ?cmd \<and> pc' = cs_prices ?cs" if "market_owner (c_market_id ?cmd) \<noteq> j"
    using router_handler_foreign [of ?mr ?cmd now "cs_prices ?cs"] run that
    by (simp add: market_handler_iff [OF w(3) j(1)])
  have "unmatched (p_ring q ! l)" if "l < length (p_ring q)" "p_match q ! market_owner (c_market_id (p_ring q ! l)) \<le> l" for l
  proof (cases "l = ?k")
    case True
    then have "market_owner (c_market_id ?cmd) \<noteq> j" using that(2) k mk w(8) j(1) by (auto simp: parts)
    with other that(2) True k w(15) [of l] show ?thesis by (simp add: parts)
  next
    case False
    then show ?thesis using that w(15) [of l] by (simp add: parts cursor_moved)
  qed
  moreover have "re_symbol_specs (cs_engines (p_core q) ! i) = specs" if "i < 4" for i
    using w(6) [OF that] by (simp add: parts)
  ultimately have "pipe_wf specs q"
    using wf cwf w(10-14) j router_handler_snapshot [OF run w(17) [OF k]]
    by (auto simp: pipe_wf_def parts nth_list_update Suc_leI le_SucI)
  moreover have "claims specs q u a + held p u a \<le> claims specs p u a + held q u a" for u a
  proof -
    have "flight_claim specs q u a l = flight_claim specs p u a l" if "l \<noteq> ?k" for l
      using that by (simp add: flight_claim_def parts command_claim_moved)
    from flight_sum_update [OF k, of "flight_claim specs q u a", OF this]
    have flights: "(\<Sum>l<length (p_ring q). flight_claim specs q u a l) + flight_claim specs p u a ?k =
        (\<Sum>l<length (p_ring p). flight_claim specs p u a l) + flight_claim specs q u a ?k" by (simp add: parts)
    have same: "held q u a = held p u a" by (simp add: held_def parts)
    show ?thesis
    proof (cases "market_owner (c_market_id ?cmd) = j")
      case True
      have un: "unmatched ?cmd" using w(15) [OF k] True by simp
      have adm: "c_status ?cmd \<noteq> Rejected \<Longrightarrow> admissible ?cs ?cmd" using fit True by (simp add: fits_def Let_def)
      have run': "router_handler now (cs_routers ?cs ! market_owner (c_market_id ?cmd)) ?cmd (cs_prices ?cs) = Some (mr', cmd', pc')"
        unfolding True by (rule run)
      note law = router_claim [OF w(1) un adm run', where specs = specs and u = u and a = a, unfolded True, folded parts(8)]
      have "flight_claim specs p u a ?k = reserved_claim specs u a ?cmd"
        using True j(3) [of "owner_of (c_user_id ?cmd)"] by (simp add: flight_claim_def command_claim_def)
      moreover have "flight_claim specs q u a ?k = settled_claim specs u a cmd'"
        using True mk k j(1) w(8) w(14) [of "owner_of u" j] by (simp add: flight_claim_def command_claim_def parts)
      ultimately show ?thesis
        using flights same law(1) market_sum_update [of "c_market_id ?cmd" "market_claim (p_core q) specs u a", OF law(2)]
        by (simp add: claims_def)
    next
      case False
      then have "p_core q = ?cs" "flight_claim specs q u a ?k = flight_claim specs p u a ?k"
        using other k by (simp_all add: parts flight_claim_def command_claim_def)
      with flights same show ?thesis by (simp add: claims_def)
    qed
  qed
  ultimately show ?thesis using q by blast
qed

lemma settle_keeps:
  assumes wf: "pipe_wf specs p" and i: "i < 4" "\<And>j. j < 4 \<Longrightarrow> p_settle p ! i < p_match p ! j"
  shows "\<exists>q. do_settle i p = Some q \<and> pipe_wf specs q \<and>
    (\<forall>u a. claims specs q u a + held p u a \<le> claims specs p u a + held q u a)"
proof -
  note w = pipe_wfD [OF wf]
  let ?k = "p_settle p ! i" and ?cs = "p_core p"
  let ?cmd = "p_ring p ! ?k" and ?re = "cs_engines ?cs ! i"
  have k: "?k < length (p_ring p)" using i(2) [of 0] w(10) w(12) [of 0] by simp
  have "\<exists>re' cmd'. r2_handler i (cs_engines ?cs) ?cmd = Some ((cs_engines ?cs)[i := re'], cmd') \<and> same_shard ?re re' \<and>
      c_market_id cmd' = c_market_id ?cmd \<and>
      snapshot_ok cmd' = snapshot_ok ?cmd \<and>
      (\<forall>u a. locked_of ?re u a \<le> locked_of re' u a + settled_claim specs u a ?cmd \<and>
        settled_claim specs u a cmd' = settled_claim specs u a ?cmd)"
  proof (cases "c_status ?cmd = Rejected \<or> c_status ?cmd = Processed")
    case True
    then show ?thesis by (intro exI [of _ ?re] exI [of _ ?cmd]) (auto simp: r2_handler_def same_shard_def)
  next
    case False
    obtain re' cmd' where run: "r2_settle i 3 ?re ?cmd = (re', cmd')" by (rule prod.exhaust)
    have "r2_handler i (cs_engines ?cs) ?cmd = Some ((cs_engines ?cs)[i := re'], cmd')"
      using False run i(1) w(4) by (simp add: r2_handler_def)
    then show ?thesis using r2_settle_locked [OF run w(6) [OF i(1)]] r2_settle_snapshot [OF run] False by blast
  qed
  then obtain re' cmd' where run: "r2_handler i (cs_engines ?cs) ?cmd = Some ((cs_engines ?cs)[i := re'], cmd')"
    and shard: "same_shard ?re re'" and mk: "c_market_id cmd' = c_market_id ?cmd"
    and snap: "snapshot_ok cmd' = snapshot_ok ?cmd"
    and law: "\<And>u a. locked_of ?re u a \<le> locked_of re' u a + settled_claim specs u a ?cmd"
      "\<And>u a. settled_claim specs u a cmd' = settled_claim specs u a ?cmd" by blast
  define q where "q = put_back ?k cmd' (p\<lparr>p_core := ?cs\<lparr>cs_engines := (cs_engines ?cs)[i := re']\<rparr>,
      p_settle := (p_settle p)[i := Suc ?k]\<rparr>)"
  have q: "do_settle i p = Some q"
    using run by (simp add: do_settle_def q_def Let_def)
  have parts: "p_ring q = (p_ring p)[?k := cmd']" "p_reserve q = p_reserve p" "p_match q = p_match p"
    "p_settle q = (p_settle p)[i := Suc ?k]" "p_journal q = p_journal p" "p_report q = p_report p"
    "cs_engines (p_core q) = (cs_engines ?cs)[i := re']"
    "cs_routers (p_core q) = cs_routers ?cs" "cs_prices (p_core q) = cs_prices ?cs"
    by (simp_all add: q_def put_back_def)
  have matched: "\<not> p_match p ! market_owner (c_market_id ?cmd) \<le> ?k"
    using i(2) [of "market_owner (c_market_id ?cmd)"] by simp
  have books: "market_claim (p_core q) specs u a m = market_claim ?cs specs u a m" for u a m
    by (simp add: market_claim_def book_of_def parts)
  have "unmatched (p_ring q ! l)" if "l < length (p_ring q)" "p_match q ! market_owner (c_market_id (p_ring q ! l)) \<le> l" for l
    using that matched mk k w(15) [of l] by (cases "l = ?k") (simp_all add: parts)
  then have "pipe_wf specs q"
    using wf w(1-14,16,17) i shard engines_wf_update [OF w(2) shard] snap k
    by (auto simp: pipe_wf_def core_wf_def parts nth_list_update same_shard_def Suc_leI le_SucI)
  moreover have "claims specs q u a + held p u a \<le> claims specs p u a + held q u a" for u a
  proof -
    have "flight_claim specs q u a l = flight_claim specs p u a l" if "l \<noteq> ?k" for l
      using that by (simp add: flight_claim_def parts command_claim_moved)
    from flight_sum_update [OF k, of "flight_claim specs q u a", OF this]
    have sum: "claims specs q u a + flight_claim specs p u a ?k = claims specs p u a + flight_claim specs q u a ?k"
      by (simp add: claims_def books) (simp add: parts)
    have "flight_claim specs q u a ?k + held p u a \<le> flight_claim specs p u a ?k + held q u a"
    proof (cases "owner_of u = i")
      case True
      then show ?thesis
        using law(1) [of u a] matched mk k w(4,9) i(1)
        by (simp add: flight_claim_def command_claim_def parts held_def)
    next
      case False
      then show ?thesis using law(2) [of u a] matched mk k
        by (simp add: flight_claim_def command_claim_def parts held_def)
    qed
    with sum show ?thesis by linarith
  qed
  ultimately show ?thesis using q by blast
qed

text \<open>The one panic left: journaling a command that needs an id when the generator refuses.\<close>

definition refused_id :: "action \<Rightarrow> pipe \<Rightarrow> bool" where
  "refused_id a p \<longleftrightarrow> (\<exists>t. a = Journal None t \<and> c_command (p_ring p ! p_journal p) \<noteq> CancelOrder)"

lemma action_keeps:
  assumes wf: "pipe_wf specs p" and en: "enabled a p" "fits a p"
  shows "if refused_id a p then perform a p = None
    else \<exists>q. perform a p = Some q \<and> pipe_wf specs q \<and>
      (\<forall>u b. claims specs q u b + held p u b \<le> claims specs p u b + held q u b)"
proof -
  note w = pipe_wfD [OF wf]
  show ?thesis
  proof (cases a)
    case (Publish cmd)
    have "fresh_command cmd" using en(2) Publish by (simp add: fits_def)
    note law = publish_keeps [OF wf this refl]
    have "claims specs (p\<lparr>p_ring := p_ring p @ [cmd]\<rparr>) u b = claims specs p u b" for u b
      using law(3,4) by (simp add: claims_def)
    with law(1) Publish show ?thesis by (simp add: refused_id_def perform_def held_def)
  next
    case (Journal i t)
    show ?thesis
    proof (cases "do_journal i t p")
      case None
      with Journal show ?thesis by (auto simp: refused_id_def perform_def do_journal_def Let_def split: if_splits)
    next
      case (Some q)
      note law = journal_keeps [OF wf en(1) [unfolded Journal enabled.simps] Some]
      have "claims specs q u b = claims specs p u b" for u b
        using law(4) by (simp add: claims_def law(2,3))
      moreover have "\<not> refused_id a p" using Journal Some by (auto simp: refused_id_def do_journal_def Let_def)
      ultimately show ?thesis using law(1,2) Journal Some by (simp add: perform_def held_def)
    qed
  next
    case (Reserve i)
    with en w(7) reserve_keeps [OF wf, of i] show ?thesis by (simp add: refused_id_def perform_def)
  next
    case (Match j now)
    with en w(7,8) match_keeps [OF wf, of j now] show ?thesis by (simp add: refused_id_def perform_def list4)
  next
    case (Settle i)
    with en w(8,9) settle_keeps [OF wf, of i] show ?thesis by (simp add: refused_id_def perform_def list4)
  next
    case Report
    let ?q = "p\<lparr>p_report := Suc (p_report p)\<rparr>"
    have "p_report p < p_settle p ! i" if "i < 4" for i
      using en(1) Report w(9) that by (simp add: list_all_length)
    moreover from this [of 0] have "p_report p < length (p_ring p)"
      using w(10) w(12) [of 0] w(14) [of 0 0] by simp
    ultimately have "pipe_wf specs ?q" "do_report p = Some ?q"
      using wf do_report_ok w(17) by (auto simp: pipe_wf_def Suc_leI)
    moreover have "claims specs (p\<lparr>p_report := n\<rparr>) u b = claims specs p u b" for n u b
      by (simp add: claims_def flight_claim_def)
    ultimately show ?thesis using Report by (simp add: refused_id_def perform_def held_def)
  qed
qed

lemma run_keeps:
  "pipe_run p as q \<Longrightarrow> pipe_wf specs p \<Longrightarrow> backed specs p \<Longrightarrow> pipe_wf specs q \<and> backed specs q"
proof (induction rule: pipe_run.induct)
  case (Step p as q a r)
  then have q: "pipe_wf specs q" "backed specs q" by simp_all
  with action_keeps [OF q(1) Step.hyps(2,3)] Step.hyps(4) have r: "pipe_wf specs r"
    "\<forall>u b. claims specs r u b + held q u b \<le> claims specs q u b + held r u b" by (auto split: if_splits)
  have "claims specs r u b \<le> held r u b" for u b
    using q(2) [unfolded backed_def, rule_format, of u b] r(2) [rule_format, of u b] by linarith
  with r(1) show ?case by (simp add: backed_def)
qed blast

lemma pipe_new_ok:
  assumes "build_engine symbols specs = Some cs"
  shows "pipe_wf specs (pipe_new cs) \<and> backed specs (pipe_new cs)"
proof -
  obtain cs' where cs': "build_engine symbols specs = Some cs'" "core_wf cs'"
    "\<forall>m. book_of cs' m = (if m \<in> set symbols then Some (order_book_new bid_new ask_new m) else None)"
    "\<forall>i<4. re_symbol_specs (cs_engines cs' ! i) = specs" using initial_state [of symbols specs] by blast
  have cs: "cs' = cs" using cs'(1) assms by simp
  have "abs_book (order_book_new bid_new ask_new m) sd = []" for m sd
    by (cases sd) (simp_all add: abs_book_def side_orders_def order_book_new_def bid_new_def ask_new_def
        bid_iter_def ask_iter_def)
  then have "market_claim cs specs u a m = 0" for u a m
    using cs'(3) by (simp add: market_claim_def cs book_claim_def split: option.split)
  then have "backed specs (pipe_new cs)" by (simp add: backed_def claims_def pipe_new_def)
  moreover have "pipe_wf specs (pipe_new cs)"
    using cs'(2,4) by (simp add: pipe_wf_def pipe_new_def cs NUM_RISK_ENGINES_def NUM_MATCHING_ENGINES_def)
  ultimately show ?thesis by blast
qed

section \<open>Executing a list of actions\<close>

fun run_actions :: "action list \<Rightarrow> pipe \<Rightarrow> pipe option" where
  "run_actions [] p = Some p"
| "run_actions (a # as) p =
     (if enabled a p \<and> fits a p then Option.bind (perform a p) (run_actions as) else None)"

lemma pipe_run_first:
  "pipe_run q as r \<Longrightarrow> enabled a p \<Longrightarrow> fits a p \<Longrightarrow> perform a p = Some q \<Longrightarrow> pipe_run p (a # as) r"
proof (induction rule: pipe_run.induct)
  case (Start q)
  from pipe_run.Step [OF pipe_run.Start Start] show ?case by simp
next
  case (Step q as r b s)
  from pipe_run.Step [OF Step.IH [OF Step.prems] Step.hyps(2-4)] show ?case by simp
qed

lemma run_actions_run: "run_actions as p = Some q \<Longrightarrow> pipe_run p as q"
proof (induction as arbitrary: p)
  case (Cons a as)
  then obtain r where "enabled a p" "fits a p" "perform a p = Some r" "run_actions as r = Some q"
    by (auto split: if_splits bind_splits)
  with Cons.IH pipe_run_first show ?case by blast
qed (simp add: pipe_run.Start)

end
