(* ===== verification/Exact_Settlement.thy ===== *)
theory Exact_Settlement
  imports Solvency
begin

text \<open>
  R2 takes exactly what it means to take of the locked funds, when they suffice: every unlock and every
  debit of a settlement then succeeds. Together with the claims of theory \<open>Solvency\<close> this says that
  no trade leg fails for lack of locked funds.
\<close>

definition event_take ::
    "core_market_specification \<Rightarrow> u32 \<Rightarrow> u64 \<Rightarrow> u16 \<Rightarrow> u64 \<Rightarrow> side \<Rightarrow> u64 \<Rightarrow> trade_event \<Rightarrow> nat" where
  "event_take spec m u a tk sd P e =
     (if u = e_maker_user_id e \<and> a = paid_asset m (op_side sd) then unat (snd (spends spec m (op_side sd) e)) else 0) +
     (if u = tk \<and> a = paid_asset m sd
      then unat (refund_of spec tk sd e (Some P)) + unat (snd (spends spec m sd e)) else 0)"

definition release_take :: "core_market_specification \<Rightarrow> order_command \<Rightarrow> nat" where
  "release_take spec cmd =
     (case c_side cmd of Bid \<Rightarrow> unat (calculate_quote_cost spec (c_price cmd) (c_size cmd)) | Ask \<Rightarrow> unat (c_size cmd))"

text \<open>What the settlement of a command takes of the locked funds of user \<open>u\<close> on asset \<open>a\<close>.\<close>

definition settlement_take :: "(u32 \<rightharpoonup> core_market_specification) \<Rightarrow> u64 \<Rightarrow> u16 \<Rightarrow> order_command \<Rightarrow> nat" where
  "settlement_take specs u a cmd =
     (case specs (c_market_id cmd) of
        None \<Rightarrow> 0
      | Some spec \<Rightarrow>
          if c_status cmd = Rejected \<or> c_status cmd = Processed then 0
          else (\<Sum>e\<leftarrow>events_list (c_events cmd).
                  event_take spec (c_market_id cmd) u a (c_user_id cmd) (c_side cmd) (c_price cmd) e) +
               (if u = c_user_id cmd \<and> a = paid_asset (c_market_id cmd) (c_side cmd) \<and> should_handle_cancellation cmd
                then release_take spec cmd else 0))"

lemma refund_le: "unat (refund_of spec v sd e (Some P)) \<le> unat (taker_refund spec sd P e)"
  by (simp add: refund_of_def taker_refund_def)

lemma take_le_claim: "settlement_take specs u a cmd \<le> settled_claim specs u a cmd"
proof -
  have ev: "(\<Sum>e\<leftarrow>es. event_take spec m u a tk sd P e) \<le> trades_claim spec m u a tk sd P es" for spec m tk sd P es
  proof (induction es)
    case (Cons e es)
    then show ?case
      using spends_le [of spec m "op_side sd" e] trades_claim_Cons [of spec m u a tk sd P e es] refund_le [of spec tk sd e P]
      by (auto simp: event_take_def trades_claim_def due_def)
  qed simp
  have "release_take spec cmd \<le> reserve spec (c_side cmd) (unat (c_price cmd)) (unat (c_size cmd))" for spec
    using cost_le_exact [of spec "c_price cmd" "c_size cmd"] by (simp add: release_take_def reserve_def split: side.split)
  with ev show ?thesis by (auto simp: settlement_take_def settled_claim_def split: option.split intro!: add_mono)
qed

section \<open>Movements\<close>

lemma locked_ops_exact:
  "on_store (unlock_funds v b n) re = (r1, re') \<Longrightarrow> unat n \<le> locked_of re v b \<Longrightarrow>
     r1 = Inr () \<and> locked_of re' u a + (if u = v \<and> a = b then unat n else 0) = locked_of re u a"
  "on_store (subtract_locked_funds v b n) re = (r2, re') \<Longrightarrow> unat n \<le> locked_of re v b \<Longrightarrow>
     (\<exists>x. r2 = Inr x) \<and> locked_of re' u a + (if u = v \<and> a = b then unat n else 0) = locked_of re u a"
proof -
  show "r1 = Inr () \<and> locked_of re' u a + (if u = v \<and> a = b then unat n else 0) = locked_of re u a"
    if run: "on_store (unlock_funds v b n) re = (r1, re')" and le: "unat n \<le> locked_of re v b"
  proof -
    have "n \<le> locked (get_balance (re_balances re) v b)" using le by (simp add: locked_of_def engine_balance_def word_le_nat_alt)
    with run unlock.succeeds [where st = "re_balances re" and u = v and a = b and n = n] le store_after [OF run] show ?thesis
      by (auto simp: on_store_def locked_of_def engine_balance_def unlock.balance_after unat_sub_no_underflow)
  qed
  show "(\<exists>x. r2 = Inr x) \<and> locked_of re' u a + (if u = v \<and> a = b then unat n else 0) = locked_of re u a"
    if run: "on_store (subtract_locked_funds v b n) re = (r2, re')" and le: "unat n \<le> locked_of re v b"
  proof -
    have "n \<le> locked (get_balance (re_balances re) v b)" using le by (simp add: locked_of_def engine_balance_def word_le_nat_alt)
    with run debit_locked.succeeds [where st = "re_balances re" and u = v and a = b and n = n] le store_after [OF run] show ?thesis
      by (auto simp: on_store_def locked_of_def engine_balance_def debit_locked.balance_after unat_sub_no_underflow)
  qed
qed

lemma refund_exact:
  assumes "refund_improvement re v m sd e spec tp = (r, re')"
    and "unat (refund_of spec v sd e tp) \<le> locked_of re v (paid_asset m sd)"
  shows "(\<exists>x. r = Inr x) \<and> locked_of re' u a +
    (if u = v \<and> a = paid_asset m sd then unat (refund_of spec v sd e tp) else 0) = locked_of re u a"
  using assms
  by (auto simp: refund_improvement_def refund_of_def assets_cases split: option.splits if_splits
      dest: locked_ops_exact(1) [where u = u and a = a])

lemma trade_exact:
  assumes "handle_trade_event re v m sd e tp = (re', e')" "re_symbol_specs re m = Some spec"
    and "unat (refund_of spec v sd e tp) + unat (snd (spends spec m sd e)) \<le> locked_of re v (paid_asset m sd)"
  shows "locked_of re' u a +
    (if u = v \<and> a = paid_asset m sd then unat (refund_of spec v sd e tp) + unat (snd (spends spec m sd e)) else 0) =
    locked_of re u a"
proof -
  obtain r where run: "settle_trade re v m sd e spec tp = (r, re', e')"
    using assms by (auto simp: handle_trade_event_def split: prod.splits)
  obtain r1 re1 where ref: "refund_improvement re v m sd e spec tp = (r1, re1)" by (rule prod.exhaust)
  have le1: "unat (refund_of spec v sd e tp) \<le> locked_of re v (paid_asset m sd)" using assms(3) by simp
  note one = refund_exact [OF ref le1]
  obtain x where r1: "r1 = Inr x" using one by blast
  obtain r2 re2 where sub: "on_store (subtract_locked_funds v (paid_asset m sd) (snd (spends spec m sd e))) re1 = (r2, re2)"
    by (rule prod.exhaust)
  have le2: "unat (snd (spends spec m sd e)) \<le> locked_of re1 v (paid_asset m sd)"
    using one [of v "paid_asset m sd"] assms(3) by simp
  note two = locked_ops_exact(2) [OF sub le2]
  obtain y where r2: "r2 = Inr y" using two by blast
  obtain b n r3 where add: "on_store (add_funds v b n) re2 = (r3, re')"
    using run ref r1 sub r2
    by (cases "on_store (add_funds v (fst (receives spec m sd (v = e_maker_user_id e) e))
        (snd (receives spec m sd (v = e_maker_user_id e) e))) re2")
      (auto simp: settle_trade_def Let_def trade_amounts_eq split: sum.splits)
  show ?thesis using locked_ops(3) [OF add, of u a] one [of u a] two [of u a] by (auto split: if_splits)
qed

lemma settle_event_exact:
  assumes "settle_event i 3 tk m sd P re e = (re', e')" "re_symbol_specs re m = Some spec"
    and enough: "\<And>u a. owner_of u = i \<Longrightarrow> event_take spec m u a tk sd P e \<le> locked_of re u a"
    and u: "owner_of u = i"
  shows "locked_of re' u a + event_take spec m u a tk sd P e = locked_of re u a"
proof -
  obtain re1 e1 where one: "(if owned_by_shard i 3 (e_maker_user_id e)
      then handle_trade_event re (e_maker_user_id e) m (op_side sd) e None else (re, e)) = (re1, e1)" by (rule prod.exhaust)
  have two: "(if owned_by_shard i 3 tk then handle_trade_event re1 tk m sd e1 (Some P) else (re1, e1)) = (re', e')"
    using assms(1) one by (simp add: settle_event_def Let_def split: prod.splits)
  have frame: "same_amounts e e1" "same_shard re re1" using handled_amounts [OF one] by simp_all
  have no_refund: "refund_of spec v s x None = 0" for v s x by (simp add: refund_of_def)
  have mk: "locked_of re1 v b + (if v = e_maker_user_id e \<and> b = paid_asset m (op_side sd)
      then unat (snd (spends spec m (op_side sd) e)) else 0) = locked_of re v b" if "owner_of v = i" for v b
  proof (cases "owner_of (e_maker_user_id e) = i")
    case True
    then have run: "handle_trade_event re (e_maker_user_id e) m (op_side sd) e None = (re1, e1)"
      using one by (simp add: owned_by_shard_iff)
    have "unat (snd (spends spec m (op_side sd) e)) \<le> locked_of re (e_maker_user_id e) (paid_asset m (op_side sd))"
      using enough [OF True, of "paid_asset m (op_side sd)"] by (simp add: event_take_def)
    with trade_exact [OF run assms(2), of v b] show ?thesis by (auto simp: no_refund split: if_splits)
  qed (use one that in \<open>auto simp: owned_by_shard_iff\<close>)
  have spec1: "re_symbol_specs re1 m = Some spec" using frame(2) assms(2) by (simp add: same_shard_def)
  have same: "refund_of spec tk sd e1 (Some P) = refund_of spec tk sd e (Some P)" "spends spec m sd e1 = spends spec m sd e"
    using frame(1) by (simp_all add: refund_of_def spends_def same_amounts_def split: side.split)
  show ?thesis
  proof (cases "owner_of tk = i")
    case True
    then have run: "handle_trade_event re1 tk m sd e1 (Some P) = (re', e')" using two by (simp add: owned_by_shard_iff)
    have "unat (refund_of spec tk sd e1 (Some P)) + unat (snd (spends spec m sd e1)) \<le> locked_of re1 tk (paid_asset m sd)"
      unfolding same using enough [OF True, of "paid_asset m sd"] mk [OF True, of "paid_asset m sd"] by (simp add: event_take_def split: if_splits)
    with trade_exact [OF run spec1, of u a] mk [OF u, of a] show ?thesis
      unfolding same by (simp add: event_take_def)
  next
    case False
    with two mk [OF u, of a] u show ?thesis by (auto simp: owned_by_shard_iff event_take_def)
  qed
qed

lemma settle_chain_exact:
  assumes "settle_chain i 3 tk m sd P re c = (re', c')" "re_symbol_specs re m = Some spec"
    and "\<And>u a. owner_of u = i \<Longrightarrow> (\<Sum>e\<leftarrow>chain_list c. event_take spec m u a tk sd P e) \<le> locked_of re u a"
    and "owner_of u = i"
  shows "locked_of re' u a + (\<Sum>e\<leftarrow>chain_list c. event_take spec m u a tk sd P e) = locked_of re u a"
  using assms
proof (induction c arbitrary: re re' c' rule: chain_list.induct)
  case (1 e)
  then obtain e' where run: "settle_event i 3 tk m sd P re e = (re', e')" by (auto split: prod.splits)
  show ?case using settle_event_exact [OF run 1(2) _ 1(4), of a] 1(3) by simp
next
  case (2 e rest)
  obtain re1 e1 where run: "settle_event i 3 tk m sd P re e = (re1, e1)" by (rule prod.exhaust)
  with 2(2) obtain c1 where rest: "settle_chain i 3 tk m sd P re1 rest = (re', c1)" by (auto split: prod.splits)
  have enough: "event_take spec m v b tk sd P e \<le> locked_of re v b" if "owner_of v = i" for v b
    using 2(4) [OF that, of b] by simp
  note one = settle_event_exact [OF run 2(3) enough]
  have spec1: "re_symbol_specs re1 m = Some spec"
    using settle_event_amounts [OF run] 2(3) by (simp add: same_shard_def)
  have "(\<Sum>e\<leftarrow>chain_list rest. event_take spec m v b tk sd P e) \<le> locked_of re1 v b" if "owner_of v = i" for v b
    using 2(4) [OF that, of b] one [OF _ that, of b] by simp
  from 2(1) [OF rest spec1 this 2(5)] one [OF _ 2(5), of a] show ?case by simp
qed

lemma release_exact:
  assumes "re_symbol_specs re (c_market_id cmd) = Some spec"
    and "release_take spec cmd \<le> locked_of re (c_user_id cmd) (paid_asset (c_market_id cmd) (c_side cmd))"
  shows "locked_of (handle_cancellation re cmd) u a +
    (if u = c_user_id cmd \<and> a = paid_asset (c_market_id cmd) (c_side cmd) then release_take spec cmd else 0) = locked_of re u a"
proof (cases "c_side cmd")
  case Bid
  obtain r re' where run: "on_store (unlock_funds (c_user_id cmd) (quote_asset (c_market_id cmd))
      (calculate_quote_cost spec (c_price cmd) (c_size cmd))) re = (r, re')" by (rule prod.exhaust)
  with locked_ops_exact(1) [OF run, of u a] assms Bid show ?thesis
    by (auto simp: handle_cancellation_def release_funds_for_order_def assets_cases release_take_def split: if_splits)
next
  case Ask
  obtain r re' where run: "on_store (unlock_funds (c_user_id cmd) (base_asset (c_market_id cmd)) (c_size cmd)) re = (r, re')"
    by (rule prod.exhaust)
  with locked_ops_exact(1) [OF run, of u a] assms Ask show ?thesis
    by (auto simp: handle_cancellation_def release_funds_for_order_def assets_cases release_take_def split: if_splits)
qed

lemma r2_settle_exact:
  assumes run: "r2_settle i 3 re cmd = (re', cmd')" and specs: "re_symbol_specs re = specs"
    and st: "c_status cmd \<noteq> Rejected" "c_status cmd \<noteq> Processed"
    and enough: "\<And>u a. owner_of u = i \<Longrightarrow> settlement_take specs u a cmd \<le> locked_of re u a"
    and u: "owner_of u = i"
  shows "locked_of re' u a + settlement_take specs u a cmd = locked_of re u a"
proof -
  obtain re1 es where st1: "settle_events i 3 re cmd = (re1, es)" by (rule prod.exhaust)
  have out: "re' = (if owned_by_shard i 3 (c_user_id cmd) then taker_engine re1 cmd else re1)"
    using run r2_settle_parts [OF st1] by (auto split: if_splits)
  show ?thesis
  proof (cases "specs (c_market_id cmd)")
    case None
    then have "re1 = re" using settle_events_locked [OF st1] specs by simp
    moreover have "handle_cancellation re cmd = re"
      using None specs by (simp add: handle_cancellation_def release_funds_for_order_def)
    ultimately show ?thesis using None out by (simp add: taker_engine_def settlement_take_def)
  next
    case (Some spec)
    define evs where "evs v b = (\<Sum>e\<leftarrow>events_list (c_events cmd). event_take spec (c_market_id cmd) v b (c_user_id cmd)
        (c_side cmd) (c_price cmd) e)" for v b
    define rel where "rel v b = (if v = c_user_id cmd \<and> b = paid_asset (c_market_id cmd) (c_side cmd) \<and>
        should_handle_cancellation cmd then release_take spec cmd else 0)" for v b
    have take: "settlement_take specs v b cmd = evs v b + rel v b" for v b
      using Some st by (simp add: settlement_take_def evs_def rel_def)
    have one: "locked_of re1 v b + evs v b = locked_of re v b" if "owner_of v = i" for v b
    proof (cases "c_events cmd")
      case None
      then show ?thesis using st1 by (simp add: settle_events_def evs_def)
    next
      case ev: (Some c)
      obtain c' where "settle_chain i 3 (c_user_id cmd) (c_market_id cmd) (c_side cmd) (c_price cmd) re c = (re1, c')"
        using st1 ev by (auto simp: settle_events_def apsnd_def map_prod_def split: prod.splits)
      moreover have "evs w d \<le> locked_of re w d" if "owner_of w = i" for w d
        using enough [OF that, of d] by (simp add: take)
      ultimately show ?thesis
        using settle_chain_exact [OF _ _ _ that, of "c_user_id cmd" "c_market_id cmd" "c_side cmd" "c_price cmd" re c re1 c' spec b]
          Some specs ev by (simp add: evs_def)
    qed
    show ?thesis
    proof (cases "should_handle_cancellation cmd \<and> owner_of (c_user_id cmd) = i")
      case True
      have spec1: "re_symbol_specs re1 (c_market_id cmd) = Some spec"
        using settle_events_locked [OF st1] specs Some by (simp add: same_shard_def)
      have "release_take spec cmd \<le> locked_of re1 (c_user_id cmd) (paid_asset (c_market_id cmd) (c_side cmd))"
        using enough [of "c_user_id cmd" "paid_asset (c_market_id cmd) (c_side cmd)"] True
          one [of "c_user_id cmd" "paid_asset (c_market_id cmd) (c_side cmd)"] by (simp add: take rel_def)
      from release_exact [OF spec1 this, of u a] one [OF u, of a] True out show ?thesis
        by (simp add: take rel_def taker_engine_def owned_by_shard_iff)
    next
      case False
      then have "rel u a = 0" using u by (auto simp: rel_def)
      with False one [OF u, of a] out show ?thesis by (auto simp: take taker_engine_def owned_by_shard_iff split: if_splits)
    qed
  qed
qed

end
