(* ===== verification/Pipeline_Claims.thy ===== *)
theory Pipeline_Claims
  imports Interleaving Exact_Settlement
begin

text \<open>
  What holds of the pipeline with many commands in flight, and what does not: the locked funds always
  cover the claims on them, settlement never runs short, but the outcome of a sequence of commands
  depends on how the handlers interleave.
\<close>

section \<open>Sample runs\<close>

text \<open>All the handlers on one command, one command after another.\<close>

definition stages :: "u64 \<Rightarrow> u64 \<Rightarrow> action list" where
  "stages i now = [Journal (Some i) now, Reserve 0, Reserve 1, Reserve 2, Reserve 3, Match 0 now, Match 1 now, Match 2 now,
     Match 3 now, Settle 0, Settle 1, Settle 2, Settle 3, Report]"

text \<open>The same with two commands in flight: every handler takes both before the next one runs.\<close>

definition in_pairs :: "u64 \<Rightarrow> u64 \<Rightarrow> u64 \<Rightarrow> action list" where
  "in_pairs i j now = Journal (Some i) now # Journal (Some j) now #
     concat (map (\<lambda>a. [a, a]) [Reserve 0, Reserve 1, Reserve 2, Reserve 3, Match 0 now, Match 1 now, Match 2 now,
     Match 3 now, Settle 0, Settle 1, Settle 2, Settle 3, Report])"

definition sample_core :: core_state where
  "sample_core =
     (let engine = \<lambda>i. \<lparr>re_balances = balance_store_new, re_symbol_specs = [131073 \<mapsto> sample_spec],
            re_shard_id = i, re_shard_mask = 3\<rparr>;
          router = \<lambda>i. \<lparr>mr_order_books = Map.empty, mr_shard_id = i, mr_shard_mask = 3\<rparr>
      in \<lparr>cs_engines = [engine 0, engine 1, engine 2, engine 3],
          cs_routers = [router 0, add_market 131073 (router 1), router 2, router 3],
          cs_prices = [131073 \<mapsto> market_price_default]\<rparr>)"

lemma sample_core: "build_engine [131073] [131073 \<mapsto> sample_spec] = Some sample_core"
  by (simp add: build_engine_def initialize_risk_engines_def initialize_matching_engines_def NUM_RISK_ENGINES_def
      NUM_MATCHING_ENGINES_def risk_engine_new_def count_ones_def router_new_def u64_count_ones_def upt_rec
      sample_core_def Let_def)

lemmas reserve_defs = do_reserve_def r1_handler_def pre_process_command_def user_id_for_this_handler_def
  handle_deposit_def handle_withdrawal_def reserve_funds_for_order_def bid_amount_def on_store_def add_funds_def
  subtract_funds_def lock_funds_def get_balance_mut_def put_balance_def get_balance_def balance_key_new_def
  balance_store_new_def balance_default_def checked_add_def engine_balance_def set_status_def record_balance0_def
  base_asset_def quote_asset_def

lemmas match_defs = do_match_def router_at_def router_handler_def process_order_def market_for_this_handler_def
  add_market_def order_book_new_def ask_new_def bid_new_def place_order_def place_by_tif_def place_fok_def
  can_fill_completely_def ask_iter_def bid_iter_def record_snapshot_def update_price_cache_def update_prices_def
  best_price_def l2_new_def L2SIZE_def market_price_default_def

lemmas settle_defs = do_settle_def r2_handler_def r2_settle_def owned_by_shard_def should_handle_cancellation_def
  handle_cancellation_def release_funds_for_order_def unlock_funds_def record_balances_def

lemmas fits_defs = fits_def fresh_command_def reservation_fits_def solvent_def trade_fits_def paid_asset_def
  owner_of_def market_owner_def admissible_def book_of_def fresh_id_def volume_def abs_book_def side_orders_def all_sides

lemma replicate_four: "replicate 4 x = [x, x, x, x]"
  by (simp add: eval_nat_numeral)

lemmas pipe_defs = pipe_new_def replicate_four NUM_RISK_ENGINES_def NUM_MATCHING_ENGINES_def BUFFER_SIZE_def
  perform_def do_journal_def put_back_def journaled_def stamp_def sample_core_def stages_def in_pairs_def Let_def
  do_report_ok snapshot_ok_def

lemmas sample_defs = mk_deposit_funds_def mk_withdraw_funds_def mk_place_order_def

abbreviation sample_deposit :: order_command where "sample_deposit \<equiv> mk_deposit_funds 1 5 1"
abbreviation sample_fok :: order_command where "sample_fok \<equiv> mk_place_order Fok 1 7 5 Ask 131073 0"
abbreviation sample_withdrawal :: order_command where "sample_withdrawal \<equiv> mk_withdraw_funds 1 5 1"

text \<open>A deposit, then a fill-or-kill order that cannot be filled, up to its settlement.\<close>

lemma sample_killed:
  "\<exists>p q. run_actions (Publish sample_deposit # stages 100 7 @ Publish sample_fok # take 10 (stages 101 7))
       (pipe_new sample_core) = Some p \<and> enabled (Settle 1) p \<and> perform (Settle 1) p = Some q \<and>
     held p 1 1 = 5 \<and> held q 1 1 = 0"
  by (simp add: pipe_defs reserve_defs match_defs settle_defs fits_defs sample_defs held_def locked_of_def)

section \<open>Locked funds\<close>

text \<open>C3. Locked funds back the pipeline: take a run of the pipeline, with any number of commands in flight
  and the handlers interleaved in any way, that stays in the bounds of \<open>fits\<close> (published commands are new;
  every reservation and the balance it is made from fit 64 bits, so that no amount is truncated; a
  command that reaches its book has a fresh id and a size, and a cancellation does not name a hidden
  ask). In every state reached the locked funds of every user on every asset cover all the resting
  orders of the user, the reservations of the commands not yet matched and what settlement will take
  and release for the commands not yet settled. The next action, if it is enabled and in the bounds too,
  panics exactly when it journals a command that needs an order id and the generator refuses one: R1,
  matching, R2 and the events handler never panic. Outside the bounds the first part fails: a bid whose
  cost is truncated reserves too little (see \<open>Risk_Claims\<close>).\<close>

theorem pipeline_backed:
  assumes "build_engine symbols specs = Some cs" "pipe_run (pipe_new cs) as p"
  shows "(\<forall>u a. claims specs p u a \<le> held p u a) \<and> core_wf (p_core p) \<and>
    (enabled x p \<longrightarrow> fits x p \<longrightarrow> (perform x p = None \<longleftrightarrow>
       (\<exists>t. x = Journal None t \<and> c_command (p_ring p ! p_journal p) \<noteq> CancelOrder)))"
proof -
  have p: "pipe_wf specs p" "backed specs p" using run_keeps [OF assms(2)] pipe_new_ok [OF assms(1)] by blast+
  have "perform x p = None \<longleftrightarrow> refused_id x p" if "enabled x p" "fits x p"
    using action_keeps [OF p(1) that] by (auto split: if_splits)
  with p(2) pipe_wfD(1) [OF p(1)] show ?thesis by (simp add: backed_def refused_id_def)
qed

theorem pipeline_backed_witness:
  "\<exists>p. pipe_run (pipe_new sample_core) (Publish sample_deposit # stages 100 7 @ Publish sample_fok # take 10 (stages 101 7)) p \<and>
     claims [131073 \<mapsto> sample_spec] p 1 1 \<le> held p 1 1 \<and> held p 1 1 = 5"
proof -
  obtain p where p: "run_actions (Publish sample_deposit # stages 100 7 @ Publish sample_fok # take 10 (stages 101 7))
      (pipe_new sample_core) = Some p" "held p 1 1 = 5" using sample_killed by blast
  with pipeline_backed [OF sample_core run_actions_run [OF p(1)]] run_actions_run [OF p(1)] show ?thesis by blast
qed

text \<open>C4. Settlement never runs short in the same runs: with any number of commands in flight and any
  interleaving that stays in the bounds of \<open>fits\<close> (no reservation is truncated or overflows its balance,
  and what is matched is admissible), when an R2 handler settles a command it takes of the locked funds
  of each of its users exactly what the trades of the command and its release ask for; no debit and no
  unlock is refused. Without the bound on the reservations this fails, as a truncated cost can lock
  nothing (see \<open>Risk_Claims\<close>).\<close>

theorem settlement_never_short:
  assumes "build_engine symbols specs = Some cs" "pipe_run (pipe_new cs) as p"
    and "enabled (Settle i) p" "perform (Settle i) p = Some q" "owner_of u = i"
  shows "held q u a + settlement_take specs u a (p_ring p ! (p_settle p ! i)) = held p u a"
proof -
  have wf: "pipe_wf specs p" and backed: "backed specs p"
    using run_keeps [OF assms(2)] pipe_new_ok [OF assms(1)] by blast+
  note w = pipe_wfD [OF wf]
  let ?k = "p_settle p ! i"
  let ?cmd = "p_ring p ! ?k" and ?es = "cs_engines (p_core p)"
  have i: "i < 4" and before: "\<And>j. j < 4 \<Longrightarrow> ?k < p_match p ! j"
    using assms(3) w(8,9) by (simp_all add: list4)
  have k: "?k < length (p_ring p)" using before [of 0] w(10) w(12) [of 0] by simp
  have enough: "settlement_take specs v b ?cmd \<le> locked_of (?es ! i) v b" if "owner_of v = i" for v b
  proof -
    have "flight_claim specs p v b ?k = settled_claim specs v b ?cmd"
      using that before [of "market_owner (c_market_id ?cmd)"] by (simp add: flight_claim_def command_claim_def not_le)
    moreover have "flight_claim specs p v b ?k \<le> (\<Sum>l<length (p_ring p). flight_claim specs p v b l)"
      using k by (intro member_le_sum) auto
    ultimately have "settled_claim specs v b ?cmd \<le> held p v b"
      using backed [unfolded backed_def, rule_format, of v b] by (simp add: claims_def)
    with take_le_claim [of specs v b ?cmd] that show ?thesis by (simp add: held_def)
  qed
  show ?thesis
  proof (cases "c_status ?cmd = Rejected \<or> c_status ?cmd = Processed")
    case True
    then have "p_core q = p_core p" "settlement_take specs u a ?cmd = 0"
      using assms(4) by (auto simp: perform_def do_settle_def r2_handler_def put_back_def Let_def settlement_take_def
          split: option.split)
    then show ?thesis by (simp add: held_def)
  next
    case False
    obtain re' cmd' where run: "r2_settle i 3 (?es ! i) ?cmd = (re', cmd')" by (rule prod.exhaust)
    have "cs_engines (p_core q) = ?es[i := re']"
      using assms(4) False run w(4) i by (auto simp: perform_def do_settle_def r2_handler_def put_back_def Let_def)
    then have "held q u a = locked_of re' u a" using assms(5) i w(4) by (simp add: held_def)
    with r2_settle_exact [OF run w(6) [OF i] _ _ enough assms(5)] False assms(5) show ?thesis by (simp add: held_def)
  qed
qed

theorem settlement_never_short_witness:
  "\<exists>p q. perform (Settle 1) p = Some q \<and>
     held q 1 1 + settlement_take [131073 \<mapsto> sample_spec] 1 1 (p_ring p ! (p_settle p ! 1)) = held p 1 1 \<and>
     held p 1 1 = 5 \<and> held q 1 1 = 0"
proof -
  obtain p q where p: "run_actions (Publish sample_deposit # stages 100 7 @ Publish sample_fok # take 10 (stages 101 7))
      (pipe_new sample_core) = Some p" "enabled (Settle 1) p" "perform (Settle 1) p = Some q" "held p 1 1 = 5" "held q 1 1 = 0"
    using sample_killed by blast
  have "owner_of 1 = 1" by (simp add: owner_of_def)
  from settlement_never_short [OF sample_core run_actions_run [OF p(1)] p(2,3) this, of 1] p show ?thesis by blast
qed

section \<open>The outcome depends on the interleaving\<close>

definition published :: "action list \<Rightarrow> order_command list" where
  "published as = concat (map (\<lambda>a. case a of Publish cmd \<Rightarrow> [cmd] | _ \<Rightarrow> []) as)"

lemma one_by_one:
  "\<exists>p. run_actions (Publish sample_deposit # stages 100 7 @ Publish sample_fok # stages 101 7 @
       Publish sample_withdrawal # stages 102 7) (pipe_new sample_core) = Some p \<and> p_report p = 3 \<and>
     map c_order_id (p_ring p) = [100, 101, 102] \<and>
     map c_status (p_ring p) = [Processed, Cancelled, Processed] \<and> available (balance_of (p_core p) 1 1) = 0"
  by (simp add: pipe_defs reserve_defs match_defs settle_defs fits_defs sample_defs balance_of_def)

lemma in_flight_together:
  "\<exists>p. run_actions (Publish sample_deposit # stages 100 7 @ Publish sample_fok # Publish sample_withdrawal # in_pairs 101 102 7)
       (pipe_new sample_core) = Some p \<and> p_report p = 3 \<and>
     map c_order_id (p_ring p) = [100, 101, 102] \<and>
     map c_status (p_ring p) = [Processed, Cancelled, Rejected] \<and> available (balance_of (p_core p) 1 1) = 5"
  by (simp add: pipe_defs reserve_defs match_defs settle_defs fits_defs sample_defs balance_of_def)

text \<open>C26. The outcome depends on the interleaving: from the same engine, the same three commands with the same
  order ids, all of them processed by every handler, can end with the withdrawal done and nothing
  left, or with the withdrawal refused and the funds still there. R1 of a command may run before R2 of the
  one before it has released its reservation.\<close>

theorem pipeline_outcome_depends:
  "\<exists>cs as bs p q. build_engine [131073] [131073 \<mapsto> sample_spec] = Some cs \<and>
     pipe_run (pipe_new cs) as p \<and> pipe_run (pipe_new cs) bs q \<and>
     published as = published bs \<and> p_report p = length (published as) \<and> p_report q = length (published bs) \<and>
     map c_order_id (p_ring p) = map c_order_id (p_ring q) \<and>
     map c_status (p_ring p) = [Processed, Cancelled, Processed] \<and> available (balance_of (p_core p) 1 1) = 0 \<and>
     map c_status (p_ring q) = [Processed, Cancelled, Rejected] \<and> available (balance_of (p_core q) 1 1) = 5"
proof -
  define as where "as = Publish sample_deposit # stages 100 7 @ Publish sample_fok # stages 101 7 @
       Publish sample_withdrawal # stages 102 7"
  define bs where "bs = Publish sample_deposit # stages 100 7 @ Publish sample_fok # Publish sample_withdrawal # in_pairs 101 102 7"
  have pub: "published as = [sample_deposit, sample_fok, sample_withdrawal]" "published bs = published as"
    by (simp_all add: as_def bs_def published_def stages_def in_pairs_def)
  from one_by_one [folded as_def] obtain p where p: "run_actions as (pipe_new sample_core) = Some p" "p_report p = 3" "map c_order_id (p_ring p) = [100, 101, 102]"
      "map c_status (p_ring p) = [Processed, Cancelled, Processed]" "available (balance_of (p_core p) 1 1) = 0"
    by (elim exE conjE)
  from in_flight_together [folded bs_def] obtain q where q: "run_actions bs (pipe_new sample_core) = Some q" "p_report q = 3" "map c_order_id (p_ring q) = [100, 101, 102]"
      "map c_status (p_ring q) = [Processed, Cancelled, Rejected]" "available (balance_of (p_core q) 1 1) = 5"
    by (elim exE conjE)
  note runs = run_actions_run [OF p(1)] run_actions_run [OF q(1)]
  have "length (published as) = 3" by (simp add: pub(1))
  then have reports: "p_report p = length (published as)" "p_report q = length (published bs)"
    by (simp_all only: p(2) q(2) pub(2))
  have ids: "map c_order_id (p_ring p) = map c_order_id (p_ring q)" by (simp only: p(3) q(3))
  show ?thesis
    by (rule exI [of _ sample_core], rule exI [of _ as], rule exI [of _ bs], rule exI [of _ p], rule exI [of _ q], intro conjI)
      (rule sample_core runs(1) runs(2) pub(2) [symmetric] reports ids p(4,5) q(4,5))+
qed

end
