(* ===== verification/Network_Config.thy ===== *)
theory Network_Config
  imports Wire_Text Publications
begin

text \<open>
  Environments, configuration errors and the network configurations of \<^verbatim>\<open>vex-config\<close>
  (\<^verbatim>\<open>environment.rs\<close>, \<^verbatim>\<open>error.rs\<close>, \<^verbatim>\<open>networking.rs\<close>): their defaults per environment, their validation
  in the order of the code, and merging. Environment variables are the parameter \<open>getenv\<close>, \<open>None\<close> where
  \<^verbatim>\<open>std::env::var\<close> fails. Lower-casing is ASCII: the only other characters that Unicode lower-cases to
  ASCII letters give a k, and no name has one.
\<close>

section \<open>Environments\<close>

datatype environment = Development | Test | Production

definition environment_default :: environment where
  "environment_default = Development"

definition to_lowercase :: "string \<Rightarrow> string" where
  "to_lowercase s =
     map (\<lambda>c. let n = of_char c :: nat in if 65 \<le> n \<and> n \<le> 90 then char_of (n + 32) else c) s"

definition environment_from_str :: "string \<Rightarrow> string + environment" where
  "environment_from_str s =
     (let l = to_lowercase s
      in if l \<in> {''development'', ''dev'', ''develop''} then Inr Development
         else if l \<in> {''test'', ''testing''} then Inr Test
         else if l \<in> {''production'', ''prod''} then Inr Production
         else Inl (''Invalid environment: ''  @ [CHR 0x27] @ s @ [CHR 0x27] @
           ''. Valid options: development, test, production''))"

fun detect_in :: "(string \<Rightarrow> string option) \<Rightarrow> string list \<Rightarrow> environment" where
  "detect_in getenv [] = Development"
| "detect_in getenv (var # vars) =
     (case getenv var of
        Some value \<Rightarrow> (case environment_from_str value of Inr env \<Rightarrow> env | Inl _ \<Rightarrow> detect_in getenv vars)
      | None \<Rightarrow> detect_in getenv vars)"

definition detect :: "(string \<Rightarrow> string option) \<Rightarrow> environment" where
  "detect getenv = detect_in getenv [''VEX_ENV'', ''ENVIRONMENT'', ''ENV'', ''NODE_ENV'']"

definition env_is_development :: "environment \<Rightarrow> bool" where "env_is_development e \<longleftrightarrow> e = Development"
definition env_is_test :: "environment \<Rightarrow> bool" where "env_is_test e \<longleftrightarrow> e = Test"
definition env_is_production :: "environment \<Rightarrow> bool" where "env_is_production e \<longleftrightarrow> e = Production"

fun config_file_name :: "environment \<Rightarrow> string" where
  "config_file_name Development = ''config.dev''"
| "config_file_name Test = ''config.test''"
| "config_file_name Production = ''config.prod''"

definition default_config_paths :: "environment \<Rightarrow> string list" where
  "default_config_paths env =
     (let base_name = config_file_name env
      in [''./'' @ base_name @ ''.toml'', ''./'' @ base_name @ ''.yaml'',
          ''./'' @ base_name @ ''.yml'', ''./'' @ base_name @ ''.json'',
          ''./config/'' @ base_name @ ''.toml'', ''./config/'' @ base_name @ ''.yaml'',
          ''./config/'' @ base_name @ ''.yml'', ''./config/'' @ base_name @ ''.json'',
          ''/etc/vex/'' @ base_name @ ''.toml'', ''/etc/vex/'' @ base_name @ ''.yaml'',
          ''/etc/vex/'' @ base_name @ ''.yml'', ''/etc/vex/'' @ base_name @ ''.json''])"

fun env_prefix :: "environment \<Rightarrow> string" where
  "env_prefix Development = ''VEX_DEV''"
| "env_prefix Test = ''VEX_TEST''"
| "env_prefix Production = ''VEX_PROD''"

fun environment_display :: "environment \<Rightarrow> string" where
  "environment_display Development = ''development''"
| "environment_display Test = ''test''"
| "environment_display Production = ''production''"

section \<open>Errors\<close>

datatype config_error =
  CfgIoError string
| CfgParseError string
| CfgSerializationError string
| CfgValidationError string
| CfgEnvironmentError string
| CfgNotFound string
| CfgMergeError string
| CfgNetworkError string
| CfgLoggingError string

fun config_error_display :: "config_error \<Rightarrow> string" where
  "config_error_display (CfgIoError e) = ''IO error: '' @ e"
| "config_error_display (CfgParseError e) = ''Parse error: '' @ e"
| "config_error_display (CfgSerializationError e) = ''Serialization error: '' @ e"
| "config_error_display (CfgValidationError e) = ''Validation error: '' @ e"
| "config_error_display (CfgEnvironmentError e) = ''Environment variable error: '' @ e"
| "config_error_display (CfgNotFound e) = ''Configuration not found: '' @ e"
| "config_error_display (CfgMergeError e) = ''Merge error: '' @ e"
| "config_error_display (CfgNetworkError e) = ''Network configuration error: '' @ e"
| "config_error_display (CfgLoggingError e) = ''Logging configuration error: '' @ e"

definition err_validation :: "string \<Rightarrow> config_error" where "err_validation msg = CfgValidationError msg"
definition err_io :: "string \<Rightarrow> config_error" where "err_io msg = CfgIoError msg"
definition err_parse :: "string \<Rightarrow> config_error" where "err_parse msg = CfgParseError msg"
definition err_not_found :: "string \<Rightarrow> config_error" where "err_not_found msg = CfgNotFound msg"
definition err_network :: "string \<Rightarrow> config_error" where "err_network msg = CfgNetworkError msg"
definition err_logging :: "string \<Rightarrow> config_error" where "err_logging msg = CfgLoggingError msg"

text \<open>A sequence of checks, each with the error it returns when its condition holds.\<close>

fun first_failure :: "(bool \<times> 'e) list \<Rightarrow> 'e + unit" where
  "first_failure [] = Inr ()"
| "first_failure ((bad, e) # checks) = (if bad then Inl e else first_failure checks)"

lemma first_failure_Inr: "first_failure checks = Inr () \<longleftrightarrow> (\<forall>(bad, e)\<in>set checks. \<not> bad)"
  by (induction checks rule: first_failure.induct) auto

section \<open>The core\<close>

record core_networking_config =
  cn_context_dir :: string
  cn_local_address :: string
  cn_initial_port :: u16
  cn_initial_control_port :: u16
  cn_base_gateway_port :: u16
  cn_max_gateways :: u16
  cn_reserved_session_id_low :: i32
  cn_reserved_session_id_high :: i32
  cn_enable_authentication :: bool
  cn_core_id :: string
  cn_buffer_size :: u64
  cn_retry_attempts :: u32
  cn_retry_delay_ms :: u64
  cn_request_control_channel :: string
  cn_response_control_channel :: string
  cn_recording_events_channel :: string
  cn_enable_core_pinning :: bool

definition default_enable_core_pinning :: bool where
  "default_enable_core_pinning = False"

definition core_development_defaults :: core_networking_config where
  "core_development_defaults =
     \<lparr>cn_context_dir = ''/dev/shm/aeron-test-server'', cn_local_address = ''127.0.0.1'',
      cn_initial_port = 40001, cn_initial_control_port = 40002, cn_base_gateway_port = 50000,
      cn_max_gateways = 15, cn_reserved_session_id_low = 1000, cn_reserved_session_id_high = 9999,
      cn_enable_authentication = False, cn_core_id = ''vex-core-dev'', cn_buffer_size = 1024 * 1024,
      cn_retry_attempts = 3, cn_retry_delay_ms = 1000,
      cn_request_control_channel = ''aeron:udp?endpoint=localhost:8010'',
      cn_response_control_channel = ''aeron:udp?endpoint=localhost:0'',
      cn_recording_events_channel = ''aeron:udp?endpoint=localhost:0'', cn_enable_core_pinning = False\<rparr>"

definition core_test_defaults :: core_networking_config where
  "core_test_defaults =
     \<lparr>cn_context_dir = ''/dev/shm/aeron-test-server'', cn_local_address = ''127.0.0.1'',
      cn_initial_port = 40001, cn_initial_control_port = 40002, cn_base_gateway_port = 50000,
      cn_max_gateways = 15, cn_reserved_session_id_low = 1000, cn_reserved_session_id_high = 9999,
      cn_enable_authentication = True, cn_core_id = ''vex-core-test'', cn_buffer_size = 1024 * 1024,
      cn_retry_attempts = 3, cn_retry_delay_ms = 1000,
      cn_request_control_channel = ''aeron:udp?endpoint=localhost:8010'',
      cn_response_control_channel = ''aeron:udp?endpoint=localhost:0'',
      cn_recording_events_channel = ''aeron:udp?endpoint=localhost:0'', cn_enable_core_pinning = False\<rparr>"

definition core_production_defaults :: core_networking_config where
  "core_production_defaults =
     \<lparr>cn_context_dir = ''/var/lib/vex/aeron-core'', cn_local_address = ''127.0.0.1'',
      cn_initial_port = 3521, cn_initial_control_port = 3522, cn_base_gateway_port = 50000,
      cn_max_gateways = 1000, cn_reserved_session_id_low = 1000, cn_reserved_session_id_high = 9999,
      cn_enable_authentication = True, cn_core_id = ''vex-core-prod'', cn_buffer_size = 4 * 1024 * 1024,
      cn_retry_attempts = 5, cn_retry_delay_ms = 2000,
      cn_request_control_channel = ''aeron:udp?endpoint=localhost:8010'',
      cn_response_control_channel = ''aeron:udp?endpoint=localhost:0'',
      cn_recording_events_channel = ''aeron:udp?endpoint=localhost:8012'', cn_enable_core_pinning = True\<rparr>"

fun core_for_environment :: "environment \<Rightarrow> core_networking_config" where
  "core_for_environment Development = core_development_defaults"
| "core_for_environment Test = core_test_defaults"
| "core_for_environment Production = core_production_defaults"

definition core_networking_validate :: "core_networking_config \<Rightarrow> config_error + unit" where
  "core_networking_validate c = first_failure
     [(cn_initial_port c = 0, err_network ''Initial port cannot be 0''),
      (cn_initial_control_port c = 0, err_network ''Initial control port cannot be 0''),
      (cn_initial_port c = cn_initial_control_port c,
        err_network ''Initial port and control port cannot be the same''),
      (cn_max_gateways c = 0, err_network ''Max gateways must be greater than 0''),
      (cn_reserved_session_id_high c \<le>s cn_reserved_session_id_low c,
        err_network ''Reserved session ID low must be less than high''),
      (cn_core_id c = [], err_network ''Core ID cannot be empty''),
      (cn_buffer_size c = 0, err_network ''Buffer size must be greater than 0''),
      (cn_context_dir c = [], err_network ''Context directory cannot be empty'')]"

definition core_networking_merge ::
    "core_networking_config \<Rightarrow> core_networking_config \<Rightarrow> config_error + core_networking_config" where
  "core_networking_merge c other = Inr other"

section \<open>The gateway\<close>

record gateway_networking_config =
  gn_context_dir :: string
  gn_local_address :: string
  gn_core_address :: string
  gn_core_port :: u16
  gn_core_control_port :: u16
  gn_gateway_id :: u8
  gn_max_message_size :: u64
  gn_enable_heartbeat :: bool
  gn_heartbeat_interval_seconds :: u64
  gn_connection_timeout_seconds :: u64
  gn_reconnection_attempts :: u32
  gn_reconnection_delay_ms :: u64
  gn_buffer_size :: u64

definition gateway_development_defaults :: gateway_networking_config where
  "gateway_development_defaults =
     \<lparr>gn_context_dir = ''/tmp/aeron-test-client'', gn_local_address = ''127.0.0.1'',
      gn_core_address = ''127.0.0.1'', gn_core_port = 3521, gn_core_control_port = 3522, gn_gateway_id = 1,
      gn_max_message_size = of_nat ORDERCOMMANDSIZE, gn_enable_heartbeat = True,
      gn_heartbeat_interval_seconds = 10, gn_connection_timeout_seconds = 60, gn_reconnection_attempts = 5,
      gn_reconnection_delay_ms = 2000, gn_buffer_size = 512 * 1024\<rparr>"

definition gateway_test_defaults :: gateway_networking_config where
  "gateway_test_defaults =
     \<lparr>gn_context_dir = ''/dev/shm/aeron-test-client'', gn_local_address = ''127.0.0.1'',
      gn_core_address = ''127.0.0.1'', gn_core_port = 3521, gn_core_control_port = 3522, gn_gateway_id = 1,
      gn_max_message_size = of_nat ORDERCOMMANDSIZE, gn_enable_heartbeat = True,
      gn_heartbeat_interval_seconds = 5, gn_connection_timeout_seconds = 30, gn_reconnection_attempts = 3,
      gn_reconnection_delay_ms = 1000, gn_buffer_size = 256 * 1024\<rparr>"

definition gateway_production_defaults :: gateway_networking_config where
  "gateway_production_defaults =
     \<lparr>gn_context_dir = ''/var/lib/vex/aeron-gateway'', gn_local_address = ''127.0.0.1'',
      gn_core_address = ''127.0.0.1'', gn_core_port = 3521, gn_core_control_port = 3522, gn_gateway_id = 1,
      gn_max_message_size = of_nat ORDERCOMMANDSIZE, gn_enable_heartbeat = True,
      gn_heartbeat_interval_seconds = 5, gn_connection_timeout_seconds = 15, gn_reconnection_attempts = 10,
      gn_reconnection_delay_ms = 5000, gn_buffer_size = 2 * 1024 * 1024\<rparr>"

fun gateway_for_environment :: "environment \<Rightarrow> gateway_networking_config" where
  "gateway_for_environment Development = gateway_development_defaults"
| "gateway_for_environment Test = gateway_test_defaults"
| "gateway_for_environment Production = gateway_production_defaults"

definition gateway_networking_validate :: "gateway_networking_config \<Rightarrow> config_error + unit" where
  "gateway_networking_validate c = first_failure
     [(gn_core_port c = 0, err_network ''Core port cannot be 0''),
      (gn_core_control_port c = 0, err_network ''Core control port cannot be 0''),
      (gn_core_port c = gn_core_control_port c, err_network ''Core port and control port cannot be the same''),
      (of_nat MAX_GATEWAYS \<le> gn_gateway_id c,
        err_network (''Gateway ID must be between 0 and '' @ dec MAX_GATEWAYS @ '' (exclusive)'')),
      (gn_max_message_size c = 0, err_network ''Max message size must be greater than 0''),
      (gn_max_message_size c > 1024 * 1024 * 10, err_network ''Max message size cannot exceed 10MB''),
      (gn_connection_timeout_seconds c = 0, err_network ''Connection timeout must be greater than 0''),
      (gn_heartbeat_interval_seconds c = 0 \<and> gn_enable_heartbeat c,
        err_network ''Heartbeat interval must be greater than 0 when heartbeat is enabled''),
      (gn_context_dir c = [], err_network ''Context directory cannot be empty''),
      (gn_buffer_size c = 0, err_network ''Buffer size must be greater than 0'')]"

definition gateway_networking_merge ::
    "gateway_networking_config \<Rightarrow> gateway_networking_config \<Rightarrow> config_error + gateway_networking_config" where
  "gateway_networking_merge c other = Inr other"

section \<open>What the defaults are\<close>

lemma core_defaults_valid: "core_networking_validate (core_for_environment env) = Inr ()"
  by (cases env)
    (simp_all add: core_networking_validate_def core_development_defaults_def core_test_defaults_def
      core_production_defaults_def word_sle_eq)

lemma gateway_defaults_valid: "gateway_networking_validate (gateway_for_environment env) = Inr ()"
  by (cases env)
    (simp_all add: gateway_networking_validate_def gateway_development_defaults_def gateway_test_defaults_def
      gateway_production_defaults_def ORDERCOMMANDSIZE_def MAX_GATEWAYS_def word_le_nat_alt)

lemma environment_names: "environment_from_str (environment_display env) = Inr env"
  by (cases env) (simp_all add: environment_from_str_def to_lowercase_def Let_def)

end
