(* ===== verification/Vex_Config.thy ===== *)
theory Vex_Config
  imports Network_Config Market_Spec "HOL-Library.AList"
begin

text \<open>
  The rest of \<^verbatim>\<open>vex-config\<close>: logging (\<^verbatim>\<open>logging.rs\<close>), the symbol specifications (\<^verbatim>\<open>symbols.rs\<close>), the
  whole configuration (\<^verbatim>\<open>lib.rs\<close>, \<^verbatim>\<open>balance_preload.rs\<close>) and the loader (\<^verbatim>\<open>loader.rs\<close>). A \<^verbatim>\<open>HashMap\<close> is
  an association list with distinct keys, in the order its iterator happens to have; inserting updates
  it. An \<^verbatim>\<open>f64\<close> is its bit pattern. The \<^verbatim>\<open>config\<close> crate, which builds and deserialises a configuration
  from a list of sources, the serialisers, the file system and the \<^verbatim>\<open>Debug\<close> output of the search paths
  are parameters.
\<close>

section \<open>Log levels\<close>

datatype log_level = Level_Trace | Level_Debug | Level_Info | Level_Warn | Level_Error | Level_Off

fun log_level_display :: "log_level \<Rightarrow> string" where
  "log_level_display Level_Trace = ''trace''"
| "log_level_display Level_Debug = ''debug''"
| "log_level_display Level_Info = ''info''"
| "log_level_display Level_Warn = ''warn''"
| "log_level_display Level_Error = ''error''"
| "log_level_display Level_Off = ''off''"

fun level_order :: "log_level \<Rightarrow> nat" where
  "level_order Level_Trace = 0"
| "level_order Level_Debug = 1"
| "level_order Level_Info = 2"
| "level_order Level_Warn = 3"
| "level_order Level_Error = 4"
| "level_order Level_Off = 5"

lemma level_order_inject: "level_order a = level_order b \<longleftrightarrow> a = b"
  by (cases a; cases b) simp_all

text \<open>\<^verbatim>\<open>std::cmp::Ordering\<close> and the order of the levels; \<open>\<le>\<close> and \<open><\<close> are what \<^verbatim>\<open>partial_cmp\<close> makes of it.\<close>

datatype cmp_ordering = Cmp_Less | Cmp_Equal | Cmp_Greater

definition log_level_cmp :: "log_level \<Rightarrow> log_level \<Rightarrow> cmp_ordering" where
  "log_level_cmp a b =
     (let self_order = level_order a; other_order = level_order b
      in if self_order < other_order then Cmp_Less
         else if self_order = other_order then Cmp_Equal
         else Cmp_Greater)"

definition log_level_partial_cmp :: "log_level \<Rightarrow> log_level \<Rightarrow> cmp_ordering option" where
  "log_level_partial_cmp a b = Some (log_level_cmp a b)"

lemma log_level_less_iff: "log_level_partial_cmp a b = Some Cmp_Less \<longleftrightarrow> level_order a < level_order b"
  by (simp add: log_level_partial_cmp_def log_level_cmp_def Let_def)

lemma log_level_le_iff:
  "log_level_partial_cmp a b = Some Cmp_Less \<or> log_level_partial_cmp a b = Some Cmp_Equal \<longleftrightarrow>
     level_order a \<le> level_order b"
  by (auto simp: log_level_partial_cmp_def log_level_cmp_def Let_def)

instantiation log_level :: linorder
begin

definition less_eq_log_level :: "log_level \<Rightarrow> log_level \<Rightarrow> bool" where
  "less_eq_log_level a b \<longleftrightarrow>
     log_level_partial_cmp a b = Some Cmp_Less \<or> log_level_partial_cmp a b = Some Cmp_Equal"

definition less_log_level :: "log_level \<Rightarrow> log_level \<Rightarrow> bool" where
  "less_log_level a b \<longleftrightarrow> log_level_partial_cmp a b = Some Cmp_Less"

instance
  by standard
    (auto simp: less_eq_log_level_def [unfolded log_level_le_iff] less_log_level_def [unfolded log_level_less_iff]
      simp flip: level_order_inject)

end

datatype log_format = Pretty | Json | Compact | Full

text \<open>A file has its path, rotation, maximal size and number of files; syslog a facility and a name.\<close>

datatype log_output =
  Stdout
| Stderr
| LogFile string bool "u64 option" "u32 option"
| Syslog string string

section \<open>Logging\<close>

record logging_config =
  lc_level :: log_level
  lc_format :: log_format
  lc_outputs :: "log_output list"
  lc_module_levels :: "(string \<times> log_level) list"
  lc_include_location :: bool
  lc_include_timestamp :: bool
  lc_include_thread_id :: bool
  lc_include_spans :: bool
  lc_custom_fields :: "(string \<times> string) list"
  lc_async_logging :: bool
  lc_async_buffer_size :: u64
  lc_sampling_rate :: u64

definition f64_one :: u64 where "f64_one = 0x3FF0000000000000"

definition f64_nan :: "u64 \<Rightarrow> bool" where
  "f64_nan x \<longleftrightarrow> 0x7FF0000000000000 < x AND 0x7FFFFFFFFFFFFFFF"

text \<open>\<^verbatim>\<open>x < 0.0\<close> and \<^verbatim>\<open>x > 1.0\<close>: false on NaN, and minus zero is not below zero.\<close>

definition f64_negative :: "u64 \<Rightarrow> bool" where
  "f64_negative x \<longleftrightarrow> \<not> f64_nan x \<and> 0x8000000000000000 < x"

definition f64_above_one :: "u64 \<Rightarrow> bool" where
  "f64_above_one x \<longleftrightarrow> \<not> f64_nan x \<and> x < 0x8000000000000000 \<and> f64_one < x"

definition logging_development_defaults :: logging_config where
  "logging_development_defaults =
     \<lparr>lc_level = Level_Debug, lc_format = Pretty, lc_outputs = [Stdout],
      lc_module_levels = [(''vex_core'', Level_Debug), (''networking'', Level_Debug), (''orderbook'', Level_Info)],
      lc_include_location = True, lc_include_timestamp = True, lc_include_thread_id = True,
      lc_include_spans = True, lc_custom_fields = [], lc_async_logging = False, lc_async_buffer_size = 1024,
      lc_sampling_rate = f64_one\<rparr>"

definition logging_test_defaults :: logging_config where
  "logging_test_defaults =
     \<lparr>lc_level = Level_Info, lc_format = Json,
      lc_outputs = [LogFile ''/tmp/vex-test.log'' True (Some (10 * 1024 * 1024)) (Some 5)],
      lc_module_levels = [(''vex_core'', Level_Info), (''networking'', Level_Warn), (''test'', Level_Debug)],
      lc_include_location = False, lc_include_timestamp = True, lc_include_thread_id = False,
      lc_include_spans = False, lc_custom_fields = [(''environment'', ''test'')], lc_async_logging = True,
      lc_async_buffer_size = 512, lc_sampling_rate = f64_one\<rparr>"

definition logging_production_defaults :: logging_config where
  "logging_production_defaults =
     \<lparr>lc_level = Level_Info, lc_format = Json,
      lc_outputs = [LogFile ''/var/log/vex/vex-core.log'' True (Some (100 * 1024 * 1024)) (Some 10),
        Syslog ''daemon'' ''vex-core''],
      lc_module_levels = [(''vex_core'', Level_Info), (''networking'', Level_Warn), (''security'', Level_Debug)],
      lc_include_location = False, lc_include_timestamp = True, lc_include_thread_id = False,
      lc_include_spans = True, lc_custom_fields = [(''environment'', ''production''), (''service'', ''vex-core'')],
      lc_async_logging = True, lc_async_buffer_size = 4096, lc_sampling_rate = f64_one\<rparr>"

fun logging_for_environment :: "environment \<Rightarrow> logging_config" where
  "logging_for_environment Development = logging_development_defaults"
| "logging_for_environment Test = logging_test_defaults"
| "logging_for_environment Production = logging_production_defaults"

fun validate_output :: "log_output \<Rightarrow> config_error + unit" where
  "validate_output (LogFile path rot max_size max_files) = first_failure
     [(path = [], err_logging ''Log file path cannot be empty''),
      (max_size = Some 0, err_logging ''Max file size must be greater than 0''),
      ((case max_size of Some n \<Rightarrow> n < 1024 | None \<Rightarrow> False), err_logging ''Max file size should be at least 1KB''),
      (max_files = Some 0, err_logging ''Max files must be greater than 0'')]"
| "validate_output (Syslog facility ident) = first_failure
     [(facility = [], err_logging ''Syslog facility cannot be empty''),
      (ident = [], err_logging ''Syslog ident cannot be empty'')]"
| "validate_output Stdout = Inr ()"
| "validate_output Stderr = Inr ()"

text \<open>The first error of a loop over a collection.\<close>

fun for_each :: "('a \<Rightarrow> 'e + unit) \<Rightarrow> 'a list \<Rightarrow> 'e + unit" where
  "for_each check [] = Inr ()"
| "for_each check (x # xs) = rbind (check x) (\<lambda>_. for_each check xs)"

lemma for_each_Inr: "for_each check xs = Inr () \<longleftrightarrow> (\<forall>x\<in>set xs. check x = Inr ())"
  by (induction xs) (auto simp: rbind_def split: sum.splits)

definition validate_module :: "string \<times> log_level \<Rightarrow> config_error + unit" where
  "validate_module = (\<lambda>(module, level). first_failure
     [(module = [], err_logging ''Module name cannot be empty''),
      (level = Level_Off \<and> module = ''vex_core'', err_logging ''Cannot disable logging for core module'')])"

definition logging_validate :: "logging_config \<Rightarrow> config_error + unit" where
  "logging_validate c =
     (if lc_outputs c = [] then Inl (err_logging ''At least one log output must be configured'')
      else rbind (for_each validate_output (lc_outputs c)) (\<lambda>_.
        if f64_negative (lc_sampling_rate c) \<or> f64_above_one (lc_sampling_rate c)
        then Inl (err_logging ''Sampling rate must be between 0.0 and 1.0'')
        else if lc_async_buffer_size c = 0 then Inl (err_logging ''Async buffer size must be greater than 0'')
        else for_each validate_module (lc_module_levels c)))"

definition hash_insert :: "'k \<Rightarrow> 'v \<Rightarrow> ('k \<times> 'v) list \<Rightarrow> ('k \<times> 'v) list" where
  "hash_insert k v m = AList.update k v m"

definition hash_extend :: "('k \<times> 'v) list \<Rightarrow> ('k \<times> 'v) list \<Rightarrow> ('k \<times> 'v) list" where
  "hash_extend m other = fold (\<lambda>(k, v). hash_insert k v) other m"

definition logging_merge :: "logging_config \<Rightarrow> logging_config \<Rightarrow> config_error + logging_config" where
  "logging_merge c other = Inr
     (c\<lparr>lc_module_levels := hash_extend (lc_module_levels c) (lc_module_levels other),
        lc_custom_fields := hash_extend (lc_custom_fields c) (lc_custom_fields other),
        lc_level := lc_level other, lc_format := lc_format other, lc_outputs := lc_outputs other,
        lc_include_location := lc_include_location other, lc_include_timestamp := lc_include_timestamp other,
        lc_include_thread_id := lc_include_thread_id other, lc_include_spans := lc_include_spans other,
        lc_async_logging := lc_async_logging other, lc_async_buffer_size := lc_async_buffer_size other,
        lc_sampling_rate := lc_sampling_rate other\<rparr>)"

definition get_module_level :: "logging_config \<Rightarrow> string \<Rightarrow> log_level" where
  "get_module_level c module =
     (case map_of (lc_module_levels c) module of Some level \<Rightarrow> level | None \<Rightarrow> lc_level c)"

definition set_module_level :: "string \<Rightarrow> log_level \<Rightarrow> logging_config \<Rightarrow> logging_config" where
  "set_module_level module level c = c\<lparr>lc_module_levels := hash_insert module level (lc_module_levels c)\<rparr>"

definition add_custom_field :: "string \<Rightarrow> string \<Rightarrow> logging_config \<Rightarrow> logging_config" where
  "add_custom_field key v c = c\<lparr>lc_custom_fields := hash_insert key v (lc_custom_fields c)\<rparr>"

definition logging_is_enabled :: "logging_config \<Rightarrow> log_level \<Rightarrow> string option \<Rightarrow> bool" where
  "logging_is_enabled c level module =
     (let effective_level = (case module of Some m \<Rightarrow> get_module_level c m | None \<Rightarrow> lc_level c)
      in effective_level \<le> level \<and> effective_level \<noteq> Level_Off)"

section \<open>Symbols\<close>

type_synonym symbol_config = "(u32 \<times> core_market_specification) list"

text \<open>The map with textual keys that is serialised, and back; a key that is no number is an error.\<close>

definition serialize_symbols :: "symbol_config \<Rightarrow> (string \<times> core_market_specification) list" where
  "serialize_symbols symbols =
     fold (\<lambda>(key, v). hash_insert (dec (unat key)) v) symbols []"

fun deserialize_symbols ::
    "(string \<times> core_market_specification) list \<Rightarrow> symbol_config \<Rightarrow> parse_int_error + symbol_config" where
  "deserialize_symbols [] symbols = Inr symbols"
| "deserialize_symbols ((key, v) # new_symbols) symbols =
     (case parse_u32 key of
        Inl e \<Rightarrow> Inl e
      | Inr k \<Rightarrow> deserialize_symbols new_symbols (hash_insert k v symbols))"

definition market_id_of :: "u16 \<Rightarrow> u16 \<Rightarrow> u32" where
  "market_id_of quote base = push_bit 16 (ucast quote) OR ucast base"

definition symbols_development_defaults :: symbol_config where
  "symbols_development_defaults =
     (let usdt_asset_id = 1; btc_asset_id = 2; eth_asset_id = 3;
          btc_usdt_market_id = market_id_of usdt_asset_id btc_asset_id;
          eth_usdt_market_id = market_id_of usdt_asset_id eth_asset_id
      in hash_insert btc_usdt_market_id
           \<lparr>ms_market_id = btc_usdt_market_id, ms_market_type = FuturesContract, ms_base_asset = btc_asset_id,
            ms_quote_asset = usdt_asset_id, ms_base_scale_k = 1, ms_quote_scale_k = 1,
            ms_base_native_scale = 100000000, ms_quote_native_scale = 1000000, ms_taker_fee = 0,
            ms_maker_fee = 0, ms_slippage = 150\<rparr>
          (hash_insert eth_usdt_market_id
            \<lparr>ms_market_id = eth_usdt_market_id, ms_market_type = Spot, ms_base_asset = eth_asset_id,
             ms_quote_asset = usdt_asset_id, ms_base_scale_k = 100000, ms_quote_scale_k = 10,
             ms_base_native_scale = 1000000000000000000, ms_quote_native_scale = 1000000, ms_taker_fee = 0,
             ms_maker_fee = 0, ms_slippage = 150\<rparr> []))"

definition symbols_test_defaults :: symbol_config where
  "symbols_test_defaults =
     (let usdt_asset_id = 1; btc_asset_id = 2; eth_asset_id = 3;
          btc_usdt_market_id = market_id_of usdt_asset_id btc_asset_id;
          eth_usdt_market_id = market_id_of usdt_asset_id eth_asset_id
      in hash_insert btc_usdt_market_id
           \<lparr>ms_market_id = btc_usdt_market_id, ms_market_type = FuturesContract, ms_base_asset = btc_asset_id,
            ms_quote_asset = usdt_asset_id, ms_base_scale_k = 1, ms_quote_scale_k = 1,
            ms_base_native_scale = 100000000, ms_quote_native_scale = 1000000, ms_taker_fee = 0,
            ms_maker_fee = 0, ms_slippage = 150\<rparr>
          (hash_insert eth_usdt_market_id
            \<lparr>ms_market_id = eth_usdt_market_id, ms_market_type = Spot, ms_base_asset = eth_asset_id,
             ms_quote_asset = usdt_asset_id, ms_base_scale_k = 100000, ms_quote_scale_k = 10,
             ms_base_native_scale = 1000000000000000000, ms_quote_native_scale = 1000000, ms_taker_fee = 0,
             ms_maker_fee = 0, ms_slippage = 150\<rparr> []))"

definition symbols_production_defaults :: symbol_config where
  "symbols_production_defaults = []"

fun symbols_for_environment :: "environment \<Rightarrow> symbol_config" where
  "symbols_for_environment Development = symbols_development_defaults"
| "symbols_for_environment Test = symbols_test_defaults"
| "symbols_for_environment Production = symbols_production_defaults"

definition validate_symbol :: "u32 \<times> core_market_specification \<Rightarrow> config_error + unit" where
  "validate_symbol = (\<lambda>(market_id, spec). first_failure
     [(market_id_of (ms_quote_asset spec) (ms_base_asset spec) \<noteq> market_id,
        err_validation (''Symbol ID '' @ dec (unat market_id) @ '' does not match quote_asset << 16 | base_asset = ''
          @ dec (unat (market_id_of (ms_quote_asset spec) (ms_base_asset spec))))),
      (market_id \<noteq> ms_market_id spec,
        err_validation (''Symbol ID mismatch: key '' @ dec (unat market_id) @ '' != spec.market_id ''
          @ dec (unat (ms_market_id spec)))),
      (ms_base_scale_k spec = 0,
        err_validation (''Symbol '' @ dec (unat market_id) @ '': base_scale_k cannot be zero'')),
      (ms_quote_scale_k spec = 0,
        err_validation (''Symbol '' @ dec (unat market_id) @ '': quote_scale_k cannot be zero'')),
      (ms_taker_fee spec < ms_maker_fee spec,
        err_validation (''Symbol '' @ dec (unat market_id) @ '': taker_fee ('' @ dec (unat (ms_taker_fee spec)) @
          '') should be >= maker_fee ('' @ dec (unat (ms_maker_fee spec)) @ '')''))])"

definition symbols_validate :: "symbol_config \<Rightarrow> config_error + unit" where
  "symbols_validate symbols = for_each validate_symbol symbols"

definition symbols_merge :: "symbol_config \<Rightarrow> symbol_config \<Rightarrow> config_error + symbol_config" where
  "symbols_merge symbols other = Inr (hash_extend symbols other)"

definition get_symbol :: "symbol_config \<Rightarrow> u32 \<Rightarrow> core_market_specification option" where
  "get_symbol symbols market_id = map_of symbols market_id"

definition get_market_ids :: "symbol_config \<Rightarrow> u32 list" where
  "get_market_ids symbols = map fst symbols"

definition add_symbol :: "core_market_specification \<Rightarrow> symbol_config \<Rightarrow> config_error + symbol_config" where
  "add_symbol spec symbols =
     rbind (symbols_validate [(ms_market_id spec, spec)]) (\<lambda>_. Inr (hash_insert (ms_market_id spec) spec symbols))"

definition remove_symbol :: "u32 \<Rightarrow> symbol_config \<Rightarrow> core_market_specification option \<times> symbol_config" where
  "remove_symbol market_id symbols = (map_of symbols market_id, AList.delete market_id symbols)"

definition symbols_is_empty :: "symbol_config \<Rightarrow> bool" where "symbols_is_empty symbols \<longleftrightarrow> symbols = []"
definition symbols_len :: "symbol_config \<Rightarrow> nat" where "symbols_len symbols = length symbols"

end
