(* ===== verification/Config_Loader.thy ===== *)
theory Config_Loader
  imports Vex_Config
begin

text \<open>
  The whole configuration (\<^verbatim>\<open>vex-config/src/lib.rs\<close>) and its loader (\<^verbatim>\<open>loader.rs\<close>). The balance preload
  is the one of the feature \<^verbatim>\<open>balance-preload\<close>; without the feature it is the disabled default.
  \<^verbatim>\<open>Config::builder()\<close> collects sources; building and deserialising them is the parameter \<open>mk_config\<close>.
\<close>

section \<open>Balance preload\<close>

record preload_balance =
  pl_asset_id :: u16
  pl_amount :: u64

record balance_preload_config =
  bp_enabled :: bool
  bp_users :: "(u64 \<times> preload_balance list) list"

definition balance_preload_new :: balance_preload_config where
  "balance_preload_new = \<lparr>bp_enabled = False, bp_users = []\<rparr>"

definition balance_preload_validate :: "balance_preload_config \<Rightarrow> config_error + unit" where
  "balance_preload_validate c =
     for_each (\<lambda>(user_id, balances). first_failure
       [(balances = [], CfgValidationError (''User '' @ dec (unat user_id) @ '' has no balances configured''))])
       (bp_users c)"

section \<open>The configuration\<close>

record vex_config =
  vc_environment :: environment
  vc_core_networking :: core_networking_config
  vc_gateway_networking :: gateway_networking_config
  vc_logging :: logging_config
  vc_symbols :: symbol_config
  vc_kafka_broker :: string
  vc_balance_preload :: balance_preload_config

definition default_kafka_broker :: string where
  "default_kafka_broker = ''localhost:9092''"

definition vex_config_new :: "environment \<Rightarrow> vex_config" where
  "vex_config_new env =
     \<lparr>vc_environment = env, vc_core_networking = core_for_environment env,
      vc_gateway_networking = gateway_for_environment env, vc_logging = logging_for_environment env,
      vc_symbols = symbols_for_environment env, vc_kafka_broker = default_kafka_broker,
      vc_balance_preload = balance_preload_new\<rparr>"

definition vex_config_default :: vex_config where
  "vex_config_default = vex_config_new Development"

definition vex_config_validate :: "vex_config \<Rightarrow> config_error + unit" where
  "vex_config_validate c =
     rbind (core_networking_validate (vc_core_networking c)) (\<lambda>_.
     rbind (gateway_networking_validate (vc_gateway_networking c)) (\<lambda>_.
     rbind (logging_validate (vc_logging c)) (\<lambda>_.
     rbind (symbols_validate (vc_symbols c)) (\<lambda>_.
       if bp_enabled (vc_balance_preload c) then balance_preload_validate (vc_balance_preload c) else Inr ()))))"

text \<open>Merging leaves the broker and the preload as they are.\<close>

definition vex_config_merge :: "vex_config \<Rightarrow> vex_config \<Rightarrow> config_error + vex_config" where
  "vex_config_merge c other =
     (if vc_environment c \<noteq> vc_environment other then
        Inl (CfgValidationError ''Cannot merge configurations with different environments'')
      else
        rbind (core_networking_merge (vc_core_networking c) (vc_core_networking other)) (\<lambda>cn.
        rbind (gateway_networking_merge (vc_gateway_networking c) (vc_gateway_networking other)) (\<lambda>gn.
        rbind (logging_merge (vc_logging c) (vc_logging other)) (\<lambda>lc.
        rbind (symbols_merge (vc_symbols c) (vc_symbols other)) (\<lambda>sy.
          Inr (c\<lparr>vc_core_networking := cn, vc_gateway_networking := gn, vc_logging := lc, vc_symbols := sy\<rparr>))))))"

definition is_production :: "vex_config \<Rightarrow> bool" where "is_production c \<longleftrightarrow> vc_environment c = Production"
definition is_development :: "vex_config \<Rightarrow> bool" where "is_development c \<longleftrightarrow> vc_environment c = Development"
definition is_test :: "vex_config \<Rightarrow> bool" where "is_test c \<longleftrightarrow> vc_environment c = Test"

section \<open>Paths and formats\<close>

text \<open>\<^verbatim>\<open>Path::file_name\<close> (the last component other than a dot, none after \<^verbatim>\<open>..\<close>) and \<^verbatim>\<open>Path::extension\<close>
  (what follows the last dot, if something precedes it).\<close>

fun split_on :: "char \<Rightarrow> string \<Rightarrow> string list" where
  "split_on sep [] = [[]]"
| "split_on sep (c # s) =
     (if c = sep then [] # split_on sep s
      else (case split_on sep s of w # ws \<Rightarrow> (c # w) # ws | [] \<Rightarrow> [[c]]))"

definition file_name :: "string \<Rightarrow> string option" where
  "file_name path =
     (case rev (filter (\<lambda>w. w \<noteq> [] \<and> w \<noteq> ''.'') (split_on (CHR ''/'') path)) of
        [] \<Rightarrow> None
      | w # _ \<Rightarrow> if w = ''..'' then None else Some w)"

definition path_extension :: "string \<Rightarrow> string option" where
  "path_extension path =
     (case file_name path of
        None \<Rightarrow> None
      | Some name \<Rightarrow>
          (case rev (split_on (CHR ''.'') name) of
             ext # before # rest \<Rightarrow> if rest = [] \<and> before = [] then None else Some ext
           | _ \<Rightarrow> None))"

datatype file_format = Fmt_Toml | Fmt_Yaml | Fmt_Json | Fmt_Ini

definition detect_file_format :: "string \<Rightarrow> config_error + file_format" where
  "detect_file_format path =
     (case path_extension path of
        None \<Rightarrow> Inl (err_parse ''No file extension found'')
      | Some ext \<Rightarrow>
          if ext = ''toml'' then Inr Fmt_Toml
          else if ext = ''yaml'' \<or> ext = ''yml'' then Inr Fmt_Yaml
          else if ext = ''json'' then Inr Fmt_Json
          else if ext = ''ini'' then Inr Fmt_Ini
          else Inl (err_parse (''Unsupported file format: '' @ ext)))"

text \<open>Saving: the validated configuration in the format of the extension, as the path and text to write.\<close>

definition save_to_file ::
    "(file_format \<Rightarrow> vex_config \<Rightarrow> string + string) \<Rightarrow> (string \<Rightarrow> string \<Rightarrow> string + unit) \<Rightarrow>
     vex_config \<Rightarrow> string \<Rightarrow> config_error + unit" where
  "save_to_file render write_file c path =
     rbind (vex_config_validate c) (\<lambda>_.
       (let rendered = (\<lambda>fmt. map_sum CfgSerializationError id (render fmt c))
        in rbind
             (case path_extension path of
                Some ext \<Rightarrow>
                  if ext = ''toml'' then rendered Fmt_Toml
                  else if ext = ''json'' then rendered Fmt_Json
                  else if ext = ''yaml'' \<or> ext = ''yml'' then rendered Fmt_Yaml
                  else Inl (CfgValidationError ''Unsupported file format. Use .toml, .json, .yaml, or .yml'')
              | None \<Rightarrow> Inl (CfgValidationError ''Unsupported file format. Use .toml, .json, .yaml, or .yml''))
             (\<lambda>content. map_sum CfgIoError id (write_file path content))))"

section \<open>The loader\<close>

datatype config_source =
  FileSource string file_format
| EnvSource string

record config_loader =
  cl_search_paths :: "string list"
  cl_env_prefix :: "string option"
  cl_allow_missing :: bool

definition config_loader_new :: config_loader where
  "config_loader_new = \<lparr>cl_search_paths = [], cl_env_prefix = Some ''VEX'', cl_allow_missing = False\<rparr>"

definition with_search_paths :: "string list \<Rightarrow> config_loader \<Rightarrow> config_loader" where
  "with_search_paths paths cl = cl\<lparr>cl_search_paths := paths\<rparr>"

definition with_env_prefix :: "string \<Rightarrow> config_loader \<Rightarrow> config_loader" where
  "with_env_prefix prefix cl = cl\<lparr>cl_env_prefix := Some prefix\<rparr>"

definition without_env_prefix :: "config_loader \<Rightarrow> config_loader" where
  "without_env_prefix cl = cl\<lparr>cl_env_prefix := None\<rparr>"

definition allow_missing_files :: "config_loader \<Rightarrow> config_loader" where
  "allow_missing_files cl = cl\<lparr>cl_allow_missing := True\<rparr>"

definition load_from_file ::
    "(string \<Rightarrow> bool) \<Rightarrow> (config_source list \<Rightarrow> config_error + vex_config) \<Rightarrow>
     config_loader \<Rightarrow> string \<Rightarrow> config_error + vex_config" where
  "load_from_file path_exists mk_config cl path =
     (if \<not> path_exists path then Inl (err_not_found (''Config file not found: '' @ path))
      else
        rbind (detect_file_format path) (\<lambda>fmt.
        rbind (mk_config (FileSource path fmt # (case cl_env_prefix cl of Some p \<Rightarrow> [EnvSource p] | None \<Rightarrow> [])))
          (\<lambda>c. rbind (vex_config_validate c) (\<lambda>_. Inr c))))"

text \<open>The files that exist, with their formats.\<close>

fun file_sources :: "(string \<Rightarrow> bool) \<Rightarrow> string list \<Rightarrow> config_error + config_source list" where
  "file_sources path_exists [] = Inr []"
| "file_sources path_exists (path # paths) =
     (if path_exists path then
        rbind (detect_file_format path) (\<lambda>fmt.
        rbind (file_sources path_exists paths) (\<lambda>sources. Inr (FileSource path fmt # sources)))
      else file_sources path_exists paths)"

definition specific_prefix :: "string \<Rightarrow> environment \<Rightarrow> string" where
  "specific_prefix prefix env = prefix @ ''_'' @ env_prefix env"

definition apply_env_vars_to_config ::
    "(config_source list \<Rightarrow> config_error + vex_config) \<Rightarrow> (config_source list \<Rightarrow> config_error option) \<Rightarrow>
     vex_config \<Rightarrow> string \<Rightarrow> environment \<Rightarrow> config_error + vex_config" where
  "apply_env_vars_to_config mk_config mk_error c prefix env =
     (let sources = [EnvSource prefix, EnvSource (specific_prefix prefix env)]
      in case mk_error sources of
           Some e \<Rightarrow> Inl e
         | None \<Rightarrow> (case mk_config sources of Inr overrides \<Rightarrow> vex_config_merge c overrides | Inl _ \<Rightarrow> Inr c))"

text \<open>\<open>mk_error\<close> is the failure of building alone, which \<open>apply_env_vars_to_config\<close> reports while it
  ignores a failure of deserialising; \<open>mk_config\<close> is both.\<close>

definition load_with_environment ::
    "(string \<Rightarrow> string option) \<Rightarrow> (string list \<Rightarrow> string) \<Rightarrow> (string \<Rightarrow> bool) \<Rightarrow>
     (config_source list \<Rightarrow> config_error + vex_config) \<Rightarrow> (config_source list \<Rightarrow> config_error option) \<Rightarrow>
     config_loader \<Rightarrow> environment option \<Rightarrow> config_error + vex_config" where
  "load_with_environment getenv show_paths path_exists mk_config mk_error cl environment =
     (let env = (case environment of Some e \<Rightarrow> e | None \<Rightarrow> detect getenv);
          search_paths = (if cl_search_paths cl = [] then default_config_paths env else cl_search_paths cl)
      in rbind (file_sources path_exists search_paths) (\<lambda>files.
           let files_found = (files \<noteq> [])
           in if \<not> files_found \<and> \<not> cl_allow_missing cl then
                Inl (err_not_found (''No configuration files found in search paths: '' @ show_paths search_paths))
              else if \<not> files_found \<and> cl_allow_missing cl then
                rbind
                  (case cl_env_prefix cl of
                     Some prefix \<Rightarrow> apply_env_vars_to_config mk_config mk_error (vex_config_new env) prefix env
                   | None \<Rightarrow> Inr (vex_config_new env))
                  (\<lambda>c. rbind (vex_config_validate c) (\<lambda>_. Inr c))
              else
                rbind (mk_config (files @ (case cl_env_prefix cl of
                    Some prefix \<Rightarrow> [EnvSource (specific_prefix prefix env), EnvSource prefix] | None \<Rightarrow> [])))
                  (\<lambda>c. let c = c\<lparr>vc_environment := env\<rparr>
                       in rbind (vex_config_validate c) (\<lambda>_. Inr c))))"

definition load_for_environment ::
    "(string \<Rightarrow> string option) \<Rightarrow> (string list \<Rightarrow> string) \<Rightarrow> (string \<Rightarrow> bool) \<Rightarrow>
     (config_source list \<Rightarrow> config_error + vex_config) \<Rightarrow> (config_source list \<Rightarrow> config_error option) \<Rightarrow>
     config_loader \<Rightarrow> environment \<Rightarrow> config_error + vex_config" where
  "load_for_environment getenv show_paths path_exists mk_config mk_error cl environment =
     load_with_environment getenv show_paths path_exists mk_config mk_error cl (Some environment)"

definition load_auto ::
    "(string \<Rightarrow> string option) \<Rightarrow> (string list \<Rightarrow> string) \<Rightarrow> (string \<Rightarrow> bool) \<Rightarrow>
     (config_source list \<Rightarrow> config_error + vex_config) \<Rightarrow> (config_source list \<Rightarrow> config_error option) \<Rightarrow>
     config_loader \<Rightarrow> config_error + vex_config" where
  "load_auto getenv show_paths path_exists mk_config mk_error cl =
     load_for_environment getenv show_paths path_exists mk_config mk_error cl (detect getenv)"

end
