(* ===== verification/Config_Claims.thy ===== *)
theory Config_Claims
  imports Config_Loader
begin

text \<open>
  What a loaded configuration guarantees: it passed its validation, which is read here as facts about the
  fields, and it is for the environment asked for. The map of markets survives being written as text.
\<close>

section \<open>Validation as facts\<close>

lemma core_networking_validate_Inr:
  "core_networking_validate c = Inr () \<longleftrightarrow>
     cn_initial_port c \<noteq> 0 \<and> cn_initial_control_port c \<noteq> 0 \<and> cn_initial_port c \<noteq> cn_initial_control_port c \<and>
     cn_max_gateways c \<noteq> 0 \<and> cn_reserved_session_id_low c <s cn_reserved_session_id_high c \<and>
     cn_core_id c \<noteq> [] \<and> cn_buffer_size c \<noteq> 0 \<and> cn_context_dir c \<noteq> []"
  by (auto simp: core_networking_validate_def first_failure_Inr word_sle_eq word_sless_alt)

definition symbol_ok :: "u32 \<times> core_market_specification \<Rightarrow> bool" where
  "symbol_ok = (\<lambda>(m, spec). ms_market_id spec = m \<and> m = market_id_of (ms_quote_asset spec) (ms_base_asset spec) \<and>
     ms_base_scale_k spec \<noteq> 0 \<and> ms_quote_scale_k spec \<noteq> 0 \<and> ms_maker_fee spec \<le> ms_taker_fee spec)"

lemma validate_symbol_Inr: "validate_symbol s = Inr () \<longleftrightarrow> symbol_ok s"
proof (cases s)
  case (Pair m spec)
  show ?thesis unfolding Pair validate_symbol_def symbol_ok_def prod.case first_failure_Inr
    by (simp only: list.set ball_simps prod.case) auto
qed

lemma symbols_validate_Inr: "symbols_validate symbols = Inr () \<longleftrightarrow> (\<forall>s\<in>set symbols. symbol_ok s)"
  by (simp add: symbols_validate_def for_each_Inr validate_symbol_Inr)

text \<open>The two assets of a market id that was put together from them.\<close>

lemma market_id_assets: "base_asset (market_id_of q b) = b" "quote_asset (market_id_of q b) = q"
proof -
  have m: "(0xFFFF :: u32) = mask 16" by (simp add: mask_eq_exp_minus_1)
  show "base_asset (market_id_of q b) = b"
    unfolding base_asset_def m by (intro bit_word_eqI) (auto simp: market_id_of_def bit_and_iff bit_or_iff
        bit_push_bit_iff bit_ucast_iff bit_mask_iff)
  show "quote_asset (market_id_of q b) = q"
    by (rule bit_word_eqI) (auto simp: quote_asset_def market_id_of_def bit_drop_bit_eq bit_or_iff
        bit_push_bit_iff bit_ucast_iff dest: bit_imp_le_length)
qed

lemma symbol_okD:
  assumes "symbol_ok (m, spec)"
  shows "ms_market_id spec = m" "base_asset m = ms_base_asset spec" "quote_asset m = ms_quote_asset spec"
    "ms_base_scale_k spec \<noteq> 0" "ms_quote_scale_k spec \<noteq> 0" "ms_maker_fee spec \<le> ms_taker_fee spec"
  using assms by (simp_all add: symbol_ok_def market_id_assets)

lemma vex_config_validate_Inr:
  "vex_config_validate c = Inr () \<longleftrightarrow>
     core_networking_validate (vc_core_networking c) = Inr () \<and>
     gateway_networking_validate (vc_gateway_networking c) = Inr () \<and>
     logging_validate (vc_logging c) = Inr () \<and> symbols_validate (vc_symbols c) = Inr () \<and>
     (bp_enabled (vc_balance_preload c) \<longrightarrow> balance_preload_validate (vc_balance_preload c) = Inr ())"
  by (auto simp: vex_config_validate_def rbind_Inr_iff)

lemma merge_environment: "vex_config_merge c other = Inr c' \<Longrightarrow> vc_environment c' = vc_environment c"
  by (auto simp: vex_config_merge_def rbind_Inr_iff split: if_splits)

lemma apply_env_environment:
  "apply_env_vars_to_config mk_config mk_error c prefix env = Inr c' \<Longrightarrow> vc_environment c' = vc_environment c"
  by (auto simp: apply_env_vars_to_config_def Let_def merge_environment split: option.splits sum.splits)

lemma loaded_valid:
  assumes "load_with_environment getenv show_paths path_exists mk_config mk_error cl environment = Inr c"
  shows "vex_config_validate c = Inr () \<and> vc_environment c = (case environment of Some e \<Rightarrow> e | None \<Rightarrow> detect getenv)"
  using assms
  by (auto simp: load_with_environment_def Let_def rbind_Inr_iff vex_config_new_def
      dest!: apply_env_environment split: if_splits option.splits)

lemma file_sources_none: "\<forall>p\<in>set paths. \<not> path_exists p \<Longrightarrow> file_sources path_exists paths = Inr []"
  by (induction paths) simp_all

section \<open>Markets as text\<close>

lemma update_new: "k \<notin> set (map fst m) \<Longrightarrow> AList.update k v m = m @ [(k, v)]"
  by (induction m) auto

lemma serialize_fold:
  "distinct (map fst symbols) \<Longrightarrow> dec ` unat ` set (map fst symbols) \<inter> set (map fst acc) = {} \<Longrightarrow>
     fold (\<lambda>(key, v). hash_insert (dec (unat key)) v) symbols acc = acc @ map (\<lambda>(k, v). (dec (unat k), v)) symbols"
proof (induction symbols arbitrary: acc)
  case (Cons kv symbols)
  obtain k v where kv: "kv = (k, v)" by (rule prod.exhaust)
  have "dec (unat k) \<notin> dec ` unat ` set (map fst symbols)"
    using Cons.prems(1) by (force simp: kv image_iff word_unat_eq_iff dest!: dec_inj)
  then show ?case using Cons.prems Cons.IH [of "acc @ [(dec (unat k), v)]"]
    by (auto simp: kv hash_insert_def update_new)
qed simp

lemma parse_u32_dec: "parse_u32 (dec (unat p)) = Inr p"
  using unat_lt_2p [of p] by (simp add: parse_u32_def parse_unsigned_dec)

lemma deserialize_map:
  "distinct (map fst symbols) \<Longrightarrow> set (map fst symbols) \<inter> set (map fst acc) = {} \<Longrightarrow>
     deserialize_symbols (map (\<lambda>(k, v). (dec (unat k), v)) symbols) acc = Inr (acc @ symbols)"
proof (induction symbols arbitrary: acc)
  case (Cons kv symbols)
  then show ?case using Cons.IH [of "acc @ [kv]"]
    by (cases kv) (auto simp: parse_u32_dec hash_insert_def update_new)
qed simp

section \<open>The defaults\<close>

lemma symbols_defaults_valid: "symbols_validate (symbols_for_environment env) = Inr ()"
  by (cases env) (simp_all add: symbols_validate_Inr symbols_development_defaults_def symbols_test_defaults_def
      symbols_production_defaults_def Let_def hash_insert_def market_id_of_def symbol_ok_def)

lemma f64_one_rate: "\<not> f64_negative f64_one" "\<not> f64_above_one f64_one"
  by (simp_all add: f64_negative_def f64_above_one_def f64_one_def)

lemma logging_defaults_valid: "logging_validate (logging_for_environment env) = Inr ()"
  by (cases env) (simp_all add: logging_validate_def logging_development_defaults_def logging_test_defaults_def
      logging_production_defaults_def f64_one_rate validate_module_def)

lemma default_valid: "vex_config_validate (vex_config_new env) = Inr ()"
  by (simp add: vex_config_validate_Inr vex_config_new_def core_defaults_valid gateway_defaults_valid
      logging_defaults_valid symbols_defaults_valid balance_preload_new_def)

section \<open>Claims\<close>

text \<open>C33. A configuration that any of the loading strategies returns is for the environment that was asked
  for, or detected, and usable: the ports of the handshake are different and not zero, at least one
  gateway is allowed, the reserved session ids are a proper interval, and every market is keyed by the id
  of its own two assets, with price scales that are not zero and a taker fee that covers the maker fee.\<close>

theorem loaded_config:
  assumes "load_with_environment getenv show_paths path_exists mk_config mk_error cl environment = Inr c"
  shows "vc_environment c = (case environment of Some e \<Rightarrow> e | None \<Rightarrow> detect getenv) \<and>
    vex_config_validate c = Inr () \<and>
    distinct [0, cn_initial_port (vc_core_networking c), cn_initial_control_port (vc_core_networking c)] \<and>
    cn_max_gateways (vc_core_networking c) \<noteq> 0 \<and>
    cn_reserved_session_id_low (vc_core_networking c) <s cn_reserved_session_id_high (vc_core_networking c) \<and>
    (\<forall>(m, spec)\<in>set (vc_symbols c). ms_market_id spec = m \<and> base_asset m = ms_base_asset spec \<and>
      quote_asset m = ms_quote_asset spec \<and> ms_base_scale_k spec \<noteq> 0 \<and> ms_quote_scale_k spec \<noteq> 0 \<and>
      ms_maker_fee spec \<le> ms_taker_fee spec)"
proof -
  from loaded_valid [OF assms] have v: "vex_config_validate c = Inr ()"
    and e: "vc_environment c = (case environment of Some e \<Rightarrow> e | None \<Rightarrow> detect getenv)" by simp_all
  have "symbol_ok s" if "s \<in> set (vc_symbols c)" for s
    using v that by (simp add: vex_config_validate_Inr symbols_validate_Inr)
  then show ?thesis
    using v e by (auto simp: vex_config_validate_Inr core_networking_validate_Inr dest: symbol_okD)
qed

definition sample_toml :: vex_config where
  "sample_toml = (vex_config_new Development)\<lparr>vc_environment := Test\<rparr>"

lemma sample_toml_env: "sample_toml\<lparr>vc_environment := Development\<rparr> = vex_config_new Development"
  by (simp add: sample_toml_def vex_config_new_def)

text \<open>One file is found; the environment is the one of the call, not the one in the file.\<close>

theorem loaded_config_witness:
  "load_with_environment (\<lambda>_. None) (\<lambda>_. '''') (\<lambda>p. p = ''vex.toml'') (\<lambda>_. Inr sample_toml) (\<lambda>_. None)
     (with_search_paths [''vex.toml'', ''local.toml''] config_loader_new) (Some Development) = Inr vex_config_default \<and>
   vex_config_validate vex_config_default = Inr () \<and> cn_max_gateways (vc_core_networking vex_config_default) \<noteq> 0"
proof -
  have "load_with_environment (\<lambda>_. None) (\<lambda>_. '''') (\<lambda>p. p = ''vex.toml'') (\<lambda>_. Inr sample_toml) (\<lambda>_. None)
     (with_search_paths [''vex.toml'', ''local.toml''] config_loader_new) (Some Development) = Inr vex_config_default"
    by (simp add: load_with_environment_def Let_def with_search_paths_def config_loader_new_def detect_file_format_def
        path_extension_def file_name_def sample_toml_env default_valid vex_config_default_def)
  with loaded_config [OF this] show ?thesis by blast
qed

text \<open>Market specifications survive the way through text: reading back what was written of the map of
  markets gives a map with the same entries.\<close>

theorem symbols_text_roundtrip:
  assumes "distinct (map fst symbols)"
  shows "\<exists>read. deserialize_symbols (serialize_symbols symbols) [] = Inr read \<and> map_of read = map_of symbols"
  using assms by (simp add: serialize_symbols_def serialize_fold deserialize_map)

theorem symbols_text_roundtrip_witness:
  "\<exists>read. deserialize_symbols (serialize_symbols symbols_test_defaults) [] = Inr read \<and>
     map_of read = map_of symbols_test_defaults"
  by (rule symbols_text_roundtrip)
    (simp add: symbols_test_defaults_def Let_def hash_insert_def market_id_of_def)

end
