(* ===== verification/Disruptor.thy ===== *)
theory Disruptor
  imports Interleaving
begin

text \<open>
  The disruptor with the journaling processor in it: the pipeline of \<open>Interleaving\<close>, where journaling is
  \<open>journal_command\<close> itself, with its order id generator and its archive, and the replay flag is set or not.
  The producer waits until it is \<open>ready\<close>: \<open>\<lambda>_. True\<close> is a producer that only waits for room in the ring,
  \<open>idle\<close> one that publishes a command when the events handler has done the one before, as for a client that
  waits for each response. The result is that such a paced run, with the handlers of the pipeline
  interleaved in any way, does what \<open>engine_run\<close> of \<open>Recovery\<close> does for some order of the handlers.
\<close>

section \<open>Runs\<close>

record 'p disruptor =
  ds_pipe :: pipe
  ds_journal :: "'p journaling_processor"
  ds_log :: "u8 list list"
  ds_calls :: nat

definition disruptor_new :: "core_state \<Rightarrow> 'p journaling_processor \<Rightarrow> nat \<Rightarrow> 'p disruptor" where
  "disruptor_new cs jp k = \<lparr>ds_pipe = pipe_new cs, ds_journal = jp, ds_log = [], ds_calls = k\<rparr>"

text \<open>The journaling handler on its next command, and the events handler on its own; \<open>None\<close> is a panic or a
  generator that does not return.\<close>

definition journal_next ::
    "(nat \<Rightarrow> nat) \<Rightarrow> nat option \<Rightarrow> replay_control \<Rightarrow> 'p disruptor \<Rightarrow> 'p disruptor option" where
  "journal_next clock wall replay d =
     (let p = ds_pipe d; n = p_journal p
      in case journal_command clock wall replay (ds_journal d) (p_ring p ! n) (ds_calls d) of
           Some (Ok (jp, cmd, sent, k)) \<Rightarrow>
             Some (d\<lparr>ds_pipe := put_back n cmd (p\<lparr>p_journal := Suc n\<rparr>), ds_journal := jp,
               ds_log := ds_log d @ map snd sent, ds_calls := k\<rparr>)
         | _ \<Rightarrow> None)"

definition report_next :: "replay_control \<Rightarrow> 'p disruptor \<Rightarrow> 'p disruptor option" where
  "report_next replay d =
     (let p = ds_pipe d
      in map_option (\<lambda>_. d\<lparr>ds_pipe := p\<lparr>p_report := Suc (p_report p)\<rparr>\<rparr>)
           (handle_processed_command (\<lambda>_. None) (is_enabled replay) (jp_publications (ds_journal d))
              (p_ring p ! p_report p)))"

fun core_handler :: "action \<Rightarrow> bool" where
  "core_handler (Reserve i) = True"
| "core_handler (Match j now) = True"
| "core_handler (Settle i) = True"
| "core_handler _ = False"

text \<open>A run, with the commands that were published.\<close>

inductive disruptor_run ::
    "(nat \<Rightarrow> nat) \<Rightarrow> replay_control \<Rightarrow> (pipe \<Rightarrow> bool) \<Rightarrow> 'p disruptor \<Rightarrow> order_command list \<Rightarrow> 'p disruptor \<Rightarrow> bool"
    for clock replay ready d where
  Boot: "disruptor_run clock replay ready d [] d"
| Put: "disruptor_run clock replay ready d cmds e \<Longrightarrow> ready (ds_pipe e) \<Longrightarrow> enabled (Publish cmd) (ds_pipe e) \<Longrightarrow>
    perform (Publish cmd) (ds_pipe e) = Some p \<Longrightarrow> disruptor_run clock replay ready d (cmds @ [cmd]) (e\<lparr>ds_pipe := p\<rparr>)"
| Archive: "disruptor_run clock replay ready d cmds e \<Longrightarrow> enabled (Journal None 0) (ds_pipe e) \<Longrightarrow>
    journal_next clock wall replay e = Some e' \<Longrightarrow> disruptor_run clock replay ready d cmds e'"
| Handle: "disruptor_run clock replay ready d cmds e \<Longrightarrow> core_handler a \<Longrightarrow> enabled a (ds_pipe e) \<Longrightarrow>
    perform a (ds_pipe e) = Some p \<Longrightarrow> disruptor_run clock replay ready d cmds (e\<lparr>ds_pipe := p\<rparr>)"
| Finish: "disruptor_run clock replay ready d cmds e \<Longrightarrow> enabled Report (ds_pipe e) \<Longrightarrow>
    report_next replay e = Some e' \<Longrightarrow> disruptor_run clock replay ready d cmds e'"

text \<open>Every handler has done every command.\<close>

definition idle :: "pipe \<Rightarrow> bool" where
  "idle p \<longleftrightarrow> p_report p = length (p_ring p)"

section \<open>The stages of one command\<close>

text \<open>The first stage: some R1 handlers, with journaling before, between or after them.\<close>

definition reserving ::
    "(nat \<Rightarrow> nat) \<Rightarrow> replay_control \<Rightarrow> 'p journaling_processor \<Rightarrow> core_state \<Rightarrow> order_command \<Rightarrow> nat \<Rightarrow> nat list \<Rightarrow> bool \<Rightarrow>
     'p journaling_processor \<Rightarrow> u8 list list \<Rightarrow> nat \<Rightarrow> risk_engine list \<Rightarrow> order_command \<Rightarrow> bool" where
  "reserving clock replay jp cs c k is J jp' sent k' engines cmd \<longleftrightarrow>
     (if J
      then \<exists>b wall es c1 c2 offers. b \<le> length is \<and> r1_stage (take b is) (cs_prices cs) (cs_engines cs, c) = Some (es, c1) \<and>
        journal_command clock wall replay jp c1 k = Some (Ok (jp', c2, offers, k')) \<and> sent = map snd offers \<and>
        r1_stage (drop b is) (cs_prices cs) (es, c2) = Some (engines, cmd)
      else jp' = jp \<and> sent = [] \<and> k' = k \<and> r1_stage is (cs_prices cs) (cs_engines cs, c) = Some (engines, cmd))"

lemma r1_stage_snoc:
  "r1_stage (is @ [i]) pc s = Option.bind (r1_stage is pc s) (\<lambda>(engines, cmd). r1_handler i pc engines cmd)"
  by (simp add: r1_stage_def)

lemma r2_stage_snoc: "r2_stage (is @ [i]) s = Option.bind (r2_stage is s) (\<lambda>(engines, cmd). r2_handler i engines cmd)"
  by (simp add: r2_stage_def)

lemma reserving_reserve:
  assumes "reserving clock replay jp cs c k is J jp' sent k' engines cmd"
    and "r1_handler i (cs_prices cs) engines cmd = Some (engines', cmd')"
  shows "reserving clock replay jp cs c k (is @ [i]) J jp' sent k' engines' cmd'"
proof (cases J)
  case True
  then obtain b wall es c1 c2 offers where r: "b \<le> length is"
    "r1_stage (take b is) (cs_prices cs) (cs_engines cs, c) = Some (es, c1)"
    "journal_command clock wall replay jp c1 k = Some (Ok (jp', c2, offers, k'))" "sent = map snd offers"
    "r1_stage (drop b is) (cs_prices cs) (es, c2) = Some (engines, cmd)"
    using assms(1) unfolding reserving_def by (simp only: if_True) blast
  have "take b (is @ [i]) = take b is" "b \<le> length (is @ [i])"
    "r1_stage (drop b (is @ [i])) (cs_prices cs) (es, c2) = Some (engines', cmd')"
    using r(1,5) assms(2) by (simp_all add: r1_stage_snoc)
  with r(2-4) True show ?thesis
    unfolding reserving_def
    by (simp only: if_True) (intro exI [of _ b] exI [of _ wall] exI [of _ es] exI [of _ c1] exI [of _ c2]
      exI [of _ offers] conjI; simp)
qed (use assms in \<open>simp add: reserving_def r1_stage_snoc\<close>)

lemma reserving_journal:
  assumes "reserving clock replay jp cs c k is False jp' sent k' engines cmd"
    and "journal_command clock wall replay jp' cmd k' = Some (Ok (jp2, cmd2, offers, k2))"
  shows "reserving clock replay jp cs c k is True jp2 (sent @ map snd offers) k2 engines cmd2"
proof -
  have "jp' = jp" "sent = []" "k' = k" "r1_stage (take (length is) is) (cs_prices cs) (cs_engines cs, c) = Some (engines, cmd)"
    using assms(1) by (simp_all add: reserving_def)
  with assms(2) show ?thesis
    unfolding reserving_def by (simp only: if_True) (intro exI [of _ "length is"] exI conjI; simp add: r1_stage_def)
qed

lemma r1_stage_wf:
  assumes "engines_wf engines" "set is \<subseteq> {0..<4}" "r1_stage is pc (engines, cmd) = Some (engines', cmd')"
  shows "engines_wf engines'"
  using assms
proof (induction "is" arbitrary: engines cmd)
  case (Cons i "is")
  obtain re c where p: "pre_process_command (engines ! i) cmd pc = (re, c)" by (rule prod.exhaust)
  have "same_shard (engines ! i) re" using pre_process_frame [OF p] by (simp add: only_user_def)
  then have "engines_wf (engines[i := re])" by (rule engines_wf_update [OF Cons.prems(1)])
  moreover have "r1_stage is pc (engines[i := re], c) = Some (engines', cmd')"
    using Cons.prems p by (simp add: r1_stage_def r1_handler_def engines_wf_def)
  ultimately show ?case using Cons.IH Cons.prems(2) by simp
qed (simp add: r1_stage_def)

lemma reserving_wf:
  assumes "reserving clock replay jp cs c k is J jp' sent k' engines cmd" "engines_wf (cs_engines cs)" "set is \<subseteq> {0..<4}"
  shows "engines_wf engines"
proof (cases J)
  case True
  then obtain b es c1 c2 where "r1_stage (take b is) (cs_prices cs) (cs_engines cs, c) = Some (es, c1)"
    "r1_stage (drop b is) (cs_prices cs) (es, c2) = Some (engines, cmd)"
    using assms(1) unfolding reserving_def by (simp only: if_True) blast
  then show ?thesis
    using r1_stage_wf assms(2,3) set_take_subset [of b "is"] set_drop_subset [of b "is"] by (meson subset_trans)
qed (use assms r1_stage_wf in \<open>auto simp: reserving_def\<close>)

text \<open>Matching: only the router of the market does something.\<close>

definition routed ::
    "core_state \<Rightarrow> nat set \<Rightarrow> order_command \<Rightarrow> matching_router list \<times> order_command \<times> price_cache \<Rightarrow> bool" where
  "routed cs S c x \<longleftrightarrow>
     (if market_owner (c_market_id c) \<in> S
      then \<exists>now. router_at now (market_owner (c_market_id c)) (cs_routers cs, c, cs_prices cs) = Some x
      else x = (cs_routers cs, c, cs_prices cs))"

lemma routed_wf:
  assumes "routed cs S c (routers, cmd, pc)" "routers_wf (cs_routers cs)"
  shows "routers_wf routers" "c_market_id cmd = c_market_id c"
proof -
  let ?o = "market_owner (c_market_id c)"
  have "routers_wf routers \<and> c_market_id cmd = c_market_id c"
  proof (cases "?o \<in> S")
    case True
    then obtain now mr where h: "router_handler now (cs_routers cs ! ?o) c (cs_prices cs) = Some (mr, cmd, pc)"
      "routers = (cs_routers cs)[?o := mr]"
      using assms by (auto simp: routed_def router_at_def split: if_splits)
    have "shards [0, 1, 2, 3]" by (auto simp: shards_def)
    from matching_stage_owner(2) [OF assms(2) this h(1)] h(2) router_handler_frame [OF h(1)] show ?thesis by simp
  qed (use assms in \<open>simp add: routed_def\<close>)
  then show "routers_wf routers" "c_market_id cmd = c_market_id c" by blast+
qed

lemma routed_step:
  assumes "routed cs S c (routers, cmd, pc)" "routers_wf (cs_routers cs)" "j < 4" "j \<notin> S"
    and "router_at now j (routers, cmd, pc) = Some x"
  shows "routed cs (insert j S) c x"
proof (cases "j = market_owner (c_market_id c)")
  case True
  with assms(1,4,5) show ?thesis by (auto simp: routed_def)
next
  case False
  then have "x = (routers, cmd, pc)"
    using router_foreign [of routers j cmd now pc] routed_wf [OF assms(1,2)] assms(3,5) by simp
  with assms(1) False show ?thesis by (simp add: routed_def)
qed

lemma routed_all:
  assumes "routed cs {0..<4} c x" "routers_wf (cs_routers cs)" "shards mt"
  shows "\<exists>now. matching_stage now mt (cs_routers cs, c, cs_prices cs) = Some x"
proof -
  obtain now where "router_at now (market_owner (c_market_id c)) (cs_routers cs, c, cs_prices cs) = Some x"
    using assms(1) by (auto simp: routed_def)
  then have "matching_stage now mt (cs_routers cs, c, cs_prices cs) = Some x"
    using assms(2) by (auto simp: matching_stage_value [OF assms(2,3)] router_at_def split: if_splits)
  then show ?thesis by blast
qed

text \<open>The whole of one command.\<close>

lemma passed:
  assumes "engine_ready cs" "reserving clock replay jp cs c k is True jp' sent k' engines c0" "shards is"
    and "routed cs {0..<4} c0 (routers, c1, pc)" "r2_stage js (engines, c1) = Some (engines', cmd)" "shards js"
  shows "\<exists>(s :: schedule) cmd' offers. orders_ok (sc_orders s) \<and> sent = map snd offers \<and>
      live_step (sc_before s) clock (sc_wall s) replay (sc_now s) (sc_orders s) jp cs c k =
        Some (Ok (jp', \<lparr>cs_engines = engines', cs_routers = routers, cs_prices = pc\<rparr>, cmd', offers, k'))"
    "engine_ready \<lparr>cs_engines = engines', cs_routers = routers, cs_prices = pc\<rparr>"
proof -
  have wf: "engines_wf (cs_engines cs)" "routers_wf (cs_routers cs)" using assms(1) by (simp_all add: engine_ready_def)
  have sub: "set is \<subseteq> {0..<4}" "set js \<subseteq> {0..<4}" using assms(3,6) by (simp_all add: shards_def)
  have mt: "shards [0, 1, 2, 3]" by (auto simp: shards_def)
  obtain now where m: "matching_stage now [0, 1, 2, 3] (cs_routers cs, c0, cs_prices cs) = Some (routers, c1, pc)"
    using routed_all [OF assms(4) wf(2) mt] by blast
  obtain b wall es d1 d2 offers where r: "b \<le> length is"
    "r1_stage (take b is) (cs_prices cs) (cs_engines cs, c) = Some (es, d1)"
    "journal_command clock wall replay jp d1 k = Some (Ok (jp', d2, offers, k'))" "sent = map snd offers"
    "r1_stage (drop b is) (cs_prices cs) (es, d2) = Some (engines, c0)"
    using assms(2) unfolding reserving_def by (simp only: if_True) blast
  let ?cs = "\<lparr>cs_engines = engines', cs_routers = routers, cs_prices = pc\<rparr>"
  let ?s = "\<lparr>sc_before = b, sc_wall = wall, sc_now = now, sc_orders = (is, [0, 1, 2, 3], js)\<rparr>"
  have a: "after_r1 now [0, 1, 2, 3] js cs (engines, c0) = Some (?cs, cmd)"
    using m assms(5) by (simp add: after_r1_def)
  have "live_step (sc_before ?s) clock (sc_wall ?s) replay (sc_now ?s) (sc_orders ?s) jp cs c k =
      Some (Ok (jp', ?cs, cmd, offers, k'))"
    using r a by (simp add: live_step_def or_panic_def)
  moreover have "orders_ok (sc_orders ?s)" using assms(3,6) mt by (simp add: orders_ok_def)
  ultimately show "\<exists>(s :: schedule) cmd' offers. orders_ok (sc_orders s) \<and> sent = map snd offers \<and>
      live_step (sc_before s) clock (sc_wall s) replay (sc_now s) (sc_orders s) jp cs c k =
        Some (Ok (jp', ?cs, cmd', offers, k'))" using r(4) by blast
  show "engine_ready ?cs"
    using after_r1_wf [OF reserving_wf [OF assms(2) wf(1) sub(1)] wf(2) mt assms(6) a] by (simp add: engine_ready_def)
qed

section \<open>Where a paced run is\<close>

text \<open>The positions of the handlers: those of a set have done command \<open>n\<close>, the others only the ones before.\<close>

definition marks :: "nat \<Rightarrow> nat set \<Rightarrow> nat list" where
  "marks n S = map (\<lambda>i. if i \<in> S then Suc n else n) [0..<4]"

lemma marks_simps [simp]:
  "length (marks n S) = 4" "i < 4 \<Longrightarrow> marks n S ! i = (if i \<in> S then Suc n else n)"
  "i < 4 \<Longrightarrow> (marks n S)[i := Suc n] = marks n (insert i S)"
  "list_all (\<lambda>c. n < c) (marks n S) = ({0..<4} \<subseteq> S)" "\<not> list_all (\<lambda>c. Suc n < c) (marks n S)"
  "marks (Suc n) {} = marks n {0..<4}"
proof -
  show "(marks n S)[i := Suc n] = marks n (insert i S)" if "i < 4" for i
    using that by (auto simp: marks_def nth_list_update intro!: nth_equalityI)
  show "list_all (\<lambda>c. n < c) (marks n S) = ({0..<4} \<subseteq> S)" by (auto simp: marks_def list_all_iff)
  show "\<not> list_all (\<lambda>c. Suc n < c) (marks n S)" by (simp add: marks_def upt_rec)
qed (simp_all add: marks_def)

definition pipe_at ::
    "core_state \<Rightarrow> order_command list \<Rightarrow> nat \<Rightarrow> bool \<Rightarrow> nat set \<Rightarrow> nat set \<Rightarrow> nat set \<Rightarrow> pipe" where
  "pipe_at cs ring n J R M S = \<lparr>p_core = cs, p_ring = ring, p_journal = (if J then Suc n else n), p_reserve = marks n R,
     p_match = marks n M, p_settle = marks n S, p_report = n\<rparr>"

text \<open>What has been done before the command in flight: a run of \<open>engine_run\<close>.\<close>

definition so_far ::
    "(nat \<Rightarrow> nat) \<Rightarrow> replay_control \<Rightarrow> core_state \<Rightarrow> 'p journaling_processor \<Rightarrow> nat \<Rightarrow> order_command list \<Rightarrow>
     'p journaling_processor \<Rightarrow> core_state \<Rightarrow> u8 list list \<Rightarrow> nat \<Rightarrow> bool" where
  "so_far clock replay cs0 jp0 k0 cmds jp cs log k \<longleftrightarrow> engine_ready cs \<and>
     (\<exists>ss. length ss = length cmds \<and> list_all (\<lambda>s. orders_ok (sc_orders s)) ss \<and>
        engine_run clock replay (zip ss cmds) jp0 cs0 k0 = Some (jp, cs, log, k))"

inductive progress ::
    "(nat \<Rightarrow> nat) \<Rightarrow> replay_control \<Rightarrow> core_state \<Rightarrow> 'p journaling_processor \<Rightarrow> nat \<Rightarrow> order_command list \<Rightarrow>
     'p disruptor \<Rightarrow> bool"
    for clock replay cs0 jp0 k0 where
  Quiet: "so_far clock replay cs0 jp0 k0 cmds jp cs log k \<Longrightarrow> length ring = length cmds \<Longrightarrow>
    progress clock replay cs0 jp0 k0 cmds
      \<lparr>ds_pipe = pipe_at cs ring (length cmds) False {} {} {}, ds_journal = jp, ds_log = log, ds_calls = k\<rparr>"
| First: "so_far clock replay cs0 jp0 k0 cmds jp cs log k \<Longrightarrow> length old = length cmds \<Longrightarrow>
    reserving clock replay jp cs c k is J jp' sent k' engines cmd \<Longrightarrow> distinct is \<Longrightarrow> set is \<subseteq> {0..<4} \<Longrightarrow>
    progress clock replay cs0 jp0 k0 (cmds @ [c])
      \<lparr>ds_pipe = pipe_at \<lparr>cs_engines = engines, cs_routers = cs_routers cs, cs_prices = cs_prices cs\<rparr> (old @ [cmd])
         (length cmds) J (set is) {} {}, ds_journal = jp', ds_log = log @ sent, ds_calls = k'\<rparr>"
| Second: "so_far clock replay cs0 jp0 k0 cmds jp cs log k \<Longrightarrow> length old = length cmds \<Longrightarrow>
    reserving clock replay jp cs c k is True jp' sent k' engines c0 \<Longrightarrow> shards is \<Longrightarrow>
    routed cs S c0 (routers, cmd, pc) \<Longrightarrow> S \<subseteq> {0..<4} \<Longrightarrow>
    progress clock replay cs0 jp0 k0 (cmds @ [c])
      \<lparr>ds_pipe = pipe_at \<lparr>cs_engines = engines, cs_routers = routers, cs_prices = pc\<rparr> (old @ [cmd])
         (length cmds) True {0..<4} S {}, ds_journal = jp', ds_log = log @ sent, ds_calls = k'\<rparr>"
| Third: "so_far clock replay cs0 jp0 k0 cmds jp cs log k \<Longrightarrow> length old = length cmds \<Longrightarrow>
    reserving clock replay jp cs c k is True jp' sent k' engines c0 \<Longrightarrow> shards is \<Longrightarrow>
    routed cs {0..<4} c0 (routers, c1, pc) \<Longrightarrow>
    r2_stage js (engines, c1) = Some (engines', cmd) \<Longrightarrow> distinct js \<Longrightarrow> set js \<subseteq> {0..<4} \<Longrightarrow>
    progress clock replay cs0 jp0 k0 (cmds @ [c])
      \<lparr>ds_pipe = pipe_at \<lparr>cs_engines = engines', cs_routers = routers, cs_prices = pc\<rparr> (old @ [cmd])
         (length cmds) True {0..<4} {0..<4} (set js), ds_journal = jp', ds_log = log @ sent, ds_calls = k'\<rparr>"

lemma at_end [simp]:
  "length old = n \<Longrightarrow> (old @ [x]) ! n = x" "length old = n \<Longrightarrow> (old @ [x])[n := y] = old @ [y]"
  by auto

lemma core_eta [simp]: "\<lparr>cs_engines = cs_engines cs, cs_routers = cs_routers cs, cs_prices = cs_prices cs\<rparr> = cs"
  by simp

lemma engine_run_snoc:
  assumes "engine_run clock replay xs jp cs k = Some (jp1, cs1, log, k1)"
    and "live_step (sc_before s) clock (sc_wall s) replay (sc_now s) (sc_orders s) jp1 cs1 c k1 =
      Some (Ok (jp2, cs2, c', offers, k2))"
  shows "engine_run clock replay (xs @ [(s, c)]) jp cs k = Some (jp2, cs2, log @ map snd offers, k2)"
  using assms(1)
proof (induction xs arbitrary: jp cs k log)
  case (Cons x xs)
  obtain s' d where x: "x = (s', d)" by (rule prod.exhaust)
  from Cons.prems obtain jp3 cs3 d3 offers3 k3 log3 where
    "live_step (sc_before s') clock (sc_wall s') replay (sc_now s') (sc_orders s') jp cs d k = Some (Ok (jp3, cs3, d3, offers3, k3))"
    "engine_run clock replay xs jp3 cs3 k3 = Some (jp1, cs1, log3, k1)" "log = map snd offers3 @ log3"
    by (auto simp: x split: option.splits outcome.splits)
  with Cons.IH [OF this(2)] show ?case by (simp add: x)
qed (use assms(2) in simp)

lemma so_far_step:
  assumes "so_far clock replay cs0 jp0 k0 cmds jp cs log k"
    and "reserving clock replay jp cs c k is True jp' sent k' engines c0" "shards is"
    and "routed cs {0..<4} c0 (routers, c1, pc)" "r2_stage js (engines, c1) = Some (engines', cmd)" "shards js"
  shows "so_far clock replay cs0 jp0 k0 (cmds @ [c]) jp' \<lparr>cs_engines = engines', cs_routers = routers, cs_prices = pc\<rparr>
    (log @ sent) k'"
proof -
  obtain ss where ss: "length ss = length cmds" "list_all (\<lambda>s. orders_ok (sc_orders s)) ss"
    "engine_run clock replay (zip ss cmds) jp0 cs0 k0 = Some (jp, cs, log, k)" "engine_ready cs"
    using assms(1) by (auto simp: so_far_def)
  obtain s :: schedule and cmd' offers where s: "orders_ok (sc_orders s)" "sent = map snd offers"
    "live_step (sc_before s) clock (sc_wall s) replay (sc_now s) (sc_orders s) jp cs c k =
      Some (Ok (jp', \<lparr>cs_engines = engines', cs_routers = routers, cs_prices = pc\<rparr>, cmd', offers, k'))"
    using passed(1) [OF ss(4) assms(2-6)] by blast
  have "zip (ss @ [s]) (cmds @ [c]) = zip ss cmds @ [(s, c)]" using ss(1) by simp
  with engine_run_snoc [OF ss(3) s(3)] passed(2) [OF ss(4) assms(2-6)] ss(1,2) s(1,2)
  show ?thesis unfolding so_far_def by (intro conjI exI [of _ "ss @ [s]"]) simp_all
qed

section \<open>Every action moves it on\<close>

lemma progress_put:
  assumes "progress clock replay cs0 jp0 k0 cmds e" "idle (ds_pipe e)" "perform (Publish c) (ds_pipe e) = Some p"
  shows "progress clock replay cs0 jp0 k0 (cmds @ [c]) (e\<lparr>ds_pipe := p\<rparr>)"
  using assms(1)
proof cases
  case (Quiet jp cs log k ring)
  have "reserving clock replay jp cs c k [] False jp [] k (cs_engines cs) c" by (simp add: reserving_def r1_stage_def)
  from First [OF Quiet(2,3) this] assms(3) Quiet(1) show ?thesis by (simp add: perform_def pipe_at_def)
qed (use assms(2) in \<open>simp_all add: idle_def pipe_at_def\<close>)

lemma progress_archive:
  assumes "progress clock replay cs0 jp0 k0 cmds e" "enabled (Journal None 0) (ds_pipe e)"
    and "journal_next clock wall replay e = Some e'"
  shows "progress clock replay cs0 jp0 k0 cmds e'"
  using assms(1)
proof cases
  case (First cmds0 jp cs log k old c "is" J jp' sent k' engines cmd)
  have J: "\<not> J" using assms(2) First(2,4) by (cases J) (simp_all add: pipe_at_def)
  obtain jp2 cmd2 offers k2 where j: "journal_command clock wall replay jp' cmd k' = Some (Ok (jp2, cmd2, offers, k2))"
    "e' = \<lparr>ds_pipe = pipe_at \<lparr>cs_engines = engines, cs_routers = cs_routers cs, cs_prices = cs_prices cs\<rparr> (old @ [cmd2])
         (length cmds0) True (set is) {} {}, ds_journal = jp2, ds_log = (log @ sent) @ map snd offers, ds_calls = k2\<rparr>"
    using assms(3) J First(2,4)
    by (auto simp: journal_next_def pipe_at_def put_back_def Let_def split: option.splits outcome.splits)
  from reserving_journal [OF _ j(1)] First(5) J
  have "reserving clock replay jp cs c k is True jp2 (sent @ map snd offers) k2 engines cmd2" by simp
  from progress.First [OF First(3,4) this First(6,7)] show ?thesis using First(1) j(2) by simp
qed (use assms(2) in \<open>simp_all add: pipe_at_def\<close>)

lemma progress_reserve:
  assumes "progress clock replay cs0 jp0 k0 cmds e" "enabled (Reserve i) (ds_pipe e)"
    and "perform (Reserve i) (ds_pipe e) = Some p"
  shows "progress clock replay cs0 jp0 k0 cmds (e\<lparr>ds_pipe := p\<rparr>)"
  using assms(1)
proof cases
  case (First cmds0 jp cs log k old c "is" J jp' sent k' engines cmd)
  have i: "i < 4" "i \<notin> set is" using assms(2) First(2,4) by (auto simp: pipe_at_def split: if_splits)
  obtain engines' cmd' where r: "r1_handler i (cs_prices cs) engines cmd = Some (engines', cmd')"
    "p = pipe_at \<lparr>cs_engines = engines', cs_routers = cs_routers cs, cs_prices = cs_prices cs\<rparr> (old @ [cmd'])
         (length cmds0) J (insert i (set is)) {} {}"
    using assms(3) i First(2,4)
    by (auto simp: perform_def do_reserve_def pipe_at_def put_back_def Let_def)
  from progress.First [OF First(3,4) reserving_reserve [OF First(5) r(1)]] i First(1,2,6,7) r(2)
  show ?thesis by simp
qed (use assms(2) in \<open>auto simp: pipe_at_def\<close>)

lemma progress_match:
  assumes "progress clock replay cs0 jp0 k0 cmds e" "enabled (Match j now) (ds_pipe e)"
    and "perform (Match j now) (ds_pipe e) = Some p"
  shows "progress clock replay cs0 jp0 k0 cmds (e\<lparr>ds_pipe := p\<rparr>)"
  using assms(1)
proof cases
  case (First cmds0 jp cs log k old c "is" J jp' sent k' engines cmd)
  have j: "j < 4" and J: "J" "set is = {0..<4}"
    using assms(2) First(2,4,7) by (auto simp: pipe_at_def split: if_splits)
  obtain routers cmd' pc where r: "router_at now j (cs_routers cs, cmd, cs_prices cs) = Some (routers, cmd', pc)"
    "p = pipe_at \<lparr>cs_engines = engines, cs_routers = routers, cs_prices = pc\<rparr> (old @ [cmd'])
         (length cmds0) True {0..<4} {j} {}"
    using assms(3) j J First(2,4) by (auto simp: perform_def do_match_def pipe_at_def put_back_def Let_def)
  have "routers_wf (cs_routers cs)" using First(3) by (simp add: so_far_def engine_ready_def)
  from routed_step [OF _ this j _ r(1), of "{}"] have m: "routed cs {j} cmd (routers, cmd', pc)" by (simp add: routed_def)
  have "reserving clock replay jp cs c k is True jp' sent k' engines cmd" "shards is"
    using First(5,6) J by (simp_all add: shards_def)
  from progress.Second [OF First(3,4) this m] First(1,2) j r(2) show ?thesis by simp
next
  case (Second cmds0 jp cs log k old c "is" jp' sent k' engines c0 S routers cmd pc)
  have j: "j < 4" "j \<notin> S" using assms(2) Second(2,4) by (auto simp: pipe_at_def split: if_splits)
  obtain routers' cmd' pc' where r: "router_at now j (routers, cmd, pc) = Some (routers', cmd', pc')"
    "p = pipe_at \<lparr>cs_engines = engines, cs_routers = routers', cs_prices = pc'\<rparr> (old @ [cmd'])
         (length cmds0) True {0..<4} (insert j S) {}"
    using assms(3) j Second(2,4) by (auto simp: perform_def do_match_def pipe_at_def put_back_def Let_def)
  have "routers_wf (cs_routers cs)" using Second(3) by (simp add: so_far_def engine_ready_def)
  from progress.Second [OF Second(3-6) routed_step [OF Second(7) this j r(1)]] Second(1,2,8) j r(2)
  show ?thesis by simp
qed (use assms(2) in \<open>auto simp: pipe_at_def\<close>)

lemma progress_settle:
  assumes "progress clock replay cs0 jp0 k0 cmds e" "enabled (Settle i) (ds_pipe e)"
    and "perform (Settle i) (ds_pipe e) = Some p"
  shows "progress clock replay cs0 jp0 k0 cmds (e\<lparr>ds_pipe := p\<rparr>)"
  using assms(1)
proof cases
  case (Second cmds0 jp cs log k old c "is" jp' sent k' engines c0 S routers cmd pc)
  have i: "i < 4" and S: "S = {0..<4}" using assms(2) Second(2,4,8) by (auto simp: pipe_at_def split: if_splits)
  obtain engines' cmd' where r: "r2_handler i engines cmd = Some (engines', cmd')"
    "p = pipe_at \<lparr>cs_engines = engines', cs_routers = routers, cs_prices = pc\<rparr> (old @ [cmd'])
         (length cmds0) True {0..<4} {0..<4} {i}"
    using assms(3) i S Second(2,4) by (auto simp: perform_def do_settle_def pipe_at_def put_back_def Let_def)
  have "r2_stage [i] (engines, cmd) = Some (engines', cmd')" using r(1) by (simp add: r2_stage_def)
  from progress.Third [OF Second(3-6) Second(7) [unfolded S] this] i Second(1,2) r(2) show ?thesis by simp
next
  case (Third cmds0 jp cs log k old c "is" jp' sent k' engines c0 routers c1 pc js engines1 cmd)
  have i: "i < 4" "i \<notin> set js" using assms(2) Third(2,4) by (auto simp: pipe_at_def split: if_splits)
  obtain engines' cmd' where r: "r2_handler i engines1 cmd = Some (engines', cmd')"
    "p = pipe_at \<lparr>cs_engines = engines', cs_routers = routers, cs_prices = pc\<rparr> (old @ [cmd'])
         (length cmds0) True {0..<4} {0..<4} (insert i (set js))"
    using assms(3) i Third(2,4) by (auto simp: perform_def do_settle_def pipe_at_def put_back_def Let_def)
  have "r2_stage (js @ [i]) (engines, c1) = Some (engines', cmd')" using r(1) Third(8) by (simp add: r2_stage_snoc)
  from progress.Third [OF Third(3-7) this] i Third(1,2,9,10) r(2) show ?thesis by simp
qed (use assms(2) in \<open>auto simp: pipe_at_def\<close>)

lemma progress_finish:
  assumes "progress clock replay cs0 jp0 k0 cmds e" "enabled Report (ds_pipe e)" "report_next replay e = Some e'"
  shows "progress clock replay cs0 jp0 k0 cmds e'"
  using assms(1)
proof cases
  case (Third cmds0 jp cs log k old c "is" jp' sent k' engines c0 routers c1 pc js engines1 cmd)
  have "shards js" using assms(2) Third(2,4,9,10) by (auto simp: pipe_at_def shards_def)
  note whole = so_far_step [OF Third(3,5-8) this]
  have "set js = {0..<4}" using \<open>shards js\<close> by (simp add: shards_def)
  then have "e' = \<lparr>ds_pipe = pipe_at \<lparr>cs_engines = engines1, cs_routers = routers, cs_prices = pc\<rparr> (old @ [cmd])
      (Suc (length cmds0)) False {} {} {}, ds_journal = jp', ds_log = log @ sent, ds_calls = k'\<rparr>"
    using assms(3) Third(2,4) by (auto simp: report_next_def pipe_at_def Let_def)
  with Quiet [OF whole] Third(1,4) show ?thesis by simp
qed (use assms(2) in \<open>auto simp: pipe_at_def\<close>)

lemma pipe_new_at: "pipe_new cs = pipe_at cs [] 0 False {} {} {}"
  by (simp add: pipe_new_def pipe_at_def marks_def NUM_RISK_ENGINES_def NUM_MATCHING_ENGINES_def map_replicate_const)

lemma paced_progress:
  assumes "disruptor_run clock replay idle (disruptor_new cs jp k) cmds e" "engine_ready cs"
  shows "progress clock replay cs jp k cmds e"
  using assms(1)
proof induction
  case Boot
  from assms(2) Quiet [of clock replay cs jp k "[]" jp cs "[]" k "[]"] show ?case
    by (simp add: disruptor_new_def so_far_def pipe_new_at)
next
  case (Handle cmds e a p)
  then show ?case by (cases a) (auto intro: progress_reserve progress_match progress_settle)
qed (auto intro: progress_put progress_archive progress_finish)

text \<open>A paced run that has come to rest did what \<open>engine_run\<close> does.\<close>

lemma paced_run_schedules:
  assumes "disruptor_run clock replay idle (disruptor_new cs jp k) cmds e" "engine_ready cs" "idle (ds_pipe e)"
  shows "\<exists>ss. length ss = length cmds \<and> list_all (\<lambda>s. orders_ok (sc_orders s)) ss \<and>
    engine_run clock replay (zip ss cmds) jp cs k =
      Some (ds_journal e, p_core (ds_pipe e), ds_log e, ds_calls e)"
  using paced_progress [OF assms(1,2)]
proof cases
  case (Quiet jp' cs' log k' ring)
  then show ?thesis by (auto simp: so_far_def pipe_at_def)
qed (use assms(3) in \<open>auto simp: idle_def pipe_at_def\<close>)

section \<open>Every schedule is a paced run\<close>

lemma run_reserves:
  assumes "disruptor_run clock replay ready d cmds
      \<lparr>ds_pipe = pipe_at \<lparr>cs_engines = engines, cs_routers = routers, cs_prices = pc\<rparr> (old @ [c]) n J R {} {},
       ds_journal = jp, ds_log = log, ds_calls = k\<rparr>"
    and "length old = n" "distinct is" "set is \<subseteq> {0..<4} - R" "r1_stage is pc (engines, c) = Some (engines', c')"
  shows "disruptor_run clock replay ready d cmds
      \<lparr>ds_pipe = pipe_at \<lparr>cs_engines = engines', cs_routers = routers, cs_prices = pc\<rparr> (old @ [c']) n J (R \<union> set is) {} {},
       ds_journal = jp, ds_log = log, ds_calls = k\<rparr>"
  using assms
proof (induction "is" arbitrary: engines c R)
  case (Cons i "is")
  obtain engines1 c1 where h: "r1_handler i pc engines c = Some (engines1, c1)"
    "r1_stage is pc (engines1, c1) = Some (engines', c')"
    using Cons.prems(5) by (cases "r1_handler i pc engines c") (auto simp: r1_stage_def fold_None)
  have i: "i < 4" "i \<notin> R" using Cons.prems(4) by auto
  from Handle [OF Cons.prems(1), of "Reserve i"] h(1) i Cons.prems(2)
  have "disruptor_run clock replay ready d cmds
      \<lparr>ds_pipe = pipe_at \<lparr>cs_engines = engines1, cs_routers = routers, cs_prices = pc\<rparr> (old @ [c1]) n J (insert i R) {} {},
       ds_journal = jp, ds_log = log, ds_calls = k\<rparr>"
    by (simp add: perform_def do_reserve_def pipe_at_def put_back_def Let_def)
  from Cons.IH [OF this Cons.prems(2) _ _ h(2)] Cons.prems(3,4) show ?case by auto
qed (simp add: r1_stage_def)

lemma run_matches:
  assumes "disruptor_run clock replay ready d cmds
      \<lparr>ds_pipe = pipe_at \<lparr>cs_engines = engines, cs_routers = routers, cs_prices = pc\<rparr> (old @ [c]) n True {0..<4} M {},
       ds_journal = jp, ds_log = log, ds_calls = k\<rparr>"
    and "length old = n" "distinct is" "set is \<subseteq> {0..<4} - M"
    and "matching_stage now is (routers, c, pc) = Some (routers', c', pc')"
  shows "disruptor_run clock replay ready d cmds
      \<lparr>ds_pipe = pipe_at \<lparr>cs_engines = engines, cs_routers = routers', cs_prices = pc'\<rparr> (old @ [c']) n True {0..<4} (M \<union> set is) {},
       ds_journal = jp, ds_log = log, ds_calls = k\<rparr>"
  using assms
proof (induction "is" arbitrary: routers c pc M)
  case (Cons j "is")
  obtain routers1 c1 pc1 where h: "router_at now j (routers, c, pc) = Some (routers1, c1, pc1)"
    "matching_stage now is (routers1, c1, pc1) = Some (routers', c', pc')"
    using Cons.prems(5) by (cases "router_at now j (routers, c, pc)") (auto simp: matching_stage_def fold_None)
  have j: "j < 4" "j \<notin> M" using Cons.prems(4) by auto
  from Handle [OF Cons.prems(1), of "Match j now"] h(1) j Cons.prems(2)
  have "disruptor_run clock replay ready d cmds
      \<lparr>ds_pipe = pipe_at \<lparr>cs_engines = engines, cs_routers = routers1, cs_prices = pc1\<rparr> (old @ [c1]) n True {0..<4} (insert j M) {},
       ds_journal = jp, ds_log = log, ds_calls = k\<rparr>"
    by (simp add: perform_def do_match_def pipe_at_def put_back_def Let_def)
  from Cons.IH [OF this Cons.prems(2) _ _ h(2)] Cons.prems(3,4) show ?case by auto
qed (simp add: matching_stage_def)

lemma run_settles:
  assumes "disruptor_run clock replay ready d cmds
      \<lparr>ds_pipe = pipe_at \<lparr>cs_engines = engines, cs_routers = routers, cs_prices = pc\<rparr> (old @ [c]) n True {0..<4} {0..<4} S,
       ds_journal = jp, ds_log = log, ds_calls = k\<rparr>"
    and "length old = n" "distinct is" "set is \<subseteq> {0..<4} - S" "r2_stage is (engines, c) = Some (engines', c')"
  shows "disruptor_run clock replay ready d cmds
      \<lparr>ds_pipe = pipe_at \<lparr>cs_engines = engines', cs_routers = routers, cs_prices = pc\<rparr> (old @ [c']) n True {0..<4} {0..<4} (S \<union> set is),
       ds_journal = jp, ds_log = log, ds_calls = k\<rparr>"
  using assms
proof (induction "is" arbitrary: engines c S)
  case (Cons i "is")
  obtain engines1 c1 where h: "r2_handler i engines c = Some (engines1, c1)"
    "r2_stage is (engines1, c1) = Some (engines', c')"
    using Cons.prems(5) by (cases "r2_handler i engines c") (auto simp: r2_stage_def fold_None)
  have i: "i < 4" "i \<notin> S" using Cons.prems(4) by auto
  from Handle [OF Cons.prems(1), of "Settle i"] h(1) i Cons.prems(2)
  have "disruptor_run clock replay ready d cmds
      \<lparr>ds_pipe = pipe_at \<lparr>cs_engines = engines1, cs_routers = routers, cs_prices = pc\<rparr> (old @ [c1]) n True {0..<4} {0..<4} (insert i S),
       ds_journal = jp, ds_log = log, ds_calls = k\<rparr>"
    by (simp add: perform_def do_settle_def pipe_at_def put_back_def Let_def)
  from Cons.IH [OF this Cons.prems(2) _ _ h(2)] Cons.prems(3,4) show ?case by auto
qed (simp add: r2_stage_def)

text \<open>No handler leaves a snapshot the events handler cannot read.\<close>

lemma r1_stage_snapshot:
  "r1_stage is pc (engines, c) = Some (engines', c') \<Longrightarrow> snapshot_ok c' = snapshot_ok c"
proof (induction "is" arbitrary: engines c)
  case (Cons i "is")
  then obtain engines1 c1 where h: "r1_handler i pc engines c = Some (engines1, c1)"
    "r1_stage is pc (engines1, c1) = Some (engines', c')"
    by (cases "r1_handler i pc engines c") (auto simp: r1_stage_def fold_None)
  obtain re where "pre_process_command (engines ! i) c pc = (re, c1)"
    using h(1) by (auto simp: r1_handler_def split: if_splits prod.splits)
  from pre_process_snapshot [OF this] Cons.IH [OF h(2)] show ?case by simp
qed (simp add: r1_stage_def)

lemma r2_stage_snapshot:
  "r2_stage is (engines, c) = Some (engines', c') \<Longrightarrow> snapshot_ok c' = snapshot_ok c"
proof (induction "is" arbitrary: engines c)
  case (Cons i "is")
  then obtain engines1 c1 where h: "r2_handler i engines c = Some (engines1, c1)"
    "r2_stage is (engines1, c1) = Some (engines', c')"
    by (cases "r2_handler i engines c") (auto simp: r2_stage_def fold_None)
  have "snapshot_ok c1 = snapshot_ok c"
    using h(1) by (auto simp: r2_handler_def split: if_splits prod.splits dest: r2_settle_snapshot)
  with Cons.IH [OF h(2)] show ?case by simp
qed (simp add: r2_stage_def)

lemma live_step_elim:
  assumes "live_step before clock wall replay now (r1, mt, r2) jp cs c k = Some (Ok (jp', cs', c', offers, k'))"
  obtains es c1 c2 es1 c3 routers c4 pc es2 where
    "r1_stage (take before r1) (cs_prices cs) (cs_engines cs, c) = Some (es, c1)"
    "journal_command clock wall replay jp c1 k = Some (Ok (jp', c2, offers, k'))"
    "r1_stage (drop before r1) (cs_prices cs) (es, c2) = Some (es1, c3)"
    "matching_stage now mt (cs_routers cs, c3, cs_prices cs) = Some (routers, c4, pc)"
    "r2_stage r2 (es1, c4) = Some (es2, c')" "cs' = \<lparr>cs_engines = es2, cs_routers = routers, cs_prices = pc\<rparr>"
  using assms
  by (auto simp: live_step_def or_panic_def obind_or_panic after_r1_def bind_eq_Some_conv elim!: obind.elims
      split: option.splits)

lemma live_step_snapshot:
  assumes "live_step before clock wall False now orders jp cs c k = Some (Ok (jp', cs', c', offers, k'))"
    and "pubs_wf (jp_publications jp)" "engine_ready cs" "orders_ok orders" "snapshot_ok c"
  shows "snapshot_ok c'"
proof -
  obtain r1 mt r2 where o: "orders = (r1, mt, r2)" by (rule prod_cases3)
  obtain es c1 c2 es1 c3 routers c4 pc es2 where r: "r1_stage (take before r1) (cs_prices cs) (cs_engines cs, c) = Some (es, c1)"
    "journal_command clock wall False jp c1 k = Some (Ok (jp', c2, offers, k'))"
    "r1_stage (drop before r1) (cs_prices cs) (es, c2) = Some (es1, c3)"
    and m: "matching_stage now mt (cs_routers cs, c3, cs_prices cs) = Some (routers, c4, pc)"
    "r2_stage r2 (es1, c4) = Some (es2, c')"
    by (rule live_step_elim [OF assms(1) [unfolded o]])
  have "routers_wf (cs_routers cs)" "shards mt" using assms(3,4) by (simp_all add: engine_ready_def orders_ok_def o)
  with m(1) obtain mr where "router_handler now (cs_routers cs ! market_owner (c_market_id c3)) c3 (cs_prices cs) = Some (mr, c4, pc)"
    by (auto simp: matching_stage_value)
  moreover have "snapshot_ok c2 = snapshot_ok c1"
    using journal_command_stamps [OF assms(2) r(2)] by auto
  ultimately show ?thesis
    using r1_stage_snapshot [OF r(1)] r1_stage_snapshot [OF r(3)] router_handler_snapshot r2_stage_snapshot [OF m(2)] assms(5)
    by blast
qed

text \<open>One command, from one rest to the next.\<close>

lemma run_command:
  assumes "disruptor_run clock replay idle d cmds
      \<lparr>ds_pipe = pipe_at cs ring n False {} {} {}, ds_journal = jp, ds_log = log, ds_calls = k\<rparr>"
    and "length ring = n" "orders_ok orders"
    and "live_step before clock wall replay now orders jp cs c k = Some (Ok (jp', cs', c', offers, k'))"
    and "handle_processed_command (\<lambda>_. None) (is_enabled replay) (jp_publications jp') c' \<noteq> None"
  shows "disruptor_run clock replay idle d (cmds @ [c])
      \<lparr>ds_pipe = pipe_at cs' (ring @ [c']) (Suc n) False {} {} {}, ds_journal = jp', ds_log = log @ map snd offers, ds_calls = k'\<rparr>"
proof -
  obtain r1 mt r2 where o: "orders = (r1, mt, r2)" by (rule prod_cases3)
  have sh: "shards r1" "shards mt" "shards r2" using assms(3) by (simp_all add: orders_ok_def o)
  let ?t = "take before r1" and ?d = "drop before r1"
  have td: "distinct ?t" "distinct ?d" "set ?t \<subseteq> {0..<4} - {}" "set ?d \<subseteq> {0..<4} - set ?t" "set ?t \<union> set ?d = {0..<4}"
    using sh(1) set_take_subset [of before r1] set_drop_subset [of before r1] set_take_disj_set_drop_if_distinct [of r1 before before]
    by (auto simp: shards_def simp flip: set_append)
  obtain es c1 c2 es1 c3 routers c4 pc es2 where r: "r1_stage ?t (cs_prices cs) (cs_engines cs, c) = Some (es, c1)"
    "journal_command clock wall replay jp c1 k = Some (Ok (jp', c2, offers, k'))"
    "r1_stage ?d (cs_prices cs) (es, c2) = Some (es1, c3)"
    and m: "matching_stage now mt (cs_routers cs, c3, cs_prices cs) = Some (routers, c4, pc)"
    "r2_stage r2 (es1, c4) = Some (es2, c')" "cs' = \<lparr>cs_engines = es2, cs_routers = routers, cs_prices = pc\<rparr>"
    by (rule live_step_elim [OF assms(4) [unfolded o]])
  from Put [OF assms(1), of c] assms(2) have "disruptor_run clock replay idle d (cmds @ [c])
      \<lparr>ds_pipe = pipe_at \<lparr>cs_engines = cs_engines cs, cs_routers = cs_routers cs, cs_prices = cs_prices cs\<rparr>
         (ring @ [c]) n False {} {} {}, ds_journal = jp, ds_log = log, ds_calls = k\<rparr>"
    by (simp add: perform_def pipe_at_def idle_def BUFFER_SIZE_def)
  note a = run_reserves [OF this assms(2) td(1,3) r(1)]
  from Archive [OF a, of wall] r(2) assms(2) have "disruptor_run clock replay idle d (cmds @ [c])
      \<lparr>ds_pipe = pipe_at \<lparr>cs_engines = es, cs_routers = cs_routers cs, cs_prices = cs_prices cs\<rparr>
         (ring @ [c2]) n True (set ?t) {} {}, ds_journal = jp', ds_log = log @ map snd offers, ds_calls = k'\<rparr>"
    by (simp add: journal_next_def pipe_at_def put_back_def Let_def)
  note b = run_reserves [OF this assms(2) td(2,4) r(3), unfolded td(5)]
  have mt: "distinct mt" "set mt \<subseteq> {0..<4} - {}" "{} \<union> set mt = {0..<4}"
    and r2: "distinct r2" "set r2 \<subseteq> {0..<4} - {}" "{} \<union> set r2 = {0..<4}"
    using sh(2,3) by (simp_all add: shards_def)
  note e = run_settles [OF run_matches [OF b assms(2) mt(1,2) m(1), unfolded mt(3)] assms(2) r2(1,2) m(2), unfolded r2(3)]
  from Finish [OF e] assms(2,5) m(3) show ?thesis by (auto simp: report_next_def pipe_at_def Let_def)
qed

lemma runs_schedules:
  assumes "disruptor_run clock replay idle d cmds0
      \<lparr>ds_pipe = pipe_at cs ring n False {} {} {}, ds_journal = jp, ds_log = log0, ds_calls = k\<rparr>" "length ring = n"
    and "engine_run clock replay (zip ss cmds) jp cs k = Some (jp', cs', log, k')" "length ss = length cmds"
    and "list_all (\<lambda>s. orders_ok (sc_orders s)) ss"
    and "replay \<or> engine_ready cs \<and> pubs_wf (jp_publications jp) \<and> jp_publications jp ! MAX_GATEWAYS = Some pub \<and>
      list_all fresh_command cmds"
  shows "\<exists>ring'. length ring' = n + length cmds \<and> disruptor_run clock replay idle d (cmds0 @ cmds)
      \<lparr>ds_pipe = pipe_at cs' ring' (n + length cmds) False {} {} {}, ds_journal = jp', ds_log = log0 @ log, ds_calls = k'\<rparr>"
  using assms
proof (induction cmds arbitrary: ss cmds0 cs ring n jp log0 log k)
  case (Cons c cmds)
  obtain s ss1 where ss: "ss = s # ss1" using Cons.prems(4) by (cases ss) auto
  have ok: "orders_ok (sc_orders s)" "list_all (\<lambda>s. orders_ok (sc_orders s)) ss1" "length ss1 = length cmds"
    using Cons.prems(4,5) by (simp_all add: ss)
  obtain jp1 cs1 c1 offers k1 log1 where step: "live_step (sc_before s) clock (sc_wall s) replay (sc_now s) (sc_orders s) jp cs c k =
      Some (Ok (jp1, cs1, c1, offers, k1))"
    and rest: "engine_run clock replay (zip ss1 cmds) jp1 cs1 k1 = Some (jp', cs', log1, k')" "log = map snd offers @ log1"
    using Cons.prems(3) by (auto simp: ss split: option.splits outcome.splits)
  have next_ok: "handle_processed_command (\<lambda>_. None) (is_enabled replay) (jp_publications jp1) c1 \<noteq> None \<and>
      (replay \<or> engine_ready cs1 \<and> pubs_wf (jp_publications jp1) \<and> jp_publications jp1 ! MAX_GATEWAYS = Some pub \<and>
        list_all fresh_command cmds)"
  proof (cases replay)
    case True
    then show ?thesis by (simp add: handle_processed_command_def is_enabled_def)
  next
    case False
    with Cons.prems(6) have c: "engine_ready cs" "pubs_wf (jp_publications jp)" "jp_publications jp ! MAX_GATEWAYS = Some pub"
      "fresh_command c" "list_all fresh_command cmds" by simp_all
    note live = step [unfolded False [THEN eq_False [THEN iffD2]]]
    have "snapshot_ok c" using c(4) by (simp add: fresh_command_def snapshot_ok_def)
    with replay_one [OF c(1) ok(1) ok(1) c(4) c(2,3) live] live_step_snapshot [OF live c(2,1) ok(1)] handler_total c(2,3,5)
    show ?thesis by metis
  qed
  from run_command [OF Cons.prems(1,2) ok(1) step] next_ok
  have "disruptor_run clock replay idle d (cmds0 @ [c])
      \<lparr>ds_pipe = pipe_at cs1 (ring @ [c1]) (Suc n) False {} {} {}, ds_journal = jp1, ds_log = log0 @ map snd offers, ds_calls = k1\<rparr>"
    by blast
  from Cons.IH [OF this _ rest(1) ok(3,2) conjunct2 [OF next_ok]] Cons.prems(2) rest(2) show ?case by auto
next
  case Nil
  then show ?case by auto
qed

text \<open>The schedules of \<open>engine_run\<close> are the paced runs that have come to rest.\<close>

lemma schedules_run:
  assumes "engine_run clock replay (zip ss cmds) jp cs k = Some (jp', cs', log, k')" "length ss = length cmds"
    and "list_all (\<lambda>s. orders_ok (sc_orders s)) ss"
    and "replay \<or> engine_ready cs \<and> pubs_wf (jp_publications jp) \<and> jp_publications jp ! MAX_GATEWAYS = Some pub \<and>
      list_all fresh_command cmds"
  shows "\<exists>e. disruptor_run clock replay idle (disruptor_new cs jp k) cmds e \<and> idle (ds_pipe e) \<and>
    p_core (ds_pipe e) = cs' \<and> ds_journal e = jp' \<and> ds_log e = log \<and> ds_calls e = k'"
proof -
  have "disruptor_new cs jp k = \<lparr>ds_pipe = pipe_at cs [] 0 False {} {} {}, ds_journal = jp, ds_log = [], ds_calls = k\<rparr>"
    by (simp add: disruptor_new_def pipe_new_at)
  with Boot [of clock replay idle "disruptor_new cs jp k"]
  obtain ring where "length ring = length cmds" "disruptor_run clock replay idle (disruptor_new cs jp k) cmds
      \<lparr>ds_pipe = pipe_at cs' ring (length cmds) False {} {} {}, ds_journal = jp', ds_log = log, ds_calls = k'\<rparr>"
    using runs_schedules [where ?cmds0.0 = "[]" and ring = "[]" and n = 0 and ?log0.0 = "[]", OF _ _ assms] by auto
  then show ?thesis by (intro exI conjI) (auto simp: idle_def pipe_at_def)
qed

end
