(* ===== verification/Gateway_Sessions.thy ===== *)
theory Gateway_Sessions
  imports Replay Network_Config
begin

text \<open>
  The gateway manager of \<^verbatim>\<open>networking/src/server/gateway_manager.rs\<close> with the duologue of
  \<^verbatim>\<open>duologue.rs\<close> and the handler of \<^verbatim>\<open>gateway_handler.rs\<close>: sixteen slots of connected gateways, the
  handshake that fills one, the queue of clean-up requests the image callbacks write to, and the removal
  of a session. What Aeron answers during a handshake is an environment record: the publications and
  subscriptions it adds, the results of offers, whether the publication is connected at the k-th look; so
  are the random numbers and the clock. The subscription of a gateway is a value of type \<open>'s\<close>, its
  publication one of type \<open>'p\<close>. Locks are not poisoned: nothing panics while one is held.
\<close>

section \<open>Duologues\<close>

definition DUOLOGUE_STREAM_ID :: i32 where "DUOLOGUE_STREAM_ID = 1002"

text \<open>The three handlers that \<open>close\<close> takes are there or not.\<close>

record 's duologue =
  du_fragment_handler :: bool
  du_gateway_id :: u8
  du_subscription :: 's
  du_is_closed :: bool
  du_on_image_available :: bool
  du_on_image_unavailable :: bool

definition duologue_new :: "'s \<Rightarrow> u8 \<Rightarrow> 's duologue" where
  "duologue_new subscription gateway_id =
     \<lparr>du_fragment_handler = True, du_gateway_id = gateway_id, du_subscription = subscription,
      du_is_closed = False, du_on_image_available = True, du_on_image_unavailable = True\<rparr>"

text \<open>
  Polling a gateway: Aeron's answer is an error or the fragments it delivers (at most 2048), each with
  whether the ring has room for its command. Every fragment goes through the handler of
  \<^verbatim>\<open>cmd_handler.rs\<close>, which decodes it; \<open>None\<close> is a panic of the decoder, which ends the poll. The result is
  the number of fragments read and the commands put on the ring.
\<close>

type_synonym 's fragments = "'s \<Rightarrow> i32 + (u8 list \<times> bool) list"

fun read_fragments :: "u8 \<Rightarrow> (u8 list \<times> bool) list \<Rightarrow> order_command list option" where
  "read_fragments gateway_id [] = Some []"
| "read_fragments gateway_id ((buffer, took) # rest) =
     (case handle_fragment gateway_id took buffer of
        None \<Rightarrow> None
      | Some cmds \<Rightarrow> map_option ((@) cmds) (read_fragments gateway_id rest))"

definition duologue_poll :: "'s fragments \<Rightarrow> 's duologue \<Rightarrow> (i32 + i32 \<times> order_command list) option" where
  "duologue_poll poll d =
     (if du_fragment_handler d then
        (case poll (du_subscription d) of
           Inl code \<Rightarrow> Some (Inl code)
         | Inr fragments \<Rightarrow>
             map_option (\<lambda>cmds. Inr (of_nat (length fragments), cmds)) (read_fragments (du_gateway_id d) fragments))
      else Some (Inr (0, [])))"

text \<open>The result of closing the subscription, and whether the handlers went into the notification.\<close>

definition duologue_close :: "('s \<Rightarrow> bool \<Rightarrow> i32 + unit) \<Rightarrow> 's duologue \<Rightarrow> (i32 + unit) \<times> 's duologue" where
  "duologue_close close d =
     (let notify = (du_fragment_handler d \<and> du_on_image_available d \<and> du_on_image_unavailable d);
          d = d\<lparr>du_fragment_handler := False, du_on_image_available := False, du_on_image_unavailable := False\<rparr>
      in case close (du_subscription d) notify of
           Inl e \<Rightarrow> (Inl e, d)
         | Inr _ \<Rightarrow> (Inr (), d\<lparr>du_is_closed := True\<rparr>))"

definition duologue_drop :: "('s \<Rightarrow> bool \<Rightarrow> i32 + unit) \<Rightarrow> 's duologue \<Rightarrow> 's duologue" where
  "duologue_drop close d = (if du_is_closed d then d else snd (duologue_close close d))"

section \<open>Slots\<close>

record 's gateway_slot =
  sl_duologue :: "'s duologue"
  sl_port_data :: u16
  sl_port_control :: u16
  sl_session_id :: i32

type_synonym 's session = "'s gateway_slot option list"

definition session_new :: "'s session" where
  "session_new = replicate MAX_GATEWAYS None"

definition connected_slots :: "'s session \<Rightarrow> 's gateway_slot list" where
  "connected_slots s = List.map_filter id s"

definition session_iter :: "'s session \<Rightarrow> 's duologue list" where
  "session_iter s = map sl_duologue (connected_slots s)"

text \<open>Indexing the ports out of range is a panic.\<close>

definition session_insert ::
    "u8 \<Rightarrow> i32 \<Rightarrow> 's duologue \<Rightarrow> u16 list \<Rightarrow> 's session \<Rightarrow> 's session option" where
  "session_insert gateway_id session_id duologue ports s =
     (if MAX_GATEWAYS \<le> unat gateway_id then Some s
      else (case ports of
              data # control # _ \<Rightarrow>
                Some (s[unat gateway_id := Some \<lparr>sl_duologue = duologue, sl_port_data = data,
                  sl_port_control = control, sl_session_id = session_id\<rparr>])
            | _ \<Rightarrow> None))"

definition session_remove :: "u8 \<Rightarrow> 's session \<Rightarrow> 's duologue option \<times> 's session" where
  "session_remove gateway_id s =
     (let g = unat gateway_id
      in if g < MAX_GATEWAYS then (map_option sl_duologue (s ! g), s[g := None]) else (None, s))"

definition session_is_connected :: "u8 \<Rightarrow> 's session \<Rightarrow> bool" where
  "session_is_connected gateway_id s \<longleftrightarrow> unat gateway_id < MAX_GATEWAYS \<and> s ! unat gateway_id \<noteq> None"

definition slot_ports :: "'s gateway_slot \<Rightarrow> u16 list" where
  "slot_ports sl = filter (\<lambda>p. p \<noteq> 0) [sl_port_data sl, sl_port_control sl]"

definition get_ports_in_use :: "'s session \<Rightarrow> u16 list" where
  "get_ports_in_use s = concat (map slot_ports (connected_slots s))"

definition get_sessions_in_use :: "'s session \<Rightarrow> i32 list" where
  "get_sessions_in_use s = map sl_session_id (connected_slots s)"

section \<open>The manager\<close>

record ('p, 's) gateway_manager =
  gm_sessions :: "'s session"
  gm_config :: core_networking_config
  gm_port_allocator :: port_allocator
  gm_session_allocator :: session_allocator
  gm_publications :: "'p publications"
  gm_cleanup :: "u8 list"

record ('p, 's) gateway_env =
  ge_add_publication :: "string \<Rightarrow> i32 \<Rightarrow> i32 + 'p"
  ge_add_subscription :: "string \<Rightarrow> i32 \<Rightarrow> i32 + 's"
  ge_show_code :: "i32 \<Rightarrow> string"
  ge_port_draws :: "nat \<Rightarrow> u16"
  ge_session_draws :: "nat \<Rightarrow> i32"
  ge_now :: nat
  ge_freed_at :: nat
  ge_connected :: "nat \<Rightarrow> bool"
  ge_reject_offer :: i64
  ge_accept_offers :: "nat \<Rightarrow> i64"

definition gateway_manager_new ::
    "(i32 \<Rightarrow> string) \<Rightarrow> core_networking_config \<Rightarrow> 'p publications \<Rightarrow>
     server_error + ('p, 's) gateway_manager" where
  "gateway_manager_new show_code config publications =
     (case port_allocator_new (cn_base_gateway_port config) (ucast (cn_max_gateways config)) of
        Inl e \<Rightarrow> Inl (ResourceAllocationError (server_error_display show_code e))
      | Inr pa \<Rightarrow>
          (case session_allocator_new (cn_reserved_session_id_low config) (cn_reserved_session_id_high config) of
             Inl e \<Rightarrow> Inl (ResourceAllocationError (server_error_display show_code e))
           | Inr sa \<Rightarrow>
               Inr \<lparr>gm_sessions = session_new, gm_config = config, gm_port_allocator = pa,
                    gm_session_allocator = sa, gm_publications = publications, gm_cleanup = []\<rparr>))"

definition is_gateway_connected :: "('p, 's) gateway_manager \<Rightarrow> u8 \<Rightarrow> bool" where
  "is_gateway_connected gm gateway_id = session_is_connected gateway_id (gm_sessions gm)"

text \<open>Removing a session. Its publication slot is a panic out of range. The duologue taken out is closed,
  which concerns only Aeron: whatever \<open>duologue_close\<close> returns is logged and the duologue dropped.\<close>

definition remove_gateway_session ::
    "('p, 's) gateway_env \<Rightarrow> u8 \<Rightarrow> ('p, 's) gateway_manager \<Rightarrow>
     (server_error, unit) outcome \<times> ('p, 's) gateway_manager" where
  "remove_gateway_session ge gateway_id gm =
     (let ports_to_free =
            (if unat gateway_id < length (gm_sessions gm) then
               (case gm_sessions gm ! unat gateway_id of
                  Some slot \<Rightarrow> [sl_port_data slot, sl_port_control slot]
                | None \<Rightarrow> [])
             else [])
      in case session_remove gateway_id (gm_sessions gm) of
           (None, s) \<Rightarrow>
             (Err (GatewayMessageError (''No active session for gateway-'' @ dec (unat gateway_id))),
              gm\<lparr>gm_sessions := s\<rparr>)
         | (Some duologue, s) \<Rightarrow>
             (case remove_publication gateway_id (gm_publications gm) of
                None \<Rightarrow> (Panic, gm\<lparr>gm_sessions := s\<rparr>)
              | Some pubs \<Rightarrow>
                  (Ok (),
                   gm\<lparr>gm_sessions := s, gm_publications := pubs,
                      gm_port_allocator :=
                        (if ports_to_free \<noteq> [] then mark_freed (ge_freed_at ge) ports_to_free (gm_port_allocator gm)
                         else gm_port_allocator gm)\<rparr>)))"

text \<open>The requests in the queue; a failure is only logged.\<close>

fun cleanup_loop ::
    "('p, 's) gateway_env \<Rightarrow> u8 list \<Rightarrow> ('p, 's) gateway_manager \<Rightarrow> ('p, 's) gateway_manager option" where
  "cleanup_loop ge [] gm = Some gm"
| "cleanup_loop ge (gateway_id # queue) gm =
     (case remove_gateway_session ge gateway_id gm of
        (Panic, gm) \<Rightarrow> None
      | (_, gm) \<Rightarrow> cleanup_loop ge queue gm)"

definition process_cleanup_requests ::
    "('p, 's) gateway_env \<Rightarrow> ('p, 's) gateway_manager \<Rightarrow> ('p, 's) gateway_manager option" where
  "process_cleanup_requests ge gm = cleanup_loop ge (gm_cleanup gm) (gm\<lparr>gm_cleanup := []\<rparr>)"

text \<open>The callback of an image that went away.\<close>

definition image_unavailable :: "u8 \<Rightarrow> ('p, 's) gateway_manager \<Rightarrow> ('p, 's) gateway_manager" where
  "image_unavailable gateway_id gm = gm\<lparr>gm_cleanup := gm_cleanup gm @ [gateway_id]\<rparr>"

fun remove_all ::
    "('p, 's) gateway_env \<Rightarrow> u8 list \<Rightarrow> ('p, 's) gateway_manager \<Rightarrow>
     (server_error, unit) outcome \<times> ('p, 's) gateway_manager" where
  "remove_all ge [] gm = (Ok (), gm)"
| "remove_all ge (g # gs) gm =
     (case remove_gateway_session ge g gm of
        (Ok _, gm) \<Rightarrow> remove_all ge gs gm
      | r \<Rightarrow> r)"

definition shutdown_all_gateways ::
    "('p, 's) gateway_env \<Rightarrow> ('p, 's) gateway_manager \<Rightarrow>
     (server_error, unit) outcome \<times> ('p, 's) gateway_manager" where
  "shutdown_all_gateways ge gm = remove_all ge (map du_gateway_id (session_iter (gm_sessions gm))) gm"

text \<open>Polling: the clean-up, then every duologue once; failures are logged, a panic is not caught.\<close>

definition manager_poll ::
    "('p, 's) gateway_env \<Rightarrow> 's fragments \<Rightarrow> ('p, 's) gateway_manager \<Rightarrow>
     (('p, 's) gateway_manager \<times> (i32 + i32 \<times> order_command list) list) option" where
  "manager_poll ge poll gm =
     (case process_cleanup_requests ge gm of
        None \<Rightarrow> None
      | Some gm \<Rightarrow>
          map_option (\<lambda>results. (gm, results)) (those (map (duologue_poll poll) (session_iter (gm_sessions gm)))))"

section \<open>The handshake\<close>

fun utf8_error_display :: "nat \<times> nat option \<Rightarrow> string" where
  "utf8_error_display (valid_up_to, Some error_len) =
     ''invalid utf-8 sequence of '' @ dec error_len @ '' bytes from index '' @ dec valid_up_to"
| "utf8_error_display (valid_up_to, None) = ''incomplete utf-8 byte sequence from index '' @ dec valid_up_to"

text \<open>A failure is the rejection to send, if any, and the error.\<close>

type_synonym refusal = "string option \<times> server_error"

definition parse_gateway_id :: "i32 \<Rightarrow> string \<Rightarrow> refusal + u8" where
  "parse_gateway_id session_id gateway_id_str =
     (case strip_prefix ''gateway-'' gateway_id_str of
        None \<Rightarrow>
          Inl (Some (dec_i32 session_id @ '' '' @ gateway_id_str @ '' REJECT Invalid gateway ID format, expected ''
                 @ [CHR 0x27] @ ''gateway-{id}'' @ [CHR 0x27]),
               GatewayMessageError ''Invalid gateway ID format'')
      | Some number \<Rightarrow>
          (case parse_u8 number of
             Inr gid \<Rightarrow>
               if unat gid < MAX_GATEWAYS then Inr gid
               else Inl (Some (dec_i32 session_id @ '' gateway-'' @ dec (unat gid) @
                      '' REJECT Gateway ID out of range, expected 0-'' @ dec (MAX_GATEWAYS - 1)),
                    GatewayMessageError ''Gateway ID out of range'')
           | Inl _ \<Rightarrow>
               Inl (Some (dec_i32 session_id @ '' '' @ gateway_id_str @
                      '' REJECT Invalid gateway ID, expected numeric ID''),
                    GatewayMessageError ''Invalid gateway ID'')))"

definition parse_hello :: "i32 \<Rightarrow> u8 list \<Rightarrow> refusal + u8 \<times> i32" where
  "parse_hello session_id buffer =
     (case utf8_check 0 buffer of
        Some e \<Rightarrow> Inl (None, GatewayMessageError (''Invalid UTF-8: '' @ utf8_error_display e))
      | None \<Rightarrow>
          (case split_whitespace (str_of buffer) of
             [] \<Rightarrow> Inl (None, GatewayMessageError ''Empty message'')
           | hello # parts \<Rightarrow>
               if hello \<noteq> ''HELLO'' then
                 Inl (Some (dec_i32 session_id @ '' unknown REJECT Malformed HELLO message''),
                      GatewayMessageError ''Malformed HELLO message'')
               else
                 (case parts of
                    [] \<Rightarrow> Inl (None, GatewayMessageError ''Missing gateway ID'')
                  | gateway_id_str # parts \<Rightarrow>
                      rbind (parse_gateway_id session_id gateway_id_str) (\<lambda>gateway_id.
                        (case parts of
                           [] \<Rightarrow> Inl (None, GatewayMessageError ''Missing encryption key'')
                         | key # _ \<Rightarrow>
                             (case parse_i32 key of
                                Inl e \<Rightarrow> Inl (None, GatewayMessageError
                                  (''Invalid encryption key: '' @ parse_int_error_display e))
                              | Inr encryption_key \<Rightarrow> Inr (gateway_id, encryption_key)))))))"

definition check_duplicate_connection ::
    "i32 \<Rightarrow> u8 \<Rightarrow> ('p, 's) gateway_manager \<Rightarrow> refusal + unit" where
  "check_duplicate_connection session_id gateway_id gm =
     (if MAX_GATEWAYS \<le> unat gateway_id then
        Inl (Some (dec_i32 session_id @ '' gateway-'' @ dec (unat gateway_id) @
               '' REJECT Invalid gateway ID (must be 0-'' @ dec (MAX_GATEWAYS - 1) @ '')''),
             GatewayMessageError (''Gateway ID '' @ dec (unat gateway_id) @ '' out of range (max: '' @
               dec (MAX_GATEWAYS - 1) @ '')''))
      else if is_gateway_connected gm gateway_id then
        Inl (Some (dec_i32 session_id @ '' gateway-'' @ dec (unat gateway_id) @ '' REJECT Gateway already connected''),
             GatewayMessageError ''Gateway already connected'')
      else Inr ())"

definition authenticate_gateway :: "u8 \<Rightarrow> string \<Rightarrow> server_error + unit" where
  "authenticate_gateway gateway_id credentials = Inr ()"

text \<open>Sending a rejection: a failure to send replaces the error.\<close>

definition refuse :: "i64 \<Rightarrow> refusal \<Rightarrow> server_error \<times> string list" where
  "refuse offer r =
     (case r of
        (None, e) \<Rightarrow> (e, [])
      | (Some msg, e) \<Rightarrow> (case send_message offer of Inl code \<Rightarrow> (AeronConnectionError code, [msg]) | Inr _ \<Rightarrow> (e, [msg])))"

text \<open>Resources of a new session: ports, session id, publication, subscription, in this order.\<close>

definition open_channels ::
    "('p, 's) gateway_env \<Rightarrow> core_networking_config \<Rightarrow> u16 list \<Rightarrow> i32 \<Rightarrow> (server_error, 'p \<times> 's) outcome" where
  "open_channels ge config ports dedicated_session =
     (case ports of
        data # control # _ \<Rightarrow>
          (case new_publication_with_mdc_and_session (ge_add_publication ge) (cn_local_address config) control
                  DUOLOGUE_STREAM_ID dedicated_session of
             Panic \<Rightarrow> Panic
           | Err e \<Rightarrow> Err (ResourceAllocationError (''Failed to create publication: '' @ ge_show_code ge e))
           | Ok p \<Rightarrow>
               (case new_subscription_with_handlers_and_session (ge_add_subscription ge) (cn_local_address config)
                       data DUOLOGUE_STREAM_ID dedicated_session of
                  Panic \<Rightarrow> Panic
                | Err e \<Rightarrow> Err (ResourceAllocationError (''Failed to create subscription: '' @ ge_show_code ge e))
                | Ok s \<Rightarrow> Ok (p, s)))
      | _ \<Rightarrow> Panic)"

definition allocate_gateway_session ::
    "('p, 's) gateway_env \<Rightarrow> u8 \<Rightarrow> ('p, 's) gateway_manager \<Rightarrow>
     (server_error, i32 \<times> u16 list) outcome \<times> ('p, 's) gateway_manager" where
  "allocate_gateway_session ge gateway_id gm =
     (let ports_in_use = get_ports_in_use (gm_sessions gm);
          sessions_in_use = get_sessions_in_use (gm_sessions gm);
          display = server_error_display (ge_show_code ge)
      in case allocate_ports (ge_port_draws ge) (ge_now ge) 2 ports_in_use (gm_port_allocator gm) of
           (Panic, pa) \<Rightarrow> (Panic, gm\<lparr>gm_port_allocator := pa\<rparr>)
         | (Err e, pa) \<Rightarrow> (Err (ResourceAllocationError (display e)), gm\<lparr>gm_port_allocator := pa\<rparr>)
         | (Ok ports, pa) \<Rightarrow>
             (let gm = gm\<lparr>gm_port_allocator := pa\<rparr>
              in case allocate_session (ge_session_draws ge) sessions_in_use (gm_session_allocator gm) of
                   Inl e \<Rightarrow> (Err (ResourceAllocationError (display e)), gm)
                 | Inr dedicated_session \<Rightarrow>
                     (case open_channels ge (gm_config gm) ports dedicated_session of
                        Panic \<Rightarrow> (Panic, gm)
                      | Err e \<Rightarrow> (Err e, gm)
                      | Ok (publication, subscription) \<Rightarrow>
                          (case set_publication gateway_id publication (gm_publications gm) of
                             None \<Rightarrow> (Panic, gm)
                           | Some pubs \<Rightarrow>
                               (let gm = gm\<lparr>gm_publications := pubs\<rparr>
                                in case session_insert gateway_id dedicated_session
                                          (duologue_new subscription gateway_id) ports (gm_sessions gm) of
                                     None \<Rightarrow> (Panic, gm)
                                   | Some s \<Rightarrow>
                                       (Ok (dedicated_session, take 2 ports), gm\<lparr>gm_sessions := s\<rparr>))))))"

definition MAX_CONNECTION_WAIT_ATTEMPTS :: nat where "MAX_CONNECTION_WAIT_ATTEMPTS = 50"

text \<open>Waiting for the connection: the answer of the last look.\<close>

function wait_connected :: "(nat \<Rightarrow> bool) \<Rightarrow> nat \<Rightarrow> bool" where
  "wait_connected connected attempts =
     (if \<not> connected attempts \<and> attempts < MAX_CONNECTION_WAIT_ATTEMPTS
      then wait_connected connected (attempts + 1)
      else connected (attempts + 1))"
  by auto
termination by (relation "measure (\<lambda>(c, attempts). MAX_CONNECTION_WAIT_ATTEMPTS - attempts)") auto

declare wait_connected.simps [simp del]

definition accept_message :: "i32 \<Rightarrow> u8 \<Rightarrow> u16 list \<Rightarrow> i32 \<Rightarrow> string" where
  "accept_message session_id gateway_id ports encrypted_session =
     dec_i32 session_id @ '' gateway-'' @ dec (unat gateway_id) @ '' ACCEPT '' @ dec (unat (ports ! 0)) @ '' '' @
     dec (unat (ports ! 1)) @ '' '' @ dec_i32 encrypted_session"

text \<open>From the allocation on: connect, send the acceptance, or take the session back.\<close>

definition accept_gateway ::
    "('p, 's) gateway_env \<Rightarrow> i32 \<Rightarrow> u8 \<Rightarrow> i32 \<Rightarrow> ('p, 's) gateway_manager \<Rightarrow>
     (server_error, unit) outcome \<times> ('p, 's) gateway_manager \<times> string list" where
  "accept_gateway ge session_id gateway_id encryption_key gm =
     (case allocate_gateway_session ge gateway_id gm of
        (Panic, gm) \<Rightarrow> (Panic, gm, [])
      | (Err e, gm) \<Rightarrow> (Err e, gm, [])
      | (Ok (dedicated_session, ports), gm) \<Rightarrow>
          (let encrypted_session = encryption_key XOR dedicated_session;
               give_up = (\<lambda>msg sent.
                 (case remove_gateway_session ge gateway_id gm of
                    (Ok _, gm) \<Rightarrow> (Err (GatewayMessageError msg), gm, sent)
                  | (Err e, gm) \<Rightarrow> (Err e, gm, sent)
                  | (Panic, gm) \<Rightarrow> (Panic, gm, sent)))
           in if \<not> wait_connected (ge_connected ge) 0 then give_up ''Publication not connected after waiting'' []
              else
                (let accept_msg = accept_message session_id gateway_id ports encrypted_session
                 in case send_message_with_retries (ge_accept_offers ge) of
                      (Inr _, attempts) \<Rightarrow> (Ok (), gm, replicate attempts accept_msg)
                    | (Inl code, attempts) \<Rightarrow>
                        give_up (''Failed to send ACCEPT message: '' @ ge_show_code ge code)
                          (replicate attempts accept_msg))))"

definition process_handshake_message ::
    "('p, 's) gateway_env \<Rightarrow> i32 \<Rightarrow> u8 list \<Rightarrow> ('p, 's) gateway_manager \<Rightarrow>
     (server_error, unit) outcome \<times> ('p, 's) gateway_manager \<times> string list" where
  "process_handshake_message ge session_id buffer gm =
     (let refused = (\<lambda>r. case refuse (ge_reject_offer ge) r of (e, sent) \<Rightarrow> (Err e, gm, sent))
      in case parse_hello session_id buffer of
           Inl r \<Rightarrow> refused r
         | Inr (gateway_id, encryption_key) \<Rightarrow>
             (case check_duplicate_connection session_id gateway_id gm of
                Inl r \<Rightarrow> refused r
              | Inr _ \<Rightarrow>
                  (case (if cn_enable_authentication (gm_config gm)
                         then authenticate_gateway gateway_id (dec_i32 encryption_key) else Inr ()) of
                     Inl e \<Rightarrow>
                       refused (Some (dec_i32 session_id @ '' gateway-'' @ dec (unat gateway_id) @
                         '' REJECT Authentication failed''), e)
                   | Inr _ \<Rightarrow> accept_gateway ge session_id gateway_id encryption_key gm)))"

text \<open>The fragment handler of the handshake stream: the session of the header, if it can be read; errors
  are logged.\<close>

definition handle_handshake_fragment ::
    "('p, 's) gateway_env \<Rightarrow> i32 option \<Rightarrow> u8 list \<Rightarrow> ('p, 's) gateway_manager \<Rightarrow>
     (('p, 's) gateway_manager \<times> string list) option" where
  "handle_handshake_fragment ge session_id buffer gm =
     (case session_id of
        None \<Rightarrow> Some (gm, [])
      | Some sid \<Rightarrow>
          (case process_handshake_message ge sid buffer gm of
             (Panic, _) \<Rightarrow> None
           | (_, gm, sent) \<Rightarrow> Some (gm, sent)))"

end
