(* ===== verification/Gateway_Invariant.thy ===== *)
theory Gateway_Invariant
  imports Gateway_Sessions
begin

text \<open>
  The invariant of the gateway manager and the step relation of everything that changes it: handshakes,
  the callbacks of vanished images, polls and the shutdown. In every state reachable from a new manager
  the connected gateways have ports and session ids of their own, exactly they have a publication, and
  there are at most half as many of them as the configuration says.
\<close>

section \<open>Slots in place\<close>

lemma connected_append: "connected_slots (xs @ ys) = connected_slots xs @ connected_slots ys"
  by (simp add: connected_slots_def map_filter_def)

lemma connected_update:
  "g < length s \<Longrightarrow> connected_slots (s[g := v]) =
     connected_slots (take g s) @ (case v of None \<Rightarrow> [] | Some x \<Rightarrow> [x]) @ connected_slots (drop (Suc g) s)"
  by (simp add: upd_conv_take_nth_drop connected_append) (simp add: connected_slots_def map_filter_simps split: option.split)

lemma connected_at:
  "g < length s \<Longrightarrow> connected_slots s =
     connected_slots (take g s) @ (case s ! g of None \<Rightarrow> [] | Some x \<Rightarrow> [x]) @ connected_slots (drop (Suc g) s)"
  using connected_update [of g s "s ! g"] by simp

lemma set_connected: "set (connected_slots s) = {x. Some x \<in> set s}"
  by (induction s) (auto simp: connected_slots_def map_filter_simps split: option.split)

section \<open>The invariant\<close>

definition slot_in_range :: "port_allocator \<Rightarrow> 's gateway_slot \<Rightarrow> bool" where
  "slot_in_range pa sl \<longleftrightarrow>
     sl_port_data sl \<in> {pa_low pa..pa_high pa} \<and> sl_port_control sl \<in> {pa_low pa..pa_high pa}"

definition slots_wf :: "port_allocator \<Rightarrow> 's session \<Rightarrow> bool" where
  "slots_wf pa s \<longleftrightarrow> length s = MAX_GATEWAYS \<and> 0 < pa_low pa \<and>
     (\<forall>g<MAX_GATEWAYS. \<forall>sl. s ! g = Some sl \<longrightarrow> du_gateway_id (sl_duologue sl) = of_nat g) \<and>
     distinct (get_ports_in_use s) \<and> distinct (get_sessions_in_use s) \<and>
     (\<forall>sl\<in>set (connected_slots s). slot_in_range pa sl)"

definition published :: "'p publications \<Rightarrow> 's session \<Rightarrow> bool" where
  "published pubs s \<longleftrightarrow> pubs_wf pubs \<and> (\<forall>g<MAX_GATEWAYS. pubs ! g = None \<longleftrightarrow> s ! g = None)"

definition gm_wf :: "('p, 's) gateway_manager \<Rightarrow> bool" where
  "gm_wf gm \<longleftrightarrow> slots_wf (gm_port_allocator gm) (gm_sessions gm) \<and> published (gm_publications gm) (gm_sessions gm)"

lemma slots_wf_range:
  "slots_wf pa s \<Longrightarrow> pa_low pa' = pa_low pa \<Longrightarrow> pa_high pa' = pa_high pa \<Longrightarrow> slots_wf pa' s"
  by (simp add: slots_wf_def slot_in_range_def)

lemma slot_ports_eq: "slot_in_range pa sl \<Longrightarrow> 0 < pa_low pa \<Longrightarrow> slot_ports sl = [sl_port_data sl, sl_port_control sl]"
  by (auto simp: slot_in_range_def slot_ports_def)

lemma slots_wf_remove: "slots_wf pa s \<Longrightarrow> slots_wf pa (s[g := None])"
proof (cases "g < length s")
  case True
  assume wf: "slots_wf pa s"
  have s: "set (connected_slots (s[g := None])) \<subseteq> set (connected_slots s)"
    using connected_at [OF True] by (auto simp: connected_update [OF True])
  have "distinct (get_ports_in_use (s[g := None]))" "distinct (get_sessions_in_use (s[g := None]))"
    using wf connected_at [OF True]
    by (auto simp: slots_wf_def get_ports_in_use_def get_sessions_in_use_def connected_update [OF True])
  with wf s True show ?thesis by (auto simp: slots_wf_def nth_list_update split: if_splits)
qed (simp add: list_update_beyond)

lemma slots_wf_insert:
  assumes "slots_wf pa s" "g < MAX_GATEWAYS" "s ! g = None" "du_gateway_id (sl_duologue sl) = of_nat g"
    and "slot_in_range pa sl" "sl_port_data sl \<noteq> sl_port_control sl"
    and "sl_port_data sl \<notin> set (get_ports_in_use s)" "sl_port_control sl \<notin> set (get_ports_in_use s)"
    and "sl_session_id sl \<notin> set (get_sessions_in_use s)"
  shows "slots_wf pa (s[g := Some sl])"
proof -
  have g: "g < length s" and low: "0 < pa_low pa" using assms(1,2) by (simp_all add: slots_wf_def)
  note at = connected_at [OF g] and upd = connected_update [OF g, of "Some sl"]
  have p: "slot_ports sl = [sl_port_data sl, sl_port_control sl]" by (rule slot_ports_eq [OF assms(5) low])
  have "distinct (get_ports_in_use (s[g := Some sl]))"
    using assms(1,3,6-8) at by (auto simp: slots_wf_def get_ports_in_use_def upd p)
  moreover have "distinct (get_sessions_in_use (s[g := Some sl]))"
    using assms(1,3,9) at by (auto simp: slots_wf_def get_sessions_in_use_def upd)
  moreover have "\<forall>sl'\<in>set (connected_slots (s[g := Some sl])). slot_in_range pa sl'"
    using assms(1,3,5) at by (auto simp: slots_wf_def upd)
  ultimately show ?thesis
    using assms(1,2,4) by (auto simp: slots_wf_def nth_list_update split: if_splits)
qed

lemma slots_wf_new: "0 < pa_low pa \<Longrightarrow> slots_wf pa (session_new :: 's session)"
proof -
  have "connected_slots (replicate MAX_GATEWAYS None :: 's session) = []"
    by (simp add: connected_slots_def map_filter_def)
  then show "0 < pa_low pa \<Longrightarrow> slots_wf pa (session_new :: 's session)"
    by (simp add: slots_wf_def session_new_def get_ports_in_use_def get_sessions_in_use_def)
qed

section \<open>Removing\<close>

lemma u8_index: "unat (g :: u8) < MAX_GATEWAYS \<Longrightarrow> (of_nat (unat g) :: u8) = g"
  by simp

lemma remove_session_law:
  assumes "gm_wf gm"
  shows "\<exists>r gm'. remove_gateway_session ge g gm = (r, gm') \<and> gm_wf gm' \<and> r \<noteq> Panic \<and>
    gm_sessions gm' = (gm_sessions gm)[unat g := None] \<and> gm_cleanup gm' = gm_cleanup gm \<and>
    gm_config gm' = gm_config gm \<and> gm_session_allocator gm' = gm_session_allocator gm \<and>
    pa_low (gm_port_allocator gm') = pa_low (gm_port_allocator gm) \<and>
    pa_high (gm_port_allocator gm') = pa_high (gm_port_allocator gm) \<and>
    (r = Ok () \<longleftrightarrow> is_gateway_connected gm g)"
proof -
  have len: "length (gm_sessions gm) = MAX_GATEWAYS" "length (gm_publications gm) = MAX_GATEWAYS + 1"
    using assms by (simp_all add: gm_wf_def slots_wf_def published_def pubs_wf_def)
  have wf: "slots_wf (gm_port_allocator gm) ((gm_sessions gm)[unat g := None])"
    "published (gm_publications gm) (gm_sessions gm)"
    using assms by (simp_all add: gm_wf_def slots_wf_remove)
  show ?thesis
  proof (cases "is_gateway_connected gm g")
    case True
    then obtain sl where g: "unat g < MAX_GATEWAYS" and sl: "gm_sessions gm ! unat g = Some sl"
      by (auto simp: is_gateway_connected_def session_is_connected_def)
    have "published ((gm_publications gm)[unat g := None]) ((gm_sessions gm)[unat g := None])"
      using wf(2) g len by (auto simp: published_def pubs_wf_def nth_list_update)
    with True g sl len wf(1) show ?thesis
      by (auto simp: remove_gateway_session_def session_remove_def remove_publication_def store_slot_def gm_wf_def
          intro: slots_wf_range)
  next
    case False
    then have "MAX_GATEWAYS \<le> unat g \<or> gm_sessions gm ! unat g = None"
      by (auto simp: is_gateway_connected_def session_is_connected_def)
    moreover from this have "(gm_sessions gm)[unat g := None] = gm_sessions gm"
      using len by (metis list_update_beyond list_update_id)
    ultimately have "remove_gateway_session ge g gm =
        (Err (GatewayMessageError (''No active session for gateway-'' @ dec (unat g))), gm)"
      by (auto simp: remove_gateway_session_def session_remove_def Let_def)
    with False assms \<open>(gm_sessions gm)[unat g := None] = gm_sessions gm\<close> show ?thesis by auto
  qed
qed

lemma cleanup_loop_law:
  "gm_wf gm \<Longrightarrow> \<exists>gm'. cleanup_loop ge queue gm = Some gm' \<and> gm_wf gm' \<and>
     gm_sessions gm' = fold (\<lambda>g s. s[unat g := None]) queue (gm_sessions gm) \<and> gm_cleanup gm' = gm_cleanup gm \<and>
     gm_config gm' = gm_config gm \<and> gm_session_allocator gm' = gm_session_allocator gm \<and>
     pa_low (gm_port_allocator gm') = pa_low (gm_port_allocator gm) \<and>
     pa_high (gm_port_allocator gm') = pa_high (gm_port_allocator gm)"
proof (induction queue arbitrary: gm)
  case (Cons g queue)
  obtain r gm' where r: "remove_gateway_session ge g gm = (r, gm')" "gm_wf gm'" "r \<noteq> Panic"
    "gm_sessions gm' = (gm_sessions gm)[unat g := None]" "gm_cleanup gm' = gm_cleanup gm"
    "gm_config gm' = gm_config gm" "gm_session_allocator gm' = gm_session_allocator gm"
    "pa_low (gm_port_allocator gm') = pa_low (gm_port_allocator gm)"
    "pa_high (gm_port_allocator gm') = pa_high (gm_port_allocator gm)"
    using remove_session_law [OF Cons.prems, of ge g] by blast
  from Cons.IH [OF r(2)] r show ?case by (cases r) auto
qed simp

lemma fold_remove_nth:
  "i < length s \<Longrightarrow> fold (\<lambda>g s. s[unat g := None]) queue s ! i = (if of_nat i \<in> set queue \<and> i < 256 then None else s ! i)"
  for queue :: "u8 list"
proof (induction queue arbitrary: s)
  case (Cons g queue)
  have "unat g = i \<longleftrightarrow> of_nat i = g \<and> i < 256"
    using unat_lt_2p [of g] by (auto simp: unat_of_nat)
  with Cons show ?case by (auto simp: nth_list_update)
qed simp

lemma remove_all_law:
  "gm_wf gm \<Longrightarrow> \<exists>r gm'. remove_all ge gs gm = (r, gm') \<and> gm_wf gm' \<and> r \<noteq> Panic \<and>
     gm_config gm' = gm_config gm \<and> gm_session_allocator gm' = gm_session_allocator gm \<and>
     pa_low (gm_port_allocator gm') = pa_low (gm_port_allocator gm) \<and>
     pa_high (gm_port_allocator gm') = pa_high (gm_port_allocator gm)"
proof (induction gs arbitrary: gm)
  case (Cons g gs)
  obtain r gm' where r: "remove_gateway_session ge g gm = (r, gm')" "gm_wf gm'" "r \<noteq> Panic"
    "gm_config gm' = gm_config gm" "gm_session_allocator gm' = gm_session_allocator gm"
    "pa_low (gm_port_allocator gm') = pa_low (gm_port_allocator gm)"
    "pa_high (gm_port_allocator gm') = pa_high (gm_port_allocator gm)"
    using remove_session_law [OF Cons.prems, of ge g] by blast
  from Cons.IH [OF r(2)] r show ?case by (cases r) auto
qed simp

section \<open>Allocating\<close>

definition env_ok :: "('p, 's) gateway_env \<Rightarrow> ('p, 's) gateway_manager \<Rightarrow> bool" where
  "env_ok ge gm \<longleftrightarrow> draws_in_range (ge_port_draws ge) (gm_port_allocator gm)"

definition same_setup :: "('p, 's) gateway_manager \<Rightarrow> ('p, 's) gateway_manager \<Rightarrow> bool" where
  "same_setup gm gm' \<longleftrightarrow> gm_config gm' = gm_config gm \<and> gm_session_allocator gm' = gm_session_allocator gm \<and>
     pa_low (gm_port_allocator gm') = pa_low (gm_port_allocator gm) \<and>
     pa_high (gm_port_allocator gm') = pa_high (gm_port_allocator gm)"

lemma same_setup_refl [simp]: "same_setup gm gm"
  by (simp add: same_setup_def)

lemma same_setup_trans: "same_setup a b \<Longrightarrow> same_setup b c \<Longrightarrow> same_setup a c"
  by (simp add: same_setup_def)

lemma same_setup_update [simp]:
  "same_setup gm (gm'\<lparr>gm_sessions := s\<rparr>) = same_setup gm gm'"
  "same_setup gm (gm'\<lparr>gm_publications := pubs\<rparr>) = same_setup gm gm'"
  "same_setup gm (gm'\<lparr>gm_cleanup := q\<rparr>) = same_setup gm gm'"
  by (simp_all add: same_setup_def)

text \<open>The URI of the core's publication to a gateway and of its subscription to it.\<close>

definition control_uri :: "string \<Rightarrow> u16 \<Rightarrow> i32 \<Rightarrow> string" where
  "control_uri address port session_id =
     ''aeron:udp?control='' @ endpoint_of address port @ ''|control-mode=dynamic|session-id='' @ dec_i32 session_id"

definition data_uri :: "string \<Rightarrow> u16 \<Rightarrow> i32 \<Rightarrow> string" where
  "data_uri address port session_id =
     ''aeron:udp?endpoint='' @ endpoint_of address port @ ''|session-id='' @ dec_i32 session_id"

lemma dec_no_nul: "CHR 0x00 \<notin> set (dec n)"
  using dec_chars [of "CHR 0x00" n] by auto

lemma dec_i32_no_nul: "CHR 0x00 \<notin> set (dec_i32 x)"
  by (simp add: dec_i32_def dec_no_nul)

lemma uri_no_nul:
  assumes "CHR 0x00 \<notin> set address"
  shows "CHR 0x00 \<notin> set (control_uri address port session_id)" "CHR 0x00 \<notin> set (data_uri address port session_id)"
  using assms by (simp_all add: control_uri_def data_uri_def endpoint_of_def dec_no_nul dec_i32_no_nul)

lemma session_channels:
  "new_publication_with_mdc_and_session add address port stream sid = add_channel add (control_uri address port sid) stream"
  "new_subscription_with_mdc_and_session add' address port stream sid = add_channel add' (control_uri address port sid) stream"
  "new_publication_with_session add address port stream sid = add_channel add (data_uri address port sid) stream"
  "new_subscription_with_handlers_and_session add' address port stream sid = add_channel add' (data_uri address port sid) stream"
  by (simp_all only: new_publication_with_mdc_and_session_def new_subscription_with_mdc_and_session_def
      new_publication_with_session_def new_subscription_with_handlers_and_session_def control_uri_def data_uri_def)

lemma add_channel_uri: "CHR 0x00 \<notin> set uri \<Longrightarrow> add_channel add uri stream = of_result (add uri stream)"
  by (simp add: add_channel_def c_string_def)

lemma open_channels_law:
  assumes "CHR 0x00 \<notin> set (cn_local_address config)"
  shows "case open_channels ge config [data, control] ds of
      Panic \<Rightarrow> False
    | Err e \<Rightarrow> True
    | Ok (p, s) \<Rightarrow> ge_add_publication ge (control_uri (cn_local_address config) control ds) DUOLOGUE_STREAM_ID = Inr p \<and>
        ge_add_subscription ge (data_uri (cn_local_address config) data ds) DUOLOGUE_STREAM_ID = Inr s"
  using uri_no_nul [OF assms]
  by (auto simp: open_channels_def session_channels add_channel_uri of_result_def split: sum.split)

text \<open>What a successful allocation leaves: the slot, its channels, and the invariant.\<close>

definition session_opened ::
    "('p, 's) gateway_env \<Rightarrow> u8 \<Rightarrow> ('p, 's) gateway_manager \<Rightarrow> i32 \<Rightarrow> u16 \<Rightarrow> u16 \<Rightarrow> ('p, 's) gateway_manager \<Rightarrow> bool" where
  "session_opened ge g gm ds data control gm' \<longleftrightarrow>
     (\<exists>p s. gm_sessions gm' = (gm_sessions gm)[unat g := Some \<lparr>sl_duologue = duologue_new s g, sl_port_data = data,
          sl_port_control = control, sl_session_id = ds\<rparr>] \<and>
        get_publication g (gm_publications gm') = Some (Some p) \<and>
        ge_add_publication ge (control_uri (cn_local_address (gm_config gm)) control ds) DUOLOGUE_STREAM_ID = Inr p \<and>
        ge_add_subscription ge (data_uri (cn_local_address (gm_config gm)) data ds) DUOLOGUE_STREAM_ID = Inr s)"

lemma allocate_law:
  assumes wf: "gm_wf gm" and draws: "env_ok ge gm" and nul: "CHR 0x00 \<notin> set (cn_local_address (gm_config gm))"
    and g: "unat g < MAX_GATEWAYS" and free: "\<not> is_gateway_connected gm g"
  shows "case allocate_gateway_session ge g gm of (r, gm') \<Rightarrow>
    gm_wf gm' \<and> same_setup gm gm' \<and> gm_cleanup gm' = gm_cleanup gm \<and>
    (case r of
       Panic \<Rightarrow> False
     | Err e \<Rightarrow> gm_sessions gm' = gm_sessions gm
     | Ok (ds, ports) \<Rightarrow> \<exists>data control. ports = [data, control] \<and> session_opened ge g gm ds data control gm')"
proof -
  let ?use = "get_ports_in_use (gm_sessions gm)"
  obtain r pa where a: "allocate_ports (ge_port_draws ge) (ge_now ge) 2 ?use (gm_port_allocator gm) = (r, pa)"
    by (rule prod.exhaust)
  note cases = allocate_ports_cases [where draws = "ge_port_draws ge" and now = "ge_now ge" and count = 2
      and ports_in_use = ?use and pa = "gm_port_allocator gm", unfolded a, simplified]
  have range: "pa_low pa = pa_low (gm_port_allocator gm)" "pa_high pa = pa_high (gm_port_allocator gm)"
    using cases draws by (simp_all add: env_ok_def)
  have wf1: "gm_wf (gm\<lparr>gm_port_allocator := pa\<rparr>)"
    using wf slots_wf_range [OF _ range, of "gm_sessions gm"] by (simp add: gm_wf_def)
  have same: "same_setup gm (gm\<lparr>gm_port_allocator := pa\<rparr>)" using range by (simp add: same_setup_def)
  have len: "length (gm_publications gm) = MAX_GATEWAYS + 1" "length (gm_sessions gm) = MAX_GATEWAYS"
    using wf by (simp_all add: gm_wf_def published_def pubs_wf_def slots_wf_def)
  show ?thesis
  proof (cases r)
    case Panic
    then show ?thesis using cases draws by (simp add: env_ok_def)
  next
    case (Err e)
    then show ?thesis using wf1 same by (simp add: allocate_gateway_session_def a Let_def)
  next
    case (Ok ps)
    then have ps: "length ps = 2" "distinct ps" "set ps \<subseteq> {pa_low pa..pa_high pa}"
      "\<forall>p\<in>set ps. port_free ?use (cooling (ge_now ge) (gm_port_allocator gm)) p"
      using cases draws by (simp_all add: env_ok_def range)
    then obtain data control where two: "ps = [data, control]"
      by (auto simp: numeral_2_eq_2 length_Suc_conv)
    show ?thesis
    proof (cases "allocate_session (ge_session_draws ge) (get_sessions_in_use (gm_sessions gm)) (gm_session_allocator gm)")
      case (Inl e)
      then show ?thesis using wf1 same by (simp add: allocate_gateway_session_def a Ok Let_def)
    next
      case (Inr ds)
      then have fresh: "ds \<notin> set (get_sessions_in_use (gm_sessions gm))" by (rule allocate_session_fresh)
      note ch = open_channels_law [OF nul, where ge = ge and data = data and control = control and ds = ds]
      show ?thesis
      proof (cases "open_channels ge (gm_config gm) [data, control] ds")
        case Panic
        with ch show ?thesis by simp
      next
        case (Err e)
        with wf1 same show ?thesis
          by (simp add: allocate_gateway_session_def a Ok Inr two Let_def)
      next
        case opened: (Ok c)
        obtain p s where c: "c = (p, s)" by (rule prod.exhaust)
        let ?sl = "\<lparr>sl_duologue = duologue_new s g, sl_port_data = data, sl_port_control = control, sl_session_id = ds\<rparr>"
        let ?gm = "gm\<lparr>gm_port_allocator := pa, gm_publications := (gm_publications gm)[unat g := Some p],
          gm_sessions := (gm_sessions gm)[unat g := Some ?sl]\<rparr>"
        have run: "allocate_gateway_session ge g gm = (Ok (ds, [data, control]), ?gm)"
          using g len by (simp add: allocate_gateway_session_def a Ok Inr two opened c Let_def set_publication_def
              store_slot_def session_insert_def)
        have none: "gm_sessions gm ! unat g = None"
          using free g by (simp add: is_gateway_connected_def session_is_connected_def)
        have "slots_wf pa ((gm_sessions gm)[unat g := Some ?sl])"
          using wf1 g none ps fresh two
          by (intro slots_wf_insert) (auto simp: gm_wf_def slot_in_range_def duologue_new_def port_free_def)
        moreover have "published ((gm_publications gm)[unat g := Some p]) ((gm_sessions gm)[unat g := Some ?sl])"
          using wf g len by (auto simp: gm_wf_def published_def pubs_wf_def nth_list_update)
        ultimately have "gm_wf ?gm" by (simp add: gm_wf_def)
        moreover have "session_opened ge g gm ds data control ?gm"
          using ch opened c g len by (auto simp: session_opened_def get_publication_def)
        ultimately show ?thesis using same by (simp add: run)
      qed
    qed
  qed
qed

section \<open>Handshakes\<close>

lemma send_loop_attempts: "i \<le> snd (send_loop offer i) \<and> (i < MESSAGE_RETRY_COUNT \<longrightarrow> i < snd (send_loop offer i))"
proof (induction offer i rule: send_loop.induct)
  case (1 offer i)
  then show ?case by (subst (1 2) send_loop.simps) auto
qed

lemma send_retries_attempts: "send_message_with_retries offer = (r, n) \<Longrightarrow> 0 < n"
  using send_loop_attempts [of 0 offer] by (simp add: send_message_with_retries_def MESSAGE_RETRY_COUNT_def)

lemma parse_gateway_range: "parse_gateway_id sid str = Inr g \<Longrightarrow> unat g < MAX_GATEWAYS"
  by (auto simp: parse_gateway_id_def split: option.splits sum.splits if_splits)

lemma parse_hello_gateway: "parse_hello sid buffer = Inr (g, key) \<Longrightarrow> unat g < MAX_GATEWAYS"
proof -
  let ?ws = "split_whitespace (str_of buffer)"
  assume p: "parse_hello sid buffer = Inr (g, key)"
  then have "parse_gateway_id sid (?ws ! 1) = Inr g"
    by (cases ?ws; cases "tl ?ws"; cases "tl (tl ?ws)")
      (auto simp: parse_hello_def rbind_def split: option.splits if_splits sum.splits)
  then show ?thesis by (rule parse_gateway_range)
qed

text \<open>Taking a session back that was just opened restores the table.\<close>

lemma take_back:
  assumes "gm_wf gm'" "session_opened ge g gm ds data control gm'" "unat g < MAX_GATEWAYS"
    "\<not> is_gateway_connected gm g" "length (gm_sessions gm) = MAX_GATEWAYS"
  shows "\<exists>gm''. remove_gateway_session ge g gm' = (Ok (), gm'') \<and> gm_wf gm'' \<and> same_setup gm' gm'' \<and>
    gm_sessions gm'' = gm_sessions gm \<and> gm_cleanup gm'' = gm_cleanup gm'"
proof -
  obtain sl where sl: "gm_sessions gm' = (gm_sessions gm)[unat g := Some sl]"
    using assms(2) by (auto simp: session_opened_def)
  have "is_gateway_connected gm' g"
    using sl assms(3,5) by (simp add: is_gateway_connected_def session_is_connected_def)
  moreover have "(gm_sessions gm')[unat g := None] = gm_sessions gm"
    using sl assms(3,4,5) by (simp add: is_gateway_connected_def session_is_connected_def)
      (metis list_update_id)
  ultimately show ?thesis
    using remove_session_law [OF assms(1), of ge g] by (auto simp: same_setup_def)
qed

definition handshake_done ::
    "('p, 's) gateway_env \<Rightarrow> i32 \<Rightarrow> u8 list \<Rightarrow> ('p, 's) gateway_manager \<Rightarrow> ('p, 's) gateway_manager \<Rightarrow> string list \<Rightarrow> bool" where
  "handshake_done ge sid buffer gm gm' sent \<longleftrightarrow>
     (\<exists>g key ds data control. parse_hello sid buffer = Inr (g, key) \<and> \<not> is_gateway_connected gm g \<and>
        session_opened ge g gm ds data control gm' \<and> sent \<noteq> [] \<and>
        set sent = {accept_message sid g [data, control] (key XOR ds)})"

lemma handshake_law:
  assumes wf: "gm_wf gm" and env: "env_ok ge gm" and nul: "CHR 0x00 \<notin> set (cn_local_address (gm_config gm))"
  shows "case process_handshake_message ge sid buffer gm of (r, gm', sent) \<Rightarrow>
    gm_wf gm' \<and> same_setup gm gm' \<and> gm_cleanup gm' = gm_cleanup gm \<and>
    (case r of
       Panic \<Rightarrow> False
     | Err e \<Rightarrow> gm_sessions gm' = gm_sessions gm
     | Ok _ \<Rightarrow> handshake_done ge sid buffer gm gm' sent)"
proof (cases "parse_hello sid buffer")
  case (Inl r)
  then show ?thesis using wf by (simp add: process_handshake_message_def split: prod.split)
next
  case (Inr gk)
  obtain g key where gk: "gk = (g, key)" by (rule prod.exhaust)
  have g: "unat g < MAX_GATEWAYS" using parse_hello_gateway Inr gk by blast
  have len: "length (gm_sessions gm) = MAX_GATEWAYS" using wf by (simp add: gm_wf_def slots_wf_def)
  show ?thesis
  proof (cases "is_gateway_connected gm g")
    case True
    then show ?thesis using wf g Inr gk
      by (simp add: process_handshake_message_def check_duplicate_connection_def split: prod.split)
  next
    case free: False
    have run: "process_handshake_message ge sid buffer gm = accept_gateway ge sid g key gm"
      using Inr gk g free by (simp add: process_handshake_message_def check_duplicate_connection_def
          authenticate_gateway_def)
    obtain r gm1 where a: "allocate_gateway_session ge g gm = (r, gm1)" by (rule prod.exhaust)
    note al = allocate_law [OF wf env nul g free, unfolded a, simplified]
    show ?thesis
    proof (cases r)
      case Panic
      with al show ?thesis by simp
    next
      case (Err e)
      with al show ?thesis by (simp add: run accept_gateway_def a)
    next
      case (Ok c)
      then obtain ds data control where c: "c = (ds, [data, control])"
        and op: "session_opened ge g gm ds data control gm1" and wf1: "gm_wf gm1" "same_setup gm gm1" "gm_cleanup gm1 = gm_cleanup gm"
        using al by (cases c) auto
      obtain gm2 where taken: "remove_gateway_session ge g gm1 = (Ok (), gm2)" "gm_wf gm2" "same_setup gm1 gm2"
        "gm_sessions gm2 = gm_sessions gm" "gm_cleanup gm2 = gm_cleanup gm1"
        using take_back [OF wf1(1) op g free len] by blast
      obtain s n where send: "send_message_with_retries (ge_accept_offers ge) = (s, n)" by (rule prod.exhaust)
      have n: "0 < n" by (rule send_retries_attempts [OF send])
      show ?thesis
      proof (cases "wait_connected (ge_connected ge) 0 \<and> s = Inr ()")
        case True
        then show ?thesis
          using Inr gk free op n wf1
          by (auto simp: run accept_gateway_def a Ok c send handshake_done_def)
      next
        case False
        then show ?thesis
          using taken wf1 same_setup_trans [OF wf1(2) taken(3)]
          by (auto simp: run accept_gateway_def a Ok c send Let_def split: sum.split)
      qed
    qed
  qed
qed

section \<open>Reachable managers\<close>

inductive gw_step :: "('p, 's) gateway_manager \<Rightarrow> ('p, 's) gateway_manager \<Rightarrow> bool" where
  handshake: "env_ok ge gm \<Longrightarrow> handle_handshake_fragment ge sid buffer gm = Some (gm', sent) \<Longrightarrow> gw_step gm gm'"
| image_gone: "gw_step gm (image_unavailable g gm)"
| poll: "manager_poll ge polls gm = Some (gm', results) \<Longrightarrow> gw_step gm gm'"
| shutdown: "shutdown_all_gateways ge gm = (r, gm') \<Longrightarrow> gw_step gm gm'"

inductive gm_reachable :: "core_networking_config \<Rightarrow> ('p, 's) gateway_manager \<Rightarrow> bool" for config where
  start: "gateway_manager_new show_code config pubs = Inr gm \<Longrightarrow> pubs_wf pubs \<Longrightarrow>
    list_all (\<lambda>p. p = None) (take MAX_GATEWAYS pubs) \<Longrightarrow> gm_reachable config gm"
| step: "gm_reachable config gm \<Longrightarrow> gw_step gm gm' \<Longrightarrow> gm_reachable config gm'"

lemma cleanup_requests_law:
  assumes "gm_wf gm"
  shows "\<exists>gm'. process_cleanup_requests ge gm = Some gm' \<and> gm_wf gm' \<and> same_setup gm gm' \<and> gm_cleanup gm' = [] \<and>
    gm_sessions gm' = fold (\<lambda>g s. s[unat g := None]) (gm_cleanup gm) (gm_sessions gm)"
proof -
  have "gm_wf (gm\<lparr>gm_cleanup := []\<rparr>)" using assms by (simp add: gm_wf_def)
  from cleanup_loop_law [OF this, of ge "gm_cleanup gm"] show ?thesis
    by (auto simp: process_cleanup_requests_def same_setup_def)
qed

lemma gw_step_preserves:
  assumes "gw_step gm gm'" "gm_wf gm" "CHR 0x00 \<notin> set (cn_local_address (gm_config gm))"
  shows "gm_wf gm' \<and> same_setup gm gm'"
  using assms(1)
proof (cases rule: gw_step.cases)
  case (handshake ge sid buffer sent)
  show ?thesis
  proof (cases sid)
    case (Some s)
    obtain r gm1 out where "process_handshake_message ge s buffer gm = (r, gm1, out)" by (rule prod_cases3)
    with handshake_law [OF assms(2) handshake(1) assms(3), of s buffer] handshake(2) Some show ?thesis
      by (cases r) (auto simp: handle_handshake_fragment_def)
  qed (use handshake(2) assms(2) in \<open>simp add: handle_handshake_fragment_def\<close>)
next
  case (image_gone g)
  with assms(2) show ?thesis by (simp add: image_unavailable_def gm_wf_def same_setup_def)
next
  case (poll ge polls results)
  with cleanup_requests_law [OF assms(2), of ge] show ?thesis by (auto simp: manager_poll_def split: option.splits)
next
  case (shutdown ge r)
  with remove_all_law [OF assms(2), of ge "map du_gateway_id (session_iter (gm_sessions gm))"] show ?thesis
    by (auto simp: shutdown_all_gateways_def same_setup_def)
qed

lemma unat_port_sum:
  fixes a b :: u16
  assumes "0 < b" "(ucast a + ucast b - 1 :: u32) \<le> 65535"
  shows "unat (ucast (ucast a + ucast b - 1 :: u32) :: u16) + 1 = unat a + unat b"
proof -
  have "unat (ucast a :: u32) = unat a" "unat (ucast b :: u32) = unat b"
    using unat_lt_2p [of a] unat_lt_2p [of b] by (simp_all add: unsigned_ucast_eq take_bit_nat_eq_self)
  moreover have "0 < unat b" using assms(1) by (simp add: unat_gt_0)
  ultimately have "unat (ucast a + ucast b - 1 :: u32) = unat a + unat b - 1"
    using unat_lt_2p [of a] unat_lt_2p [of b]
    by (simp add: unat_sub_no_underflow unat_add_no_overflow word_le_nat_alt)
  with assms \<open>0 < unat b\<close> show ?thesis
    by (simp add: unsigned_ucast_eq take_bit_nat_eq_self word_le_nat_alt)
qed

lemma new_manager_law:
  assumes "gateway_manager_new show_code config pubs = Inr gm" "pubs_wf pubs"
    "list_all (\<lambda>p. p = None) (take MAX_GATEWAYS pubs)"
  shows "gm_wf gm \<and> gm_config gm = config \<and>
    total_ports (gm_port_allocator gm) = unat (cn_max_gateways config)"
proof -
  let ?b = "cn_base_gateway_port config" and ?n = "cn_max_gateways config"
  obtain pa sa where pa: "port_allocator_new ?b (ucast ?n) = Inr pa"
    and gm: "gm = \<lparr>gm_sessions = session_new, gm_config = config, gm_port_allocator = pa,
      gm_session_allocator = sa, gm_publications = pubs, gm_cleanup = []\<rparr>"
    using assms(1) by (auto simp: gateway_manager_new_def split: sum.splits)
  have u: "(ucast (ucast ?n :: u64) :: u32) = ucast ?n"
  proof -
    have "unat (ucast ?n :: u64) = unat ?n" "unat (ucast ?n :: u32) = unat ?n"
      using unat_lt_2p [of ?n] by (simp_all add: unsigned_ucast_eq take_bit_nat_eq_self)
    then show ?thesis
      using unat_lt_2p [of ?n] by (simp add: word_unat_eq_iff unsigned_ucast_eq [of "ucast ?n :: u64"] take_bit_nat_eq_self)
  qed
  have b: "0 < ?b" "0 < ?n" "(ucast ?b + ucast ?n - 1 :: u32) \<le> 65535"
    and pa': "pa = \<lparr>pa_low = ?b, pa_high = ucast (ucast ?b + ucast ?n - 1 :: u32), pa_freed = []\<rparr>"
    using pa by (auto simp: port_allocator_new_def Let_def u word_gt_0 split: if_splits)
  have "published pubs (session_new :: 'b session)"
    using assms(2,3) by (auto simp: published_def session_new_def list_all_length pubs_wf_def)
  then have "gm_wf gm" using slots_wf_new [of pa] b(1) by (simp add: gm gm_wf_def pa')
  moreover have "total_ports pa = unat ?n"
    using unat_port_sum [OF b(2,3)] by (simp add: total_ports_def pa')
  ultimately show ?thesis by (simp add: gm)
qed

lemma reachable_wf:
  assumes "gm_reachable config gm" "CHR 0x00 \<notin> set (cn_local_address config)"
  shows "gm_wf gm \<and> gm_config gm = config \<and> total_ports (gm_port_allocator gm) = unat (cn_max_gateways config)"
  using assms
proof (induction rule: gm_reachable.induct)
  case (start show_code pubs gm)
  then show ?case using new_manager_law by blast
next
  case (step gm gm')
  then have "gm_wf gm' \<and> same_setup gm gm'" using gw_step_preserves by metis
  with step show ?case by (simp add: same_setup_def total_ports_def)
qed

end
