(* ===== verification/Core_Server.thy ===== *)
theory Core_Server
  imports Replay Gateway_Invariant Config_Loader
begin

text \<open>
  The core as a whole: \<^verbatim>\<open>VexCoreServer\<close> of \<^verbatim>\<open>networking/src/server/mod.rs\<close> (start-up, polling loop,
  shutdown), the thread that \<^verbatim>\<open>CoreEngine::run\<close> of \<^verbatim>\<open>server/src/engine.rs\<close> gives it, \<^verbatim>\<open>start\<close> and
  \<^verbatim>\<open>RunningEngine::join\<close> of \<^verbatim>\<open>server/src/lib.rs\<close>, and what \<^verbatim>\<open>src/main.rs\<close> does to the configuration. What
  the Aeron library answers is an environment record. Image callbacks come from another thread; a turn of
  the loop has those that arrive during it. What the gateways send goes to the ring by the handlers of
  theory \<open>Replay\<close> and is no state of the server.
\<close>

section \<open>Errors and pinning\<close>

datatype engine_error = ServerInitialization string | ServerRuntime string | EngineConfiguration string

fun engine_error_display :: "engine_error \<Rightarrow> string" where
  "engine_error_display (ServerInitialization e) = ''Failed to initialize server: '' @ e"
| "engine_error_display (ServerRuntime e) = ''Server runtime error: '' @ e"
| "engine_error_display (EngineConfiguration e) = ''Invalid configuration: '' @ e"

record core_pinning =
  pin_journaling :: nat
  pin_risk_engines :: "nat list"
  pin_matching_engines :: "nat list"
  pin_risk_r2_engines :: "nat list"
  pin_events :: nat

definition core_pinning_default :: core_pinning where
  "core_pinning_default =
     \<lparr>pin_journaling = 1, pin_risk_engines = [2, 3, 4, 5], pin_matching_engines = [6, 7, 8, 9],
      pin_risk_r2_engines = [10, 11, 12, 13], pin_events = 14\<rparr>"

definition chosen_pinning :: "environment \<Rightarrow> core_pinning" where
  "chosen_pinning env =
     (case (if env = Development then None else Some core_pinning_default) of
        None \<Rightarrow> core_pinning_default
      | Some p \<Rightarrow> p)"

section \<open>Start-up of the server\<close>

definition ALL_GATEWAYS_STREAM_ID_server :: i32 where "ALL_GATEWAYS_STREAM_ID_server = 1001"

record ('p, 's) server_env =
  se_context :: "i32 + unit"
  se_set_dir :: "i32 + unit"
  se_set_timeout :: "i32 + unit"
  se_aeron :: "i32 + unit"
  se_aeron_start :: "i32 + unit"
  se_archive_context :: "i32 + unit"
  se_archive_connect :: "i32 + unit"
  se_archive_poll :: "i32 + unit"
  se_archive :: archive_env
  se_gateway :: "('p, 's) gateway_env"
  se_close_subscription :: "i32 + unit"
  se_stop_recording :: "i64 \<Rightarrow> i32 + unit"
  se_close_archive :: "i32 + unit"

record ('p, 's) core_server =
  sv_config :: core_networking_config
  sv_gateways :: "('p, 's) gateway_manager"
  sv_handshake_publication :: 'p
  sv_subscription :: 's
  sv_archive :: bool
  sv_subscription_id :: "i64 option"

text \<open>\<^verbatim>\<open>?\<close> on an answer of Aeron.\<close>

definition aeron :: "i32 + 'a \<Rightarrow> server_error + 'a" where
  "aeron r = (case r of Inl code \<Rightarrow> Inl (AeronConnectionError code) | Inr a \<Rightarrow> Inr a)"

fun aeron_outcome :: "(i32, 'a) outcome \<Rightarrow> (server_error, 'a) outcome" where
  "aeron_outcome (Ok a) = Ok a"
| "aeron_outcome (Err code) = Err (AeronConnectionError code)"
| "aeron_outcome Panic = Panic"

definition validate_config :: "core_networking_config \<Rightarrow> server_error + unit" where
  "validate_config config =
     first_failure
       [(cn_max_gateways config = 0, ConfigurationError ''Max gateways must be greater than 0''),
        (cn_core_id config = [], ConfigurationError ''Core ID cannot be empty'')]"

fun nul_position :: "string \<Rightarrow> nat" where
  "nul_position [] = 0"
| "nul_position (c # s) = (if c = CHR 0x00 then 0 else Suc (nul_position s))"

definition initialize_aeron :: "('p, 's) server_env \<Rightarrow> core_networking_config \<Rightarrow> server_error + unit" where
  "initialize_aeron se config =
     rbind (aeron (se_context se)) (\<lambda>_.
     case c_string (cn_context_dir config) of
       None \<Rightarrow> Inl (InvalidInput (''nul byte found in provided data at position: '' @
                 dec (nul_position (cn_context_dir config))))
     | Some context_dir \<Rightarrow>
         rbind (aeron (se_set_dir se)) (\<lambda>_.
         rbind (aeron (se_set_timeout se)) (\<lambda>_.
         rbind (aeron (se_aeron se)) (\<lambda>_.
           aeron (se_aeron_start se)))))"

definition initialize_archive :: "('p, 's) server_env \<Rightarrow> server_error + unit" where
  "initialize_archive se =
     rbind (aeron (se_archive_context se)) (\<lambda>_.
     rbind (aeron (se_archive_connect se)) (\<lambda>_.
       aeron (se_archive_poll se)))"

text \<open>The archive: replay, recording, the publication that is recorded. The wait for its connection is
  assumed to end. The subscription that records, the table with the publication, the replayed commands.\<close>

definition archive_stage ::
    "('p, 's) server_env \<Rightarrow> core_networking_config \<Rightarrow> 'p publications \<Rightarrow> bool \<Rightarrow>
     (server_error, i64 option \<times> 'p publications \<times> order_command list) outcome option" where
  "archive_stage se config publications replay =
     (if cn_request_control_channel config = [] then Some (Ok (None, publications, []))
      else
        (case initialize_archive se of
           Inl e \<Rightarrow> Some (Err e)
         | Inr _ \<Rightarrow>
             map_option (\<lambda>r. obind r (\<lambda>(recording, replayed).
               obind (of_result (start_recording (se_archive se) recording)) (\<lambda>(subscription_id, channel).
               obind (aeron_outcome (add_channel (ge_add_publication (se_gateway se)) channel RECORDING_STREAM_ID))
                 (\<lambda>archive_publication.
               obind (or_panic (set_archive_publication archive_publication publications)) (\<lambda>publications.
                 Ok (Some subscription_id, publications, replayed))))))
               (if replay then start_replay (se_archive se) else Some (Ok (None, [])))))"

text \<open>\<open>None\<close>: the replay has not ended. The commands are those the replay has put on the ring.\<close>

definition server_new ::
    "('p, 's) server_env \<Rightarrow> core_networking_config \<Rightarrow> 'p publications \<Rightarrow> bool \<Rightarrow>
     (server_error, ('p, 's) core_server \<times> order_command list) outcome option" where
  "server_new se config publications replay =
     (case rbind (validate_config config) (\<lambda>_. initialize_aeron se config) of
        Inl e \<Rightarrow> Some (Err e)
      | Inr _ \<Rightarrow>
          map_option (\<lambda>r. obind r (\<lambda>(subscription_id, publications, replayed).
            obind (aeron_outcome (new_publication_with_mdc (ge_add_publication (se_gateway se))
                (cn_local_address config) (cn_initial_control_port config) ALL_GATEWAYS_STREAM_ID_server)) (\<lambda>publication.
            obind (aeron_outcome (new_subscription_with_handlers (ge_add_subscription (se_gateway se))
                (cn_local_address config) (cn_initial_port config) ALL_GATEWAYS_STREAM_ID_server)) (\<lambda>subscription.
            obind (of_result (gateway_manager_new (ge_show_code (se_gateway se)) config publications)) (\<lambda>gateways.
              Ok (\<lparr>sv_config = config, sv_gateways = gateways, sv_handshake_publication = publication,
                   sv_subscription = subscription, sv_archive = (subscription_id \<noteq> None),
                   sv_subscription_id = subscription_id\<rparr>, replayed))))))
            (archive_stage se config publications replay))"

section \<open>Shutdown\<close>

text \<open>The recording is stopped only when it is the server's own: subscription 0 belongs to another.\<close>

definition stop_recording :: "('p, 's) server_env \<Rightarrow> ('p, 's) core_server \<Rightarrow> server_error + i64 list" where
  "stop_recording se sv =
     (case sv_subscription_id sv of
        None \<Rightarrow> Inr []
      | Some sub_id \<Rightarrow>
          if sub_id \<noteq> 0 then
            (if sv_archive sv then rbind (aeron (se_stop_recording se sub_id)) (\<lambda>_. Inr [sub_id]) else Inr [])
          else Inr [])"

text \<open>The result, the server, and the recordings that were stopped.\<close>

definition server_shutdown ::
    "('p, 's) server_env \<Rightarrow> ('p, 's) core_server \<Rightarrow>
     (server_error, i64 list) outcome \<times> ('p, 's) core_server" where
  "server_shutdown se sv =
     (case shutdown_all_gateways (se_gateway se) (sv_gateways sv) of
        (r, gm) \<Rightarrow>
          (obind r (\<lambda>_.
           obind (of_result (aeron (se_close_subscription se))) (\<lambda>_.
           obind (of_result (stop_recording se sv)) (\<lambda>stopped.
           obind (of_result (if sv_archive sv then aeron (se_close_archive se) else Inr ())) (\<lambda>_. Ok stopped)))),
           sv\<lparr>sv_gateways := gm\<rparr>))"

section \<open>The polling loop\<close>

text \<open>A turn: the flag, the handshake fragments the subscription reads (at most ten) each with the answers
  it gets, the images that vanished, the fragments the polls of the gateways read. Errors of polls are
  logged.\<close>

record ('p, 's) turn =
  tn_shutdown :: bool
  tn_hellos :: "(('p, 's) gateway_env \<times> i32 option \<times> u8 list) list"
  tn_gone :: "u8 list"
  tn_gateway :: "('p, 's) gateway_env"
  tn_polls :: "'s fragments"

fun greet ::
    "(('p, 's) gateway_env \<times> i32 option \<times> u8 list) list \<Rightarrow> ('p, 's) gateway_manager \<Rightarrow>
     (('p, 's) gateway_manager \<times> string list) option" where
  "greet [] gm = Some (gm, [])"
| "greet ((ge, session_id, buffer) # hellos) gm =
     (case handle_handshake_fragment ge session_id buffer gm of
        None \<Rightarrow> None
      | Some (gm, sent) \<Rightarrow> map_option (apsnd ((@) sent)) (greet hellos gm))"

text \<open>The manager after the turn, the messages sent and the commands put on the ring; \<open>None\<close> is a panic.\<close>

definition take_turn ::
    "('p, 's) turn \<Rightarrow> ('p, 's) gateway_manager \<Rightarrow>
     (('p, 's) gateway_manager \<times> string list \<times> order_command list) option" where
  "take_turn t gm =
     (case greet (tn_hellos t) gm of
        None \<Rightarrow> None
      | Some (gm, sent) \<Rightarrow>
          map_option (\<lambda>(gm, results). (gm, sent, concat (map (\<lambda>r. case r of Inl _ \<Rightarrow> [] | Inr (_, cmds) \<Rightarrow> cmds) results)))
            (manager_poll (tn_gateway t) (tn_polls t) (fold image_unavailable (tn_gone t) gm)))"

text \<open>\<open>None\<close>: still running after these turns. A panic ends the thread with the server as the turn found it.\<close>

fun serve ::
    "('p, 's) server_env \<Rightarrow> ('p, 's) turn list \<Rightarrow> ('p, 's) core_server \<Rightarrow>
     ((server_error, i64 list) outcome \<times> ('p, 's) core_server) option" where
  "serve se [] sv = None"
| "serve se (t # turns) sv =
     (if tn_shutdown t then Some (server_shutdown se sv)
      else
        (case take_turn t (sv_gateways sv) of
           None \<Rightarrow> Some (Panic, sv)
         | Some (gm, _) \<Rightarrow> serve se turns (sv\<lparr>sv_gateways := gm\<rparr>)))"

section \<open>The thread of the server\<close>

text \<open>The result and the replay flag when the server is made: a panic of the constructor leaves the flag.\<close>

definition run_server ::
    "('p, 's) server_env \<Rightarrow> core_networking_config \<Rightarrow> 'p publications \<Rightarrow> replay_control \<Rightarrow> ('p, 's) turn list \<Rightarrow>
     ((engine_error, i64 list) outcome \<times> replay_control) option" where
  "run_server se config publications replay turns =
     (let display = server_error_display (ge_show_code (se_gateway se))
      in case server_new se config publications (is_enabled replay) of
           None \<Rightarrow> None
         | Some Panic \<Rightarrow> Some (Panic, replay)
         | Some (Err e) \<Rightarrow>
             Some (Err (ServerInitialization (''Failed to create VexCoreServer: '' @ display e)), replay_disable replay)
         | Some (Ok (core_server, _)) \<Rightarrow>
             map_option
               (\<lambda>(r, _).
                  (case r of
                     Ok stopped \<Rightarrow> Ok stopped
                   | Err e \<Rightarrow> Err (ServerRuntime (''Server error: '' @ display e))
                   | Panic \<Rightarrow> Panic, replay_disable replay))
               (serve se turns core_server))"

text \<open>The panic payload is shown by the \<^verbatim>\<open>Debug\<close> of \<^verbatim>\<open>dyn Any\<close>.\<close>

fun join_thread :: "(engine_error, i64 list) outcome \<Rightarrow> engine_error + unit" where
  "join_thread (Ok _) = Inr ()"
| "join_thread (Err e) = Inl e"
| "join_thread Panic = Inl (ServerRuntime ''Server thread panicked: Any { .. }'')"

section \<open>The start\<close>

text \<open>The commands of the balance preload, in the order of the iterator of the map.\<close>

definition preload_commands :: "bool \<Rightarrow> balance_preload_config \<Rightarrow> order_command list" where
  "preload_commands feature bp =
     (if feature \<and> bp_enabled bp then
        concat (map (\<lambda>(user_id, balances). map (\<lambda>b. mk_deposit_funds user_id (pl_amount b) (pl_asset_id b)) balances)
          (bp_users bp))
      else [])"

text \<open>\<open>feature\<close> is the Cargo feature \<^verbatim>\<open>balance-preload\<close>, \<open>kafka\<close> whether the event handler can be made
  (it panics otherwise). The engine, the journaling processor, the replay flag, the pinning and whether it
  is used, and the commands published before the server runs.\<close>

definition init_internal ::
    "nat option \<Rightarrow> bool \<Rightarrow> symbol_config \<Rightarrow> bool \<Rightarrow> bool \<Rightarrow> environment \<Rightarrow>
     (engine_error, core_state \<times> 'p journaling_processor \<times> replay_control \<times> core_pinning \<times> bool) outcome" where
  "init_internal wall kafka symbol_specs replay enable_core_pinning env =
     (let replay_control = (if replay then replay_new_enabled else replay_new_disabled)
      in case journaling_new wall publications_new of
           Ok jp \<Rightarrow>
             (if \<not> kafka then Panic
              else (case build_engine (map fst symbol_specs) (map_of symbol_specs) of
                      None \<Rightarrow> Panic
                    | Some cs \<Rightarrow> Ok (cs, jp, replay_control, chosen_pinning env, enable_core_pinning)))
         | _ \<Rightarrow> Panic)"

definition vex_start ::
    "nat option \<Rightarrow> bool \<Rightarrow> bool \<Rightarrow> vex_config \<Rightarrow> bool \<Rightarrow>
     (engine_error, core_state \<times> 'p journaling_processor \<times> replay_control \<times> order_command list) outcome" where
  "vex_start wall kafka feature config replay =
     obind (init_internal wall kafka (vc_symbols config) replay (cn_enable_core_pinning (vc_core_networking config))
         (vc_environment config)) (\<lambda>(cs, jp, replay_control, _, _).
       Ok (cs, jp, replay_control, preload_commands feature (vc_balance_preload config)))"

section \<open>The program\<close>

definition parse_bool :: "string \<Rightarrow> bool option" where
  "parse_bool s = (if s = ''true'' then Some True else if s = ''false'' then Some False else None)"

definition main_config :: "(string \<Rightarrow> string option) \<Rightarrow> config_error + vex_config \<Rightarrow> config_error + vex_config" where
  "main_config getenv loaded =
     (let config = (case loaded of Inl _ \<Rightarrow> vex_config_new Test | Inr c \<Rightarrow> c);
          pinning = Option.bind (getenv ''ENABLE_CORE_PINNING'') parse_bool;
          cn = (vc_core_networking config)\<lparr>cn_local_address := ''0.0.0.0'', cn_context_dir := ''/dev/shm/aeron''\<rparr>;
          config = config\<lparr>
            vc_core_networking := (case pinning of None \<Rightarrow> cn | Some b \<Rightarrow> cn\<lparr>cn_enable_core_pinning := b\<rparr>),
            vc_kafka_broker := (case getenv ''KAFKA_BROKER'' of None \<Rightarrow> ''localhost:9092'' | Some b \<Rightarrow> b)\<rparr>
      in rbind (vex_config_validate config) (\<lambda>_. Inr config))"

definition main_replay :: "string list \<Rightarrow> bool" where
  "main_replay args \<longleftrightarrow> ''--replay'' \<in> set args"

end
