(* ===== verification/Gateway_Client.thy ===== *)
theory Gateway_Client
  imports Gateway_Invariant
begin

text \<open>
  The gateway's side (\<^verbatim>\<open>networking/src/client/mod.rs\<close>, \<^verbatim>\<open>client/cmd_handler.rs\<close>): the parser of the core's
  responses, the handshake, the dedicated channel and the publisher of order commands. Aeron's answers
  are parameters as on the server's side; what the subscription delivers until the timeout is a list of
  polls, each an error or the fragments it read. Threads and sleeping are not modelled, the waits for a
  connection are their results. The lemmas lead to the agreement of both sides after a handshake.
\<close>

section \<open>Responses\<close>

text \<open>Accepted: data port, control port, encrypted session, gateway.\<close>

datatype core_response =
  Accept u16 u16 i32 u8
| Reject string
| Unavailable u32
| Ignore

datatype gateway_state = Gw_Disconnected | Gw_Connecting | Gw_Connected | Gw_Error string

definition parse_accept :: "u8 \<Rightarrow> string list \<Rightarrow> core_response" where
  "parse_accept gateway_id parts =
     (case (parse_u16 (parts ! 3), parse_u16 (parts ! 4), parse_i32 (parts ! 5)) of
        (Inr port, Inr control_port, Inr encrypted_session) \<Rightarrow> Accept port control_port encrypted_session gateway_id
      | _ \<Rightarrow> Ignore)"

definition parse_command :: "u8 \<Rightarrow> string list \<Rightarrow> core_response" where
  "parse_command gateway_id parts =
     (if parts ! 2 = ''ACCEPT'' \<and> length parts = 6 then parse_accept gateway_id parts
      else if parts ! 2 = ''REJECT'' \<and> 4 \<le> length parts then Reject (join_with '' '' (drop 3 parts))
      else if parts ! 2 = ''UNAVAILABLE'' \<and> length parts = 4 then
        (case parse_u32 (parts ! 3) of Inr retry_after \<Rightarrow> Unavailable retry_after | Inl _ \<Rightarrow> Ignore)
      else Ignore)"

definition parse_core_response :: "string \<Rightarrow> i32 \<Rightarrow> u8 \<Rightarrow> core_response" where
  "parse_core_response message expected_session expected_gateway_id =
     (let clean_message = trim (trim_matches (CHR 0x00) message);
          parts = split_whitespace clean_message
      in if length parts < 3 then Ignore
         else
           (case parse_i32 (parts ! 0) of
              Inl _ \<Rightarrow> Ignore
            | Inr session_id \<Rightarrow>
                if session_id \<noteq> expected_session then Ignore
                else
                  (case strip_prefix ''gateway-'' (parts ! 1) of
                     None \<Rightarrow> Ignore
                   | Some id_str \<Rightarrow>
                       (case parse_u8 id_str of
                          Inl _ \<Rightarrow> Ignore
                        | Inr gateway_id \<Rightarrow>
                            if gateway_id \<noteq> expected_gateway_id then Ignore
                            else parse_command gateway_id parts))))"

text \<open>The handler of a poll keeps the last response that is not ignored.\<close>

definition handle_response :: "i32 \<Rightarrow> u8 \<Rightarrow> u8 list \<Rightarrow> core_response option \<Rightarrow> core_response option" where
  "handle_response expected_session expected_gateway_id buffer response =
     (let parsed = parse_core_response (from_utf8_lossy buffer) expected_session expected_gateway_id
      in if parsed \<noteq> Ignore then Some parsed else response)"

section \<open>Errors\<close>

datatype gateway_error =
  AeronError i32
| NulError string
| Timeout string
| CoreError string
| SendError string
| ProtocolError string
| ConfigError string
| NotConnected
| InvalidState string string
| VexCoreNotStarted

fun gateway_error_display :: "(i32 \<Rightarrow> string) \<Rightarrow> gateway_error \<Rightarrow> string" where
  "gateway_error_display show_code (AeronError code) = ''Aeron operation failed: '' @ show_code code"
| "gateway_error_display show_code (NulError e) = ''Invalid CString: '' @ e"
| "gateway_error_display show_code (Timeout e) = ''Connection timed out: '' @ e"
| "gateway_error_display show_code (CoreError e) = ''VEX Core returned an error: '' @ e"
| "gateway_error_display show_code (SendError e) = ''Failed to send message: '' @ e"
| "gateway_error_display show_code (ProtocolError e) = ''Protocol error: '' @ e"
| "gateway_error_display show_code (ConfigError e) = ''Configuration error: '' @ e"
| "gateway_error_display show_code NotConnected = ''Gateway not connected to Server''"
| "gateway_error_display show_code (InvalidState expected actual) =
     ''Invalid gateway state: expected '' @ expected @ '', got '' @ actual"
| "gateway_error_display show_code VexCoreNotStarted = ''Vex Core Not Started''"

section \<open>The publisher\<close>

definition CLIENT_RETRY_COUNT :: nat where "CLIENT_RETRY_COUNT = 5"

text \<open>Offering until an offer succeeds; the number of offers made.\<close>

fun retry_offers :: "(nat \<Rightarrow> i64) \<Rightarrow> nat \<Rightarrow> nat \<Rightarrow> bool \<times> nat" where
  "retry_offers offer attempt 0 = (False, attempt)"
| "retry_offers offer attempt (Suc n) =
     (if 0 \<le>s offer attempt then (True, Suc attempt) else retry_offers offer (Suc attempt) n)"

definition send_order_command ::
    "(nat \<Rightarrow> i64) \<Rightarrow> order_command \<Rightarrow> (gateway_error, unit) outcome \<times> u8 list list" where
  "send_order_command offer order_command =
     (case encode_order_command order_command (replicate ORDERCOMMANDSIZE 0) of
        Panic \<Rightarrow> (Panic, [])
      | Err e \<Rightarrow> (Err (ProtocolError ''Failed to encode OrderCommand''), [])
      | Ok message_buffer \<Rightarrow>
          (case retry_offers offer 0 CLIENT_RETRY_COUNT of
             (True, n) \<Rightarrow> (Ok (), replicate n message_buffer)
           | (False, n) \<Rightarrow>
               (Err (SendError (''Failed to send OrderCommand after '' @ dec CLIENT_RETRY_COUNT @ '' attempts'')),
                replicate n message_buffer)))"

section \<open>The gateway\<close>

definition ALL_GATEWAYS_STREAM_ID :: i32 where "ALL_GATEWAYS_STREAM_ID = 1001"
definition GATEWAY_CORE_STREAM_ID :: i32 where "GATEWAY_CORE_STREAM_ID = 1002"

record 'p vex_gateway =
  vg_config :: gateway_networking_config
  vg_state :: gateway_state
  vg_session_id :: "i32 option"
  vg_encryption_key :: "i32 option"
  vg_core_publication :: "'p option"
  vg_shutdown :: bool
  vg_polling :: bool

text \<open>Aeron's part of a new gateway either works or fails with a code; a NUL in the directory is an error.\<close>

definition vex_gateway_new ::
    "i32 + unit \<Rightarrow> gateway_networking_config \<Rightarrow> gateway_error + 'p vex_gateway" where
  "vex_gateway_new aeron config =
     (if gn_max_message_size config = 0 then Inl (ConfigError ''Max message size must be greater than 0'')
      else if CHR 0x00 \<in> set (gn_context_dir config) then Inl (NulError (gn_context_dir config))
      else (case aeron of
              Inl code \<Rightarrow> Inl (AeronError code)
            | Inr _ \<Rightarrow>
                Inr \<lparr>vg_config = config, vg_state = Gw_Disconnected, vg_session_id = None, vg_encryption_key = None,
                     vg_core_publication = None, vg_shutdown = False, vg_polling = False\<rparr>))"

definition gateway_is_connected :: "'p vex_gateway \<Rightarrow> bool" where
  "gateway_is_connected vg \<longleftrightarrow> vg_state vg = Gw_Connected"

definition hello_message :: "u8 \<Rightarrow> i32 \<Rightarrow> string" where
  "hello_message gateway_id encryption_key =
     ''HELLO gateway-'' @ dec (unat gateway_id) @ '' '' @ dec_i32 encryption_key"

definition client_send_message ::
    "(nat \<Rightarrow> i64) \<Rightarrow> string \<Rightarrow> 'p vex_gateway \<Rightarrow> (gateway_error + unit) \<times> u8 list list" where
  "client_send_message offer message vg =
     (let v = as_bytes message; limit = unat (gn_max_message_size (vg_config vg))
      in if limit < length v then
           (Inl (SendError (''Message too long: '' @ dec (length v) @ '' bytes (max: '' @ dec limit @ '')'')), [])
         else (case retry_offers offer 0 CLIENT_RETRY_COUNT of
                 (True, n) \<Rightarrow> (Inr (), replicate n v)
               | (False, n) \<Rightarrow>
                   (Inl (SendError (''Failed to send message after '' @ dec CLIENT_RETRY_COUNT @ '' attempts'')),
                    replicate n v)))"

text \<open>The polls until the timeout.\<close>

fun wait_for_core_response ::
    "i32 \<Rightarrow> u8 \<Rightarrow> (i32 + u8 list list) list \<Rightarrow> gateway_error + core_response" where
  "wait_for_core_response session_id gateway_id [] =
     Inl (Timeout ''Waiting for core handshake response'')"
| "wait_for_core_response session_id gateway_id (Inl code # polls) = Inl (AeronError code)"
| "wait_for_core_response session_id gateway_id (Inr fragments # polls) =
     (case fold (handle_response session_id gateway_id) fragments None of
        Some response \<Rightarrow> Inr response
      | None \<Rightarrow> wait_for_core_response session_id gateway_id polls)"

text \<open>What Aeron and the random generator answer during a handshake: the two handshake channels, whether
  the publication connects in time and its session, the key, the offers, the polls; then the dedicated
  channels and whether they connect in time.\<close>

record ('p, 's) client_env =
  ce_add_publication :: "string \<Rightarrow> i32 \<Rightarrow> i32 + 'p"
  ce_add_subscription :: "string \<Rightarrow> i32 \<Rightarrow> i32 + 's"
  ce_handshake_connects :: bool
  ce_publication_session :: i32
  ce_random_key :: i32
  ce_offers :: "nat \<Rightarrow> i64"
  ce_polls :: "(i32 + u8 list list) list"
  ce_channel_connects :: bool

definition client_channel :: "(i32, 'c) outcome \<Rightarrow> (gateway_error, 'c) outcome" where
  "client_channel r = (case r of Panic \<Rightarrow> Panic | Err code \<Rightarrow> Err (AeronError code) | Ok c \<Rightarrow> Ok c)"

text \<open>The decision on a response: ports and decrypted session.\<close>

definition accept_response :: "i32 \<Rightarrow> core_response \<Rightarrow> (gateway_error, u16 \<times> u16 \<times> i32) outcome" where
  "accept_response encryption_key response =
     (case response of
        Accept port control_port encrypted_session _ \<Rightarrow> Ok (port, control_port, encrypted_session XOR encryption_key)
      | Reject reason \<Rightarrow> Err (CoreError (''Connection rejected: '' @ reason))
      | Unavailable retry \<Rightarrow> Err (CoreError (''Core unavailable, retry after '' @ dec (unat retry) @ '' seconds''))
      | Ignore \<Rightarrow> Err (ProtocolError ''Unexpected core response''))"

definition perform_handshake ::
    "('p, 's) client_env \<Rightarrow> 'p vex_gateway \<Rightarrow>
     (gateway_error, u16 \<times> u16 \<times> i32) outcome \<times> 'p vex_gateway \<times> u8 list list" where
  "perform_handshake ce vg =
     (let config = vg_config vg
      in case obind (client_channel (new_publication (ce_add_publication ce) (gn_core_address config)
                       (gn_core_port config) ALL_GATEWAYS_STREAM_ID))
               (\<lambda>_. client_channel (new_subscription_with_mdc (ce_add_subscription ce) (gn_core_address config)
                       (gn_core_control_port config) ALL_GATEWAYS_STREAM_ID)) of
           Panic \<Rightarrow> (Panic, vg, [])
         | Err e \<Rightarrow> (Err e, vg, [])
         | Ok _ \<Rightarrow>
             if \<not> ce_handshake_connects ce then
               (Err (Timeout ''Connecting handshake publication timed out''), vg, [])
             else
               (let session_id = ce_publication_session ce; key = ce_random_key ce;
                    vg = vg\<lparr>vg_session_id := Some session_id, vg_encryption_key := Some key\<rparr>
                in case client_send_message (ce_offers ce) (hello_message (gn_gateway_id config) key) vg of
                     (Inl e, sent) \<Rightarrow> (Err e, vg, sent)
                   | (Inr _, sent) \<Rightarrow>
                       (case wait_for_core_response session_id (gn_gateway_id config) (ce_polls ce) of
                          Inl e \<Rightarrow> (Err e, vg, sent)
                        | Inr response \<Rightarrow> (accept_response key response, vg, sent))))"

definition establish_dedicated_channel ::
    "('p, 's) client_env \<Rightarrow> u16 \<Rightarrow> u16 \<Rightarrow> i32 \<Rightarrow> 'p vex_gateway \<Rightarrow>
     (gateway_error, 'p \<times> 's) outcome \<times> 'p vex_gateway" where
  "establish_dedicated_channel ce port control_port session_id vg =
     (let config = vg_config vg
      in case client_channel (new_subscription_with_mdc_and_session (ce_add_subscription ce) (gn_core_address config)
                control_port GATEWAY_CORE_STREAM_ID session_id) of
           Panic \<Rightarrow> (Panic, vg)
         | Err e \<Rightarrow> (Err e, vg)
         | Ok subscription \<Rightarrow>
             (case client_channel (new_publication_with_session (ce_add_publication ce) (gn_core_address config)
                     port GATEWAY_CORE_STREAM_ID session_id) of
                Panic \<Rightarrow> (Panic, vg)
              | Err e \<Rightarrow> (Err e, vg)
              | Ok publication \<Rightarrow>
                  (let vg = vg\<lparr>vg_core_publication := Some publication\<rparr>
                   in if \<not> ce_channel_connects ce then
                        (Err (Timeout ''Connecting to dedicated channel timed out''), vg)
                      else (Ok (publication, subscription), vg\<lparr>vg_polling := True\<rparr>))))"

definition start_gateway ::
    "('p, 's) client_env \<Rightarrow> 'p vex_gateway \<Rightarrow>
     (gateway_error, 'p \<times> 's) outcome \<times> 'p vex_gateway \<times> u8 list list" where
  "start_gateway ce vg =
     (case perform_handshake ce (vg\<lparr>vg_state := Gw_Connecting\<rparr>) of
        (Panic, vg, sent) \<Rightarrow> (Panic, vg, sent)
      | (Err e, vg, sent) \<Rightarrow> (Err e, vg, sent)
      | (Ok (port, control_port, session_id), vg, sent) \<Rightarrow>
          (case establish_dedicated_channel ce port control_port session_id vg of
             (Ok channels, vg) \<Rightarrow> (Ok channels, vg\<lparr>vg_state := Gw_Connected\<rparr>, sent)
           | (Err e, vg) \<Rightarrow> (Err e, vg, sent)
           | (Panic, vg) \<Rightarrow> (Panic, vg, sent)))"

text \<open>Joining the polling thread fails when it panicked.\<close>

definition shutdown_gateway :: "bool \<Rightarrow> 'p vex_gateway \<Rightarrow> (gateway_error + unit) \<times> 'p vex_gateway" where
  "shutdown_gateway thread_panicked vg =
     (let joined = vg_polling vg;
          vg = vg\<lparr>vg_state := Gw_Disconnected, vg_shutdown := True, vg_polling := False\<rparr>
      in if joined \<and> thread_panicked then (Inl (ProtocolError ''Message Polling Thread panic''), vg)
         else (Inr (), vg))"

text \<open>The handler of the core's messages: what decodes goes into the channel.\<close>

definition client_order_handler :: "u8 list \<Rightarrow> order_command list \<Rightarrow> order_command list option" where
  "client_order_handler buffer received =
     (case decode_order_command buffer of
        Panic \<Rightarrow> None
      | Err _ \<Rightarrow> Some received
      | Ok order_command \<Rightarrow> Some (received @ [order_command]))"

section \<open>Messages of the handshake\<close>

lemma word_gateway: "word (''gateway-'' @ dec n)"
  using word_dec [of n] by (auto simp: word_def visible_def)

lemma hello_words: "hello_message g key = join_with '' '' [''HELLO'', ''gateway-'' @ dec (unat g), dec_i32 key]"
  by (simp add: hello_message_def)

lemma accept_words:
  "accept_message sid g [data, control] x = join_with '' ''
     [dec_i32 sid, ''gateway-'' @ dec (unat g), ''ACCEPT'', dec (unat data), dec (unat control), dec_i32 x]"
  by (simp add: accept_message_def)

lemma strip_prefix_append: "strip_prefix p (p @ s) = Some s"
  by (induction p) simp_all

lemma parse_hello_message:
  assumes "unat g < MAX_GATEWAYS"
  shows "parse_hello sid (as_bytes (hello_message g key)) = Inr (g, key)"
proof -
  have w: "\<forall>w\<in>set [''HELLO'', ''gateway-'' @ dec (unat g), dec_i32 key]. word w"
    using word_gateway word_dec_i32 by (simp add: word_def visible_def)
  have "parse_gateway_id sid (''gateway-'' @ dec (unat g)) = Inr g"
    using assms by (simp only: parse_gateway_id_def strip_prefix_append option.case parse_u8_dec sum.case if_True)
  with message_decodes(1,3) [OF w] show ?thesis
    by (simp add: parse_hello_def hello_words str_of_as_bytes parse_i32_dec del: append.simps join_with.simps)
qed

lemma parse_accept_message:
  "parse_core_response (from_utf8_lossy (as_bytes (accept_message sid g [data, control] x))) sid' g' =
     (if sid' = sid \<and> g' = g then Accept data control x g else Ignore)"
proof -
  let ?ws = "[dec_i32 sid, ''gateway-'' @ dec (unat g), ''ACCEPT'', dec (unat data), dec (unat control), dec_i32 x]"
  have w: "\<forall>w\<in>set ?ws. word w"
    using word_gateway word_dec_i32 word_dec by (simp add: word_def visible_def)
  have parts: "split_whitespace (trim (trim_matches (CHR 0x00) (from_utf8_lossy (as_bytes (accept_message sid g [data, control] x))))) = ?ws"
    by (simp only: accept_words message_decodes(2,3) [OF w] message_decodes(4) [OF w list.distinct(2)])
  show ?thesis
    unfolding parse_core_response_def Let_def parts
    by (simp add: parse_i32_dec parse_u8_dec parse_u16_dec strip_prefix_append parse_command_def parse_accept_def
        del: append.simps)
qed

section \<open>A handshake that is answered\<close>

lemma wait_until_answered:
  assumes "fragments \<noteq> []" "response \<noteq> Ignore"
    and "\<forall>f\<in>set fragments. parse_core_response (from_utf8_lossy f) session_id gateway_id = response"
  shows "wait_for_core_response session_id gateway_id (replicate n (Inr []) @ Inr fragments # later) = Inr response"
proof -
  have keep: "fold (handle_response session_id gateway_id) fs (Some response) = Some response"
    if "\<forall>f\<in>set fs. parse_core_response (from_utf8_lossy f) session_id gateway_id = response" for fs
    using that assms(2) by (induction fs) (simp_all add: handle_response_def Let_def)
  then have "fold (handle_response session_id gateway_id) fragments None = Some response"
    using assms by (cases fragments) (auto simp: handle_response_def Let_def)
  then show ?thesis by (induction n) simp_all
qed

lemma retry_offers_succeeds:
  assumes "0 \<le>s offer (attempt + i)" "i < n"
  shows "\<exists>m>0. retry_offers offer attempt n = (True, attempt + m)"
  using assms
proof (induction n arbitrary: attempt i)
  case (Suc n)
  show ?case
  proof (cases "0 \<le>s offer attempt")
    case False
    with Suc.prems obtain j where "i = Suc j" by (cases i) auto
    with Suc.IH [of "Suc attempt" j] Suc.prems False show ?thesis by fastforce
  qed (auto intro: exI [of _ 1])
qed simp

text \<open>Aeron grants the gateway its channels, they connect in time, and one of the offers of the greeting is
  taken; the addresses are C strings and the greeting is no longer than a message may be.\<close>

definition client_env_ok :: "('p, 's) client_env \<Rightarrow> 'p vex_gateway \<Rightarrow> bool" where
  "client_env_ok ce vg \<longleftrightarrow>
     (\<forall>uri stream. \<exists>c. ce_add_publication ce uri stream = Inr c) \<and>
     (\<forall>uri stream. \<exists>c. ce_add_subscription ce uri stream = Inr c) \<and>
     ce_handshake_connects ce \<and> ce_channel_connects ce \<and> (\<exists>n<CLIENT_RETRY_COUNT. 0 \<le>s ce_offers ce n) \<and>
     CHR 0x00 \<notin> set (gn_core_address (vg_config vg)) \<and>
     length (hello_message (gn_gateway_id (vg_config vg)) (ce_random_key ce)) \<le> unat (gn_max_message_size (vg_config vg))"

lemma channel_granted:
  assumes "CHR 0x00 \<notin> set uri" "\<exists>c. add uri stream = Inr c"
  shows "\<exists>c. add uri stream = Inr c \<and> client_channel (add_channel add uri stream) = Ok c"
  using assms by (auto simp: add_channel_uri of_result_def client_channel_def)

lemma client_channels:
  assumes "client_env_ok ce vg"
  shows "\<exists>c. client_channel (new_publication (ce_add_publication ce) (gn_core_address (vg_config vg)) port stream) = Ok c"
    and "\<exists>c. client_channel (new_subscription_with_mdc (ce_add_subscription ce) (gn_core_address (vg_config vg)) port stream) = Ok c"
    and "\<exists>sub. ce_add_subscription ce (control_uri (gn_core_address (vg_config vg)) port sid) stream = Inr sub \<and>
      client_channel (new_subscription_with_mdc_and_session (ce_add_subscription ce) (gn_core_address (vg_config vg)) port stream sid) = Ok sub"
    and "\<exists>pub. ce_add_publication ce (data_uri (gn_core_address (vg_config vg)) port sid) stream = Inr pub \<and>
      client_channel (new_publication_with_session (ce_add_publication ce) (gn_core_address (vg_config vg)) port stream sid) = Ok pub"
proof -
  have nul: "CHR 0x00 \<notin> set (gn_core_address (vg_config vg))" using assms by (simp add: client_env_ok_def)
  have pub: "\<exists>c. ce_add_publication ce uri st = Inr c" and sub: "\<exists>c. ce_add_subscription ce uri st = Inr c" for uri st
    using assms by (simp_all add: client_env_ok_def)
  have uris: "CHR 0x00 \<notin> set (''aeron:udp?endpoint='' @ endpoint_of (gn_core_address (vg_config vg)) port)"
    "CHR 0x00 \<notin> set (''aeron:udp?control='' @ endpoint_of (gn_core_address (vg_config vg)) port @ ''|control-mode=dynamic'')"
    using nul by (simp_all add: endpoint_of_def dec_no_nul)
  show "\<exists>c. client_channel (new_publication (ce_add_publication ce) (gn_core_address (vg_config vg)) port stream) = Ok c"
    unfolding new_publication_def using channel_granted [where add = "ce_add_publication ce", OF uris(1) pub] by blast
  show "\<exists>c. client_channel (new_subscription_with_mdc (ce_add_subscription ce) (gn_core_address (vg_config vg)) port stream) = Ok c"
    unfolding new_subscription_with_mdc_def using channel_granted [where add = "ce_add_subscription ce", OF uris(2) sub] by blast
  show "\<exists>sub. ce_add_subscription ce (control_uri (gn_core_address (vg_config vg)) port sid) stream = Inr sub \<and>
      client_channel (new_subscription_with_mdc_and_session (ce_add_subscription ce) (gn_core_address (vg_config vg)) port stream sid) = Ok sub"
    unfolding session_channels by (rule channel_granted [where add = "ce_add_subscription ce", OF uri_no_nul(1) [OF nul] sub])
  show "\<exists>pub. ce_add_publication ce (data_uri (gn_core_address (vg_config vg)) port sid) stream = Inr pub \<and>
      client_channel (new_publication_with_session (ce_add_publication ce) (gn_core_address (vg_config vg)) port stream sid) = Ok pub"
    unfolding session_channels by (rule channel_granted [where add = "ce_add_publication ce", OF uri_no_nul(2) [OF nul] pub])
qed

text \<open>A gateway that is accepted ends up connected, with the two channels of the answer.\<close>

lemma start_gateway_accepted:
  assumes ok: "client_env_ok ce vg"
    and polls: "ce_polls ce = replicate n (Inr []) @ Inr fragments # later" "fragments \<noteq> []"
    and answer: "\<forall>f\<in>set fragments. parse_core_response (from_utf8_lossy f) (ce_publication_session ce)
      (gn_gateway_id (vg_config vg)) = Accept data control (ce_random_key ce XOR ds) g"
  shows "\<exists>pub sub vg' m. start_gateway ce vg = (Ok (pub, sub), vg',
      replicate m (as_bytes (hello_message (gn_gateway_id (vg_config vg)) (ce_random_key ce)))) \<and> 0 < m \<and>
    gateway_is_connected vg' \<and> vg_core_publication vg' = Some pub \<and>
    ce_add_subscription ce (control_uri (gn_core_address (vg_config vg)) control ds) GATEWAY_CORE_STREAM_ID = Inr sub \<and>
    ce_add_publication ce (data_uri (gn_core_address (vg_config vg)) data ds) GATEWAY_CORE_STREAM_ID = Inr pub"
proof -
  let ?cfg = "vg_config vg" and ?key = "ce_random_key ce"
  let ?hello = "hello_message (gn_gateway_id ?cfg) ?key"
  have key: "(?key XOR ds) XOR ?key = ds" by (metis xor.assoc xor.commute xor.right_neutral xor_self_eq)
  obtain c1 c2 where ch: "client_channel (new_publication (ce_add_publication ce) (gn_core_address ?cfg)
        (gn_core_port ?cfg) ALL_GATEWAYS_STREAM_ID) = Ok c1"
      "client_channel (new_subscription_with_mdc (ce_add_subscription ce) (gn_core_address ?cfg)
        (gn_core_control_port ?cfg) ALL_GATEWAYS_STREAM_ID) = Ok c2"
    using client_channels(1,2) [OF ok] by blast
  obtain sub pub where opened:
    "ce_add_subscription ce (control_uri (gn_core_address ?cfg) control ds) GATEWAY_CORE_STREAM_ID = Inr sub"
    "client_channel (new_subscription_with_mdc_and_session (ce_add_subscription ce) (gn_core_address ?cfg) control
       GATEWAY_CORE_STREAM_ID ds) = Ok sub"
    "ce_add_publication ce (data_uri (gn_core_address ?cfg) data ds) GATEWAY_CORE_STREAM_ID = Inr pub"
    "client_channel (new_publication_with_session (ce_add_publication ce) (gn_core_address ?cfg) data
       GATEWAY_CORE_STREAM_ID ds) = Ok pub"
    using client_channels(3,4) [OF ok] by blast
  obtain i where "i < CLIENT_RETRY_COUNT" "0 \<le>s ce_offers ce (0 + i)" using ok by (auto simp: client_env_ok_def)
  then obtain m where m: "0 < m" "retry_offers (ce_offers ce) 0 CLIENT_RETRY_COUNT = (True, m)"
    using retry_offers_succeeds by (metis add_0)
  have wait: "wait_for_core_response (ce_publication_session ce) (gn_gateway_id ?cfg) (ce_polls ce) =
      Inr (Accept data control (?key XOR ds) g)"
    unfolding polls(1) by (rule wait_until_answered [OF polls(2) _ answer]) simp
  have connects: "ce_handshake_connects ce" "ce_channel_connects ce" and
    fits: "\<not> unat (gn_max_message_size ?cfg) < length (as_bytes ?hello)"
    using ok by (simp_all add: client_env_ok_def as_bytes_def)
  show ?thesis
    by (simp add: start_gateway_def perform_handshake_def Let_def ch connects client_send_message_def fits m wait
        accept_response_def key establish_dedicated_channel_def opened gateway_is_connected_def
        cong: if_cong)
qed

end
