(* ===== verification/Gateway_Claims.thy ===== *)
theory Gateway_Claims
  imports Gateway_Client
begin

text \<open>
  What the gateway sessions guarantee, in every reachable state of the manager: the invariant, the
  capacity, and the agreement of the two sides of the handshake.
\<close>

section \<open>A handshake to look at\<close>

text \<open>The development configuration and an Aeron that grants everything.\<close>

definition sample_manager :: "(string \<times> i32, string \<times> i32) gateway_manager" where
  "sample_manager =
     \<lparr>gm_sessions = session_new, gm_config = core_development_defaults,
      gm_port_allocator = \<lparr>pa_low = 50000, pa_high = 50014, pa_freed = []\<rparr>,
      gm_session_allocator = \<lparr>sa_min = 1000, sa_max_count = 8999\<rparr>,
      gm_publications = publications_new, gm_cleanup = []\<rparr>"

definition sample_env :: "(string \<times> i32, string \<times> i32) gateway_env" where
  "sample_env =
     \<lparr>ge_add_publication = (\<lambda>uri stream. Inr (uri, stream)), ge_add_subscription = (\<lambda>uri stream. Inr (uri, stream)),
      ge_show_code = (\<lambda>_. ''''), ge_port_draws = (\<lambda>k. if k = 0 then 50007 else 50002),
      ge_session_draws = (\<lambda>_. 4242), ge_now = 0, ge_freed_at = 0, ge_connected = (\<lambda>_. True),
      ge_reject_offer = 0, ge_accept_offers = (\<lambda>_. 0)\<rparr>"

lemma sample_reachable: "gm_reachable core_development_defaults sample_manager"
proof (rule gm_reachable.start)
  show "gateway_manager_new (\<lambda>_. '''') core_development_defaults publications_new = Inr sample_manager"
    by (simp add: gateway_manager_new_def port_allocator_new_def session_allocator_new_def sample_manager_def
        core_development_defaults_def Let_def word_sle_eq)
  show "pubs_wf publications_new" by (rule pubs_wf_new)
  show "list_all (\<lambda>p. p = None) (take MAX_GATEWAYS publications_new)"
    by (simp add: publications_new_def list_all_iff) (use in_set_takeD in fastforce)
qed

lemma sample_address: "CHR 0x00 \<notin> set (cn_local_address core_development_defaults)"
  by (simp add: core_development_defaults_def)

lemma sample_env_ok: "env_ok sample_env sample_manager"
  by (simp add: env_ok_def sample_env_def sample_manager_def draws_in_range_def word_le_nat_alt)

lemma sample_ports:
  "allocate_ports (ge_port_draws sample_env) (ge_now sample_env) 2 [] (gm_port_allocator sample_manager) =
     (Ok [50007, 50002], gm_port_allocator sample_manager)"
  by (simp add: sample_env_def sample_manager_def allocate_ports_def Let_def cleanup_expired_ports_def
      total_ports_def allocate_loop.simps word_le_nat_alt)

lemma sample_session:
  "allocate_session (ge_session_draws sample_env) [] (gm_session_allocator sample_manager) = Inr 4242"
  by (simp add: sample_env_def sample_manager_def allocate_session_def word_sle_eq numeral_eq_Suc)

lemma sample_channels:
  "open_channels sample_env core_development_defaults [50007, 50002] 4242 =
     Ok ((control_uri (cn_local_address core_development_defaults) 50002 4242, DUOLOGUE_STREAM_ID),
         (data_uri (cn_local_address core_development_defaults) 50007 4242, DUOLOGUE_STREAM_ID))"
  by (simp add: open_channels_def session_channels add_channel_uri uri_no_nul [OF sample_address] of_result_def
      sample_env_def)

lemma sample_empty:
  "get_ports_in_use session_new = []" "get_sessions_in_use session_new = []"
  by (simp_all add: session_new_def get_ports_in_use_def get_sessions_in_use_def
      connected_slots_def map_filter_def)

lemma connected_new: "g < MAX_GATEWAYS \<Longrightarrow> connected_slots (session_new[g := Some sl]) = [sl]"
  by (simp add: session_new_def connected_update) (simp add: connected_slots_def map_filter_def)

lemma sample_fields:
  "gm_config sample_manager = core_development_defaults" "gm_sessions sample_manager = session_new"
  "gm_publications sample_manager = publications_new"
  by (simp_all add: sample_manager_def)

lemma sample_table:
  "set_publication 3 p publications_new = Some (publications_new[3 := Some p])"
  "session_insert 3 4242 (duologue_new s 3) [50007, 50002] session_new = Some (session_new[3 := Some
     \<lparr>sl_duologue = duologue_new s 3, sl_port_data = 50007, sl_port_control = 50002, sl_session_id = 4242\<rparr>])"
  by (simp_all add: set_publication_def session_insert_def store_slot_def publications_new_def session_new_def
      MAX_GATEWAYS_def)

lemma sample_handshake:
  "\<exists>gm' sent. process_handshake_message sample_env 12345 (as_bytes (hello_message 3 77)) sample_manager = (Ok (), gm', sent) \<and>
     length (connected_slots (gm_sessions gm')) = 1 \<and> sent \<noteq> [] \<and> gm_cleanup gm' = [] \<and>
     (\<exists>slot. gm_sessions gm' ! 3 = Some slot \<and> du_fragment_handler (sl_duologue slot))"
proof -
  have three: "unat (3 :: u8) < MAX_GATEWAYS" by (simp add: MAX_GATEWAYS_def)
  have free: "\<not> is_gateway_connected sample_manager 3"
    by (simp add: sample_manager_def is_gateway_connected_def session_is_connected_def session_new_def MAX_GATEWAYS_def)
  have auth: "cn_enable_authentication core_development_defaults = False" by (simp add: core_development_defaults_def)
  have sent: "wait_connected (ge_connected sample_env) 0" "send_message_with_retries (ge_accept_offers sample_env) = (Inr (), 1)"
    by (simp_all add: sample_env_def wait_connected.simps send_message_with_retries_def send_loop.simps
        send_message_def MESSAGE_RETRY_COUNT_def)
  have al: "\<exists>gm'. allocate_gateway_session sample_env 3 sample_manager = (Ok (4242, [50007, 50002]), gm') \<and>
      length (connected_slots (gm_sessions gm')) = 1 \<and> gm_cleanup gm' = [] \<and>
      (\<exists>slot. gm_sessions gm' ! 3 = Some slot \<and> du_fragment_handler (sl_duologue slot))"
    by (simp add: allocate_gateway_session_def sample_empty sample_ports sample_session sample_fields sample_channels
        sample_table Let_def)
      (simp add: connected_new MAX_GATEWAYS_def, simp add: session_new_def MAX_GATEWAYS_def sample_manager_def duologue_new_def)
  then show ?thesis
    using free auth sent
    by (auto simp: process_handshake_message_def parse_hello_message [OF three] check_duplicate_connection_def
        sample_fields accept_gateway_def Let_def not_le [symmetric] MAX_GATEWAYS_def simp del: append.simps)
qed

section \<open>Claims\<close>

text \<open>C30. Gateways do not share anything: in every state the manager can reach, by handshakes of any
  content, vanished images, polls and shutdowns, the connected gateways have pairwise different ports and
  pairwise different session ids, exactly the connected gateways have a publication in the table of
  responses, and no handshake message can make the manager panic.\<close>

theorem gateway_sessions_invariant:
  assumes "gm_reachable config gm" "CHR 0x00 \<notin> set (cn_local_address config)"
  shows "distinct (get_ports_in_use (gm_sessions gm)) \<and> distinct (get_sessions_in_use (gm_sessions gm)) \<and>
    (\<forall>g. unat g < MAX_GATEWAYS \<longrightarrow>
      (get_publication g (gm_publications gm) = Some None \<longleftrightarrow> \<not> is_gateway_connected gm g)) \<and>
    (\<forall>ge sid buffer. env_ok ge gm \<longrightarrow> fst (process_handshake_message ge sid buffer gm) \<noteq> Panic)"
proof -
  have wf: "gm_wf gm" and cfg: "gm_config gm = config" using reachable_wf [OF assms] by simp_all
  have "fst (process_handshake_message ge sid buffer gm) \<noteq> Panic" if "env_ok ge gm" for ge sid buffer
    using handshake_law [OF wf that, of sid buffer] assms(2) cfg by (auto split: prod.splits)
  moreover have "get_publication g (gm_publications gm) = Some None \<longleftrightarrow> \<not> is_gateway_connected gm g"
    if "unat g < MAX_GATEWAYS" for g
    using wf that
    by (auto simp: gm_wf_def published_def pubs_wf_def get_publication_def is_gateway_connected_def
        session_is_connected_def)
  ultimately show ?thesis using wf by (auto simp: gm_wf_def slots_wf_def)
qed

theorem gateway_sessions_invariant_witness:
  "fst (process_handshake_message sample_env 12345 [72, 255] sample_manager) \<noteq> Panic \<and>
   distinct (get_ports_in_use (gm_sessions sample_manager))"
  using gateway_sessions_invariant [OF sample_reachable sample_address] sample_env_ok by blast

lemma interval_card: "card {a..b} \<le> Suc (unat b) - unat a" for a b :: "'a::len word"
proof -
  have "card {a..b} = card (unat ` {a..b})" by (rule card_image [symmetric]) (simp add: inj_on_def word_unat_eq_iff)
  also have "\<dots> \<le> card {unat a..unat b}" by (rule card_mono) (auto simp: word_le_nat_alt)
  finally show ?thesis by simp
qed

lemma ports_length:
  assumes "\<forall>sl\<in>set sls. slot_in_range pa sl" "0 < pa_low pa"
  shows "length (concat (map slot_ports sls)) = 2 * length sls"
    and "set (concat (map slot_ports sls)) \<subseteq> {pa_low pa..pa_high pa}"
  using assms by (induction sls) (auto simp: slot_ports_eq slot_in_range_def)

text \<open>Half the gateways: a core never has more connected gateways than half of the number its
  configuration allows, because that number is the size of the port range and a gateway takes two ports.
  With the fifteen of the development defaults it is seven.\<close>

lemma gateway_capacity:
  assumes "gm_reachable config gm" "CHR 0x00 \<notin> set (cn_local_address config)"
  shows "2 * length (connected_slots (gm_sessions gm)) \<le> unat (cn_max_gateways config)"
proof -
  let ?pa = "gm_port_allocator gm" and ?s = "gm_sessions gm"
  have wf: "slots_wf ?pa ?s" and total: "total_ports ?pa = unat (cn_max_gateways config)"
    using reachable_wf [OF assms] by (simp_all add: gm_wf_def)
  then have p: "length (get_ports_in_use ?s) = 2 * length (connected_slots ?s)"
    "set (get_ports_in_use ?s) \<subseteq> {pa_low ?pa..pa_high ?pa}" "distinct (get_ports_in_use ?s)"
    using ports_length [of "connected_slots ?s" ?pa] by (simp_all add: slots_wf_def get_ports_in_use_def)
  have "2 * length (connected_slots ?s) = card (set (get_ports_in_use ?s))"
    using p by (simp add: distinct_card)
  also have "\<dots> \<le> card {pa_low ?pa..pa_high ?pa}" by (rule card_mono) (use p in auto)
  also have "\<dots> \<le> total_ports ?pa" by (simp add: interval_card total_ports_def)
  finally show ?thesis by (simp add: total)
qed

theorem gateway_capacity_witness:
  "\<exists>gm :: (string \<times> i32, string \<times> i32) gateway_manager. gm_reachable core_development_defaults gm \<and> length (connected_slots (gm_sessions gm)) = 1 \<and>
     2 * length (connected_slots (gm_sessions gm)) \<le> 15"
proof -
  obtain gm' sent where run: "process_handshake_message sample_env 12345 (as_bytes (hello_message 3 77)) sample_manager = (Ok (), gm', sent)"
    and one: "length (connected_slots (gm_sessions gm')) = 1" using sample_handshake by blast
  then have "handle_handshake_fragment sample_env (Some 12345) (as_bytes (hello_message 3 77)) sample_manager = Some (gm', sent)"
    by (simp add: handle_handshake_fragment_def)
  then have r: "gm_reachable core_development_defaults gm'"
    by (intro gm_reachable.step [OF sample_reachable] gw_step.handshake [OF sample_env_ok])
  have "unat (cn_max_gateways core_development_defaults) = 15" by (simp add: core_development_defaults_def)
  with gateway_capacity [OF r sample_address] r one show ?thesis by - (rule exI [of _ gm'], simp)
qed

text \<open>C31. Both sides of a handshake agree: when the core accepts the greeting of gateway \<open>g\<close> with key
  \<open>key\<close>, every message it sends parses, at the gateway and session it is meant for, as the acceptance
  with the ports of the new slot and its encrypted session; every other gateway ignores the message. A
  gateway with that id, key and session which reads, after any number of empty polls, at least one of
  those messages (its channels being granted and connecting in time) sends exactly that greeting and ends
  up connected. The channel it subscribes to then has the port, the session and the stream of the channel
  the core publishes its answers on, and the one it publishes its commands on those of the channel the
  core subscribes to. Each side uses the address of the core in its own configuration, so the channels are
  the same when the two configurations name the same address.\<close>

theorem handshake_agrees:
  assumes "gm_reachable config gm" "CHR 0x00 \<notin> set (cn_local_address config)" "env_ok ge gm" "unat g < MAX_GATEWAYS"
    and "process_handshake_message ge sid (as_bytes (hello_message g key)) gm = (Ok (), gm', sent)"
    and "client_env_ok ce vg" "gn_gateway_id (vg_config vg) = g" "ce_publication_session ce = sid" "ce_random_key ce = key"
    and "ce_polls ce = replicate n (Inr []) @ Inr fragments # later" "fragments \<noteq> []"
    and "set fragments \<subseteq> set (map as_bytes sent)"
  shows "\<exists>slot p pub sub vg' m. gm_sessions gm' ! unat g = Some slot \<and>
    get_publication g (gm_publications gm') = Some (Some p) \<and> sent \<noteq> [] \<and>
    (\<forall>msg\<in>set sent. \<forall>sid' g'. parse_core_response (from_utf8_lossy (as_bytes msg)) sid' g' =
      (if sid' = sid \<and> g' = g
       then Accept (sl_port_data slot) (sl_port_control slot) (key XOR sl_session_id slot) g else Ignore)) \<and>
    start_gateway ce vg = (Ok (pub, sub), vg', replicate m (as_bytes (hello_message g key))) \<and> 0 < m \<and>
    gateway_is_connected vg' \<and> vg_core_publication vg' = Some pub \<and>
    ge_add_publication ge (control_uri (cn_local_address config) (sl_port_control slot) (sl_session_id slot))
      DUOLOGUE_STREAM_ID = Inr p \<and>
    ce_add_subscription ce (control_uri (gn_core_address (vg_config vg)) (sl_port_control slot) (sl_session_id slot))
      DUOLOGUE_STREAM_ID = Inr sub \<and>
    ge_add_subscription ge (data_uri (cn_local_address config) (sl_port_data slot) (sl_session_id slot))
      DUOLOGUE_STREAM_ID = Inr (du_subscription (sl_duologue slot)) \<and>
    ce_add_publication ce (data_uri (gn_core_address (vg_config vg)) (sl_port_data slot) (sl_session_id slot))
      DUOLOGUE_STREAM_ID = Inr pub"
proof -
  have wf: "gm_wf gm" and cfg: "gm_config gm = config" using reachable_wf [OF assms(1,2)] by simp_all
  have nul: "CHR 0x00 \<notin> set (cn_local_address (gm_config gm))" using assms(2) cfg by simp
  have len: "length (gm_sessions gm) = MAX_GATEWAYS" using wf by (simp add: gm_wf_def slots_wf_def)
  obtain ds data control where op: "session_opened ge g gm ds data control gm'"
    and sent: "sent \<noteq> []" "set sent = {accept_message sid g [data, control] (key XOR ds)}"
    using handshake_law [OF wf assms(3) nul, of sid "as_bytes (hello_message g key)"] assms(5)
    by (auto simp: handshake_done_def parse_hello_message [OF assms(4)])
  obtain p s where slot: "gm_sessions gm' = (gm_sessions gm)[unat g := Some \<lparr>sl_duologue = duologue_new s g,
      sl_port_data = data, sl_port_control = control, sl_session_id = ds\<rparr>]"
    and pub: "get_publication g (gm_publications gm') = Some (Some p)"
    and uris: "ge_add_publication ge (control_uri (cn_local_address config) control ds) DUOLOGUE_STREAM_ID = Inr p"
      "ge_add_subscription ge (data_uri (cn_local_address config) data ds) DUOLOGUE_STREAM_ID = Inr s"
    using op cfg by (auto simp: session_opened_def)
  let ?sl = "\<lparr>sl_duologue = duologue_new s g, sl_port_data = data, sl_port_control = control, sl_session_id = ds\<rparr>"
  have at: "gm_sessions gm' ! unat g = Some ?sl" using slot len assms(4) by simp
  have accepts: "\<forall>msg\<in>set sent. \<forall>sid' g'. parse_core_response (from_utf8_lossy (as_bytes msg)) sid' g' =
      (if sid' = sid \<and> g' = g then Accept data control (key XOR ds) g else Ignore)"
    unfolding sent(2) by (simp only: singleton_iff ball_simps parse_accept_message) simp
  have "\<forall>f\<in>set fragments. parse_core_response (from_utf8_lossy f) (ce_publication_session ce)
      (gn_gateway_id (vg_config vg)) = Accept data control (ce_random_key ce XOR ds) g"
    using assms(7-9,12) accepts by auto
  from start_gateway_accepted [OF assms(6,10,11) this] obtain pb sub vg' m where
    "start_gateway ce vg = (Ok (pb, sub), vg', replicate m (as_bytes (hello_message g key)))" "0 < m"
    "gateway_is_connected vg'" "vg_core_publication vg' = Some pb"
    "ce_add_subscription ce (control_uri (gn_core_address (vg_config vg)) control ds) DUOLOGUE_STREAM_ID = Inr sub"
    "ce_add_publication ce (data_uri (gn_core_address (vg_config vg)) data ds) DUOLOGUE_STREAM_ID = Inr pb"
    unfolding assms(7,9) GATEWAY_CORE_STREAM_ID_def DUOLOGUE_STREAM_ID_def by (elim exE conjE)
  moreover have "du_subscription (duologue_new s g) = s" by (simp add: duologue_new_def)
  ultimately show ?thesis
    by - (rule exI [of _ ?sl], rule exI [of _ p], rule exI [of _ pb], rule exI [of _ sub], rule exI [of _ vg'],
      rule exI [of _ m], use at pub sent(1) accepts uris in \<open>simp only: gateway_slot.simps, blast\<close>)
qed

text \<open>Gateway 3, configured with another name of the core's address; it reads the first message sent.\<close>

definition sample_gateway :: "(string \<times> i32) vex_gateway" where
  "sample_gateway = \<lparr>vg_config = gateway_development_defaults\<lparr>gn_gateway_id := 3, gn_core_address := ''core''\<rparr>,
     vg_state = Gw_Disconnected, vg_session_id = None, vg_encryption_key = None, vg_core_publication = None,
     vg_shutdown = False, vg_polling = False\<rparr>"

definition sample_client :: "string list \<Rightarrow> (string \<times> i32, string \<times> i32) client_env" where
  "sample_client sent =
     \<lparr>ce_add_publication = (\<lambda>uri stream. Inr (uri, stream)), ce_add_subscription = (\<lambda>uri stream. Inr (uri, stream)),
      ce_handshake_connects = True, ce_publication_session = 12345, ce_random_key = 77, ce_offers = (\<lambda>_. 0),
      ce_polls = [Inr [], Inr (map as_bytes (take 1 sent))], ce_channel_connects = True\<rparr>"

theorem handshake_agrees_witness:
  "\<exists>gm' sent slot vg' m. process_handshake_message sample_env 12345 (as_bytes (hello_message 3 77)) sample_manager = (Ok (), gm', sent) \<and>
     gm_sessions gm' ! 3 = Some slot \<and>
     get_publication 3 (gm_publications gm') =
       Some (Some (control_uri (cn_local_address core_development_defaults) (sl_port_control slot) (sl_session_id slot), DUOLOGUE_STREAM_ID)) \<and>
     start_gateway (sample_client sent) sample_gateway =
       (Ok ((data_uri ''core'' (sl_port_data slot) (sl_session_id slot), DUOLOGUE_STREAM_ID),
            (control_uri ''core'' (sl_port_control slot) (sl_session_id slot), DUOLOGUE_STREAM_ID)),
        vg', replicate m (as_bytes (hello_message 3 77)))"
proof -
  obtain gm' sent where run: "process_handshake_message sample_env 12345 (as_bytes (hello_message 3 77)) sample_manager = (Ok (), gm', sent)"
    and ne: "sent \<noteq> []"
    using sample_handshake by blast
  have three: "unat (3 :: u8) < MAX_GATEWAYS" by (simp add: MAX_GATEWAYS_def)
  have sg: "gn_gateway_id (vg_config sample_gateway) = 3" "gn_core_address (vg_config sample_gateway) = ''core''"
    by (simp_all add: sample_gateway_def)
  have sc: "ce_publication_session (sample_client sent) = 12345" "ce_random_key (sample_client sent) = 77"
    "ce_polls (sample_client sent) = replicate 1 (Inr []) @ Inr (map as_bytes (take 1 sent)) # []"
    by (simp_all add: sample_client_def)
  have nul: "CHR 0x00 \<notin> set ''core''" by simp
  have "length (hello_message 3 77) \<le> unat (gn_max_message_size (vg_config sample_gateway))"
    by (simp add: sample_gateway_def gateway_development_defaults_def hello_message_def dec_i32_def dec.simps ORDERCOMMANDSIZE_def)
  then have ce: "client_env_ok (sample_client sent) sample_gateway"
    using nul by (simp add: client_env_ok_def sg sc(2)) (auto simp: sample_client_def CLIENT_RETRY_COUNT_def intro: exI [of _ 0])
  have frags: "map as_bytes (take 1 sent) \<noteq> []" "set (map as_bytes (take 1 sent)) \<subseteq> set (map as_bytes sent)"
    using ne by (auto dest: in_set_takeD)
  from handshake_agrees [OF sample_reachable sample_address sample_env_ok three run ce sg(1) sc frags] obtain slot p pub sub vg' m where
    r: "gm_sessions gm' ! unat (3 :: u8) = Some slot" "get_publication 3 (gm_publications gm') = Some (Some p)"
      "start_gateway (sample_client sent) sample_gateway = (Ok (pub, sub), vg', replicate m (as_bytes (hello_message 3 77)))"
      "ge_add_publication sample_env (control_uri (cn_local_address core_development_defaults) (sl_port_control slot) (sl_session_id slot))
        DUOLOGUE_STREAM_ID = Inr p"
      "ce_add_subscription (sample_client sent) (control_uri ''core'' (sl_port_control slot) (sl_session_id slot)) DUOLOGUE_STREAM_ID = Inr sub"
      "ce_add_publication (sample_client sent) (data_uri ''core'' (sl_port_data slot) (sl_session_id slot)) DUOLOGUE_STREAM_ID = Inr pub"
    unfolding sg(2) by (elim exE conjE)
  have "p = (control_uri (cn_local_address core_development_defaults) (sl_port_control slot) (sl_session_id slot), DUOLOGUE_STREAM_ID)"
    "sub = (control_uri ''core'' (sl_port_control slot) (sl_session_id slot), DUOLOGUE_STREAM_ID)"
    "pub = (data_uri ''core'' (sl_port_data slot) (sl_session_id slot), DUOLOGUE_STREAM_ID)"
    using r(4-6) by (simp_all add: sample_env_def sample_client_def)
  with r(1-3) run show ?thesis by auto
qed

end
