(* ===== verification/Server_Claims.thy ===== *)
theory Server_Claims
  imports Core_Server Gateway_Claims
begin

text \<open>
  What the start and the stop of the core server guarantee. The removal of all gateways is shown to
  succeed on every well-formed manager, and the turns of the polling loop are shown to be steps of the
  manager, so the invariant of its sessions holds at the shutdown.
\<close>

section \<open>Removing every gateway\<close>

lemma connected_by_index: "connected_slots s = map (\<lambda>i. the (s ! i)) (filter (\<lambda>i. s ! i \<noteq> None) [0..<length s])"
proof (induction s rule: rev_induct)
  case (snoc x s)
  have "filter (\<lambda>i. (s @ [x]) ! i \<noteq> None) [0..<length s] = filter (\<lambda>i. s ! i \<noteq> None) [0..<length s]"
    by (rule filter_cong) (simp_all add: nth_append)
  moreover have "map (\<lambda>i. the ((s @ [x]) ! i)) (filter (\<lambda>i. s ! i \<noteq> None) [0..<length s]) =
      map (\<lambda>i. the (s ! i)) (filter (\<lambda>i. s ! i \<noteq> None) [0..<length s])"
    by (rule map_cong) (simp_all add: nth_append)
  moreover have "connected_slots [x] = (case x of None \<Rightarrow> [] | Some y \<Rightarrow> [y])"
    by (simp add: connected_slots_def map_filter_simps split: option.split)
  ultimately show ?case using snoc by (cases x) (auto simp: connected_append)
qed (simp add: connected_slots_def map_filter_simps)

lemma connected_ids:
  assumes "gm_wf gm"
  shows "map du_gateway_id (session_iter (gm_sessions gm)) =
    map of_nat (filter (\<lambda>i. gm_sessions gm ! i \<noteq> None) [0..<MAX_GATEWAYS])"
  using assms by (auto simp: session_iter_def connected_by_index gm_wf_def slots_wf_def o_def intro!: map_cong)

lemma u8_of_index: "i < MAX_GATEWAYS \<Longrightarrow> unat (of_nat i :: u8) = i"
  by (simp add: MAX_GATEWAYS_def unsigned_of_nat take_bit_nat_eq_self)

lemma remove_connected:
  "gm_wf gm \<Longrightarrow> distinct gs \<Longrightarrow> (\<And>g. g \<in> set gs \<Longrightarrow> is_gateway_connected gm g) \<Longrightarrow>
     \<exists>gm'. remove_all ge gs gm = (Ok (), gm') \<and> gm_wf gm' \<and>
       gm_sessions gm' = fold (\<lambda>g s. s[unat g := None]) gs (gm_sessions gm)"
proof (induction gs arbitrary: gm)
  case (Cons g gs)
  obtain gm1 where r: "remove_gateway_session ge g gm = (Ok (), gm1)" "gm_wf gm1"
    "gm_sessions gm1 = (gm_sessions gm)[unat g := None]"
    using remove_session_law [OF Cons.prems(1), of ge g] Cons.prems(3) [of g] by auto
  have "is_gateway_connected gm1 h" if "h \<in> set gs" for h
  proof -
    have "h \<noteq> g" using that Cons.prems(2) by auto
    then have "unat h \<noteq> unat g" by (simp add: word_unat_eq_iff)
    with Cons.prems(3) [of h] that r(3) show ?thesis
      by (auto simp: is_gateway_connected_def session_is_connected_def)
  qed
  with Cons.IH [OF r(2)] Cons.prems(2) r show ?case by auto
qed simp

lemma shutdown_all_law:
  assumes "gm_wf gm"
  shows "\<exists>gm'. shutdown_all_gateways ge gm = (Ok (), gm') \<and> gm_wf gm' \<and> gm_sessions gm' = session_new"
proof -
  let ?s = "gm_sessions gm" and ?gs = "map of_nat (filter (\<lambda>i. gm_sessions gm ! i \<noteq> None) [0..<MAX_GATEWAYS]) :: u8 list"
  have len: "length ?s = MAX_GATEWAYS" using assms by (simp add: gm_wf_def slots_wf_def)
  have "inj_on (of_nat :: nat \<Rightarrow> u8) {0..<MAX_GATEWAYS}"
    by (rule inj_onI) (metis atLeastLessThan_iff u8_of_index)
  then have "inj_on (of_nat :: nat \<Rightarrow> u8) {x. x < MAX_GATEWAYS \<and> (\<exists>y. ?s ! x = Some y)}"
    by (rule inj_on_subset) auto
  then have "distinct ?gs" by (simp add: distinct_map)
  moreover have "is_gateway_connected gm g" if "g \<in> set ?gs" for g
    using that by (auto simp: is_gateway_connected_def session_is_connected_def u8_of_index)
  ultimately obtain gm' where gm': "remove_all ge ?gs gm = (Ok (), gm')" "gm_wf gm'"
    "gm_sessions gm' = fold (\<lambda>g s. s[unat g := None]) ?gs ?s"
    using remove_connected [OF assms] by blast
  have "gm_sessions gm' = session_new"
  proof (rule nth_equalityI)
    show "length (gm_sessions gm') = length (session_new :: 'b session)"
      using gm'(2) by (simp add: gm_wf_def slots_wf_def session_new_def)
    fix i assume "i < length (gm_sessions gm')"
    then have i: "i < MAX_GATEWAYS" using gm'(2) by (simp add: gm_wf_def slots_wf_def)
    then have "i < 256" by (simp add: MAX_GATEWAYS_def)
    with i fold_remove_nth [of i ?s ?gs] len gm'(3) show "gm_sessions gm' ! i = session_new ! i"
      by (cases "?s ! i") (auto simp: session_new_def)
  qed
  with gm' connected_ids [OF assms] show ?thesis by (simp add: shutdown_all_gateways_def)
qed

section \<open>The turns\<close>

text \<open>The random ports drawn in a turn are in the range they are drawn from.\<close>

definition turn_ok :: "('p, 's) gateway_manager \<Rightarrow> ('p, 's) turn \<Rightarrow> bool" where
  "turn_ok gm t = list_all (\<lambda>h. env_ok (fst h) gm) (tn_hellos t)"

text \<open>Every fragment the polls of a turn read has the size of an encoded command at least, as what
  \<^verbatim>\<open>send_order_command\<close> of a gateway offers has.\<close>

definition full_fragments :: "('p, 's) turn \<Rightarrow> bool" where
  "full_fragments t \<longleftrightarrow> (\<forall>s. case tn_polls t s of
     Inl _ \<Rightarrow> True
   | Inr fragments \<Rightarrow> list_all (\<lambda>(buffer, _). ORDERCOMMANDSIZE \<le> length buffer) fragments)"

lemma read_fragments_total:
  "list_all (\<lambda>(buffer, _). ORDERCOMMANDSIZE \<le> length buffer) fragments \<Longrightarrow> \<exists>cmds. read_fragments g fragments = Some cmds"
proof (induction fragments)
  case (Cons f fragments)
  obtain buffer took where f: "f = (buffer, took)" by (rule prod.exhaust)
  have "decode_order_command buffer \<noteq> Panic" using decode_total [of buffer] Cons.prems by (simp add: f)
  then have "handle_fragment g took buffer \<noteq> None"
    by (auto simp: handle_fragment_def Let_def split: outcome.split)
  with Cons show ?case by (auto simp: f)
qed simp

lemma those_total: "(\<And>x. x \<in> set xs \<Longrightarrow> f x \<noteq> None) \<Longrightarrow> \<exists>ys. those (map f xs) = Some ys"
proof (induction xs)
  case (Cons x xs)
  obtain y where "f x = Some y" using Cons.prems [of x] by auto
  with Cons show ?case by auto
qed simp

lemma those_None: "x \<in> set xs \<Longrightarrow> f x = None \<Longrightarrow> those (map f xs) = None"
  by (induction xs) (auto split: option.split)

lemma duologues_polled:
  fixes t :: "('p, 's) turn"
  assumes "full_fragments t"
  shows "\<exists>results. those (map (duologue_poll (tn_polls t)) ds) = Some results"
proof (rule those_total)
  fix d :: "'s duologue"
  have "case tn_polls t (du_subscription d) of Inl _ \<Rightarrow> True
      | Inr fragments \<Rightarrow> list_all (\<lambda>(buffer, _). ORDERCOMMANDSIZE \<le> length buffer) fragments"
    using assms by (simp add: full_fragments_def)
  then show "duologue_poll (tn_polls t) d \<noteq> None"
    using read_fragments_total by (fastforce simp: duologue_poll_def split: sum.split)
qed

lemma greet_law:
  assumes "gm_reachable config gm" "CHR 0x00 \<notin> set (cn_local_address config)"
    and "list_all (\<lambda>h. env_ok (fst h) gm) hellos"
  shows "\<exists>gm' sent. greet hellos gm = Some (gm', sent) \<and> gm_reachable config gm' \<and> same_setup gm gm'"
  using assms
proof (induction hellos arbitrary: gm)
  case (Cons h hellos)
  obtain ge sid buffer where h: "h = (ge, sid, buffer)" by (rule prod_cases3)
  have wf: "gm_wf gm" "gm_config gm = config" using reachable_wf [OF Cons.prems(1,2)] by simp_all
  have env: "env_ok ge gm" using Cons.prems(3) by (simp add: h)
  have "handle_handshake_fragment ge sid buffer gm \<noteq> None"
  proof (cases sid)
    case (Some s)
    then show ?thesis
      using handshake_law [OF wf(1) env, of s buffer] Cons.prems(2) wf(2)
      by (auto simp: handle_handshake_fragment_def split: prod.split outcome.split)
  qed (simp add: handle_handshake_fragment_def)
  then obtain gm1 sent where g: "handle_handshake_fragment ge sid buffer gm = Some (gm1, sent)" by auto
  then have step: "gw_step gm gm1" using env by (intro gw_step.handshake)
  have same: "same_setup gm gm1" using gw_step_preserves [OF step wf(1)] Cons.prems(2) wf(2) by simp
  have "env_ok ge' gm1 \<longleftrightarrow> env_ok ge' gm" for ge' using same by (simp add: env_ok_def draws_in_range_def same_setup_def)
  with Cons.IH [OF gm_reachable.step [OF Cons.prems(1) step] Cons.prems(2)] Cons.prems(3) g same show ?case
    by (auto simp: h intro: same_setup_trans)
qed simp

lemma gone_reachable: "gm_reachable config gm \<Longrightarrow> gm_reachable config (fold image_unavailable gs gm)"
  by (induction gs arbitrary: gm) (auto intro: gm_reachable.step gw_step.image_gone)

lemma gone_setup: "same_setup gm (fold image_unavailable gs gm)"
proof (induction gs arbitrary: gm)
  case (Cons g gs)
  have "same_setup gm (image_unavailable g gm)" by (simp add: image_unavailable_def)
  with Cons [of "image_unavailable g gm"] show ?case by (auto intro: same_setup_trans)
qed simp

lemma take_turn_law:
  assumes "gm_reachable config gm" "CHR 0x00 \<notin> set (cn_local_address config)"
    and "turn_ok gm t" "full_fragments t"
  shows "\<exists>gm' out. take_turn t gm = Some (gm', out) \<and> gm_reachable config gm' \<and> same_setup gm gm'"
proof -
  obtain gm1 sent where g: "greet (tn_hellos t) gm = Some (gm1, sent)" "gm_reachable config gm1" "same_setup gm gm1"
    using greet_law [OF assms(1,2), of "tn_hellos t"] assms(3) unfolding turn_ok_def by blast
  let ?gm2 = "fold image_unavailable (tn_gone t) gm1"
  have r2: "gm_reachable config ?gm2" by (rule gone_reachable [OF g(2)])
  have wf: "gm_wf ?gm2" using reachable_wf [OF r2 assms(2)] by simp
  obtain gm3 where p: "process_cleanup_requests (tn_gateway t) ?gm2 = Some gm3" "same_setup ?gm2 gm3"
    using cleanup_requests_law [OF wf] by blast
  obtain results where "those (map (duologue_poll (tn_polls t)) (session_iter (gm_sessions gm3))) = Some results"
    using duologues_polled [OF assms(4)] by blast
  with p have poll: "manager_poll (tn_gateway t) (tn_polls t) ?gm2 = Some (gm3, results)"
    by (simp add: manager_poll_def)
  have "gm_reachable config gm3" by (rule gm_reachable.step [OF r2 gw_step.poll [OF poll]])
  moreover have "same_setup gm gm3" using g(3) gone_setup p(2) same_setup_trans by blast
  ultimately show ?thesis using g(1) poll by (simp add: take_turn_def)
qed

lemma stopping:
  assumes "gm_wf (sv_gateways sv)" "sv_archive sv \<longleftrightarrow> sv_subscription_id sv \<noteq> None"
  shows "\<exists>r sv'. server_shutdown se sv = (r, sv') \<and> r \<noteq> Panic \<and> gm_sessions (sv_gateways sv') = session_new \<and>
    (se_close_subscription se = Inr () \<longrightarrow> se_close_archive se = Inr () \<longrightarrow> (\<forall>i. se_stop_recording se i = Inr ()) \<longrightarrow>
      r = Ok (case sv_subscription_id sv of None \<Rightarrow> [] | Some i \<Rightarrow> if i = 0 then [] else [i]))"
proof -
  obtain gm' where gm: "shutdown_all_gateways (se_gateway se) (sv_gateways sv) = (Ok (), gm')" "gm_sessions gm' = session_new"
    using shutdown_all_law [OF assms(1)] by blast
  have no_panic: "obind (of_result a) f \<noteq> Panic" if "\<And>b. f b \<noteq> Panic" for a :: "server_error + 'x" and f :: "'x \<Rightarrow> (server_error, 'y) outcome"
    using that by (cases a) simp_all
  show ?thesis
    using assms(2) by (auto simp: server_shutdown_def gm stop_recording_def aeron_def no_panic split: option.split)
qed

lemma serve_law:
  assumes "gm_reachable config (sv_gateways sv)" "CHR 0x00 \<notin> set (cn_local_address config)"
    and "sv_archive sv \<longleftrightarrow> sv_subscription_id sv \<noteq> None"
    and "list_all (turn_ok (sv_gateways sv)) ts" "list_all full_fragments ts" "tn_shutdown t"
  shows "\<exists>r sv'. serve se (ts @ t # rest) sv = Some (r, sv') \<and> r \<noteq> Panic \<and> gm_sessions (sv_gateways sv') = session_new \<and>
    (se_close_subscription se = Inr () \<longrightarrow> se_close_archive se = Inr () \<longrightarrow> (\<forall>i. se_stop_recording se i = Inr ()) \<longrightarrow>
      r = Ok (case sv_subscription_id sv of None \<Rightarrow> [] | Some i \<Rightarrow> if i = 0 then [] else [i]))"
  using assms
proof (induction ts arbitrary: sv)
  case Nil
  have "gm_wf (sv_gateways sv)" using reachable_wf [OF Nil.prems(1,2)] by simp
  from stopping [OF this Nil.prems(3), of se] Nil.prems(6) show ?case by auto
next
  case (Cons u ts)
  show ?case
  proof (cases "tn_shutdown u")
    case True
    have "gm_wf (sv_gateways sv)" using reachable_wf [OF Cons.prems(1,2)] by simp
    from stopping [OF this Cons.prems(3), of se] True show ?thesis by auto
  next
    case False
    obtain gm' out where t: "take_turn u (sv_gateways sv) = Some (gm', out)" "gm_reachable config gm'"
      "same_setup (sv_gateways sv) gm'"
      using take_turn_law [OF Cons.prems(1,2), of u] Cons.prems(4,5) by auto
    have "turn_ok gm' = turn_ok (sv_gateways sv)"
      using t(3) by (simp add: turn_ok_def env_ok_def draws_in_range_def same_setup_def fun_eq_iff)
    with Cons.IH [of "sv\<lparr>sv_gateways := gm'\<rparr>"] Cons.prems t False show ?thesis by simp
  qed
qed

lemma archive_stage_law:
  assumes "archive_stage se config pubs replay = Some (Ok (sub_id, pubs', replayed))" "pubs_wf pubs"
  shows "if cn_request_control_channel config = [] then sub_id = None \<and> replayed = [] \<and> pubs' = pubs
    else \<exists>sub channel p extended. start_recording (se_archive se) extended = Inr (sub, channel) \<and> sub_id = Some sub \<and>
      ge_add_publication (se_gateway se) channel RECORDING_STREAM_ID = Inr p \<and> pubs' = pubs[MAX_GATEWAYS := Some p] \<and>
      (if replay then start_replay (se_archive se) = Some (Ok (extended, replayed)) else extended = None \<and> replayed = [])"
proof (cases "cn_request_control_channel config = []")
  case False
  let ?start = "if replay then start_replay (se_archive se) else Some (Ok (None, []))"
  obtain r where r: "?start = Some r" "obind r (\<lambda>(recording, replayed).
      obind (of_result (start_recording (se_archive se) recording)) (\<lambda>(subscription_id, channel).
      obind (aeron_outcome (add_channel (ge_add_publication (se_gateway se)) channel RECORDING_STREAM_ID)) (\<lambda>p.
      obind (or_panic (set_archive_publication p pubs)) (\<lambda>pubs. Ok (Some subscription_id, pubs, replayed))))) =
      Ok (sub_id, pubs', replayed)"
    using assms(1) False by (auto simp: archive_stage_def split: sum.splits)
  then obtain extended done' where "r = Ok (extended, done')" by (auto simp: obind_Ok_iff)
  with r obtain sub channel where s: "start_recording (se_archive se) extended = Inr (sub, channel)"
    "obind (aeron_outcome (add_channel (ge_add_publication (se_gateway se)) channel RECORDING_STREAM_ID)) (\<lambda>p.
      obind (or_panic (set_archive_publication p pubs)) (\<lambda>pubs. Ok (Some sub, pubs, done'))) = Ok (sub_id, pubs', replayed)"
    by (cases "start_recording (se_archive se) extended") auto
  then have "\<exists>p. aeron_outcome (add_channel (ge_add_publication (se_gateway se)) channel RECORDING_STREAM_ID) = Ok p \<and>
      obind (or_panic (set_archive_publication p pubs)) (\<lambda>pubs. Ok (Some sub, pubs, done')) =
        (Ok (sub_id, pubs', replayed) :: (server_error, _) outcome)"
    by (simp add: obind_Ok_iff [of "aeron_outcome _"])
  then obtain p where p: "aeron_outcome (add_channel (ge_add_publication (se_gateway se)) channel RECORDING_STREAM_ID) = Ok p"
    "obind (or_panic (set_archive_publication p pubs)) (\<lambda>pubs. Ok (Some sub, pubs, done')) =
        (Ok (sub_id, pubs', replayed) :: (server_error, _) outcome)"
    by blast
  then have "ge_add_publication (se_gateway se) channel RECORDING_STREAM_ID = Inr p"
    by (cases "ge_add_publication (se_gateway se) channel RECORDING_STREAM_ID")
      (auto simp: add_channel_def c_string_def split: if_splits)
  moreover have "sub_id = Some sub" "pubs' = pubs[MAX_GATEWAYS := Some p]" "replayed = done'"
    using p(2) assms(2) by (auto simp: set_archive_publication_def store_slot_def pubs_wf_def)
  ultimately show ?thesis using False s(1) r(1) \<open>r = _\<close> by (auto split: if_splits)
qed (use assms(1) in \<open>auto simp: archive_stage_def\<close>)

lemma server_new_law:
  assumes "server_new se config pubs replay = Some (Ok (sv, replayed))"
  shows "\<exists>pubs'. archive_stage se config pubs replay = Some (Ok (sv_subscription_id sv, pubs', replayed)) \<and>
    gateway_manager_new (ge_show_code (se_gateway se)) config pubs' = Inr (sv_gateways sv) \<and>
    sv_config sv = config \<and> (sv_archive sv \<longleftrightarrow> sv_subscription_id sv \<noteq> None)"
proof -
  obtain sub_id pubs' again where a: "archive_stage se config pubs replay = Some (Ok (sub_id, pubs', again))"
    "obind (aeron_outcome (new_publication_with_mdc (ge_add_publication (se_gateway se))
        (cn_local_address config) (cn_initial_control_port config) ALL_GATEWAYS_STREAM_ID_server)) (\<lambda>publication.
     obind (aeron_outcome (new_subscription_with_handlers (ge_add_subscription (se_gateway se))
        (cn_local_address config) (cn_initial_port config) ALL_GATEWAYS_STREAM_ID_server)) (\<lambda>subscription.
     obind (of_result (gateway_manager_new (ge_show_code (se_gateway se)) config pubs')) (\<lambda>gateways.
       Ok (\<lparr>sv_config = config, sv_gateways = gateways, sv_handshake_publication = publication,
         sv_subscription = subscription, sv_archive = (sub_id \<noteq> None), sv_subscription_id = sub_id\<rparr>, again)))) =
     Ok (sv, replayed)"
    using assms by (auto simp: server_new_def obind_Ok_iff split: sum.splits)
  show ?thesis
    using a by (auto simp: obind_Ok_iff of_result_def split: sum.splits)
qed

lemma connected_new_session: "connected_slots session_new = []"
  by (simp add: connected_slots_def session_new_def map_filter_def)

lemma manager_new_fields:
  "gateway_manager_new code config pubs = Inr gm \<Longrightarrow> gm_sessions gm = session_new \<and> gm_publications gm = pubs"
  by (auto simp: gateway_manager_new_def split: sum.splits)

section \<open>Claims\<close>

text \<open>C36. The start of the server: when the constructor succeeds the gateway manager is in an initial state
  of the given configuration. Without an archive channel nothing is recorded or replayed and the table of
  publications is untouched. With one, the archive slot holds the publication that Aeron gave for the
  channel of the recording, which extends the replayed recording if there was one, and the commands put on
  the ring are those of \<^verbatim>\<open>start_replay\<close>, or none when no replay was asked for.\<close>

theorem server_new_ready:
  assumes "server_new se config pubs replay = Some (Ok (sv, replayed))" "pubs_wf pubs"
    and "list_all (\<lambda>p. p = None) (take MAX_GATEWAYS pubs)"
  shows "gm_reachable config (sv_gateways sv) \<and> gm_sessions (sv_gateways sv) = session_new \<and> sv_config sv = config \<and>
    (if cn_request_control_channel config = [] then
       sv_subscription_id sv = None \<and> replayed = [] \<and> gm_publications (sv_gateways sv) = pubs
     else \<exists>sub channel p extended. start_recording (se_archive se) extended = Inr (sub, channel) \<and>
       sv_subscription_id sv = Some sub \<and>
       ge_add_publication (se_gateway se) channel RECORDING_STREAM_ID = Inr p \<and>
       gm_publications (sv_gateways sv) = pubs[MAX_GATEWAYS := Some p] \<and>
       (if replay then start_replay (se_archive se) = Some (Ok (extended, replayed))
        else extended = None \<and> replayed = []))"
proof -
  obtain pubs' where a: "archive_stage se config pubs replay = Some (Ok (sv_subscription_id sv, pubs', replayed))"
    "gateway_manager_new (ge_show_code (se_gateway se)) config pubs' = Inr (sv_gateways sv)" "sv_config sv = config"
    using server_new_law [OF assms(1)] by blast
  note law = archive_stage_law [OF a(1) assms(2)]
  have "pubs_wf pubs' \<and> take MAX_GATEWAYS pubs' = take MAX_GATEWAYS pubs"
    using law assms(2) by (auto simp: pubs_wf_def split: if_splits)
  then have "gm_reachable config (sv_gateways sv)"
    using gm_reachable.start [OF a(2)] assms(3) by simp
  moreover have "gm_sessions (sv_gateways sv) = session_new" "gm_publications (sv_gateways sv) = pubs'"
    using manager_new_fields [OF a(2)] by simp_all
  ultimately show ?thesis using law a(3) by (auto split: if_splits)
qed

text \<open>C37. The server stops when it is told to: from a successful start, whatever greetings and vanished
  images come in the turns before and whatever the polls of the gateways read, as long as every fragment
  has at least the 64 bytes of an encoded command, the turn that sees the shutdown flag ends the loop. The
  fragments are decoded in those turns; nothing panics (the random ports drawn are in their range), every
  gateway session is removed, and when Aeron closes what it is asked to close the result is
  a success in which a recording was stopped exactly when the server owns it.\<close>

theorem server_stops:
  assumes "server_new se config pubs replay = Some (Ok (sv, replayed))" "pubs_wf pubs"
    and "list_all (\<lambda>p. p = None) (take MAX_GATEWAYS pubs)" "CHR 0x00 \<notin> set (cn_local_address config)"
    and "list_all (turn_ok (sv_gateways sv)) turns" "list_all full_fragments turns" "tn_shutdown t"
  shows "\<exists>r sv'. serve se (turns @ t # rest) sv = Some (r, sv') \<and> r \<noteq> Panic \<and>
    connected_slots (gm_sessions (sv_gateways sv')) = [] \<and>
    (se_close_subscription se = Inr () \<longrightarrow> se_close_archive se = Inr () \<longrightarrow> (\<forall>i. se_stop_recording se i = Inr ()) \<longrightarrow>
      r = Ok (case sv_subscription_id sv of None \<Rightarrow> [] | Some i \<Rightarrow> if i = 0 then [] else [i]))"
proof -
  obtain pubs' where a: "archive_stage se config pubs replay = Some (Ok (sv_subscription_id sv, pubs', replayed))"
    "gateway_manager_new (ge_show_code (se_gateway se)) config pubs' = Inr (sv_gateways sv)"
    "sv_archive sv \<longleftrightarrow> sv_subscription_id sv \<noteq> None"
    using server_new_law [OF assms(1)] by blast
  have "pubs_wf pubs' \<and> take MAX_GATEWAYS pubs' = take MAX_GATEWAYS pubs"
    using archive_stage_law [OF a(1) assms(2)] assms(2) by (auto simp: pubs_wf_def split: if_splits)
  then have "gm_reachable config (sv_gateways sv)"
    using gm_reachable.start [OF a(2)] assms(3) by simp
  from serve_law [OF this assms(4) a(3) assms(5-7), of se rest] show ?thesis
    by (elim exE conjE) (intro exI conjI, assumption+, simp add: connected_new_session, assumption)
qed

text \<open>An Aeron that grants everything, without an archive.\<close>

definition sample_server_env :: "(string \<times> i32, string \<times> i32) server_env" where
  "sample_server_env =
     \<lparr>se_context = Inr (), se_set_dir = Inr (), se_set_timeout = Inr (), se_aeron = Inr (), se_aeron_start = Inr (),
      se_archive_context = Inr (), se_archive_connect = Inr (), se_archive_poll = Inr (),
      se_archive = \<lparr>ar_recordings = Inr [], ar_start_replay = (\<lambda>_ _ _. Inr 8),
        ar_add_subscription = (\<lambda>_ _. Inr ()), ar_shutdown = (\<lambda>_. False), ar_polls = [],
        ar_build_uri = (\<lambda>_ _ _. Inr RECORDING_CHANNEL), ar_close = Inr (), ar_extend_recording = (\<lambda>_ _ _. Inr 1),
        ar_start_recording = (\<lambda>_ _. Inr 7), ar_show_code = (\<lambda>_. [])\<rparr>,
      se_gateway = sample_env, se_close_subscription = Inr (), se_stop_recording = (\<lambda>_. Inr ()),
      se_close_archive = Inr ()\<rparr>"

definition archiving_config :: core_networking_config where
  "archiving_config = core_development_defaults\<lparr>cn_request_control_channel := ''aeron:ipc''\<rparr>"

lemma sample_channel:
  "CHR 0x00 \<notin> set uri \<Longrightarrow> add_channel (ge_add_publication sample_env) uri stream = Ok (uri, stream)"
  "CHR 0x00 \<notin> set uri \<Longrightarrow> add_channel (ge_add_subscription sample_env) uri stream = Ok (uri, stream)"
  by (simp_all add: add_channel_uri sample_env_def)

lemma sample_start:
  "\<exists>sv. server_new sample_server_env archiving_config publications_new True = Some (Ok (sv, [])) \<and>
     sv_gateways sv = sample_manager\<lparr>gm_config := archiving_config,
       gm_publications := publications_new[MAX_GATEWAYS := Some (RECORDING_CHANNEL, RECORDING_STREAM_ID)]\<rparr> \<and>
     sv_subscription_id sv = Some 7"
proof -
  have cfg: "validate_config archiving_config = Inr ()" "c_string (cn_context_dir archiving_config) = Some (cn_context_dir archiving_config)"
    "cn_request_control_channel archiving_config \<noteq> []"
    by (simp_all add: validate_config_def archiving_config_def core_development_defaults_def c_string_def)
  have ae: "initialize_aeron sample_server_env archiving_config = Inr ()" "initialize_archive sample_server_env = Inr ()"
    by (simp_all add: initialize_aeron_def initialize_archive_def cfg sample_server_env_def aeron_def)
  have rep: "start_replay (se_archive sample_server_env) = Some (Ok (None, []))"
    by (simp add: start_replay_def list_recordings_def sample_server_env_def reader_new_def)
  have rec: "start_recording (se_archive sample_server_env) None = Inr (7, RECORDING_CHANNEL)"
    by (simp add: start_recording_def list_recordings_def sample_server_env_def active_reader_new_def)
  have env: "se_gateway sample_server_env = sample_env" by (simp add: sample_server_env_def)
  have chan: "add_channel (ge_add_publication sample_env) RECORDING_CHANNEL RECORDING_STREAM_ID = Ok (RECORDING_CHANNEL, RECORDING_STREAM_ID)"
    by (rule sample_channel) (simp add: RECORDING_CHANNEL_def)
  have set: "set_archive_publication p publications_new = Some (publications_new[MAX_GATEWAYS := Some p])" for p :: "string \<times> i32"
    using pubs_wf_new [where 'a = "string \<times> i32"] by (simp add: set_archive_publication_def store_slot_def pubs_wf_def)
  have st: "archive_stage sample_server_env archiving_config publications_new True =
      Some (Ok (Some 7, publications_new[MAX_GATEWAYS := Some (RECORDING_CHANNEL, RECORDING_STREAM_ID)], []))"
    by (simp add: archive_stage_def cfg ae rep rec env chan set)
  have nul: "CHR 0x00 \<notin> set (cn_local_address archiving_config)"
    using sample_address by (simp add: archiving_config_def)
  have "\<exists>p. new_publication_with_mdc (ge_add_publication sample_env) (cn_local_address archiving_config) port stream = Ok p"
    "\<exists>s. new_subscription_with_handlers (ge_add_subscription sample_env) (cn_local_address archiving_config) port stream = Ok s" for port stream
    unfolding new_publication_with_mdc_def new_subscription_with_handlers_def endpoint_of_def
    by (rule exI, rule sample_channel, use nul dec_no_nul in simp)+
  then obtain p s where ps:
    "new_publication_with_mdc (ge_add_publication sample_env) (cn_local_address archiving_config)
       (cn_initial_control_port archiving_config) ALL_GATEWAYS_STREAM_ID_server = Ok p"
    "new_subscription_with_handlers (ge_add_subscription sample_env) (cn_local_address archiving_config)
       (cn_initial_port archiving_config) ALL_GATEWAYS_STREAM_ID_server = Ok s"
    by blast
  have gm: "gateway_manager_new code archiving_config pubs = Inr (sample_manager\<lparr>gm_config := archiving_config, gm_publications := pubs\<rparr>)" for code pubs
    by (simp add: gateway_manager_new_def port_allocator_new_def session_allocator_new_def sample_manager_def
        archiving_config_def core_development_defaults_def Let_def word_sle_eq)
  show ?thesis by (simp add: server_new_def cfg(1) ae(1) st env ps gm)
qed

theorem server_new_ready_witness:
  "\<exists>sv. server_new sample_server_env archiving_config publications_new True = Some (Ok (sv, [])) \<and>
     gm_reachable archiving_config (sv_gateways sv) \<and> sv_subscription_id sv = Some 7"
proof -
  obtain sv where sv: "server_new sample_server_env archiving_config publications_new True = Some (Ok (sv, []))"
    "sv_subscription_id sv = Some 7" using sample_start by blast
  have "list_all (\<lambda>p. p = None) (take MAX_GATEWAYS publications_new)"
    by (simp add: publications_new_def list_all_iff) (use in_set_takeD in fastforce)
  from server_new_ready [OF sv(1) pubs_wf_new this] sv show ?thesis by blast
qed

theorem server_stops_witness:
  "\<exists>sv r sv'. server_new sample_server_env archiving_config publications_new True = Some (Ok (sv, [])) \<and>
     serve sample_server_env
       [\<lparr>tn_shutdown = False, tn_hellos = [(sample_env, Some 12345, as_bytes (hello_message 3 77))], tn_gone = [5],
         tn_gateway = sample_env, tn_polls = (\<lambda>_. Inr [(replicate 64 0, True)])\<rparr>,
        \<lparr>tn_shutdown = True, tn_hellos = [], tn_gone = [], tn_gateway = sample_env, tn_polls = (\<lambda>_. Inr [])\<rparr>] sv =
       Some (Ok [7], sv') \<and> connected_slots (gm_sessions (sv_gateways sv')) = []"
proof -
  obtain sv where sv: "server_new sample_server_env archiving_config publications_new True = Some (Ok (sv, []))"
    "sv_gateways sv = sample_manager\<lparr>gm_config := archiving_config,
       gm_publications := publications_new[MAX_GATEWAYS := Some (RECORDING_CHANNEL, RECORDING_STREAM_ID)]\<rparr>"
    "sv_subscription_id sv = Some 7" using sample_start by blast
  let ?t = "\<lparr>tn_shutdown = False, tn_hellos = [(sample_env, Some 12345, as_bytes (hello_message 3 77))], tn_gone = [5],
    tn_gateway = sample_env, tn_polls = (\<lambda>_. Inr [(replicate 64 0, True)])\<rparr>"
  let ?u = "\<lparr>tn_shutdown = True, tn_hellos = [], tn_gone = [], tn_gateway = sample_env, tn_polls = (\<lambda>_. Inr [])\<rparr>"
  have free: "list_all (\<lambda>p. p = None) (take MAX_GATEWAYS publications_new)"
    by (simp add: publications_new_def list_all_iff) (use in_set_takeD in fastforce)
  have nul: "CHR 0x00 \<notin> set (cn_local_address archiving_config)"
    using sample_address by (simp add: archiving_config_def)
  have "env_ok sample_env (sv_gateways sv)" using sample_env_ok by (simp add: env_ok_def sv(2))
  then have ok: "list_all (turn_ok (sv_gateways sv)) [?t]" by (simp add: turn_ok_def)
  have full: "list_all full_fragments [?t]" by (simp add: full_fragments_def ORDERCOMMANDSIZE_def)
  have told: "tn_shutdown ?u" by simp
  have closes: "se_close_subscription sample_server_env = Inr ()" "se_close_archive sample_server_env = Inr ()"
    "\<forall>i. se_stop_recording sample_server_env i = Inr ()"
    by (simp_all add: sample_server_env_def)
  from server_stops [OF sv(1) pubs_wf_new free nul ok full told, of "[]"] obtain r sv' where
    "serve sample_server_env ([?t] @ ?u # []) sv = Some (r, sv')" "connected_slots (gm_sessions (sv_gateways sv')) = []"
    "r = Ok (case sv_subscription_id sv of None \<Rightarrow> [] | Some i \<Rightarrow> if i = 0 then [] else [i])"
    using closes by blast
  then have "serve sample_server_env [?t, ?u] sv = Some (Ok [7], sv')" "connected_slots (gm_sessions (sv_gateways sv')) = []"
    by (simp_all only: sv(3) option.case append.simps) simp_all
  with sv(1) show ?thesis by blast
qed

text \<open>C38. A short fragment stops the server: the handler of a gateway's fragments decodes what arrives
  without a look at its length, and the decoder panics on a buffer of less than nine bytes (it indexes the
  byte of the command). So in any reachable state, a turn of the loop in which the poll of a connected
  gateway reads such a fragment ends the thread of the server with a panic: no later turn runs, not even
  one that sees the shutdown flag, and the gateway's session is never removed.\<close>

theorem short_fragment_stops_server:
  assumes "gm_reachable config (sv_gateways sv)" "CHR 0x00 \<notin> set (cn_local_address config)"
    and "\<not> tn_shutdown t" "tn_hellos t = []"
    and "unat g < MAX_GATEWAYS" "gm_sessions (sv_gateways sv) ! unat g = Some slot" "du_fragment_handler (sl_duologue slot)"
    and "g \<notin> set (gm_cleanup (sv_gateways sv))" "g \<notin> set (tn_gone t)"
    and "tn_polls t (du_subscription (sl_duologue slot)) = Inr fragments"
    and "(buffer, took) \<in> set fragments" "length buffer < 9"
  shows "serve se (t # turns) sv = Some (Panic, sv) \<and> is_gateway_connected (sv_gateways sv) g"
proof -
  let ?gm = "fold image_unavailable (tn_gone t) (sv_gateways sv)"
  have sessions: "gm_sessions (fold image_unavailable gs gm) = gm_sessions gm \<and>
      gm_cleanup (fold image_unavailable gs gm) = gm_cleanup gm @ gs" for gs and gm :: "('a, 'b) gateway_manager"
    by (induction gs arbitrary: gm) (simp_all add: image_unavailable_def)
  have wf: "gm_wf ?gm" using reachable_wf [OF gone_reachable [OF assms(1)] assms(2)] by simp
  obtain gm' where c: "process_cleanup_requests (tn_gateway t) ?gm = Some gm'" "gm_wf gm'"
    "gm_sessions gm' = fold (\<lambda>g s. s[unat g := None]) (gm_cleanup ?gm) (gm_sessions ?gm)"
    using cleanup_requests_law [OF wf] by blast
  have keep: "fold (\<lambda>g s. s[unat g := None]) gs s ! unat g = s ! unat g" if "g \<notin> set gs" for gs and s :: "'c option list"
    using that by (induction gs arbitrary: s) (auto simp: word_unat_eq_iff)
  have "gm_sessions gm' ! unat g = Some slot"
    using keep [of "gm_cleanup ?gm" "gm_sessions ?gm"] assms(6,8,9) c(3) sessions by simp
  moreover have "length (gm_sessions gm') = MAX_GATEWAYS" using c(2) by (simp add: gm_wf_def slots_wf_def)
  ultimately have "sl_duologue slot \<in> set (session_iter (gm_sessions gm'))"
    using assms(5) by (force simp: session_iter_def connected_by_index)
  moreover have "duologue_poll (tn_polls t) (sl_duologue slot) = None"
  proof -
    have "read_fragments h fs = None" if "(buffer, took) \<in> set fs" for h fs
      using that decode_short_panics [OF assms(12)]
      by (induction fs) (auto simp: handle_fragment_def split: option.split)
    then show ?thesis using assms(7,10,11) by (simp add: duologue_poll_def)
  qed
  ultimately have "take_turn t (sv_gateways sv) = None"
    using c(1) assms(4) by (simp add: take_turn_def manager_poll_def those_None)
  with assms(3,5,6) show ?thesis
    by (simp add: is_gateway_connected_def session_is_connected_def)
qed

text \<open>Gateway 3 connects, then sends an empty fragment; the shutdown flag after it is never seen.\<close>

theorem short_fragment_stops_server_witness:
  "\<exists>sv. is_gateway_connected (sv_gateways sv) 3 \<and>
     serve sample_server_env
       [\<lparr>tn_shutdown = False, tn_hellos = [], tn_gone = [], tn_gateway = sample_env, tn_polls = (\<lambda>_. Inr [([], True)])\<rparr>,
        \<lparr>tn_shutdown = True, tn_hellos = [], tn_gone = [], tn_gateway = sample_env, tn_polls = (\<lambda>_. Inr [])\<rparr>] sv =
       Some (Panic, sv)"
proof -
  obtain gm sent slot where run: "process_handshake_message sample_env 12345 (as_bytes (hello_message 3 77)) sample_manager = (Ok (), gm, sent)"
    and gm: "gm_cleanup gm = []" "gm_sessions gm ! 3 = Some slot" "du_fragment_handler (sl_duologue slot)"
    using sample_handshake by blast
  then have "handle_handshake_fragment sample_env (Some 12345) (as_bytes (hello_message 3 77)) sample_manager = Some (gm, sent)"
    by (simp add: handle_handshake_fragment_def)
  then have r: "gm_reachable core_development_defaults gm"
    by (intro gm_reachable.step [OF sample_reachable] gw_step.handshake [OF sample_env_ok])
  define sv :: "(string \<times> i32, string \<times> i32) core_server" where "sv = \<lparr>sv_config = core_development_defaults,
    sv_gateways = gm, sv_handshake_publication = ([], 0), sv_subscription = ([], 0), sv_archive = False, sv_subscription_id = None\<rparr>"
  have sv: "sv_gateways sv = gm" by (simp add: sv_def)
  let ?t = "\<lparr>tn_shutdown = False, tn_hellos = [], tn_gone = [], tn_gateway = sample_env, tn_polls = (\<lambda>_. Inr [([], True)])\<rparr>"
  have three: "unat (3 :: u8) < MAX_GATEWAYS" "unat (3 :: u8) = 3" by (simp_all add: MAX_GATEWAYS_def)
  from short_fragment_stops_server [of core_development_defaults sv ?t 3 slot "[([], True)]" "[]" True] r gm three
  show ?thesis unfolding sv [symmetric] by (intro exI [of _ sv]) (simp add: sv sample_address)
qed

end
