(* ===== verification/Test_Types.thy ===== *)
theory Test_Types
  imports Vex_Data Wire_Text "HOL-Library.AList"
begin

text \<open>
  \<^verbatim>\<open>xtask/src/test_framework/types.rs\<close> and \<^verbatim>\<open>xtask/src/fixtures/mod.rs\<close>: the data of the integration test
  framework, what it reads of Redis, what it expects, and the results of scenarios and suites. The
  texts of the errors are left out, their variants are kept. A \<^verbatim>\<open>Duration\<close> is a number of milliseconds.
\<close>

section \<open>Errors\<close>

datatype test_error =
  ErrRedis
| ErrIo
| ErrNetwork
| ErrTimeout nat
| ErrAssertion
| ErrVerification
| ErrInvalidState
| ErrConfiguration
| ErrParse
| ErrChannelRecv
| ErrOther

type_synonym 'a test_result = "test_error + 'a"

text \<open>An early return with an error unless a condition holds.\<close>

definition ensure :: "bool \<Rightarrow> test_error \<Rightarrow> unit test_result" where
  "ensure ok e = (if ok then Inr () else Inl e)"

fun checks :: "unit test_result list \<Rightarrow> unit test_result" where
  "checks [] = Inr ()"
| "checks (r # rs) = rbind r (\<lambda>_. checks rs)"

lemma ensure_iff [simp]: "ensure ok e = Inr () \<longleftrightarrow> ok"
  by (simp add: ensure_def)

lemma checks_iff [simp]: "checks rs = Inr () \<longleftrightarrow> (\<forall>r\<in>set rs. r = Inr ())"
  by (induction rs) (auto simp: rbind_Inr_iff)

section \<open>What Redis holds\<close>

record redis_balance =
  rb_user_id :: u64
  rb_asset_id :: u16
  rb_available :: u64
  rb_locked :: u64
  rb_total :: u64
  rb_timestamp :: u64

definition verify_invariant :: "redis_balance \<Rightarrow> unit test_result" where
  "verify_invariant b = ensure (rb_available b + rb_locked b = rb_total b) ErrAssertion"

record redis_order =
  ro_order_id :: u64
  ro_user_id :: u64
  ro_price :: u64
  ro_size :: u64
  ro_side :: string
  ro_timestamp :: u64
  ro_market_id :: u32
  ro_status :: string

record redis_trade =
  rt_trade_id :: string
  rt_maker_user_id :: u64
  rt_taker_user_id :: u64
  rt_market_id :: u32
  rt_price :: u64
  rt_size :: u64
  rt_maker_order_id :: u64
  rt_taker_order_id :: u64
  rt_timestamp :: u64

record orderbook_level =
  ol_price :: u64
  ol_size :: u64

record redis_orderbook =
  rob_market_id :: u32
  rob_bids :: "orderbook_level list"
  rob_asks :: "orderbook_level list"
  rob_timestamp :: u64

section \<open>What the tests expect\<close>

record expected_balance =
  eb_available :: u64
  eb_locked :: u64
  eb_total :: u64

definition eb_new :: "u64 \<Rightarrow> u64 \<Rightarrow> expected_balance" where
  "eb_new free bound = \<lparr>eb_available = free, eb_locked = bound, eb_total = free + bound\<rparr>"

definition from_total :: "u64 \<Rightarrow> expected_balance" where
  "from_total n = \<lparr>eb_available = n, eb_locked = 0, eb_total = n\<rparr>"

text \<open>The hash maps are iterated: their entries in some order.\<close>

record user_state =
  us_user_id :: u64
  us_expected_balances :: "(u16 \<times> expected_balance) list"
  us_active_orders :: "u64 list"

definition user_state_new :: "u64 \<Rightarrow> user_state" where
  "user_state_new user_id = \<lparr>us_user_id = user_id, us_expected_balances = [], us_active_orders = []\<rparr>"

definition set_expected_balance :: "u16 \<Rightarrow> expected_balance \<Rightarrow> user_state \<Rightarrow> user_state" where
  "set_expected_balance asset_id b us =
     us\<lparr>us_expected_balances := AList.update asset_id b (us_expected_balances us)\<rparr>"

definition add_active_order :: "u64 \<Rightarrow> user_state \<Rightarrow> user_state" where
  "add_active_order order_id us = us\<lparr>us_active_orders := us_active_orders us @ [order_id]\<rparr>"

definition remove_active_order :: "u64 \<Rightarrow> user_state \<Rightarrow> user_state" where
  "remove_active_order order_id us =
     us\<lparr>us_active_orders := filter (\<lambda>id. id \<noteq> order_id) (us_active_orders us)\<rparr>"

record trade_criteria =
  tc_market_id :: "u32 option"
  tc_maker_user_id :: "u64 option"
  tc_taker_user_id :: "u64 option"
  tc_price :: "u64 option"
  tc_size :: "u64 option"
  tc_maker_order_id :: "u64 option"
  tc_taker_order_id :: "u64 option"

definition tc_new :: trade_criteria where
  "tc_new = \<lparr>tc_market_id = None, tc_maker_user_id = None, tc_taker_user_id = None, tc_price = None,
     tc_size = None, tc_maker_order_id = None, tc_taker_order_id = None\<rparr>"

definition on_market :: "u32 \<Rightarrow> trade_criteria \<Rightarrow> trade_criteria" where
  "on_market m c = c\<lparr>tc_market_id := Some m\<rparr>"

definition by_maker :: "u64 \<Rightarrow> trade_criteria \<Rightarrow> trade_criteria" where
  "by_maker u c = c\<lparr>tc_maker_user_id := Some u\<rparr>"

definition by_taker :: "u64 \<Rightarrow> trade_criteria \<Rightarrow> trade_criteria" where
  "by_taker u c = c\<lparr>tc_taker_user_id := Some u\<rparr>"

definition at_price :: "u64 \<Rightarrow> trade_criteria \<Rightarrow> trade_criteria" where
  "at_price p c = c\<lparr>tc_price := Some p\<rparr>"

definition of_size :: "u64 \<Rightarrow> trade_criteria \<Rightarrow> trade_criteria" where
  "of_size n c = c\<lparr>tc_size := Some n\<rparr>"

definition with_maker_order :: "u64 \<Rightarrow> trade_criteria \<Rightarrow> trade_criteria" where
  "with_maker_order i c = c\<lparr>tc_maker_order_id := Some i\<rparr>"

definition with_taker_order :: "u64 \<Rightarrow> trade_criteria \<Rightarrow> trade_criteria" where
  "with_taker_order i c = c\<lparr>tc_taker_order_id := Some i\<rparr>"

definition field_differs :: "'a option \<Rightarrow> 'a \<Rightarrow> bool" where
  "field_differs expected actual = (case expected of None \<Rightarrow> False | Some e \<Rightarrow> actual \<noteq> e)"

definition tc_matches :: "trade_criteria \<Rightarrow> redis_trade \<Rightarrow> bool" where
  "tc_matches c t =
     (if field_differs (tc_market_id c) (rt_market_id t) then False
      else if field_differs (tc_maker_user_id c) (rt_maker_user_id t) then False
      else if field_differs (tc_taker_user_id c) (rt_taker_user_id t) then False
      else if field_differs (tc_price c) (rt_price t) then False
      else if field_differs (tc_size c) (rt_size t) then False
      else if field_differs (tc_maker_order_id c) (rt_maker_order_id t) then False
      else if field_differs (tc_taker_order_id c) (rt_taker_order_id t) then False
      else True)"

section \<open>Configuration and results\<close>

record test_config =
  tcf_redis_host :: string
  tcf_redis_port :: u16
  tcf_market_id :: u32
  tcf_base_asset_id :: u16
  tcf_quote_asset_id :: u16
  tcf_default_timeout :: nat
  tcf_redis_event_timeout :: nat
  tcf_core_address :: string
  tcf_core_port :: u16
  tcf_core_control_port :: u16

definition test_config_default :: test_config where
  "test_config_default =
     \<lparr>tcf_redis_host = ''localhost'', tcf_redis_port = 6380, tcf_market_id = push_bit 16 1 OR 2,
      tcf_base_asset_id = 2, tcf_quote_asset_id = 1, tcf_default_timeout = 5000,
      tcf_redis_event_timeout = 60000, tcf_core_address = ''127.0.0.1'', tcf_core_port = 3521,
      tcf_core_control_port = 3522\<rparr>"

record scenario_result =
  sr_name :: string
  sr_success :: bool
  sr_duration :: nat
  sr_error :: "test_error option"

definition sr_passed :: "string \<Rightarrow> nat \<Rightarrow> scenario_result" where
  "sr_passed name duration = \<lparr>sr_name = name, sr_success = True, sr_duration = duration, sr_error = None\<rparr>"

definition sr_failed :: "string \<Rightarrow> nat \<Rightarrow> test_error \<Rightarrow> scenario_result" where
  "sr_failed name duration e = \<lparr>sr_name = name, sr_success = False, sr_duration = duration, sr_error = Some e\<rparr>"

record suite_result =
  su_total :: nat
  su_passed :: nat
  su_failed :: nat
  su_duration :: nat
  su_scenarios :: "scenario_result list"

definition suite_new :: suite_result where
  "suite_new = \<lparr>su_total = 0, su_passed = 0, su_failed = 0, su_duration = 0, su_scenarios = []\<rparr>"

definition add_result :: "scenario_result \<Rightarrow> suite_result \<Rightarrow> suite_result" where
  "add_result r su =
     (let su = su\<lparr>su_total := su_total su + 1\<rparr>;
          su = (if sr_success r then su\<lparr>su_passed := su_passed su + 1\<rparr>
                else su\<lparr>su_failed := su_failed su + 1\<rparr>)
      in su\<lparr>su_duration := su_duration su + sr_duration r, su_scenarios := su_scenarios su @ [r]\<rparr>)"

definition is_success :: "suite_result \<Rightarrow> bool" where
  "is_success su \<longleftrightarrow> su_failed su = 0"

lemma suite_success_iff:
  "is_success (foldl (\<lambda>su r. add_result r su) suite_new rs) \<longleftrightarrow> (\<forall>r\<in>set rs. sr_success r)"
proof -
  have "su_failed (foldl (\<lambda>su r. add_result r su) su rs) = su_failed su + length (filter (\<lambda>r. \<not> sr_success r) rs)" for su
    by (induction rs arbitrary: su) (auto simp: add_result_def Let_def)
  then show ?thesis by (auto simp: is_success_def suite_new_def filter_empty_conv)
qed

section \<open>Fixtures\<close>

definition ALICE :: u64 where "ALICE = 1"
definition BOB :: u64 where "BOB = 2"
definition CHARLIE :: u64 where "CHARLIE = 3"
definition DAVE :: u64 where "DAVE = 4"
definition EVE :: u64 where "EVE = 5"

definition USD :: u16 where "USD = 1"
definition BTC :: u16 where "BTC = 2"
definition ETH :: u16 where "ETH = 3"

definition BTC_USD :: u32 where "BTC_USD = 0x00010002"
definition ETH_USD :: u32 where "ETH_USD = 0x00010003"

definition SMALL_AMOUNT :: u64 where "SMALL_AMOUNT = 100"
definition MEDIUM_AMOUNT :: u64 where "MEDIUM_AMOUNT = 1000"
definition LARGE_AMOUNT :: u64 where "LARGE_AMOUNT = 10000"
definition XLARGE_AMOUNT :: u64 where "XLARGE_AMOUNT = 100000"
definition FUND_1M_USD :: u64 where "FUND_1M_USD = 1000000"
definition FUND_10K_BTC :: u64 where "FUND_10K_BTC = 10000"

definition LOW_PRICE :: u64 where "LOW_PRICE = 40000"
definition MID_PRICE :: u64 where "MID_PRICE = 50000"
definition HIGH_PRICE :: u64 where "HIGH_PRICE = 60000"

lemmas fixture_defs = ALICE_def BOB_def CHARLIE_def DAVE_def EVE_def USD_def BTC_def ETH_def BTC_USD_def ETH_USD_def
  LOW_PRICE_def MID_PRICE_def HIGH_PRICE_def

end
