(* ===== verification/Test_Builders.thy ===== *)
theory Test_Builders
  imports Test_Types
begin

text \<open>
  \<^verbatim>\<open>xtask/src/builders/order_builder.rs\<close>: the builders of commands the integration tests use. The state of
  a builder is a phantom type, so that the fields of an order can only be set in one order and only a
  complete builder builds; deposits and withdrawals check at run time, and \<open>None\<close> is their panic. The
  chains are shown to give the commands of the constructors of \<^verbatim>\<open>OrderCommand\<close>.
\<close>

section \<open>States of a builder\<close>

datatype needs_user = NeedsUser
datatype needs_price = NeedsPrice
datatype needs_size = NeedsSize
datatype needs_side = NeedsSide
datatype needs_market = NeedsMarket
datatype needs_order_id = NeedsOrderId
datatype complete = Complete

section \<open>Deposits and withdrawals\<close>

record deposit_builder =
  db_user_id :: "u64 option"
  db_amount :: "u64 option"
  db_asset_id :: "u16 option"

definition db_new :: deposit_builder where
  "db_new = \<lparr>db_user_id = None, db_amount = None, db_asset_id = None\<rparr>"

definition db_user :: "u64 \<Rightarrow> deposit_builder \<Rightarrow> deposit_builder" where
  "db_user u b = b\<lparr>db_user_id := Some u\<rparr>"

definition db_with_amount :: "u64 \<Rightarrow> deposit_builder \<Rightarrow> deposit_builder" where
  "db_with_amount n b = b\<lparr>db_amount := Some n\<rparr>"

definition db_asset :: "u16 \<Rightarrow> deposit_builder \<Rightarrow> deposit_builder" where
  "db_asset a b = b\<lparr>db_asset_id := Some a\<rparr>"

definition db_build :: "deposit_builder \<Rightarrow> order_command option" where
  "db_build b = do {
     user_id \<leftarrow> db_user_id b;
     amount \<leftarrow> db_amount b;
     asset_id \<leftarrow> db_asset_id b;
     Some (mk_deposit_funds user_id amount asset_id)
   }"

record withdraw_builder =
  wb_user_id :: "u64 option"
  wb_amount :: "u64 option"
  wb_asset_id :: "u16 option"

definition wb_new :: withdraw_builder where
  "wb_new = \<lparr>wb_user_id = None, wb_amount = None, wb_asset_id = None\<rparr>"

definition wb_user :: "u64 \<Rightarrow> withdraw_builder \<Rightarrow> withdraw_builder" where
  "wb_user u b = b\<lparr>wb_user_id := Some u\<rparr>"

definition wb_with_amount :: "u64 \<Rightarrow> withdraw_builder \<Rightarrow> withdraw_builder" where
  "wb_with_amount n b = b\<lparr>wb_amount := Some n\<rparr>"

definition wb_asset :: "u16 \<Rightarrow> withdraw_builder \<Rightarrow> withdraw_builder" where
  "wb_asset a b = b\<lparr>wb_asset_id := Some a\<rparr>"

definition wb_build :: "withdraw_builder \<Rightarrow> order_command option" where
  "wb_build b = do {
     user_id \<leftarrow> wb_user_id b;
     amount \<leftarrow> wb_amount b;
     asset_id \<leftarrow> wb_asset_id b;
     Some \<lparr>c_command = WithdrawFunds, c_client_order_id = 0, c_order_id = 0, c_user_id = user_id,
       c_market_id = ucast asset_id, c_price = 0, c_size = amount, c_side = Ask, c_time_in_force = Gtc,
       c_timestamp = 0, c_status = Processing, c_events = None,
       c_balance = (balance_default, balance_default), c_l2_data = None, c_route_gateway_id = 0,
       c_original_size = 0\<rparr>
   }"

section \<open>Orders\<close>

text \<open>Limit orders, good till cancelled.\<close>

record 'state limit_builder =
  lb_user_id :: u64
  lb_price :: u64
  lb_size :: u64
  lb_side :: side
  lb_market_id :: u32
  lb_client_order_id :: u64

definition lb_new :: "needs_user limit_builder" where
  "lb_new = \<lparr>lb_user_id = 0, lb_price = 0, lb_size = 0, lb_side = Bid, lb_market_id = 0, lb_client_order_id = 0\<rparr>"

definition lb_with_user :: "u64 \<Rightarrow> needs_user limit_builder \<Rightarrow> needs_price limit_builder" where
  "lb_with_user u b = \<lparr>lb_user_id = u, lb_price = lb_price b, lb_size = lb_size b, lb_side = lb_side b,
     lb_market_id = lb_market_id b, lb_client_order_id = lb_client_order_id b\<rparr>"

definition lb_with_price :: "u64 \<Rightarrow> needs_price limit_builder \<Rightarrow> needs_size limit_builder" where
  "lb_with_price p b = \<lparr>lb_user_id = lb_user_id b, lb_price = p, lb_size = lb_size b, lb_side = lb_side b,
     lb_market_id = lb_market_id b, lb_client_order_id = lb_client_order_id b\<rparr>"

definition lb_with_size :: "u64 \<Rightarrow> needs_size limit_builder \<Rightarrow> needs_side limit_builder" where
  "lb_with_size n b = \<lparr>lb_user_id = lb_user_id b, lb_price = lb_price b, lb_size = n, lb_side = lb_side b,
     lb_market_id = lb_market_id b, lb_client_order_id = lb_client_order_id b\<rparr>"

definition lb_with_side :: "side \<Rightarrow> needs_side limit_builder \<Rightarrow> needs_market limit_builder" where
  "lb_with_side s b = \<lparr>lb_user_id = lb_user_id b, lb_price = lb_price b, lb_size = lb_size b, lb_side = s,
     lb_market_id = lb_market_id b, lb_client_order_id = lb_client_order_id b\<rparr>"

definition lb_with_market :: "u32 \<Rightarrow> needs_market limit_builder \<Rightarrow> complete limit_builder" where
  "lb_with_market m b = \<lparr>lb_user_id = lb_user_id b, lb_price = lb_price b, lb_size = lb_size b,
     lb_side = lb_side b, lb_market_id = m, lb_client_order_id = lb_client_order_id b\<rparr>"

definition lb_with_client :: "u64 \<Rightarrow> complete limit_builder \<Rightarrow> complete limit_builder" where
  "lb_with_client c b = b\<lparr>lb_client_order_id := c\<rparr>"

definition lb_build :: "complete limit_builder \<Rightarrow> order_command" where
  "lb_build b = mk_place_order Gtc (lb_user_id b) (lb_price b) (lb_size b) (lb_side b) (lb_market_id b)
     (lb_client_order_id b)"

text \<open>Market orders: immediate or cancel, the price a sentinel.\<close>

record 'state market_builder =
  mb_user_id :: u64
  mb_size :: u64
  mb_side :: side
  mb_market_id :: u32
  mb_client_order_id :: u64

definition mb_new :: "needs_user market_builder" where
  "mb_new = \<lparr>mb_user_id = 0, mb_size = 0, mb_side = Bid, mb_market_id = 0, mb_client_order_id = 0\<rparr>"

definition mb_with_user :: "u64 \<Rightarrow> needs_user market_builder \<Rightarrow> needs_size market_builder" where
  "mb_with_user u b = \<lparr>mb_user_id = u, mb_size = mb_size b, mb_side = mb_side b,
     mb_market_id = mb_market_id b, mb_client_order_id = mb_client_order_id b\<rparr>"

definition mb_with_size :: "u64 \<Rightarrow> needs_size market_builder \<Rightarrow> needs_side market_builder" where
  "mb_with_size n b = \<lparr>mb_user_id = mb_user_id b, mb_size = n, mb_side = mb_side b,
     mb_market_id = mb_market_id b, mb_client_order_id = mb_client_order_id b\<rparr>"

definition mb_with_side :: "side \<Rightarrow> needs_side market_builder \<Rightarrow> needs_market market_builder" where
  "mb_with_side s b = \<lparr>mb_user_id = mb_user_id b, mb_size = mb_size b, mb_side = s,
     mb_market_id = mb_market_id b, mb_client_order_id = mb_client_order_id b\<rparr>"

definition mb_with_market :: "u32 \<Rightarrow> needs_market market_builder \<Rightarrow> complete market_builder" where
  "mb_with_market m b = \<lparr>mb_user_id = mb_user_id b, mb_size = mb_size b, mb_side = mb_side b,
     mb_market_id = m, mb_client_order_id = mb_client_order_id b\<rparr>"

definition mb_with_client :: "u64 \<Rightarrow> complete market_builder \<Rightarrow> complete market_builder" where
  "mb_with_client c b = b\<lparr>mb_client_order_id := c\<rparr>"

definition mb_build :: "complete market_builder \<Rightarrow> order_command" where
  "mb_build b =
     \<lparr>c_command = PlaceOrder, c_client_order_id = mb_client_order_id b, c_order_id = 0,
      c_user_id = mb_user_id b, c_market_id = mb_market_id b, c_price = (case mb_side b of Bid \<Rightarrow> u64_MAX | Ask \<Rightarrow> 0), c_size = mb_size b,
      c_side = mb_side b, c_time_in_force = Ioc, c_timestamp = 0, c_status = Processing, c_events = None,
      c_balance = (balance_default, balance_default), c_l2_data = None, c_route_gateway_id = 0,
      c_original_size = 0\<rparr>"

text \<open>Immediate or cancel.\<close>

record 'state ioc_builder =
  ib_user_id :: u64
  ib_price :: u64
  ib_size :: u64
  ib_side :: side
  ib_market_id :: u32
  ib_client_order_id :: u64

definition ib_new :: "needs_user ioc_builder" where
  "ib_new = \<lparr>ib_user_id = 0, ib_price = 0, ib_size = 0, ib_side = Bid, ib_market_id = 0, ib_client_order_id = 0\<rparr>"

definition ib_with_user :: "u64 \<Rightarrow> needs_user ioc_builder \<Rightarrow> needs_price ioc_builder" where
  "ib_with_user u b = \<lparr>ib_user_id = u, ib_price = ib_price b, ib_size = ib_size b, ib_side = ib_side b,
     ib_market_id = ib_market_id b, ib_client_order_id = ib_client_order_id b\<rparr>"

definition ib_with_price :: "u64 \<Rightarrow> needs_price ioc_builder \<Rightarrow> needs_size ioc_builder" where
  "ib_with_price p b = \<lparr>ib_user_id = ib_user_id b, ib_price = p, ib_size = ib_size b, ib_side = ib_side b,
     ib_market_id = ib_market_id b, ib_client_order_id = ib_client_order_id b\<rparr>"

definition ib_with_size :: "u64 \<Rightarrow> needs_size ioc_builder \<Rightarrow> needs_side ioc_builder" where
  "ib_with_size n b = \<lparr>ib_user_id = ib_user_id b, ib_price = ib_price b, ib_size = n, ib_side = ib_side b,
     ib_market_id = ib_market_id b, ib_client_order_id = ib_client_order_id b\<rparr>"

definition ib_with_side :: "side \<Rightarrow> needs_side ioc_builder \<Rightarrow> needs_market ioc_builder" where
  "ib_with_side s b = \<lparr>ib_user_id = ib_user_id b, ib_price = ib_price b, ib_size = ib_size b, ib_side = s,
     ib_market_id = ib_market_id b, ib_client_order_id = ib_client_order_id b\<rparr>"

definition ib_with_market :: "u32 \<Rightarrow> needs_market ioc_builder \<Rightarrow> complete ioc_builder" where
  "ib_with_market m b = \<lparr>ib_user_id = ib_user_id b, ib_price = ib_price b, ib_size = ib_size b,
     ib_side = ib_side b, ib_market_id = m, ib_client_order_id = ib_client_order_id b\<rparr>"

definition ib_with_client :: "u64 \<Rightarrow> complete ioc_builder \<Rightarrow> complete ioc_builder" where
  "ib_with_client c b = b\<lparr>ib_client_order_id := c\<rparr>"

definition ib_build :: "complete ioc_builder \<Rightarrow> order_command" where
  "ib_build b =
     \<lparr>c_command = PlaceOrder, c_client_order_id = ib_client_order_id b, c_order_id = 0,
      c_user_id = ib_user_id b, c_market_id = ib_market_id b, c_price = ib_price b, c_size = ib_size b,
      c_side = ib_side b, c_time_in_force = Ioc, c_timestamp = 0, c_status = Processing, c_events = None,
      c_balance = (balance_default, balance_default), c_l2_data = None, c_route_gateway_id = 0,
      c_original_size = 0\<rparr>"

text \<open>Fill or kill.\<close>

record 'state fok_builder =
  fb_user_id :: u64
  fb_price :: u64
  fb_size :: u64
  fb_side :: side
  fb_market_id :: u32
  fb_client_order_id :: u64

definition fb_new :: "needs_user fok_builder" where
  "fb_new = \<lparr>fb_user_id = 0, fb_price = 0, fb_size = 0, fb_side = Bid, fb_market_id = 0, fb_client_order_id = 0\<rparr>"

definition fb_with_user :: "u64 \<Rightarrow> needs_user fok_builder \<Rightarrow> needs_price fok_builder" where
  "fb_with_user u b = \<lparr>fb_user_id = u, fb_price = fb_price b, fb_size = fb_size b, fb_side = fb_side b,
     fb_market_id = fb_market_id b, fb_client_order_id = fb_client_order_id b\<rparr>"

definition fb_with_price :: "u64 \<Rightarrow> needs_price fok_builder \<Rightarrow> needs_size fok_builder" where
  "fb_with_price p b = \<lparr>fb_user_id = fb_user_id b, fb_price = p, fb_size = fb_size b, fb_side = fb_side b,
     fb_market_id = fb_market_id b, fb_client_order_id = fb_client_order_id b\<rparr>"

definition fb_with_size :: "u64 \<Rightarrow> needs_size fok_builder \<Rightarrow> needs_side fok_builder" where
  "fb_with_size n b = \<lparr>fb_user_id = fb_user_id b, fb_price = fb_price b, fb_size = n, fb_side = fb_side b,
     fb_market_id = fb_market_id b, fb_client_order_id = fb_client_order_id b\<rparr>"

definition fb_with_side :: "side \<Rightarrow> needs_side fok_builder \<Rightarrow> needs_market fok_builder" where
  "fb_with_side s b = \<lparr>fb_user_id = fb_user_id b, fb_price = fb_price b, fb_size = fb_size b, fb_side = s,
     fb_market_id = fb_market_id b, fb_client_order_id = fb_client_order_id b\<rparr>"

definition fb_with_market :: "u32 \<Rightarrow> needs_market fok_builder \<Rightarrow> complete fok_builder" where
  "fb_with_market m b = \<lparr>fb_user_id = fb_user_id b, fb_price = fb_price b, fb_size = fb_size b,
     fb_side = fb_side b, fb_market_id = m, fb_client_order_id = fb_client_order_id b\<rparr>"

definition fb_with_client :: "u64 \<Rightarrow> complete fok_builder \<Rightarrow> complete fok_builder" where
  "fb_with_client c b = b\<lparr>fb_client_order_id := c\<rparr>"

definition fb_build :: "complete fok_builder \<Rightarrow> order_command" where
  "fb_build b =
     \<lparr>c_command = PlaceOrder, c_client_order_id = fb_client_order_id b, c_order_id = 0,
      c_user_id = fb_user_id b, c_market_id = fb_market_id b, c_price = fb_price b, c_size = fb_size b,
      c_side = fb_side b, c_time_in_force = Fok, c_timestamp = 0, c_status = Processing, c_events = None,
      c_balance = (balance_default, balance_default), c_l2_data = None, c_route_gateway_id = 0,
      c_original_size = 0\<rparr>"

text \<open>Cancellations.\<close>

record 'state cancel_builder =
  cb_order_id :: u64
  cb_side :: side
  cb_market_id :: u32

definition cb_new :: "needs_order_id cancel_builder" where
  "cb_new = \<lparr>cb_order_id = 0, cb_side = Bid, cb_market_id = 0\<rparr>"

definition cb_with_order :: "u64 \<Rightarrow> needs_order_id cancel_builder \<Rightarrow> needs_side cancel_builder" where
  "cb_with_order i b = \<lparr>cb_order_id = i, cb_side = cb_side b, cb_market_id = cb_market_id b\<rparr>"

definition cb_with_side :: "side \<Rightarrow> needs_side cancel_builder \<Rightarrow> needs_market cancel_builder" where
  "cb_with_side s b = \<lparr>cb_order_id = cb_order_id b, cb_side = s, cb_market_id = cb_market_id b\<rparr>"

definition cb_with_market :: "u32 \<Rightarrow> needs_market cancel_builder \<Rightarrow> complete cancel_builder" where
  "cb_with_market m b = \<lparr>cb_order_id = cb_order_id b, cb_side = cb_side b, cb_market_id = m\<rparr>"

definition cb_build :: "complete cancel_builder \<Rightarrow> order_command" where
  "cb_build b = mk_cancel_order (cb_order_id b) (cb_side b) (cb_market_id b)"

section \<open>Chains\<close>

text \<open>The chains of the scenarios, \<^verbatim>\<open>OrderBuilder::place_limit().user(..).price(..)\<close> up to \<^verbatim>\<open>build()\<close>.\<close>

definition deposit_of :: "u64 \<Rightarrow> u64 \<Rightarrow> u16 \<Rightarrow> order_command option" where
  "deposit_of u n a = db_build (db_asset a (db_with_amount n (db_user u db_new)))"

definition limit_order :: "u64 \<Rightarrow> u64 \<Rightarrow> u64 \<Rightarrow> side \<Rightarrow> u32 \<Rightarrow> order_command" where
  "limit_order u p n s m =
     lb_build (lb_with_market m (lb_with_side s (lb_with_size n (lb_with_price p (lb_with_user u lb_new)))))"

definition market_order :: "u64 \<Rightarrow> u64 \<Rightarrow> side \<Rightarrow> u32 \<Rightarrow> order_command" where
  "market_order u n s m = mb_build (mb_with_market m (mb_with_side s (mb_with_size n (mb_with_user u mb_new))))"

definition ioc_order :: "u64 \<Rightarrow> u64 \<Rightarrow> u64 \<Rightarrow> side \<Rightarrow> u32 \<Rightarrow> order_command" where
  "ioc_order u p n s m =
     ib_build (ib_with_market m (ib_with_side s (ib_with_size n (ib_with_price p (ib_with_user u ib_new)))))"

definition fok_order :: "u64 \<Rightarrow> u64 \<Rightarrow> u64 \<Rightarrow> side \<Rightarrow> u32 \<Rightarrow> order_command" where
  "fok_order u p n s m =
     fb_build (fb_with_market m (fb_with_side s (fb_with_size n (fb_with_price p (fb_with_user u fb_new)))))"

definition cancel_of :: "u64 \<Rightarrow> side \<Rightarrow> u32 \<Rightarrow> order_command" where
  "cancel_of i s m = cb_build (cb_with_market m (cb_with_side s (cb_with_order i cb_new)))"

lemmas deposit_builder_defs = db_new_def db_user_def db_with_amount_def db_asset_def db_build_def
lemmas limit_builder_defs = lb_new_def lb_with_user_def lb_with_price_def lb_with_size_def lb_with_side_def
  lb_with_market_def lb_with_client_def lb_build_def
lemmas market_builder_defs = mb_new_def mb_with_user_def mb_with_size_def mb_with_side_def mb_with_market_def mb_build_def
lemmas ioc_builder_defs = ib_new_def ib_with_user_def ib_with_price_def ib_with_size_def ib_with_side_def
  ib_with_market_def ib_build_def
lemmas fok_builder_defs = fb_new_def fb_with_user_def fb_with_price_def fb_with_size_def fb_with_side_def
  fb_with_market_def fb_build_def
lemmas cancel_builder_defs = cb_new_def cb_with_order_def cb_with_side_def cb_with_market_def cb_build_def

text \<open>Every chain gives the command of a constructor of \<^verbatim>\<open>OrderCommand\<close>.\<close>

lemma built_commands [simp]:
  "deposit_of u n a = Some (mk_deposit_funds u n a)"
  "limit_order u p n s m = mk_place_order Gtc u p n s m 0"
  "market_order u n s m = mk_place_order Ioc u (case s of Bid \<Rightarrow> u64_MAX | Ask \<Rightarrow> 0) n s m 0"
  "ioc_order u p n s m = mk_place_order Ioc u p n s m 0"
  "fok_order u p n s m = mk_place_order Fok u p n s m 0"
  "cancel_of i s m = mk_cancel_order i s m"
  by (simp_all add: deposit_of_def limit_order_def market_order_def ioc_order_def fok_order_def cancel_of_def
      deposit_builder_defs limit_builder_defs market_builder_defs ioc_builder_defs fok_builder_defs cancel_builder_defs
      mk_place_order_def)

lemma built_withdrawal:
  "wb_build (wb_asset a (wb_with_amount n (wb_user u wb_new))) = Some (mk_withdraw_funds u n a)"
  by (simp add: wb_new_def wb_user_def wb_with_amount_def wb_asset_def wb_build_def mk_withdraw_funds_def)

end
