(* ===== verification/Test_Client.thy ===== *)
theory Test_Client
  imports Test_Builders Network_Config
begin

text \<open>
  \<^verbatim>\<open>xtask/src/test_framework\<close>: the client, the reader of Redis and the context that the scenarios run in.
  A test is a function of the state that gives its result and the state after it, or \<open>None\<close> when it does
  not return (an endless loop, or a panic of a builder). What the tests drive is a parameter: the record
  \<open>services\<close> has the publisher and the channel of responses, the commands of Redis, the JSON parser, the clock
  and sleeping, over any type \<open>'w\<close> of the outside world and any type \<open>'j\<close> of stored JSON texts.
\<close>

section \<open>Tests\<close>

type_synonym ('s, 'a) test = "'s \<Rightarrow> ('a test_result \<times> 's) option"

definition tret :: "'a \<Rightarrow> ('s, 'a) test" where
  "tret a s = Some (Inr a, s)"

definition tlift :: "'a test_result \<Rightarrow> ('s, 'a) test" where
  "tlift r s = Some (r, s)"

definition tbind :: "('s, 'a) test \<Rightarrow> ('a \<Rightarrow> ('s, 'b) test) \<Rightarrow> ('s, 'b) test" where
  "tbind m f s = Option.bind (m s) (\<lambda>(r, s'). case r of Inl e \<Rightarrow> Some (Inl e, s') | Inr a \<Rightarrow> f a s')"

fun steps :: "('s, unit) test list \<Rightarrow> ('s, unit) test" where
  "steps [] = tret ()"
| "steps (m # ms) = tbind m (\<lambda>_. steps ms)"

text \<open>Some steps, then the rest of the function.\<close>

definition after :: "('s, unit) test list \<Rightarrow> ('s, 'a) test \<Rightarrow> ('s, 'a) test" where
  "after ms m = tbind (steps ms) (\<lambda>_. m)"

lemma tbind_Inr:
  "tbind m f s = Some (Inr b, t) \<longleftrightarrow> (\<exists>a u. m s = Some (Inr a, u) \<and> f a u = Some (Inr b, t))"
  by (cases "m s") (auto simp: tbind_def split: sum.splits)

section \<open>JSON and what is outside\<close>

text \<open>\<^verbatim>\<open>serde_json::Value\<close>; a number that is no \<^verbatim>\<open>u64\<close> has no value here. Indexing gives null where there is nothing.\<close>

datatype json =
  JNull
| JBool bool
| JNumber "u64 option"
| JString string
| JArray "json list"
| JObject "(string \<times> json) list"

fun json_at :: "json \<Rightarrow> string \<Rightarrow> json" where
  "json_at (JObject kvs) k = (case map_of kvs k of Some v \<Rightarrow> v | None \<Rightarrow> JNull)"
| "json_at _ k = JNull"

fun as_u64 :: "json \<Rightarrow> u64 option" where
  "as_u64 (JNumber n) = n"
| "as_u64 _ = None"

fun as_array :: "json \<Rightarrow> json list option" where
  "as_array (JArray vs) = Some vs"
| "as_array _ = None"

definition or_else :: "'a option \<Rightarrow> 'a \<Rightarrow> 'a" where
  "or_else m d = (case m of Some a \<Rightarrow> a | None \<Rightarrow> d)"

datatype received = Received order_command | RecvTimeout | Disconnected

text \<open>\<open>None\<close> as the answer of a command is an error of Redis.\<close>

record ('w, 'j) services =
  sv_connect :: "gateway_networking_config \<Rightarrow> 'w \<Rightarrow> unit option \<times> 'w"
  sv_send :: "order_command \<Rightarrow> 'w \<Rightarrow> unit option \<times> 'w"
  sv_recv :: "nat \<Rightarrow> 'w \<Rightarrow> received \<times> 'w"
  sv_open :: "string \<Rightarrow> 'w \<Rightarrow> unit option \<times> 'w"
  sv_hgetall :: "string \<Rightarrow> 'w \<Rightarrow> (string \<times> string) list option \<times> 'w"
  sv_zrevrange :: "string \<Rightarrow> int \<Rightarrow> int \<Rightarrow> 'w \<Rightarrow> 'j list option \<times> 'w"
  sv_get :: "string \<Rightarrow> 'w \<Rightarrow> 'j option option \<times> 'w"
  sv_sismember :: "string \<Rightarrow> string \<Rightarrow> 'w \<Rightarrow> bool option \<times> 'w"
  sv_scan :: "u64 \<Rightarrow> string \<Rightarrow> nat \<Rightarrow> 'w \<Rightarrow> (u64 \<times> string list) option \<times> 'w"
  sv_del :: "string list \<Rightarrow> 'w \<Rightarrow> unit option \<times> 'w"
  sv_json :: "'j \<Rightarrow> json option"
  sv_now :: "'w \<Rightarrow> nat"
  sv_sleep :: "nat \<Rightarrow> 'w \<Rightarrow> 'w"

definition ask_redis :: "('w \<Rightarrow> 'a option \<times> 'w) \<Rightarrow> ('w, 'a) test" where
  "ask_redis f w = (case f w of (None, w') \<Rightarrow> Some (Inl ErrRedis, w') | (Some a, w') \<Rightarrow> Some (Inr a, w'))"

definition pause :: "('w, 'j) services \<Rightarrow> nat \<Rightarrow> ('w, unit) test" where
  "pause sv ms w = Some (Inr (), sv_sleep sv ms w)"

section \<open>The reader of Redis\<close>

definition redis_url :: "string \<Rightarrow> u16 \<Rightarrow> string" where
  "redis_url host port = ''redis://'' @ host @ '':'' @ dec (unat port) @ ''/''"

definition redis_new :: "('w, 'j) services \<Rightarrow> string \<Rightarrow> u16 \<Rightarrow> ('w, unit) test" where
  "redis_new sv host port = ask_redis (sv_open sv (redis_url host port))"

definition parsed_u64 :: "string \<Rightarrow> u64 option" where
  "parsed_u64 v = (case parse_unsigned (2 ^ 64 - 1) v of Inl _ \<Rightarrow> None | Inr n \<Rightarrow> Some (of_nat n))"

definition u64_field :: "(string \<times> string) list \<Rightarrow> string \<Rightarrow> u64 \<Rightarrow> u64" where
  "u64_field fs k d = or_else (Option.bind (map_of fs k) parsed_u64) d"

definition u32_field :: "(string \<times> string) list \<Rightarrow> string \<Rightarrow> u32 \<Rightarrow> u32" where
  "u32_field fs k d =
     or_else (Option.bind (map_of fs k) (\<lambda>v. case parse_u32 v of Inl _ \<Rightarrow> None | Inr n \<Rightarrow> Some n)) d"

definition text_field :: "(string \<times> string) list \<Rightarrow> string \<Rightarrow> string" where
  "text_field fs k = or_else (map_of fs k) []"

definition balance_key_text :: "u64 \<Rightarrow> u16 \<Rightarrow> string" where
  "balance_key_text user_id asset_id =
     ''user:'' @ dec (unat user_id) @ '':asset:'' @ dec (unat asset_id) @ '':balance''"

definition redis_get_balance :: "('w, 'j) services \<Rightarrow> u64 \<Rightarrow> u16 \<Rightarrow> ('w, redis_balance) test" where
  "redis_get_balance sv user_id asset_id =
     tbind (ask_redis (sv_hgetall sv (balance_key_text user_id asset_id))) (\<lambda>fs.
       if fs = [] then tlift (Inl ErrVerification)
       else tret \<lparr>rb_user_id = user_id, rb_asset_id = asset_id,
              rb_available = u64_field fs ''available'' 0, rb_locked = u64_field fs ''locked'' 0,
              rb_total = u64_field fs ''total'' 0, rb_timestamp = u64_field fs ''timestamp'' 0\<rparr>)"

definition order_key_text :: "u64 \<Rightarrow> string" where
  "order_key_text order_id = ''order:'' @ dec (unat order_id)"

definition redis_get_order :: "('w, 'j) services \<Rightarrow> u64 \<Rightarrow> ('w, redis_order option) test" where
  "redis_get_order sv order_id =
     tbind (ask_redis (sv_hgetall sv (order_key_text order_id))) (\<lambda>fs.
       if fs = [] then tret None
       else tret (Some \<lparr>ro_order_id = u64_field fs ''order_id'' order_id,
              ro_user_id = u64_field fs ''user_id'' 0, ro_price = u64_field fs ''price'' 0,
              ro_size = u64_field fs ''size'' 0, ro_side = text_field fs ''side'',
              ro_timestamp = u64_field fs ''timestamp'' 0, ro_market_id = u32_field fs ''market_id'' 0,
              ro_status = text_field fs ''status''\<rparr>))"

definition trades_key_text :: "u32 \<Rightarrow> string" where
  "trades_key_text market_id = ''market:'' @ dec (unat market_id) @ '':trades''"

definition json_u64 :: "json \<Rightarrow> string \<Rightarrow> u64" where
  "json_u64 v k = or_else (as_u64 (json_at v k)) 0"

definition trade_of_json :: "json \<Rightarrow> redis_trade" where
  "trade_of_json v =
     \<lparr>rt_trade_id = dec (unat (json_u64 v ''taker_order_id'')) @ '':'' @
        dec (unat (json_u64 v ''maker_order_id'')) @ '':'' @ dec (unat (json_u64 v ''timestamp'')),
      rt_maker_user_id = json_u64 v ''maker_user_id'', rt_taker_user_id = json_u64 v ''taker_user_id'',
      rt_market_id = ucast (json_u64 v ''market_id''), rt_price = json_u64 v ''price'', rt_size = json_u64 v ''size'',
      rt_maker_order_id = json_u64 v ''maker_order_id'', rt_taker_order_id = json_u64 v ''taker_order_id'',
      rt_timestamp = json_u64 v ''timestamp''\<rparr>"

text \<open>Trades that do not parse are skipped.\<close>

definition redis_get_trades :: "('w, 'j) services \<Rightarrow> u32 \<Rightarrow> nat \<Rightarrow> ('w, redis_trade list) test" where
  "redis_get_trades sv market_id count =
     tbind (ask_redis (sv_zrevrange sv (trades_key_text market_id) 0 (int count - 1))) (\<lambda>trades.
       tret (List.map_filter (\<lambda>j. map_option trade_of_json (sv_json sv j)) trades))"

definition book_key_text :: "u32 \<Rightarrow> string" where
  "book_key_text market_id = ''orderbook:market:'' @ dec (unat market_id)"

definition levels_of_json :: "json \<Rightarrow> orderbook_level list" where
  "levels_of_json v =
     List.map_filter
       (\<lambda>level. case (as_u64 (json_at level ''price''), as_u64 (json_at level ''size'')) of
          (Some p, Some n) \<Rightarrow> Some \<lparr>ol_price = p, ol_size = n\<rparr>
        | _ \<Rightarrow> None)
       (or_else (as_array v) [])"

definition redis_get_orderbook :: "('w, 'j) services \<Rightarrow> u32 \<Rightarrow> ('w, redis_orderbook) test" where
  "redis_get_orderbook sv market_id =
     tbind (ask_redis (sv_get sv (book_key_text market_id))) (\<lambda>stored.
       case stored of
         None \<Rightarrow> tret \<lparr>rob_market_id = market_id, rob_bids = [], rob_asks = [], rob_timestamp = 0\<rparr>
       | Some j \<Rightarrow>
           (case sv_json sv j of
              None \<Rightarrow> tlift (Inl ErrParse)
            | Some ob \<Rightarrow>
                tret \<lparr>rob_market_id = ucast (or_else (as_u64 (json_at ob ''market_id'')) (ucast market_id)),
                  rob_bids = levels_of_json (json_at ob ''bids''), rob_asks = levels_of_json (json_at ob ''asks''),
                  rob_timestamp = or_else (as_u64 (json_at ob ''timestamp'')) 0\<rparr>))"

definition verify_order_in_active :: "('w, 'j) services \<Rightarrow> u32 \<Rightarrow> u64 \<Rightarrow> ('w, bool) test" where
  "verify_order_in_active sv market_id order_id =
     ask_redis (sv_sismember sv (''market:'' @ dec (unat market_id) @ '':active_orders'') (dec (unat order_id)))"

definition verify_order_in_cancelled :: "('w, 'j) services \<Rightarrow> u32 \<Rightarrow> u64 \<Rightarrow> ('w, bool) test" where
  "verify_order_in_cancelled sv market_id order_id =
     ask_redis (sv_sismember sv (''market:'' @ dec (unat market_id) @ '':cancelled_orders'') (dec (unat order_id)))"

subsection \<open>Waiting\<close>

text \<open>
  The loops that wait ask, look at the clock and sleep 50 milliseconds, until the answer is there or the
  time is over. The attempt gives the answer, or nothing when it is not there yet; its errors count as
  nothing.
\<close>

partial_function (option) poll ::
    "('w, 'j) services \<Rightarrow> ('w, 'a option) test \<Rightarrow> nat \<Rightarrow> nat \<Rightarrow> 'w \<Rightarrow> ('a test_result \<times> 'w) option" where
  "poll sv attempt start limit w =
     Option.bind (attempt w) (\<lambda>(r, w).
       case r of
         Inr (Some a) \<Rightarrow> Some (Inr a, w)
       | _ \<Rightarrow>
           (if limit < sv_now sv w - start then Some (Inl (ErrTimeout limit), w)
            else poll sv attempt start limit (sv_sleep sv 50 w)))"

definition wait_until :: "('w, 'j) services \<Rightarrow> ('w, 'a option) test \<Rightarrow> nat \<Rightarrow> ('w, 'a) test" where
  "wait_until sv attempt limit w = poll sv attempt (sv_now sv w) limit w"

definition wait_for_balance_update ::
    "('w, 'j) services \<Rightarrow> u64 \<Rightarrow> u16 \<Rightarrow> nat \<Rightarrow> ('w, redis_balance) test" where
  "wait_for_balance_update sv user_id asset_id limit =
     wait_until sv (tbind (redis_get_balance sv user_id asset_id) (\<lambda>b. tret (Some b))) limit"

definition wait_for_order :: "('w, 'j) services \<Rightarrow> u64 \<Rightarrow> nat \<Rightarrow> ('w, redis_order) test" where
  "wait_for_order sv order_id limit = wait_until sv (redis_get_order sv order_id) limit"

definition wait_for_trade ::
    "('w, 'j) services \<Rightarrow> u32 \<Rightarrow> trade_criteria \<Rightarrow> nat \<Rightarrow> ('w, redis_trade) test" where
  "wait_for_trade sv market_id criteria limit =
     wait_until sv (tbind (redis_get_trades sv market_id 100) (\<lambda>ts. tret (find (tc_matches criteria) ts))) limit"

text \<open>
  \<^verbatim>\<open>tokio::time::timeout\<close> around a loop without a look at the clock: it ends at the first point of waiting
  that is over only after the deadline.
\<close>

partial_function (option) await_orderbook ::
    "('w, 'j) services \<Rightarrow> u32 \<Rightarrow> nat \<Rightarrow> nat \<Rightarrow> 'w \<Rightarrow> (redis_orderbook test_result \<times> 'w) option" where
  "await_orderbook sv market_id deadline limit w =
     Option.bind (redis_get_orderbook sv market_id w) (\<lambda>(r, w).
       if deadline < sv_now sv w then Some (Inl (ErrTimeout limit), w)
       else
         (case r of
            Inr ob \<Rightarrow>
              (if 0 < rob_timestamp ob then Some (Inr ob, w)
               else
                 (let w = sv_sleep sv 50 w
                  in if deadline < sv_now sv w then Some (Inl (ErrTimeout limit), w)
                     else await_orderbook sv market_id deadline limit w))
          | Inl e \<Rightarrow>
              (let w = sv_sleep sv 50 w
               in if deadline < sv_now sv w then Some (Inl (ErrTimeout limit), w)
                  else await_orderbook sv market_id deadline limit w)))"

definition wait_for_orderbook_update :: "('w, 'j) services \<Rightarrow> u32 \<Rightarrow> nat \<Rightarrow> ('w, redis_orderbook) test" where
  "wait_for_orderbook_update sv market_id limit w = await_orderbook sv market_id (sv_now sv w + limit) limit w"

subsection \<open>Cleaning up\<close>

partial_function (option) scan_and_delete ::
    "('w, 'j) services \<Rightarrow> string \<Rightarrow> u64 \<Rightarrow> 'w \<Rightarrow> (unit test_result \<times> 'w) option" where
  "scan_and_delete sv pattern cursor w =
     Option.bind (ask_redis (sv_scan sv cursor pattern 100) w) (\<lambda>(r, w).
       case r of
         Inl e \<Rightarrow> Some (Inl e, w)
       | Inr (new_cursor, keys) \<Rightarrow>
           Option.bind (if keys = [] then Some (Inr (), w) else ask_redis (sv_del sv keys) w) (\<lambda>(r, w).
             case r of
               Inl e \<Rightarrow> Some (Inl e, w)
             | Inr _ \<Rightarrow>
                 (if new_cursor = 0 then Some (Inr (), w) else scan_and_delete sv pattern new_cursor w)))"

definition cleanup_test_data :: "('w, 'j) services \<Rightarrow> string \<Rightarrow> ('w, unit) test" where
  "cleanup_test_data sv prefix = scan_and_delete sv (prefix @ ''*'') 0"

section \<open>The client\<close>

record test_client =
  cl_timeout :: nat
  cl_client_id :: u8

definition test_client_new ::
    "('w, 'j) services \<Rightarrow> u8 \<Rightarrow> nat \<Rightarrow> string \<Rightarrow> u16 \<Rightarrow> u16 \<Rightarrow> ('w, test_client) test" where
  "test_client_new sv client_id timeout core_address core_port core_control_port w =
     (let config = gateway_test_defaults\<lparr>gn_gateway_id := client_id, gn_core_address := core_address,
            gn_core_port := core_port, gn_core_control_port := core_control_port\<rparr>
      in case sv_connect sv config w of
           (None, w) \<Rightarrow> Some (Inl ErrNetwork, w)
         | (Some _, w) \<Rightarrow> Some (Inr \<lparr>cl_timeout = timeout, cl_client_id = client_id\<rparr>, w))"

definition client_send :: "('w, 'j) services \<Rightarrow> order_command \<Rightarrow> ('w, unit) test" where
  "client_send sv cmd w =
     (case sv_send sv cmd w of (None, w) \<Rightarrow> Some (Inl ErrNetwork, w) | (Some _, w) \<Rightarrow> Some (Inr (), w))"

definition client_recv_timeout :: "('w, 'j) services \<Rightarrow> nat \<Rightarrow> ('w, order_command) test" where
  "client_recv_timeout sv timeout w =
     (case sv_recv sv timeout w of
        (Received response, w) \<Rightarrow> Some (Inr response, w)
      | (RecvTimeout, w) \<Rightarrow> Some (Inl (ErrTimeout timeout), w)
      | (Disconnected, w) \<Rightarrow> Some (Inl ErrNetwork, w))"

definition client_recv :: "('w, 'j) services \<Rightarrow> test_client \<Rightarrow> ('w, order_command) test" where
  "client_recv sv cl = client_recv_timeout sv (cl_timeout cl)"

definition send_and_recv :: "('w, 'j) services \<Rightarrow> test_client \<Rightarrow> order_command \<Rightarrow> ('w, order_command) test" where
  "send_and_recv sv cl cmd = tbind (client_send sv cmd) (\<lambda>_. client_recv sv cl)"

definition send_and_recv_timeout :: "('w, 'j) services \<Rightarrow> order_command \<Rightarrow> nat \<Rightarrow> ('w, order_command) test" where
  "send_and_recv_timeout sv cmd timeout = tbind (client_send sv cmd) (\<lambda>_. client_recv_timeout sv timeout)"

definition set_timeout :: "nat \<Rightarrow> test_client \<Rightarrow> test_client" where
  "set_timeout timeout cl = cl\<lparr>cl_timeout := timeout\<rparr>"

partial_function (option) drain_responses ::
    "('w, 'j) services \<Rightarrow> order_command list \<Rightarrow> 'w \<Rightarrow> (order_command list test_result \<times> 'w) option" where
  "drain_responses sv responses w =
     (case sv_recv sv 10 w of
        (Received response, w) \<Rightarrow> drain_responses sv (responses @ [response]) w
      | (_, w) \<Rightarrow> Some (Inr responses, w))"

section \<open>The context of a test\<close>

record 'w test_context =
  tx_client :: test_client
  tx_market_id :: u32
  tx_base_asset_id :: u16
  tx_quote_asset_id :: u16
  tx_users :: "(u64 \<times> user_state) list"
  tx_config :: test_config
  tx_world :: 'w

definition outside :: "('w, 'a) test \<Rightarrow> ('w test_context, 'a) test" where
  "outside m cx = map_option (\<lambda>(r, w). (r, cx\<lparr>tx_world := w\<rparr>)) (m (tx_world cx))"

definition with_config :: "('w, 'j) services \<Rightarrow> test_config \<Rightarrow> 'w \<Rightarrow> ('w test_context test_result \<times> 'w) option" where
  "with_config sv config =
     tbind (test_client_new sv 0 (tcf_default_timeout config) (tcf_core_address config) (tcf_core_port config)
         (tcf_core_control_port config)) (\<lambda>client.
     tbind (redis_new sv (tcf_redis_host config) (tcf_redis_port config)) (\<lambda>_ w.
       Some (Inr \<lparr>tx_client = client, tx_market_id = tcf_market_id config,
         tx_base_asset_id = tcf_base_asset_id config, tx_quote_asset_id = tcf_quote_asset_id config,
         tx_users = [], tx_config = config, tx_world = w\<rparr>, w)))"

definition context_new :: "('w, 'j) services \<Rightarrow> 'w \<Rightarrow> ('w test_context test_result \<times> 'w) option" where
  "context_new sv = with_config sv test_config_default"

text \<open>\<^verbatim>\<open>user(..)\<close> gives a reference: here the change made through it is an argument.\<close>

definition change_user :: "u64 \<Rightarrow> (user_state \<Rightarrow> user_state) \<Rightarrow> 'w test_context \<Rightarrow> 'w test_context" where
  "change_user user_id f cx =
     cx\<lparr>tx_users := AList.update user_id (f (or_else (map_of (tx_users cx) user_id) (user_state_new user_id))) (tx_users cx)\<rparr>"

definition execute_command :: "('w, 'j) services \<Rightarrow> order_command \<Rightarrow> ('w test_context, order_command) test" where
  "execute_command sv cmd cx = outside (send_and_recv sv (tx_client cx) cmd) cx"

definition execute_command_timeout ::
    "('w, 'j) services \<Rightarrow> order_command \<Rightarrow> nat \<Rightarrow> ('w test_context, order_command) test" where
  "execute_command_timeout sv cmd timeout = outside (send_and_recv_timeout sv cmd timeout)"

definition fund_user :: "('w, 'j) services \<Rightarrow> u64 \<Rightarrow> u64 \<Rightarrow> u16 \<Rightarrow> ('w test_context, unit) test" where
  "fund_user sv user_id amount asset_id cx =
     tbind (execute_command sv (mk_deposit_funds user_id amount asset_id)) (\<lambda>response.
     after [tlift (ensure (c_status response = Processed) ErrVerification)] (
     tbind (outside (wait_for_balance_update sv user_id asset_id (tcf_redis_event_timeout (tx_config cx)))) (\<lambda>b.
     after [tlift (ensure (rb_total b = amount) ErrVerification)] (
     \<lambda>cx. Some (Inr (), change_user user_id (set_expected_balance asset_id (from_total amount)) cx))))) cx"

definition for_all :: "('a \<Rightarrow> ('s, unit) test) \<Rightarrow> 'a list \<Rightarrow> ('s, unit) test" where
  "for_all f xs = steps (map f xs)"

definition cleanup :: "('w, 'j) services \<Rightarrow> ('w test_context, unit) test" where
  "cleanup sv cx =
     tbind (outside (drain_responses sv [])) (\<lambda>_.
     steps
       [for_all (\<lambda>(user_id, _). outside (cleanup_test_data sv (''user:'' @ dec (unat user_id)))) (tx_users cx),
        outside (cleanup_test_data sv (''market:'' @ dec (unat (tx_market_id cx)))),
        outside (cleanup_test_data sv (book_key_text (tx_market_id cx)))]) cx"

definition verify_invariants :: "('w, 'j) services \<Rightarrow> ('w test_context, unit) test" where
  "verify_invariants sv cx =
     for_all (\<lambda>(_, us).
       for_all (\<lambda>(asset_id, _).
           tbind (outside (redis_get_balance sv (us_user_id us) asset_id)) (\<lambda>b. tlift (verify_invariant b)))
         (us_expected_balances us))
       (tx_users cx) cx"

end
