(* ===== verification/Test_World.thy ===== *)
theory Test_World
  imports Test_Client
begin

text \<open>
  An instance of the parameter \<open>services\<close> of the integration tests: a Redis that answers from what is stored in
  it, and no core behind the client's channel. Who stores the balances, trades and books (the service that
  reads the Kafka topics) is not part of the repository; nothing here writes them. A stored JSON text is
  its value. The instance shows that the contracts the framework relies on can hold, and serves the
  examples.
\<close>

section \<open>Redis\<close>

record redis_state =
  rs_clock :: nat
  rs_hashes :: "string \<Rightarrow> (string \<times> string) list"
  rs_trades :: "string \<Rightarrow> json list"
  rs_books :: "string \<Rightarrow> json option"

definition redis_start :: redis_state where
  "redis_start = \<lparr>rs_clock = 1000, rs_hashes = (\<lambda>_. []), rs_trades = (\<lambda>_. []), rs_books = Map.empty\<rparr>"

definition del_keys :: "string list \<Rightarrow> redis_state \<Rightarrow> redis_state" where
  "del_keys keys w = w\<lparr>rs_hashes := (\<lambda>k. if k \<in> set keys then [] else rs_hashes w k),
     rs_trades := (\<lambda>k. if k \<in> set keys then [] else rs_trades w k),
     rs_books := (\<lambda>k. if k \<in> set keys then None else rs_books w k)\<rparr>"

text \<open>A command is not taken and no response comes; waiting for one takes the time it is given.\<close>

definition redis_only :: "(redis_state, json) services" where
  "redis_only = \<lparr>sv_connect = (\<lambda>_ w. (Some (), w)), sv_send = (\<lambda>_ w. (None, w)),
     sv_recv = (\<lambda>timeout w. (RecvTimeout, w\<lparr>rs_clock := rs_clock w + timeout\<rparr>)), sv_open = (\<lambda>_ w. (Some (), w)),
     sv_hgetall = (\<lambda>key w. (Some (rs_hashes w key), w)),
     sv_zrevrange = (\<lambda>key i j w. (Some (take (nat (j - i + 1)) (drop (nat i) (rs_trades w key))), w)),
     sv_get = (\<lambda>key w. (Some (rs_books w key), w)), sv_sismember = (\<lambda>_ _ w. (Some False, w)),
     sv_scan = (\<lambda>_ _ _ w. (Some (0, []), w)), sv_del = (\<lambda>keys w. (Some (), del_keys keys w)), sv_json = Some,
     sv_now = rs_clock, sv_sleep = (\<lambda>ms w. w\<lparr>rs_clock := rs_clock w + ms\<rparr>)\<rparr>"

lemma redis_simps:
  "sv_connect redis_only config w = (Some (), w)" "sv_send redis_only cmd w = (None, w)"
  "sv_recv redis_only timeout w = (RecvTimeout, w\<lparr>rs_clock := rs_clock w + timeout\<rparr>)"
  "sv_open redis_only url w = (Some (), w)" "sv_hgetall redis_only key w = (Some (rs_hashes w key), w)"
  "sv_zrevrange redis_only key i j w = (Some (take (nat (j - i + 1)) (drop (nat i) (rs_trades w key))), w)"
  "sv_get redis_only key w = (Some (rs_books w key), w)" "sv_json redis_only = Some" "sv_now redis_only = rs_clock"
  "sv_scan redis_only cursor pattern n w = (Some (0, []), w)" "sv_del redis_only keys w = (Some (), del_keys keys w)"
  "sv_sleep redis_only ms w = w\<lparr>rs_clock := rs_clock w + ms\<rparr>"
  by (simp_all add: redis_only_def)

section \<open>Stored texts\<close>

definition num :: "u64 \<Rightarrow> json" where
  "num n = JNumber (Some n)"

definition levels_json :: "(u64 \<times> u64) list \<Rightarrow> json" where
  "levels_json ls = JArray (map (\<lambda>(p, n). JObject [(''price'', num p), (''size'', num n)]) ls)"

definition book_json :: "u32 \<Rightarrow> (u64 \<times> u64) list \<Rightarrow> (u64 \<times> u64) list \<Rightarrow> u64 \<Rightarrow> json" where
  "book_json m bids asks timestamp = JObject
     [(''market_id'', num (ucast m)), (''bids'', levels_json bids), (''asks'', levels_json asks),
      (''timestamp'', num timestamp)]"

end
