(* ===== verification/Test_Verifiers.thy ===== *)
theory Test_Verifiers
  imports Test_Client
begin

text \<open>
  \<^verbatim>\<open>xtask/src/verifiers\<close>: what the integration tests check, in a response of the core, and in the balances,
  the order book and the trades that Redis shows. The verifiers of Redis hold the reader they borrow; here
  the services are their first argument.
\<close>

section \<open>Responses\<close>

definition assert_status :: "order_command \<Rightarrow> status \<Rightarrow> unit test_result" where
  "assert_status response expected = ensure (c_status response = expected) ErrAssertion"

definition assert_order_id_assigned :: "order_command \<Rightarrow> unit test_result" where
  "assert_order_id_assigned response = ensure (c_order_id response \<noteq> 0) ErrAssertion"

definition assert_timestamp_set :: "order_command \<Rightarrow> unit test_result" where
  "assert_timestamp_set response = ensure (c_timestamp response \<noteq> 0) ErrAssertion"

definition assert_size :: "order_command \<Rightarrow> u64 \<Rightarrow> unit test_result" where
  "assert_size response expected = ensure (c_size response = expected) ErrAssertion"

definition assert_size_reduced :: "u64 \<Rightarrow> order_command \<Rightarrow> unit test_result" where
  "assert_size_reduced original_size response = ensure (\<not> original_size \<le> c_size response) ErrAssertion"

definition assert_size_zero :: "order_command \<Rightarrow> unit test_result" where
  "assert_size_zero response = ensure (c_size response = 0) ErrAssertion"

definition assert_size_unchanged :: "u64 \<Rightarrow> order_command \<Rightarrow> unit test_result" where
  "assert_size_unchanged original_size response = ensure (c_size response = original_size) ErrAssertion"

definition assert_price :: "order_command \<Rightarrow> u64 \<Rightarrow> unit test_result" where
  "assert_price response expected = ensure (c_price response = expected) ErrAssertion"

definition assert_price_adjusted_from_market :: "order_command \<Rightarrow> unit test_result" where
  "assert_price_adjusted_from_market response =
     ensure (\<not> (c_price response = u64_MAX \<or> c_price response = 0)) ErrAssertion"

definition assert_user_id :: "order_command \<Rightarrow> u64 \<Rightarrow> unit test_result" where
  "assert_user_id response expected = ensure (c_user_id response = expected) ErrAssertion"

definition assert_market_id :: "order_command \<Rightarrow> u32 \<Rightarrow> unit test_result" where
  "assert_market_id response expected = ensure (c_market_id response = expected) ErrAssertion"

definition assert_client_order_id :: "order_command \<Rightarrow> u64 \<Rightarrow> unit test_result" where
  "assert_client_order_id response expected = ensure (c_client_order_id response = expected) ErrAssertion"

definition assert_placed :: "order_command \<Rightarrow> unit test_result" where
  "assert_placed response = checks
     [assert_status response Placed, assert_order_id_assigned response, assert_timestamp_set response]"

definition assert_filled :: "order_command \<Rightarrow> unit test_result" where
  "assert_filled response = checks
     [assert_status response Filled, assert_order_id_assigned response, assert_timestamp_set response,
      assert_size_zero response]"

definition assert_partially_filled :: "order_command \<Rightarrow> u64 \<Rightarrow> unit test_result" where
  "assert_partially_filled response original_size = checks
     [assert_status response PartiallyFilled, assert_order_id_assigned response, assert_timestamp_set response,
      assert_size_reduced original_size response]"

definition assert_cancelled :: "order_command \<Rightarrow> unit test_result" where
  "assert_cancelled response = checks [assert_status response Cancelled]"

definition assert_rejected :: "order_command \<Rightarrow> unit test_result" where
  "assert_rejected response = checks [assert_status response Rejected]"

definition assert_gtc_placed_no_match ::
    "order_command \<Rightarrow> u64 \<Rightarrow> u32 \<Rightarrow> u64 \<Rightarrow> u64 \<Rightarrow> unit test_result" where
  "assert_gtc_placed_no_match response expected_user expected_market expected_price expected_size = checks
     [assert_placed response, assert_user_id response expected_user, assert_market_id response expected_market,
      assert_price response expected_price, assert_size response expected_size]"

definition assert_order_fully_filled :: "order_command \<Rightarrow> u64 \<Rightarrow> u32 \<Rightarrow> unit test_result" where
  "assert_order_fully_filled response expected_user expected_market = checks
     [assert_filled response, assert_user_id response expected_user, assert_market_id response expected_market]"

definition assert_order_partially_filled :: "order_command \<Rightarrow> u64 \<Rightarrow> u64 \<Rightarrow> u32 \<Rightarrow> unit test_result" where
  "assert_order_partially_filled response original_size expected_user expected_market = checks
     [assert_partially_filled response original_size, assert_user_id response expected_user,
      assert_market_id response expected_market]"

lemmas response_checks = assert_status_def assert_order_id_assigned_def assert_timestamp_set_def assert_size_def
  assert_size_reduced_def assert_size_zero_def assert_price_def assert_user_id_def assert_market_id_def
  assert_placed_def assert_filled_def assert_partially_filled_def assert_cancelled_def assert_rejected_def
  assert_gtc_placed_no_match_def assert_order_fully_filled_def assert_order_partially_filled_def

section \<open>Balances\<close>

text \<open>Asking for a balance and checking it.\<close>

definition check_balance ::
    "('w, 'j) services \<Rightarrow> u64 \<Rightarrow> u16 \<Rightarrow> (redis_balance \<Rightarrow> unit test_result) \<Rightarrow> ('w, unit) test" where
  "check_balance sv user_id asset_id f = tbind (redis_get_balance sv user_id asset_id) (\<lambda>b. tlift (f b))"

definition balance_as_expected :: "expected_balance \<Rightarrow> redis_balance \<Rightarrow> unit test_result" where
  "balance_as_expected expected actual = checks
     [ensure (rb_available actual = eb_available expected) ErrVerification,
      ensure (rb_locked actual = eb_locked expected) ErrVerification,
      ensure (rb_total actual = eb_total expected) ErrVerification]"

definition assert_balance_eq :: "('w, 'j) services \<Rightarrow> u64 \<Rightarrow> u16 \<Rightarrow> expected_balance \<Rightarrow> ('w, unit) test" where
  "assert_balance_eq sv user_id asset_id expected =
     check_balance sv user_id asset_id (balance_as_expected expected)"

definition assert_locked_eq :: "('w, 'j) services \<Rightarrow> u64 \<Rightarrow> u16 \<Rightarrow> u64 \<Rightarrow> ('w, unit) test" where
  "assert_locked_eq sv user_id asset_id expected =
     check_balance sv user_id asset_id (\<lambda>b. ensure (rb_locked b = expected) ErrVerification)"

definition assert_available_eq :: "('w, 'j) services \<Rightarrow> u64 \<Rightarrow> u16 \<Rightarrow> u64 \<Rightarrow> ('w, unit) test" where
  "assert_available_eq sv user_id asset_id expected =
     check_balance sv user_id asset_id (\<lambda>b. ensure (rb_available b = expected) ErrVerification)"

definition assert_total_eq :: "('w, 'j) services \<Rightarrow> u64 \<Rightarrow> u16 \<Rightarrow> u64 \<Rightarrow> ('w, unit) test" where
  "assert_total_eq sv user_id asset_id expected =
     check_balance sv user_id asset_id (\<lambda>b. ensure (rb_total b = expected) ErrVerification)"

definition assert_balance_invariant :: "('w, 'j) services \<Rightarrow> u64 \<Rightarrow> u16 \<Rightarrow> ('w, unit) test" where
  "assert_balance_invariant sv user_id asset_id = check_balance sv user_id asset_id verify_invariant"

definition wait_and_assert_balance ::
    "('w, 'j) services \<Rightarrow> u64 \<Rightarrow> u16 \<Rightarrow> expected_balance \<Rightarrow> nat \<Rightarrow> ('w, unit) test" where
  "wait_and_assert_balance sv user_id asset_id expected timeout =
     tbind (wait_for_balance_update sv user_id asset_id timeout) (\<lambda>b. tlift (ensure
       (\<not> (rb_available b \<noteq> eb_available expected \<or> rb_locked b \<noteq> eb_locked expected \<or> rb_total b \<noteq> eb_total expected))
       ErrVerification))"

definition assert_available_increased_by ::
    "('w, 'j) services \<Rightarrow> u64 \<Rightarrow> u16 \<Rightarrow> u64 \<Rightarrow> u64 \<Rightarrow> ('w, unit) test" where
  "assert_available_increased_by sv user_id asset_id previous increase =
     check_balance sv user_id asset_id (\<lambda>b. ensure (rb_available b = previous + increase) ErrVerification)"

definition assert_available_decreased_by ::
    "('w, 'j) services \<Rightarrow> u64 \<Rightarrow> u16 \<Rightarrow> u64 \<Rightarrow> u64 \<Rightarrow> ('w, unit) test" where
  "assert_available_decreased_by sv user_id asset_id previous decrease =
     check_balance sv user_id asset_id (\<lambda>b. ensure (rb_available b = previous - decrease) ErrVerification)"

definition assert_locked_increased_by ::
    "('w, 'j) services \<Rightarrow> u64 \<Rightarrow> u16 \<Rightarrow> u64 \<Rightarrow> u64 \<Rightarrow> ('w, unit) test" where
  "assert_locked_increased_by sv user_id asset_id previous increase =
     check_balance sv user_id asset_id (\<lambda>b. ensure (rb_locked b = previous + increase) ErrVerification)"

definition assert_locked_decreased_by ::
    "('w, 'j) services \<Rightarrow> u64 \<Rightarrow> u16 \<Rightarrow> u64 \<Rightarrow> u64 \<Rightarrow> ('w, unit) test" where
  "assert_locked_decreased_by sv user_id asset_id previous decrease =
     check_balance sv user_id asset_id (\<lambda>b. ensure (rb_locked b = previous - decrease) ErrVerification)"

section \<open>The order book\<close>

definition check_book ::
    "('w, 'j) services \<Rightarrow> u32 \<Rightarrow> (redis_orderbook \<Rightarrow> unit test_result) \<Rightarrow> ('w, unit) test" where
  "check_book sv market_id f = tbind (redis_get_orderbook sv market_id) (\<lambda>ob. tlift (f ob))"

definition levels_on :: "side \<Rightarrow> redis_orderbook \<Rightarrow> orderbook_level list" where
  "levels_on s ob = (case s of Bid \<Rightarrow> rob_bids ob | Ask \<Rightarrow> rob_asks ob)"

definition assert_orderbook_depth :: "('w, 'j) services \<Rightarrow> u32 \<Rightarrow> nat \<Rightarrow> nat \<Rightarrow> ('w, unit) test" where
  "assert_orderbook_depth sv market_id bid_levels ask_levels =
     check_book sv market_id (\<lambda>ob. checks
       [ensure (length (rob_bids ob) = bid_levels) ErrVerification,
        ensure (length (rob_asks ob) = ask_levels) ErrVerification])"

definition best_of :: "orderbook_level list \<Rightarrow> u64 option" where
  "best_of levels = (case levels of [] \<Rightarrow> None | l # _ \<Rightarrow> Some (ol_price l))"

definition assert_best_prices :: "('w, 'j) services \<Rightarrow> u32 \<Rightarrow> u64 option \<Rightarrow> u64 option \<Rightarrow> ('w, unit) test" where
  "assert_best_prices sv market_id best_bid best_ask =
     check_book sv market_id (\<lambda>ob. checks
       [ensure (best_of (rob_bids ob) = best_bid) ErrVerification,
        ensure (best_of (rob_asks ob) = best_ask) ErrVerification])"

definition assert_level :: "('w, 'j) services \<Rightarrow> u32 \<Rightarrow> side \<Rightarrow> u64 \<Rightarrow> u64 \<Rightarrow> ('w, unit) test" where
  "assert_level sv market_id s price expected_volume =
     check_book sv market_id (\<lambda>ob.
       case find (\<lambda>l. ol_price l = price) (levels_on s ob) of
         None \<Rightarrow> Inl ErrVerification
       | Some l \<Rightarrow> ensure (ol_size l = expected_volume) ErrVerification)"

definition wait_and_assert_depth :: "('w, 'j) services \<Rightarrow> u32 \<Rightarrow> nat \<Rightarrow> nat \<Rightarrow> nat \<Rightarrow> ('w, unit) test" where
  "wait_and_assert_depth sv market_id bid_levels ask_levels timeout =
     tbind (wait_for_orderbook_update sv market_id timeout) (\<lambda>ob. tlift (ensure
       (\<not> (length (rob_bids ob) \<noteq> bid_levels \<or> length (rob_asks ob) \<noteq> ask_levels)) ErrVerification))"

definition assert_empty :: "('w, 'j) services \<Rightarrow> u32 \<Rightarrow> ('w, unit) test" where
  "assert_empty sv market_id = assert_orderbook_depth sv market_id 0 0"

definition saturating_sub :: "u64 \<Rightarrow> u64 \<Rightarrow> u64" where
  "saturating_sub a b = (if b \<le> a then a - b else 0)"

definition assert_spread :: "('w, 'j) services \<Rightarrow> u32 \<Rightarrow> u64 \<Rightarrow> ('w, unit) test" where
  "assert_spread sv market_id expected_spread =
     check_book sv market_id (\<lambda>ob.
       case (rob_bids ob, rob_asks ob) of
         (bid # _, ask # _) \<Rightarrow> ensure (saturating_sub (ol_price ask) (ol_price bid) = expected_spread) ErrVerification
       | _ \<Rightarrow> Inl ErrVerification)"

definition calculate_side_volume :: "('w, 'j) services \<Rightarrow> u32 \<Rightarrow> side \<Rightarrow> ('w, u64) test" where
  "calculate_side_volume sv market_id s =
     tbind (redis_get_orderbook sv market_id) (\<lambda>ob. tret (sum_list (map ol_size (levels_on s ob))))"

definition windows2 :: "'a list \<Rightarrow> ('a \<times> 'a) list" where
  "windows2 xs = zip xs (tl xs)"

definition bids_sorted :: "redis_orderbook \<Rightarrow> unit test_result" where
  "bids_sorted ob = checks (map (\<lambda>(x, y). ensure (\<not> ol_price x < ol_price y) ErrVerification) (windows2 (rob_bids ob)))"

definition asks_sorted :: "redis_orderbook \<Rightarrow> unit test_result" where
  "asks_sorted ob = checks (map (\<lambda>(x, y). ensure (\<not> ol_price y < ol_price x) ErrVerification) (windows2 (rob_asks ob)))"

definition assert_bids_sorted :: "('w, 'j) services \<Rightarrow> u32 \<Rightarrow> ('w, unit) test" where
  "assert_bids_sorted sv market_id = check_book sv market_id bids_sorted"

definition assert_asks_sorted :: "('w, 'j) services \<Rightarrow> u32 \<Rightarrow> ('w, unit) test" where
  "assert_asks_sorted sv market_id = check_book sv market_id asks_sorted"

definition level_there :: "side \<Rightarrow> u64 \<Rightarrow> u64 \<Rightarrow> redis_orderbook \<Rightarrow> unit option" where
  "level_there s price expected_volume ob =
     (case find (\<lambda>l. ol_price l = price) (levels_on s ob) of
        None \<Rightarrow> None
      | Some l \<Rightarrow> if ol_size l = expected_volume then Some () else None)"

definition wait_and_assert_level ::
    "('w, 'j) services \<Rightarrow> u32 \<Rightarrow> side \<Rightarrow> u64 \<Rightarrow> u64 \<Rightarrow> nat \<Rightarrow> ('w, unit) test" where
  "wait_and_assert_level sv market_id s price expected_volume timeout =
     wait_until sv (tbind (redis_get_orderbook sv market_id) (\<lambda>ob. tret (level_there s price expected_volume ob))) timeout"

section \<open>Trades\<close>

definition assert_trade_exists :: "('w, 'j) services \<Rightarrow> u32 \<Rightarrow> trade_criteria \<Rightarrow> ('w, unit) test" where
  "assert_trade_exists sv market_id criteria =
     tbind (redis_get_trades sv market_id 100) (\<lambda>trades.
       tlift (ensure (list_ex (tc_matches criteria) trades) ErrVerification))"

definition assert_trade_count :: "('w, 'j) services \<Rightarrow> u32 \<Rightarrow> nat \<Rightarrow> ('w, unit) test" where
  "assert_trade_count sv market_id expected_count =
     tbind (redis_get_trades sv market_id 1000) (\<lambda>trades.
       tlift (ensure (length trades = expected_count) ErrVerification))"

definition assert_min_trade_count :: "('w, 'j) services \<Rightarrow> u32 \<Rightarrow> nat \<Rightarrow> ('w, unit) test" where
  "assert_min_trade_count sv market_id min_count =
     tbind (redis_get_trades sv market_id (min_count + 10)) (\<lambda>trades.
       tlift (ensure (\<not> length trades < min_count) ErrVerification))"

definition assert_trade_details :: "('w, 'j) services \<Rightarrow> u32 \<Rightarrow> u64 \<Rightarrow> u64 \<Rightarrow> u64 \<Rightarrow> u64 \<Rightarrow> ('w, unit) test" where
  "assert_trade_details sv market_id maker_order_id taker_order_id price sz =
     assert_trade_exists sv market_id
       (of_size sz (at_price price (with_taker_order taker_order_id (with_maker_order maker_order_id (on_market market_id tc_new)))))"

definition wait_and_assert_trade ::
    "('w, 'j) services \<Rightarrow> u32 \<Rightarrow> trade_criteria \<Rightarrow> nat \<Rightarrow> ('w, redis_trade) test" where
  "wait_and_assert_trade sv market_id criteria timeout =
     tbind (wait_for_trade sv market_id criteria timeout) (\<lambda>trade.
       if tc_matches criteria trade then tret trade else tlift (Inl ErrVerification))"

definition assert_trade_participants :: "('w, 'j) services \<Rightarrow> u32 \<Rightarrow> u64 \<Rightarrow> u64 \<Rightarrow> ('w, unit) test" where
  "assert_trade_participants sv market_id maker_user_id taker_user_id =
     assert_trade_exists sv market_id (by_taker taker_user_id (by_maker maker_user_id (on_market market_id tc_new)))"

definition assert_trade_price :: "('w, 'j) services \<Rightarrow> u32 \<Rightarrow> u64 \<Rightarrow> ('w, unit) test" where
  "assert_trade_price sv market_id price = assert_trade_exists sv market_id (at_price price (on_market market_id tc_new))"

definition assert_trade_size :: "('w, 'j) services \<Rightarrow> u32 \<Rightarrow> u64 \<Rightarrow> ('w, unit) test" where
  "assert_trade_size sv market_id sz = assert_trade_exists sv market_id (of_size sz (on_market market_id tc_new))"

definition assert_no_trades :: "('w, 'j) services \<Rightarrow> u32 \<Rightarrow> ('w, unit) test" where
  "assert_no_trades sv market_id =
     tbind (redis_get_trades sv market_id 10) (\<lambda>trades. tlift (ensure (trades = []) ErrVerification))"

definition timestamps_ascend :: "redis_trade list \<Rightarrow> unit test_result" where
  "timestamps_ascend trades =
     checks (map (\<lambda>(x, y). ensure (\<not> rt_timestamp y < rt_timestamp x) ErrVerification) (windows2 trades))"

definition assert_trades_sorted_by_timestamp :: "('w, 'j) services \<Rightarrow> u32 \<Rightarrow> ('w, unit) test" where
  "assert_trades_sorted_by_timestamp sv market_id =
     tbind (redis_get_trades sv market_id 100) (\<lambda>trades. tlift (timestamps_ascend trades))"

definition get_trade_by_orders :: "('w, 'j) services \<Rightarrow> u32 \<Rightarrow> u64 \<Rightarrow> u64 \<Rightarrow> ('w, redis_trade option) test" where
  "get_trade_by_orders sv market_id maker_order_id taker_order_id =
     tbind (redis_get_trades sv market_id 100) (\<lambda>trades.
       tret (find (\<lambda>t. rt_maker_order_id t = maker_order_id \<and> rt_taker_order_id t = taker_order_id) trades))"

definition calculate_total_volume :: "('w, 'j) services \<Rightarrow> u32 \<Rightarrow> ('w, u64) test" where
  "calculate_total_volume sv market_id =
     tbind (redis_get_trades sv market_id 1000) (\<lambda>trades. tret (sum_list (map rt_size trades)))"

section \<open>Invariants of the whole system\<close>

text \<open>Where an error is of the kind \<^verbatim>\<open>Verification\<close> some checks go on as if they had passed.\<close>

definition unless_verification :: "('s, unit) test \<Rightarrow> ('s, unit) test" where
  "unless_verification m s =
     Option.bind (m s) (\<lambda>(r, s'). Some (if r = Inl ErrVerification then Inr () else r, s'))"

text \<open>All balances that are there; one that is not found is skipped.\<close>

definition each_balance ::
    "(redis_balance \<Rightarrow> unit test_result) \<Rightarrow> ('w, 'j) services \<Rightarrow> u64 list \<Rightarrow> u16 list \<Rightarrow> ('w, unit) test" where
  "each_balance f sv users assets =
     for_all (\<lambda>user_id. for_all (\<lambda>asset_id w.
       Option.bind (redis_get_balance sv user_id asset_id w) (\<lambda>(r, w').
         case r of
           Inr b \<Rightarrow> Some (f b, w')
         | Inl e \<Rightarrow> Some (if e = ErrVerification then Inr () else Inl e, w'))) assets) users"

definition verify_balance_consistency :: "('w, 'j) services \<Rightarrow> u64 list \<Rightarrow> u16 list \<Rightarrow> ('w, unit) test" where
  "verify_balance_consistency =
     each_balance (\<lambda>b. case verify_invariant b of Inl _ \<Rightarrow> Inl ErrVerification | Inr _ \<Rightarrow> Inr ())"

definition verify_no_negative_balances :: "('w, 'j) services \<Rightarrow> u64 list \<Rightarrow> u16 list \<Rightarrow> ('w, unit) test" where
  "verify_no_negative_balances =
     each_balance (\<lambda>b. checks
       [ensure (\<not> rb_total b < rb_available b) ErrVerification, ensure (\<not> rb_total b < rb_locked b) ErrVerification])"

definition verify_orderbook_ordering :: "('w, 'j) services \<Rightarrow> u32 \<Rightarrow> ('w, unit) test" where
  "verify_orderbook_ordering sv market_id =
     check_book sv market_id (\<lambda>ob. checks [bids_sorted ob, asks_sorted ob])"

definition verify_orderbook_no_cross :: "('w, 'j) services \<Rightarrow> u32 \<Rightarrow> ('w, unit) test" where
  "verify_orderbook_no_cross sv market_id =
     check_book sv market_id (\<lambda>ob.
       case (rob_bids ob, rob_asks ob) of
         (bid # _, ask # _) \<Rightarrow> ensure (\<not> ol_price ask < ol_price bid) ErrVerification
       | _ \<Rightarrow> Inr ())"

definition verify_trade_timestamp_ordering :: "('w, 'j) services \<Rightarrow> u32 \<Rightarrow> ('w, unit) test" where
  "verify_trade_timestamp_ordering sv market_id =
     tbind (redis_get_trades sv market_id 1000) (\<lambda>trades. tlift (timestamps_ascend trades))"

definition verify_trade_sizes_positive :: "('w, 'j) services \<Rightarrow> u32 \<Rightarrow> ('w, unit) test" where
  "verify_trade_sizes_positive sv market_id =
     tbind (redis_get_trades sv market_id 1000) (\<lambda>trades.
       tlift (checks (map (\<lambda>t. ensure (rt_size t \<noteq> 0) ErrVerification) trades)))"

definition verify_trade_prices_valid :: "('w, 'j) services \<Rightarrow> u32 \<Rightarrow> ('w, unit) test" where
  "verify_trade_prices_valid sv market_id =
     tbind (redis_get_trades sv market_id 1000) (\<lambda>trades.
       tlift (checks (map (\<lambda>t. ensure (\<not> (rt_price t = 0 \<or> rt_price t = u64_MAX)) ErrVerification) trades)))"

definition verify_all :: "('w, 'j) services \<Rightarrow> u32 \<Rightarrow> u64 list \<Rightarrow> u16 list \<Rightarrow> ('w, unit) test" where
  "verify_all sv market_id users assets = steps
     [verify_balance_consistency sv users assets,
      verify_no_negative_balances sv users assets,
      unless_verification (verify_orderbook_ordering sv market_id),
      unless_verification (verify_orderbook_no_cross sv market_id),
      \<lambda>w. Option.bind (redis_get_trades sv market_id 1 w) (\<lambda>(r, w').
        case r of
          Inr (_ # _) \<Rightarrow>
            steps [verify_trade_timestamp_ordering sv market_id, verify_trade_sizes_positive sv market_id,
              verify_trade_prices_valid sv market_id] w'
        | _ \<Rightarrow> Some (Inr (), w'))]"

end
