(* ===== verification/Test_Gtc.thy ===== *)
theory Test_Gtc
  imports Test_Verifiers
begin

text \<open>
  Scenarios of the integration tests: deposits (\<^verbatim>\<open>xtask/src/scenarios/balance.rs\<close>) and limit orders good till
  cancelled (\<^verbatim>\<open>scenarios/gtc.rs\<close>). A scenario is a test over the context; a suite funds the users and runs
  its sections, measuring the time of each. Log output is left out.
\<close>

section \<open>Suites\<close>

definition sleep_ms :: "('w, 'j) services \<Rightarrow> nat \<Rightarrow> ('w test_context, unit) test" where
  "sleep_ms sv ms = outside (pause sv ms)"

definition run_section ::
    "('w, 'j) services \<Rightarrow> string \<Rightarrow> ('w test_context, unit) test \<Rightarrow> ('w test_context, scenario_result) test" where
  "run_section sv name m cx =
     (let start = sv_now sv (tx_world cx)
      in Option.bind (m cx) (\<lambda>(r, cx').
           let duration = sv_now sv (tx_world cx') - start
           in case r of
                Inr _ \<Rightarrow> Some (Inr (sr_passed name duration), cx')
              | Inl e \<Rightarrow> Some (Inr (sr_failed name duration e), cx')))"

text \<open>The sections of a suite, up to the first that fails.\<close>

fun run_sections ::
    "('w, 'j) services \<Rightarrow> (string \<times> ('w test_context, unit) test) list \<Rightarrow> scenario_result list \<Rightarrow>
     ('w test_context, scenario_result list) test" where
  "run_sections sv [] results = tret results"
| "run_sections sv ((name, m) # ms) results =
     tbind (run_section sv name m) (\<lambda>r.
       if sr_success r then run_sections sv ms (results @ [r]) else tret (results @ [r]))"

text \<open>All the scenarios, whether they fail or not.\<close>

fun run_each ::
    "('w, 'j) services \<Rightarrow> (string \<times> ('w test_context, unit) test) list \<Rightarrow> scenario_result list \<Rightarrow>
     ('w test_context, scenario_result list) test" where
  "run_each sv [] results = tret results"
| "run_each sv ((name, m) # ms) results =
     tbind (run_section sv name m) (\<lambda>r. run_each sv ms (results @ [r]))"

text \<open>Three users with both assets.\<close>

definition fund_all :: "('w, 'j) services \<Rightarrow> u64 \<Rightarrow> u64 \<Rightarrow> ('w test_context, unit) test list" where
  "fund_all sv usd btc =
     [fund_user sv ALICE usd USD, fund_user sv ALICE btc BTC, fund_user sv BOB usd USD, fund_user sv BOB btc BTC,
      fund_user sv CHARLIE usd USD, fund_user sv CHARLIE btc BTC]"

section \<open>Deposits\<close>

text \<open>A builder's panic is \<open>None\<close>.\<close>

definition execute_built ::
    "('w, 'j) services \<Rightarrow> order_command option \<Rightarrow> ('w test_context, order_command) test" where
  "execute_built sv built cx = Option.bind built (\<lambda>cmd. execute_command sv cmd cx)"

definition test_single_deposit :: "('w, 'j) services \<Rightarrow> ('w test_context, unit) test" where
  "test_single_deposit sv cx =
     (let amount = 1000000; redis_timeout = tcf_redis_event_timeout (tx_config cx)
      in tbind (execute_built sv (deposit_of ALICE amount USD)) (\<lambda>response.
         after [tlift (assert_status response Processed)] (
         tbind (outside (wait_for_balance_update sv ALICE USD redis_timeout)) (\<lambda>_.
         steps
           [outside (assert_total_eq sv ALICE USD amount), outside (assert_available_eq sv ALICE USD amount),
            outside (assert_locked_eq sv ALICE USD 0), outside (assert_balance_invariant sv ALICE USD)]))) cx)"

definition test_multiple_deposits_same_asset :: "('w, 'j) services \<Rightarrow> ('w test_context, unit) test" where
  "test_multiple_deposits_same_asset sv cx =
     (let deposit1 = 500000; deposit2 = 300000; deposit3 = 200000; expected_total = deposit1 + deposit2 + deposit3;
          redis_timeout = tcf_redis_event_timeout (tx_config cx)
      in tbind (execute_built sv (deposit_of BOB deposit1 USD)) (\<lambda>response1.
         after
           [tlift (assert_status response1 Processed),
            outside (wait_and_assert_balance sv BOB USD (from_total deposit1) redis_timeout)] (
         tbind (execute_built sv (deposit_of BOB deposit2 USD)) (\<lambda>response2.
         after [tlift (assert_status response2 Processed), sleep_ms sv 100] (
         tbind (execute_built sv (deposit_of BOB deposit3 USD)) (\<lambda>response3.
         steps
           [tlift (assert_status response3 Processed), sleep_ms sv 100,
            outside (assert_total_eq sv BOB USD expected_total), outside (assert_balance_invariant sv BOB USD)]))))) cx)"

definition test_deposits_different_assets :: "('w, 'j) services \<Rightarrow> ('w test_context, unit) test" where
  "test_deposits_different_assets sv cx =
     (let timeout = tcf_redis_event_timeout (tx_config cx); usd_amount = 1000000; btc_amount = 100
      in tbind (execute_built sv (deposit_of CHARLIE usd_amount USD)) (\<lambda>usd_response.
         after [tlift (assert_status usd_response Processed), sleep_ms sv 100] (
         tbind (execute_built sv (deposit_of CHARLIE btc_amount BTC)) (\<lambda>btc_response.
         after [tlift (assert_status btc_response Processed)] (
         tbind (outside (wait_for_balance_update sv CHARLIE BTC timeout)) (\<lambda>_.
         steps
           [outside (assert_total_eq sv CHARLIE USD usd_amount), outside (assert_total_eq sv CHARLIE BTC btc_amount),
            outside (assert_balance_invariant sv CHARLIE USD), outside (assert_balance_invariant sv CHARLIE BTC)]))))) cx)"

definition balance_run_all :: "('w, 'j) services \<Rightarrow> ('w test_context, scenario_result list) test" where
  "balance_run_all sv = run_each sv
     [(''single_deposit'', test_single_deposit sv),
      (''multiple_deposits_same_asset'', test_multiple_deposits_same_asset sv),
      (''deposits_different_assets'', test_deposits_different_assets sv)] []"

section \<open>Orders good till cancelled\<close>

definition test_gtc_no_match :: "('w, 'j) services \<Rightarrow> ('w test_context, unit) test" where
  "test_gtc_no_match sv cx =
     (let m = tx_market_id cx; price = LOW_PRICE; sz = 10; redis_timeout = tcf_redis_event_timeout (tx_config cx);
          order_cmd = limit_order ALICE price sz Bid m
      in after [fund_user sv ALICE 1000000 USD] (
         tbind (execute_command sv order_cmd) (\<lambda>response.
         steps
           [tlift (assert_gtc_placed_no_match response ALICE m price (c_size order_cmd)), sleep_ms sv 100,
            outside (assert_locked_eq sv ALICE USD (price * sz)), outside (assert_balance_invariant sv ALICE USD),
            outside (wait_and_assert_depth sv m 1 0 redis_timeout), outside (assert_level sv m Bid price sz)])) cx)"

definition test_gtc_full_match :: "('w, 'j) services \<Rightarrow> ('w test_context, unit) test" where
  "test_gtc_full_match sv cx =
     (let m = tx_market_id cx; price = MID_PRICE; sz = 5
      in after [fund_user sv ALICE 1000 BTC, fund_user sv BOB 1000000 USD] (
         tbind (execute_command sv (limit_order ALICE price sz Ask m)) (\<lambda>maker_response.
         after [tlift (assert_placed maker_response), sleep_ms sv 200] (
         tbind (execute_command sv (limit_order BOB price sz Bid m)) (\<lambda>taker_response.
         steps
           [tlift (assert_filled taker_response), sleep_ms sv 200,
            outside (assert_trade_exists sv m
              (of_size sz (at_price price (by_taker BOB (by_maker ALICE (on_market m tc_new)))))),
            outside (assert_empty sv m)])))) cx)"

definition test_gtc_partial_match :: "('w, 'j) services \<Rightarrow> ('w test_context, unit) test" where
  "test_gtc_partial_match sv cx =
     (let m = tx_market_id cx; price = MID_PRICE; maker_size = 3; taker_size = 10;
          expected_remaining = taker_size - maker_size
      in after [fund_user sv ALICE 1000 BTC, fund_user sv BOB 1000000 USD] (
         tbind (execute_command sv (limit_order ALICE price maker_size Ask m)) (\<lambda>_.
         after [sleep_ms sv 200] (
         tbind (execute_command sv (limit_order BOB price taker_size Bid m)) (\<lambda>taker_response.
         steps
           [tlift (assert_partially_filled taker_response taker_size),
            tlift (assert_size taker_response expected_remaining), sleep_ms sv 200,
            outside (assert_trade_exists sv m (of_size maker_size (on_market m tc_new))),
            outside (assert_level sv m Bid price expected_remaining)])))) cx)"

definition gtc_no_match_section :: "('w, 'j) services \<Rightarrow> ('w test_context, unit) test" where
  "gtc_no_match_section sv cx =
     (let m = tx_market_id cx; price = LOW_PRICE; sz = 10; redis_timeout = tcf_redis_event_timeout (tx_config cx);
          order_cmd = limit_order ALICE price sz Bid m
      in tbind (execute_command sv order_cmd) (\<lambda>response.
         steps
           [tlift (assert_gtc_placed_no_match response ALICE m price (c_size order_cmd)), sleep_ms sv 100,
            outside (assert_locked_eq sv ALICE USD (price * sz)),
            outside (wait_and_assert_depth sv m 1 0 redis_timeout), outside (assert_level sv m Bid price sz)]) cx)"

definition gtc_full_match_section :: "('w, 'j) services \<Rightarrow> ('w test_context, unit) test" where
  "gtc_full_match_section sv cx =
     (let m = tx_market_id cx; price = MID_PRICE; sz = 5
      in tbind (execute_command sv (limit_order BOB price sz Ask m)) (\<lambda>maker_response.
         after [tlift (assert_placed maker_response), sleep_ms sv 200] (
         tbind (execute_command sv (limit_order CHARLIE price sz Bid m)) (\<lambda>taker_response.
         after [tlift (assert_filled taker_response), sleep_ms sv 500] (
         tbind (outside (wait_and_assert_trade sv m
             (with_taker_order (c_order_id taker_response) (with_maker_order (c_order_id maker_response)
               (of_size sz (at_price price (by_taker CHARLIE (by_maker BOB (on_market m tc_new))))))) 2000))
           (\<lambda>_. tret ()))))) cx)"

definition gtc_partial_match_section :: "('w, 'j) services \<Rightarrow> ('w test_context, unit) test" where
  "gtc_partial_match_section sv cx =
     (let m = tx_market_id cx; price = MID_PRICE; maker_size = 3; taker_size = 10;
          expected_remaining = taker_size - maker_size; redis_timeout = tcf_redis_event_timeout (tx_config cx)
      in tbind (execute_command sv (limit_order ALICE price maker_size Ask m)) (\<lambda>_.
         after [sleep_ms sv 200] (
         tbind (execute_command sv (limit_order BOB price taker_size Bid m)) (\<lambda>taker_response.
         steps
           [tlift (assert_partially_filled taker_response taker_size),
            tlift (assert_size taker_response expected_remaining), sleep_ms sv 200,
            outside (assert_trade_exists sv m (of_size maker_size (on_market m tc_new))),
            outside (wait_and_assert_level sv m Bid price expected_remaining redis_timeout)]))) cx)"

definition gtc_run_all :: "('w, 'j) services \<Rightarrow> ('w test_context, scenario_result list) test" where
  "gtc_run_all sv =
     after (fund_all sv 10000000 1000)
       (run_sections sv
         [(''gtc_no_match'', gtc_no_match_section sv),
          (''gtc_full_match'', gtc_full_match_section sv),
          (''gtc_partial_match'', gtc_partial_match_section sv)] [])"

end
