(* ===== verification/Test_Ioc_Fok.thy ===== *)
theory Test_Ioc_Fok
  imports Test_Gtc
begin

text \<open>
  Scenarios of the integration tests: immediate or cancel (\<^verbatim>\<open>xtask/src/scenarios/ioc.rs\<close>) and fill or kill
  (\<^verbatim>\<open>scenarios/fok.rs\<close>), market orders of both kinds among them.
\<close>

section \<open>Immediate or cancel\<close>

definition ioc_no_match_section :: "('w, 'j) services \<Rightarrow> ('w test_context, unit) test" where
  "ioc_no_match_section sv cx =
     (let m = tx_market_id cx; price = LOW_PRICE; sz = 5
      in tbind (outside (redis_get_balance sv ALICE USD)) (\<lambda>initial_balance.
         tbind (execute_command sv (ioc_order ALICE price sz Bid m)) (\<lambda>response.
         after
           [tlift (assert_cancelled response), sleep_ms sv 100, outside (assert_locked_eq sv ALICE USD 0)] (
         tbind (outside (redis_get_balance sv ALICE USD)) (\<lambda>current_balance.
         steps
           [tlift (ensure (rb_total current_balance = rb_total initial_balance) ErrVerification),
            outside (assert_empty sv m)])))) cx)"

definition ioc_full_match_section :: "('w, 'j) services \<Rightarrow> ('w test_context, unit) test" where
  "ioc_full_match_section sv cx =
     (let m = tx_market_id cx; price = MID_PRICE; sz = 8
      in tbind (execute_command sv (limit_order BOB price sz Ask m)) (\<lambda>maker_response.
         after [tlift (assert_placed maker_response), sleep_ms sv 200] (
         tbind (execute_command sv (ioc_order ALICE price sz Bid m)) (\<lambda>taker_response.
         after [tlift (assert_filled taker_response), sleep_ms sv 200] (
         tbind (outside (wait_and_assert_trade sv m
             (with_taker_order (c_order_id taker_response) (with_maker_order (c_order_id maker_response)
               (of_size sz (at_price price (by_taker ALICE (by_maker BOB (on_market m tc_new))))))) 2000)) (\<lambda>_.
         outside (assert_empty sv m)))))) cx)"

definition ioc_partial_match_section :: "('w, 'j) services \<Rightarrow> ('w test_context, unit) test" where
  "ioc_partial_match_section sv cx =
     (let m = tx_market_id cx; price = MID_PRICE; maker_size = 3; taker_size = 10; filled_size = maker_size
      in tbind (execute_command sv (limit_order CHARLIE price maker_size Ask m)) (\<lambda>maker_response.
         after [tlift (assert_placed maker_response), sleep_ms sv 200] (
         tbind (execute_command sv (ioc_order BOB price taker_size Bid m)) (\<lambda>taker_response.
         steps
           [tlift (assert_partially_filled taker_response taker_size), sleep_ms sv 200,
            outside (assert_trade_exists sv m (of_size filled_size (by_taker BOB (by_maker CHARLIE (on_market m tc_new))))),
            outside (assert_empty sv m)]))) cx)"

definition ioc_multiple_levels_section :: "('w, 'j) services \<Rightarrow> ('w test_context, unit) test" where
  "ioc_multiple_levels_section sv cx =
     (let m = tx_market_id cx; level1_price = MID_PRICE; level2_price = MID_PRICE + 1000;
          level3_price = MID_PRICE + 2000; redis_timeout = tcf_redis_event_timeout (tx_config cx);
          trade = \<lambda>maker taker price sz. outside (assert_trade_exists sv m (of_size sz (at_price price
            (with_taker_order (c_order_id taker) (with_maker_order (c_order_id maker) (on_market m tc_new))))))
      in tbind (execute_command sv (limit_order BOB level1_price 2 Ask m)) (\<lambda>response1.
         after [sleep_ms sv 100] (
         tbind (execute_command sv (limit_order CHARLIE level2_price 3 Ask m)) (\<lambda>response2.
         after [sleep_ms sv 100] (
         tbind (execute_command sv (limit_order BOB level3_price 4 Ask m)) (\<lambda>response3.
         after [sleep_ms sv 200, outside (wait_and_assert_depth sv m 0 3 redis_timeout)] (
         tbind (execute_command sv (ioc_order ALICE HIGH_PRICE 6 Bid m)) (\<lambda>ioc_response.
         steps
           [tlift (assert_filled ioc_response), sleep_ms sv 200, outside (assert_min_trade_count sv m 5),
            trade response1 ioc_response level1_price 2, trade response2 ioc_response level2_price 3,
            trade response3 ioc_response level3_price 1,
            outside (wait_and_assert_depth sv m 0 1 redis_timeout), outside (assert_level sv m Ask level3_price 3)]))))))) cx)"

definition market_buy_section :: "('w, 'j) services \<Rightarrow> ('w test_context, unit) test" where
  "market_buy_section sv cx =
     (let m = tx_market_id cx; best_ask_price = 53000; second_ask_price = 54000; buy_size = 4;
          redis_timeout = tcf_redis_event_timeout (tx_config cx)
      in tbind (execute_command sv (limit_order ALICE 52000 3 Bid m)) (\<lambda>_.
         after [sleep_ms sv 150] (
         tbind (execute_command sv (limit_order CHARLIE best_ask_price 5 Ask m)) (\<lambda>ask1_response.
         after [sleep_ms sv 100] (
         tbind (execute_command sv (limit_order BOB second_ask_price 5 Ask m)) (\<lambda>ask2_response.
         after [sleep_ms sv 200, outside (wait_and_assert_depth sv m 0 2 redis_timeout)] (
         tbind (outside (redis_get_balance sv ALICE USD)) (\<lambda>initial_usd_balance.
         tbind (outside (redis_get_balance sv ALICE BTC)) (\<lambda>initial_btc_balance.
         tbind (execute_command sv (market_order ALICE buy_size Bid m)) (\<lambda>market_response.
         after
           [tlift (assert_filled market_response), sleep_ms sv 200,
            outside (assert_trade_exists sv m (of_size buy_size (at_price best_ask_price
              (with_taker_order (c_order_id market_response) (with_maker_order (c_order_id ask1_response)
                (on_market m tc_new)))))),
            sleep_ms sv 100] (
         tbind (outside (redis_get_balance sv ALICE USD)) (\<lambda>final_usd_balance.
         tbind (outside (redis_get_balance sv ALICE BTC)) (\<lambda>final_btc_balance.
         let actual_cost = best_ask_price * buy_size;
             taker_fee_btc = buy_size * 10 div 10000;
             expected_btc_received = buy_size - taker_fee_btc;
             actual_btc_received = rb_available final_btc_balance - rb_available initial_btc_balance;
             usd_spent = rb_available initial_usd_balance - rb_available final_usd_balance
         in steps
           [tlift (ensure (actual_btc_received = expected_btc_received) ErrVerification),
            tlift (ensure (usd_spent = actual_cost) ErrVerification),
            outside (wait_and_assert_depth sv m 0 2 redis_timeout),
            outside (assert_level sv m Ask best_ask_price 1), outside (assert_level sv m Ask second_ask_price 5)])))))))))))) cx)"

definition market_sell_section :: "('w, 'j) services \<Rightarrow> ('w test_context, unit) test" where
  "market_sell_section sv cx =
     (let m = tx_market_id cx; best_bid_price = 52000; second_bid_price = 51000; sell_size = 10;
          redis_timeout = tcf_redis_event_timeout (tx_config cx)
      in tbind (execute_command sv (limit_order ALICE best_bid_price 100 Bid m)) (\<lambda>bid1_response.
         after [sleep_ms sv 100] (
         tbind (execute_command sv (limit_order BOB second_bid_price 100 Bid m)) (\<lambda>bid2_response.
         after [sleep_ms sv 200, outside (wait_and_assert_depth sv m 2 2 redis_timeout)] (
         tbind (outside (redis_get_balance sv CHARLIE USD)) (\<lambda>initial_usd_balance.
         tbind (outside (redis_get_balance sv CHARLIE BTC)) (\<lambda>initial_btc_balance.
         tbind (execute_command sv (market_order CHARLIE sell_size Ask m)) (\<lambda>market_response.
         after
           [tlift (assert_filled market_response), sleep_ms sv 200,
            outside (assert_trade_exists sv m (of_size sell_size (at_price best_bid_price
              (with_taker_order (c_order_id market_response) (with_maker_order (c_order_id bid1_response)
                (on_market m tc_new)))))),
            sleep_ms sv 100] (
         tbind (outside (redis_get_balance sv CHARLIE USD)) (\<lambda>final_usd_balance.
         tbind (outside (redis_get_balance sv CHARLIE BTC)) (\<lambda>final_btc_balance.
         let gross_revenue = best_bid_price * sell_size;
             taker_fee_btc = sell_size * 10 div 10000;
             btc_sold = rb_available initial_btc_balance - rb_available final_btc_balance;
             usd_received = rb_available final_usd_balance - rb_available initial_usd_balance
         in steps
           [tlift (ensure (btc_sold = sell_size + taker_fee_btc) ErrVerification),
            tlift (ensure (usd_received = gross_revenue) ErrVerification),
            outside (wait_and_assert_depth sv m 2 2 redis_timeout),
            outside (assert_level sv m Bid best_bid_price 90), outside (assert_level sv m Bid second_bid_price 100)])))))))))) cx)"

definition ioc_run_all :: "('w, 'j) services \<Rightarrow> ('w test_context, scenario_result list) test" where
  "ioc_run_all sv =
     after (fund_all sv 10000000 1000)
       (run_sections sv
         [(''ioc_no_match'', ioc_no_match_section sv), (''ioc_full_match'', ioc_full_match_section sv),
          (''ioc_partial_match'', ioc_partial_match_section sv),
          (''ioc_multiple_levels'', ioc_multiple_levels_section sv),
          (''market_buy'', market_buy_section sv), (''market_sell'', market_sell_section sv)] [])"

section \<open>Fill or kill\<close>

definition fok_no_match_section :: "('w, 'j) services \<Rightarrow> ('w test_context, unit) test" where
  "fok_no_match_section sv cx =
     (let m = tx_market_id cx; price = LOW_PRICE; sz = 5
      in tbind (outside (redis_get_balance sv ALICE USD)) (\<lambda>initial_balance.
         tbind (execute_command sv (fok_order ALICE price sz Bid m)) (\<lambda>response.
         after
           [tlift (assert_cancelled response), sleep_ms sv 100, outside (assert_locked_eq sv ALICE USD 0)] (
         tbind (outside (redis_get_balance sv ALICE USD)) (\<lambda>current_balance.
         steps
           [tlift (ensure (rb_total current_balance = rb_total initial_balance) ErrVerification),
            outside (assert_empty sv m)])))) cx)"

definition fok_insufficient_liquidity_section :: "('w, 'j) services \<Rightarrow> ('w test_context, unit) test" where
  "fok_insufficient_liquidity_section sv cx =
     (let m = tx_market_id cx; price = MID_PRICE; maker_size = 3; fok_size = 5;
          redis_timeout = tcf_redis_event_timeout (tx_config cx)
      in tbind (execute_command sv (limit_order BOB price maker_size Ask m)) (\<lambda>maker_response.
         after
           [tlift (assert_placed maker_response), sleep_ms sv 500,
            outside (wait_and_assert_depth sv m 0 1 redis_timeout)] (
         tbind (execute_command sv (fok_order ALICE price fok_size Bid m)) (\<lambda>fok_response.
         steps
           [tlift (assert_cancelled fok_response), sleep_ms sv 200, outside (assert_level sv m Ask price maker_size)]))) cx)"

definition fok_exact_match_section :: "('w, 'j) services \<Rightarrow> ('w test_context, unit) test" where
  "fok_exact_match_section sv cx =
     (let m = tx_market_id cx; price = MID_PRICE; sz = 6
      in tbind (execute_command sv (ioc_order ALICE price 3 Bid m)) (\<lambda>_.
         after [sleep_ms sv 300] (
         tbind (execute_command sv (limit_order CHARLIE price sz Ask m)) (\<lambda>maker_response.
         after [tlift (assert_placed maker_response), sleep_ms sv 200] (
         tbind (execute_command sv (fok_order ALICE price sz Bid m)) (\<lambda>fok_response.
         after [tlift (assert_filled fok_response), sleep_ms sv 200] (
         tbind (outside (wait_and_assert_trade sv m
             (with_taker_order (c_order_id fok_response) (with_maker_order (c_order_id maker_response)
               (of_size sz (at_price price (by_taker ALICE (by_maker CHARLIE (on_market m tc_new))))))) 2000)) (\<lambda>_.
         outside (assert_empty sv m)))))))) cx)"

definition fok_excess_liquidity_section :: "('w, 'j) services \<Rightarrow> ('w test_context, unit) test" where
  "fok_excess_liquidity_section sv cx =
     (let m = tx_market_id cx; price = MID_PRICE; maker_size = 10; fok_size = 7; remaining = maker_size - fok_size
      in tbind (execute_command sv (limit_order BOB price maker_size Ask m)) (\<lambda>maker_response.
         after [tlift (assert_placed maker_response), sleep_ms sv 200] (
         tbind (execute_command sv (fok_order ALICE price fok_size Bid m)) (\<lambda>fok_response.
         steps
           [tlift (assert_filled fok_response), sleep_ms sv 200,
            outside (assert_trade_exists sv m (of_size fok_size (by_taker ALICE (by_maker BOB (on_market m tc_new))))),
            outside (assert_level sv m Ask price remaining)]))) cx)"

definition fok_multiple_levels_section :: "('w, 'j) services \<Rightarrow> ('w test_context, unit) test" where
  "fok_multiple_levels_section sv cx =
     (let m = tx_market_id cx; level1_price = MID_PRICE; level2_price = MID_PRICE + 1000;
          level3_price = MID_PRICE + 2000; redis_timeout = tcf_redis_event_timeout (tx_config cx);
          trade = \<lambda>maker taker price sz. outside (assert_trade_exists sv m (of_size sz (at_price price
            (with_taker_order (c_order_id taker) (with_maker_order (c_order_id maker) (on_market m tc_new))))))
      in tbind (execute_command sv (ioc_order ALICE level1_price 3 Bid m)) (\<lambda>_.
         after [sleep_ms sv 300] (
         tbind (execute_command sv (limit_order CHARLIE level1_price 2 Ask m)) (\<lambda>response1.
         after [sleep_ms sv 100] (
         tbind (execute_command sv (limit_order BOB level2_price 3 Ask m)) (\<lambda>response2.
         after [sleep_ms sv 100] (
         tbind (execute_command sv (limit_order CHARLIE level3_price 2 Ask m)) (\<lambda>response3.
         after [sleep_ms sv 200, outside (wait_and_assert_depth sv m 0 3 redis_timeout)] (
         tbind (execute_command sv (fok_order ALICE HIGH_PRICE 7 Bid m)) (\<lambda>fok_response.
         steps
           [tlift (assert_filled fok_response), sleep_ms sv 200, trade response1 fok_response level1_price 2,
            trade response2 fok_response level2_price 3, trade response3 fok_response level3_price 2,
            outside (assert_empty sv m)]))))))))) cx)"

definition market_buy_fok_section :: "('w, 'j) services \<Rightarrow> ('w test_context, unit) test" where
  "market_buy_fok_section sv cx =
     (let m = tx_market_id cx; best_ask_price = 53000; second_ask_price = 54000; buy_size_1 = 4; buy_size_2 = 10;
          redis_timeout = tcf_redis_event_timeout (tx_config cx)
      in tbind (execute_command sv (limit_order CHARLIE best_ask_price 5 Ask m)) (\<lambda>ask1_response.
         after [sleep_ms sv 100] (
         tbind (execute_command sv (limit_order BOB second_ask_price 5 Ask m)) (\<lambda>_.
         after [sleep_ms sv 200, outside (wait_and_assert_depth sv m 0 2 redis_timeout)] (
         tbind (execute_command sv (fok_order ALICE u64_MAX buy_size_1 Bid m)) (\<lambda>response1.
         after
           [tlift (assert_filled response1), sleep_ms sv 200,
            outside (assert_trade_exists sv m (of_size buy_size_1 (at_price best_ask_price
              (with_taker_order (c_order_id response1) (with_maker_order (c_order_id ask1_response) (on_market m tc_new)))))),
            outside (wait_and_assert_depth sv m 0 2 redis_timeout),
            outside (assert_level sv m Ask best_ask_price 1), outside (assert_level sv m Ask second_ask_price 5)] (
         tbind (execute_command sv (fok_order BOB u64_MAX buy_size_2 Bid m)) (\<lambda>response2.
         steps
           [tlift (assert_cancelled response2), sleep_ms sv 100,
            outside (assert_level sv m Ask best_ask_price 1), outside (assert_level sv m Ask second_ask_price 5)]))))))) cx)"

definition market_sell_fok_section :: "('w, 'j) services \<Rightarrow> ('w test_context, unit) test" where
  "market_sell_fok_section sv cx =
     (let m = tx_market_id cx; best_bid_price = 52000; second_bid_price = 51000; sell_size_1 = 10; sell_size_2 = 200;
          redis_timeout = tcf_redis_event_timeout (tx_config cx)
      in tbind (execute_command sv (limit_order ALICE best_bid_price 100 Bid m)) (\<lambda>bid1_response.
         after [sleep_ms sv 100] (
         tbind (execute_command sv (limit_order BOB second_bid_price 100 Bid m)) (\<lambda>_.
         after [sleep_ms sv 200, outside (wait_and_assert_depth sv m 2 2 redis_timeout)] (
         tbind (execute_command sv (fok_order CHARLIE 0 sell_size_1 Ask m)) (\<lambda>response1.
         after
           [tlift (assert_filled response1), sleep_ms sv 200,
            outside (assert_trade_exists sv m (of_size sell_size_1 (at_price best_bid_price
              (with_taker_order (c_order_id response1) (with_maker_order (c_order_id bid1_response) (on_market m tc_new)))))),
            outside (wait_and_assert_depth sv m 2 2 redis_timeout),
            outside (assert_level sv m Bid best_bid_price 90), outside (assert_level sv m Bid second_bid_price 100)] (
         tbind (execute_command sv (fok_order ALICE 0 sell_size_2 Ask m)) (\<lambda>response2.
         steps
           [tlift (assert_cancelled response2), sleep_ms sv 100,
            outside (assert_level sv m Bid best_bid_price 90), outside (assert_level sv m Bid second_bid_price 100)]))))))) cx)"

definition fok_run_all :: "('w, 'j) services \<Rightarrow> ('w test_context, scenario_result list) test" where
  "fok_run_all sv =
     after (fund_all sv 10000000 1000)
       (run_sections sv
         [(''fok_no_match'', fok_no_match_section sv),
          (''fok_insufficient_liquidity'', fok_insufficient_liquidity_section sv),
          (''fok_exact_match'', fok_exact_match_section sv), (''fok_excess_liquidity'', fok_excess_liquidity_section sv),
          (''fok_multiple_levels'', fok_multiple_levels_section sv),
          (''market_buy_fok'', market_buy_fok_section sv), (''market_sell_fok'', market_sell_fok_section sv)] [])"

end
