(* ===== verification/Test_Sessions.thy ===== *)
theory Test_Sessions
  imports Test_Gtc
begin

text \<open>
  Scenarios of the integration tests: cancellations (\<^verbatim>\<open>xtask/src/scenarios/cancellation.rs\<close>) and the session
  that mixes everything (\<^verbatim>\<open>scenarios/comprehensive.rs\<close>).
\<close>

section \<open>Cancellations\<close>

text \<open>A level may be gone or be there with no volume.\<close>

definition level_gone :: "side \<Rightarrow> u64 \<Rightarrow> redis_orderbook \<Rightarrow> unit test_result" where
  "level_gone s price ob =
     (case find (\<lambda>l. ol_price l = price) (levels_on s ob) of
        Some l \<Rightarrow> ensure (ol_size l = 0) ErrVerification
      | None \<Rightarrow> Inr ())"

definition cancel_resting_bid_section :: "('w, 'j) services \<Rightarrow> ('w test_context, unit) test" where
  "cancel_resting_bid_section sv cx =
     (let m = tx_market_id cx; price = LOW_PRICE; sz = 5; redis_timeout = tcf_redis_event_timeout (tx_config cx);
          locked_amount = price * sz
      in tbind (outside (redis_get_balance sv ALICE USD)) (\<lambda>initial_balance.
         tbind (execute_command sv (limit_order ALICE price sz Bid m)) (\<lambda>response.
         after
           [tlift (assert_placed response), sleep_ms sv 200,
            outside (assert_locked_eq sv ALICE USD (rb_locked initial_balance + locked_amount)),
            outside (wait_and_assert_level sv m Bid price sz redis_timeout)] (
         tbind (execute_command sv (cancel_of (c_order_id response) Bid m)) (\<lambda>cancel_response.
         steps
           [tlift (assert_cancelled cancel_response), sleep_ms sv 200,
            outside (assert_locked_eq sv ALICE USD (rb_locked initial_balance)),
            outside (check_book sv m (level_gone Bid price))])))) cx)"

definition cancel_resting_ask_section :: "('w, 'j) services \<Rightarrow> ('w test_context, unit) test" where
  "cancel_resting_ask_section sv cx =
     (let m = tx_market_id cx; price = HIGH_PRICE; sz = 8; redis_timeout = tcf_redis_event_timeout (tx_config cx)
      in tbind (outside (redis_get_balance sv BOB BTC)) (\<lambda>initial_balance.
         tbind (execute_command sv (limit_order BOB price sz Ask m)) (\<lambda>response.
         after
           [tlift (assert_placed response), sleep_ms sv 200,
            outside (assert_locked_eq sv BOB BTC (rb_locked initial_balance + sz)),
            outside (wait_and_assert_level sv m Ask price sz redis_timeout)] (
         tbind (execute_command sv (cancel_of (c_order_id response) Ask m)) (\<lambda>cancel_response.
         steps
           [tlift (assert_cancelled cancel_response), sleep_ms sv 200,
            outside (assert_locked_eq sv BOB BTC (rb_locked initial_balance)),
            outside (check_book sv m (level_gone Ask price))])))) cx)"

definition cancel_partially_filled_section :: "('w, 'j) services \<Rightarrow> ('w test_context, unit) test" where
  "cancel_partially_filled_section sv cx =
     (let m = tx_market_id cx; price = MID_PRICE; charlie_size = 10; alice_size = 3;
          remaining_size = charlie_size - alice_size; locked_amount = price * charlie_size;
          remaining_locked = price * remaining_size; redis_timeout = tcf_redis_event_timeout (tx_config cx)
      in tbind (outside (redis_get_balance sv CHARLIE USD)) (\<lambda>charlie_initial_balance.
         tbind (execute_command sv (limit_order CHARLIE price charlie_size Bid m)) (\<lambda>charlie_response.
         after
           [tlift (assert_placed charlie_response), sleep_ms sv 200,
            outside (assert_locked_eq sv CHARLIE USD (rb_locked charlie_initial_balance + locked_amount))] (
         tbind (execute_command sv (limit_order ALICE price alice_size Ask m)) (\<lambda>alice_response.
         after
           [tlift (assert_filled alice_response), sleep_ms sv 300] (
         tbind (outside (wait_and_assert_trade sv m
             (of_size alice_size (at_price price (by_taker ALICE (by_maker CHARLIE (on_market m tc_new))))) 2000)) (\<lambda>_.
         after
           [outside (assert_locked_eq sv CHARLIE USD (rb_locked charlie_initial_balance + remaining_locked)),
            outside (wait_and_assert_level sv m Bid price remaining_size redis_timeout)] (
         tbind (execute_command sv (cancel_of (c_order_id charlie_response) Bid m)) (\<lambda>cancel_response.
         steps
           [tlift (assert_cancelled cancel_response), sleep_ms sv 200,
            outside (assert_locked_eq sv CHARLIE USD (rb_locked charlie_initial_balance)),
            outside (check_book sv m (level_gone Bid price))])))))))) cx)"

definition cancel_nonexistent_order_section :: "('w, 'j) services \<Rightarrow> ('w test_context, unit) test" where
  "cancel_nonexistent_order_section sv cx =
     tbind (execute_command sv (cancel_of 999999 Bid (tx_market_id cx))) (\<lambda>cancel_response.
     tlift (ensure (c_status cancel_response = Rejected) ErrAssertion)) cx"

definition cancel_filled_order_section :: "('w, 'j) services \<Rightarrow> ('w test_context, unit) test" where
  "cancel_filled_order_section sv cx =
     (let m = tx_market_id cx; price = MID_PRICE; sz = 2
      in tbind (execute_command sv (limit_order BOB price sz Ask m)) (\<lambda>bob_response.
         after [tlift (assert_placed bob_response), sleep_ms sv 200] (
         tbind (execute_command sv (limit_order CHARLIE price sz Bid m)) (\<lambda>charlie_response.
         after [tlift (assert_filled charlie_response), sleep_ms sv 200] (
         tbind (outside (wait_and_assert_trade sv m
             (of_size sz (at_price price (by_taker CHARLIE (by_maker BOB (on_market m tc_new))))) 2000)) (\<lambda>_.
         tbind (execute_command sv (cancel_of (c_order_id bob_response) Ask m)) (\<lambda>cancel_response.
         tlift (ensure (c_status cancel_response = Rejected) ErrAssertion))))))) cx)"

definition cancel_and_replace_section :: "('w, 'j) services \<Rightarrow> ('w test_context, unit) test" where
  "cancel_and_replace_section sv cx =
     (let m = tx_market_id cx; price = LOW_PRICE; size1 = 6; size2 = 4;
          redis_timeout = tcf_redis_event_timeout (tx_config cx)
      in tbind (outside (redis_get_balance sv ALICE USD)) (\<lambda>initial_balance.
         tbind (execute_command sv (limit_order ALICE price size1 Bid m)) (\<lambda>response1.
         after
           [tlift (assert_placed response1), sleep_ms sv 200,
            outside (wait_and_assert_level sv m Bid price size1 redis_timeout)] (
         tbind (execute_command sv (cancel_of (c_order_id response1) Bid m)) (\<lambda>cancel_response.
         after [tlift (assert_cancelled cancel_response), sleep_ms sv 200] (
         tbind (execute_command sv (limit_order ALICE price size2 Bid m)) (\<lambda>response2.
         steps
           [tlift (assert_placed response2), sleep_ms sv 200,
            outside (wait_and_assert_level sv m Bid price size2 redis_timeout),
            outside (assert_locked_eq sv ALICE USD (rb_locked initial_balance + price * size2))])))))) cx)"

definition multiple_cancellations_section :: "('w, 'j) services \<Rightarrow> ('w test_context, unit) test" where
  "multiple_cancellations_section sv cx =
     (let m = tx_market_id cx; price1 = MID_PRICE; price2 = MID_PRICE + 5000; price3 = HIGH_PRICE; sz = 3;
          total_locked = sz * 3
      in tbind (outside (redis_get_balance sv BOB BTC)) (\<lambda>initial_balance.
         tbind (execute_command sv (limit_order BOB price1 sz Ask m)) (\<lambda>response1.
         after [sleep_ms sv 100] (
         tbind (execute_command sv (limit_order BOB price2 sz Ask m)) (\<lambda>response2.
         after [sleep_ms sv 100] (
         tbind (execute_command sv (limit_order BOB price3 sz Ask m)) (\<lambda>response3.
         after
           [sleep_ms sv 200, outside (assert_locked_eq sv BOB BTC (rb_locked initial_balance + total_locked)),
            outside (assert_level sv m Ask price1 sz), outside (assert_level sv m Ask price2 sz),
            outside (assert_level sv m Ask price3 sz)] (
         tbind (execute_command sv (cancel_of (c_order_id response1) Ask m)) (\<lambda>_.
         after [sleep_ms sv 150] (
         tbind (execute_command sv (cancel_of (c_order_id response2) Ask m)) (\<lambda>_.
         after [sleep_ms sv 150] (
         tbind (execute_command sv (cancel_of (c_order_id response3) Ask m)) (\<lambda>_.
         steps
           [sleep_ms sv 150, outside (assert_locked_eq sv BOB BTC (rb_locked initial_balance)),
            outside (check_book sv m (\<lambda>ob. checks (map (\<lambda>price. level_gone Ask price ob) [price1, price2, price3])))])))))))))))) cx)"

definition cancellation_run_all :: "('w, 'j) services \<Rightarrow> ('w test_context, scenario_result list) test" where
  "cancellation_run_all sv =
     after (fund_all sv 10000000 1000)
       (run_sections sv
         [(''cancel_resting_bid'', cancel_resting_bid_section sv), (''cancel_resting_ask'', cancel_resting_ask_section sv),
          (''cancel_partially_filled'', cancel_partially_filled_section sv),
          (''cancel_nonexistent_order'', cancel_nonexistent_order_section sv),
          (''cancel_filled_order'', cancel_filled_order_section sv),
          (''cancel_and_replace'', cancel_and_replace_section sv),
          (''multiple_cancellations'', multiple_cancellations_section sv)] [])"

section \<open>Everything in one session\<close>

definition build_initial_orderbook_section :: "('w, 'j) services \<Rightarrow> ('w test_context, unit) test" where
  "build_initial_orderbook_section sv cx =
     (let m = tx_market_id cx; redis_timeout = tcf_redis_event_timeout (tx_config cx)
      in tbind (execute_command sv (limit_order ALICE 45000 10 Bid m)) (\<lambda>resp1.
         after
           [tlift (assert_placed resp1), sleep_ms sv 200, outside (wait_and_assert_level sv m Bid 45000 10 redis_timeout)] (
         tbind (execute_command sv (limit_order BOB 40000 15 Bid m)) (\<lambda>resp2.
         after
           [tlift (assert_placed resp2), sleep_ms sv 200, outside (wait_and_assert_level sv m Bid 40000 15 redis_timeout)] (
         tbind (execute_command sv (limit_order CHARLIE 55000 12 Ask m)) (\<lambda>resp3.
         after
           [tlift (assert_placed resp3), sleep_ms sv 200, outside (wait_and_assert_level sv m Ask 55000 12 redis_timeout)] (
         tbind (execute_command sv (limit_order BOB 60000 8 Ask m)) (\<lambda>resp4.
         steps
           [tlift (assert_placed resp4), sleep_ms sv 200, outside (wait_and_assert_level sv m Ask 60000 8 redis_timeout),
            outside (wait_and_assert_depth sv m 2 2 redis_timeout)]))))))) cx)"

definition ioc_against_orderbook_section :: "('w, 'j) services \<Rightarrow> ('w test_context, unit) test" where
  "ioc_against_orderbook_section sv cx =
     (let m = tx_market_id cx
      in tbind (execute_command sv (ioc_order BOB 56000 5 Bid m)) (\<lambda>ioc_resp1.
         after [tlift (assert_filled ioc_resp1), sleep_ms sv 300] (
         tbind (outside (wait_and_assert_trade sv m
             (of_size 5 (at_price 55000 (by_taker BOB (by_maker CHARLIE (on_market m tc_new))))) 2000)) (\<lambda>_.
         after [outside (assert_level sv m Ask 55000 7)] (
         tbind (execute_command sv (ioc_order CHARLIE 44000 7 Ask m)) (\<lambda>ioc_resp2.
         after [tlift (assert_filled ioc_resp2), sleep_ms sv 300] (
         tbind (outside (wait_and_assert_trade sv m
             (of_size 7 (at_price 45000 (by_taker CHARLIE (by_maker ALICE (on_market m tc_new))))) 2000)) (\<lambda>_.
         outside (assert_level sv m Bid 45000 3)))))))) cx)"

definition fok_orders_section :: "('w, 'j) services \<Rightarrow> ('w test_context, unit) test" where
  "fok_orders_section sv cx =
     (let m = tx_market_id cx
      in tbind (execute_command sv (fok_order ALICE 56000 7 Bid m)) (\<lambda>fok_resp1.
         after [tlift (assert_filled fok_resp1), sleep_ms sv 300] (
         tbind (outside (wait_and_assert_trade sv m (of_size 7 (at_price 55000 (on_market m tc_new))) 2000)) (\<lambda>_.
         tbind (execute_command sv (fok_order BOB 61000 20 Bid m)) (\<lambda>fok_resp2.
         tlift (assert_cancelled fok_resp2))))) cx)"

definition cancellations_during_trading_section :: "('w, 'j) services \<Rightarrow> ('w test_context, unit) test" where
  "cancellations_during_trading_section sv cx =
     (let m = tx_market_id cx
      in tbind (execute_command sv (limit_order CHARLIE 58000 10 Ask m)) (\<lambda>ask_resp.
         after [tlift (assert_placed ask_resp), sleep_ms sv 200] (
         tbind (execute_command sv (cancel_of (c_order_id ask_resp) Ask m)) (\<lambda>cancel_resp1.
         after
           [tlift (assert_cancelled cancel_resp1), sleep_ms sv 200, outside (check_book sv m (level_gone Ask 58000))] (
         tbind (execute_command sv (limit_order BOB 42000 5 Bid m)) (\<lambda>bob_resp.
         after [sleep_ms sv 150] (
         tbind (execute_command sv (cancel_of (c_order_id bob_resp) Bid m)) (\<lambda>_. tret ()))))))) cx)"

definition mixed_order_types_stress_section :: "('w, 'j) services \<Rightarrow> ('w test_context, unit) test" where
  "mixed_order_types_stress_section sv cx =
     (let m = tx_market_id cx
      in for_all (\<lambda>i. let price = 50000 + of_nat i * 1000
           in tbind (execute_command sv (limit_order ALICE price 2 Ask m)) (\<lambda>_.
              after [sleep_ms sv 50] (
              tbind (execute_command sv (ioc_order BOB (price - 1000) 1 Bid m)) (\<lambda>_. sleep_ms sv 50)))) [0..<5] cx)"

definition edge_cases_section :: "('w, 'j) services \<Rightarrow> ('w test_context, unit) test" where
  "edge_cases_section sv cx =
     (let m = tx_market_id cx
      in tbind (execute_command sv (limit_order ALICE 48000 5 Ask m)) (\<lambda>_.
         after [sleep_ms sv 200] (
         tbind (execute_command sv (limit_order ALICE 49000 3 Bid m)) (\<lambda>_.
         after [sleep_ms sv 300] (
         tbind (outside (redis_get_trades sv m 100)) (\<lambda>all_trades.
         tlift (ensure (find (\<lambda>t. rt_maker_user_id t = ALICE \<and> rt_taker_user_id t = ALICE) all_trades = None)
           ErrVerification)))))) cx)"

definition multi_level_interactions_section :: "('w, 'j) services \<Rightarrow> ('w test_context, unit) test" where
  "multi_level_interactions_section sv cx =
     (let m = tx_market_id cx; level1_price = 65000; level2_price = 66000; level3_price = 67000;
          trade = \<lambda>price sz. outside (assert_trade_exists sv m (of_size sz (at_price price (on_market m tc_new))))
      in tbind (execute_command sv (ioc_order ALICE 64000 50 Bid m)) (\<lambda>_.
         after [sleep_ms sv 300] (
         tbind (execute_command sv (limit_order BOB level1_price 3 Ask m)) (\<lambda>_.
         after [sleep_ms sv 100] (
         tbind (execute_command sv (limit_order CHARLIE level2_price 4 Ask m)) (\<lambda>_.
         after [sleep_ms sv 100] (
         tbind (execute_command sv (limit_order BOB level3_price 5 Ask m)) (\<lambda>_.
         after [sleep_ms sv 200] (
         tbind (execute_command sv (ioc_order ALICE 68000 12 Bid m)) (\<lambda>_.
         steps
           [sleep_ms sv 300, trade level1_price 3, trade level2_price 4, trade level3_price 5]))))))))) cx)"

definition partial_fills_with_cancel_section :: "('w, 'j) services \<Rightarrow> ('w test_context, unit) test" where
  "partial_fills_with_cancel_section sv cx =
     (let m = tx_market_id cx
      in tbind (execute_command sv (ioc_order BOB 39000 50 Ask m)) (\<lambda>_.
         after [sleep_ms sv 300] (
         tbind (execute_command sv (limit_order ALICE 38000 20 Bid m)) (\<lambda>bid_resp.
         after [sleep_ms sv 200] (
         tbind (execute_command sv (ioc_order BOB 37000 6 Ask m)) (\<lambda>_.
         after [sleep_ms sv 300] (
         tbind (outside (wait_and_assert_trade sv m
             (of_size 6 (at_price 38000 (by_taker BOB (by_maker ALICE (on_market m tc_new))))) 2000)) (\<lambda>_.
         after [outside (assert_level sv m Bid 38000 14)] (
         tbind (execute_command sv (cancel_of (c_order_id bid_resp) Bid m)) (\<lambda>cancel_resp.
         steps
           [tlift (assert_cancelled cancel_resp), sleep_ms sv 200, outside (check_book sv m (level_gone Bid 38000))]))))))))) cx)"

definition final_cleanup_section :: "('w, 'j) services \<Rightarrow> ('w test_context, unit) test" where
  "final_cleanup_section sv = steps
     [outside (assert_balance_invariant sv ALICE USD), outside (assert_balance_invariant sv ALICE BTC),
      outside (assert_balance_invariant sv BOB USD), outside (assert_balance_invariant sv BOB BTC),
      outside (assert_balance_invariant sv CHARLIE USD), outside (assert_balance_invariant sv CHARLIE BTC)]"

definition comprehensive_run_all :: "('w, 'j) services \<Rightarrow> ('w test_context, scenario_result list) test" where
  "comprehensive_run_all sv =
     after (fund_all sv 50000000 5000)
       (run_sections sv
         [(''build_orderbook'', build_initial_orderbook_section sv), (''ioc_vs_liquidity'', ioc_against_orderbook_section sv),
          (''fok_orders'', fok_orders_section sv), (''active_cancellations'', cancellations_during_trading_section sv),
          (''mixed_stress_test'', mixed_order_types_stress_section sv), (''edge_cases'', edge_cases_section sv),
          (''multi_level'', multi_level_interactions_section sv), (''partial_cancel'', partial_fills_with_cancel_section sv),
          (''final_cleanup'', final_cleanup_section sv)] [])"

end
