(* ===== verification/Test_Driver.thy ===== *)
theory Test_Driver
  imports Test_Ioc_Fok Test_Sessions
begin

text \<open>
  The command \<^verbatim>\<open>integration\<close> of \<^verbatim>\<open>xtask/src/main.rs\<close> from the test context on: choosing a suite, running it,
  adding its results up, cleaning up, and the verdict. Starting the media driver and the containers before
  it and stopping them after it are calls of other programs and left out, with the log and the summary.
\<close>

datatype integration_suite =
  SuiteAll
| SuiteBalance
| SuiteGtc
| SuiteIoc
| SuiteFok
| SuiteCancellation

text \<open>The errors of this command; their texts are left out but for the two counts.\<close>

datatype xtask_error =
  IntegrationTest
| TestFailed nat nat

definition DOCKER_SERVER_IP :: string where
  "DOCKER_SERVER_IP = ''172.28.1.10''"

fun run_suite_tests ::
    "('w, 'j) services \<Rightarrow> integration_suite \<Rightarrow> ('w test_context, scenario_result list) test" where
  "run_suite_tests sv SuiteAll = comprehensive_run_all sv"
| "run_suite_tests sv SuiteBalance = balance_run_all sv"
| "run_suite_tests sv SuiteGtc = gtc_run_all sv"
| "run_suite_tests sv SuiteIoc = ioc_run_all sv"
| "run_suite_tests sv SuiteFok = fok_run_all sv"
| "run_suite_tests sv SuiteCancellation = cancellation_run_all sv"

definition docker_config :: test_config where
  "docker_config = test_config_default\<lparr>tcf_core_address := DOCKER_SERVER_IP\<rparr>"

text \<open>An error of the clean-up is only logged.\<close>

definition cleanup_ctx :: "('w, 'j) services \<Rightarrow> 'w test_context \<Rightarrow> 'w option" where
  "cleanup_ctx sv cx = map_option (\<lambda>(_, cx). tx_world cx) (cleanup sv cx)"

definition verdict :: "suite_result \<Rightarrow> xtask_error + unit" where
  "verdict su = (if is_success su then Inr () else Inl (TestFailed (su_failed su) (su_total su)))"

definition run_integration_tests ::
    "('w, 'j) services \<Rightarrow> integration_suite \<Rightarrow> bool \<Rightarrow> 'w \<Rightarrow> ((xtask_error + unit) \<times> 'w) option" where
  "run_integration_tests sv suite fail_fast w =
     Option.bind (with_config sv docker_config w) (\<lambda>(r, w).
       case r of
         Inl e \<Rightarrow> Some (Inl IntegrationTest, w)
       | Inr cx \<Rightarrow>
           (let start = sv_now sv w
            in Option.bind (run_suite_tests sv suite cx) (\<lambda>(test_result, cx).
                 case test_result of
                   Inr results \<Rightarrow>
                     (let su = foldl (\<lambda>su r. add_result r su) suite_new results;
                          su = su\<lparr>su_duration := sv_now sv (tx_world cx) - start\<rparr>
                      in Option.bind (cleanup_ctx sv cx) (\<lambda>w. Some (verdict su, w)))
                 | Inl e \<Rightarrow>
                     (if fail_fast then Option.bind (cleanup_ctx sv cx) (\<lambda>w. Some (Inl IntegrationTest, w))
                      else
                        (let su = suite_new\<lparr>su_duration := sv_now sv (tx_world cx) - start\<rparr>
                         in Option.bind (cleanup_ctx sv cx) (\<lambda>w. Some (verdict su, w)))))))"

lemma verdict_new: "verdict (suite_new\<lparr>su_duration := d\<rparr>) = Inr ()"
  by (simp add: verdict_def is_success_def suite_new_def)

lemma verdict_results:
  "verdict (foldl (\<lambda>su r. add_result r su) suite_new rs\<lparr>su_duration := d\<rparr>) = Inr () \<longleftrightarrow> list_all sr_success rs"
proof -
  have "is_success (su\<lparr>su_duration := d\<rparr>) = is_success su" for su
    by (simp add: is_success_def)
  then show ?thesis by (simp add: verdict_def suite_success_iff list_all_iff)
qed

end
