(* ===== verification/Test_E2e.thy ===== *)
theory Test_E2e
  imports Test_Driver
begin

text \<open>
  The end-to-end test of \<^verbatim>\<open>xtask\<close>: a client that sends orders and collects the ids of the responses
  (\<^verbatim>\<open>xtask/src/bin/tests/test_client.rs\<close>, the mode for correctness), and the check of the ids in the results
  file by \<^verbatim>\<open>run_correctness_task\<close> (\<^verbatim>\<open>xtask/src/main.rs\<close>). The containers the clients run in, the file and the
  parsing of its lines are left out: what a client writes is the list of its ids.
\<close>

section \<open>The client\<close>

definition correctness_order :: "u64 \<Rightarrow> u64 \<Rightarrow> order_command" where
  "correctness_order client_id i =
     \<lparr>c_command = PlaceOrder, c_client_order_id = i, c_order_id = client_id * 1000000 + i,
      c_user_id = (if i mod 2 = 0 then 1 else 2), c_market_id = (push_bit 16 1 OR 2), c_price = 150, c_size = 100,
      c_side = (if i mod 2 = 0 then Bid else Ask), c_time_in_force = Gtc, c_timestamp = 1, c_status = Processing,
      c_events = None, c_balance = (balance_default, balance_default), c_l2_data = None, c_route_gateway_id = 0,
      c_original_size = 0\<rparr>"

definition send_orders :: "('w, 'j) services \<Rightarrow> u64 \<Rightarrow> nat \<Rightarrow> ('w, unit) test" where
  "send_orders sv client_id count =
     for_all (\<lambda>i. client_send sv (correctness_order client_id (of_nat i))) [0..<count]"

text \<open>The loop of the responses: the set of ids as a list without repetitions, 30 seconds at most.\<close>

partial_function (option) collect_responses ::
    "('w, 'j) services \<Rightarrow> nat \<Rightarrow> nat \<Rightarrow> u64 list \<Rightarrow> 'w \<Rightarrow> (u64 list \<times> 'w) option" where
  "collect_responses sv count start ids w =
     (if length ids < count \<and> sv_now sv w - start < 30000 then
        (case sv_recv sv 100 w of
           (Received response, w) \<Rightarrow>
             collect_responses sv count start (List.insert (c_client_order_id response) ids) w
         | (_, w) \<Rightarrow> collect_responses sv count start ids w)
      else Some (ids, w))"

definition run_correctness_test :: "('w, 'j) services \<Rightarrow> nat \<Rightarrow> u64 \<Rightarrow> ('w, u64 list) test" where
  "run_correctness_test sv count client_id =
     tbind (send_orders sv client_id count) (\<lambda>_ w.
       map_option (\<lambda>(ids, w). (Inr (map (\<lambda>i. client_id * 1000000 + i) ids), w))
         (collect_responses sv count (sv_now sv w) [] w))"

section \<open>The check\<close>

definition DEFAULT_MSG_COUNT_PER_CLIENT :: nat where
  "DEFAULT_MSG_COUNT_PER_CLIENT = 1000"

datatype correctness_error =
  WrongCount nat nat
| MissingId u64

definition verify_received :: "nat \<Rightarrow> u64 list \<Rightarrow> correctness_error + unit" where
  "verify_received clients lines =
     (let received_ids = remdups lines; total = DEFAULT_MSG_COUNT_PER_CLIENT * clients
      in if length received_ids \<noteq> total then Inl (WrongCount total (length received_ids))
         else
           (case find (\<lambda>(c, i). of_nat c * 1000000 + of_nat i \<notin> set received_ids)
                   (List.product [0..<clients] [0..<DEFAULT_MSG_COUNT_PER_CLIENT]) of
              Some (c, i) \<Rightarrow> Inl (MissingId (of_nat i))
            | None \<Rightarrow> Inr ()))"

lemma verify_received_iff:
  "verify_received clients lines = Inr () \<longleftrightarrow>
     length (remdups lines) = 1000 * clients \<and>
     (\<forall>c<clients. \<forall>i<1000. of_nat c * 1000000 + of_nat i \<in> set lines)"
proof -
  have "verify_received clients lines = Inr () \<longleftrightarrow> length (remdups lines) = 1000 * clients \<and>
      find (\<lambda>(c, i). of_nat c * 1000000 + of_nat i \<notin> set (remdups lines)) (List.product [0..<clients] [0..<1000]) = None"
    by (simp add: verify_received_def DEFAULT_MSG_COUNT_PER_CLIENT_def Let_def split: option.split)
  then show ?thesis by (auto simp: find_None_iff)
qed

text \<open>A client writes no more ids than it sends orders.\<close>

lemma collect_at_most:
  assumes "collect_responses sv count start ids w = Some r"
  shows "length ids \<le> count \<longrightarrow> length (fst r) \<le> count"
proof (rule collect_responses.raw_induct
    [where P = "\<lambda>sv count start ids w r. length ids \<le> count \<longrightarrow> length (fst r) \<le> count", OF _ assms])
  fix collect and sv :: "('w, 'j) services" and count start ids w r
  assume IH: "\<And>sv count start ids w r. collect sv count start ids w = Some r \<Longrightarrow>
      length ids \<le> count \<longrightarrow> length (fst r) \<le> count"
    and run: "(if length ids < count \<and> sv_now sv w - start < 30000 then
        (case sv_recv sv 100 w of
           (Received response, w) \<Rightarrow> collect sv count start (List.insert (c_client_order_id response) ids) w
         | (_, w) \<Rightarrow> collect sv count start ids w)
      else Some (ids, w)) = Some r"
  have more: "length (List.insert x ids) \<le> count" if "length ids < count" for x
    using that by (simp add: List.insert_def)
  show "length ids \<le> count \<longrightarrow> length (fst r) \<le> count"
  proof (cases "length ids < count \<and> sv_now sv w - start < 30000")
    case True
    obtain a w' where recv: "sv_recv sv 100 w = (a, w')" by (rule prod.exhaust)
    show ?thesis
      using run True IH more by (cases a) (fastforce simp: recv)+
  next
    case False
    with run show ?thesis by auto
  qed
qed

lemma writes_at_most:
  assumes "run_correctness_test sv count client_id w = Some (Inr lines, w')"
  shows "length lines \<le> count"
  using assms
  by (auto simp: run_correctness_test_def tbind_def split: sum.splits Option.bind_splits dest!: collect_at_most)

text \<open>
  All clients write the same file, which creating it empties: where it holds what one client wrote, the check of
  several clients fails, although every one of them got all its responses.
\<close>

lemma several_clients_fail:
  assumes "run_correctness_test sv DEFAULT_MSG_COUNT_PER_CLIENT client_id w = Some (Inr lines, w')" "2 \<le> clients"
  shows "verify_received clients lines = Inl (WrongCount (1000 * clients) (length (remdups lines)))"
proof -
  have "length (remdups lines) \<le> 1000"
    using order_trans [OF length_remdups_leq writes_at_most [OF assms(1)]]
    by (simp add: DEFAULT_MSG_COUNT_PER_CLIENT_def)
  then show ?thesis using assms(2) by (simp add: verify_received_def DEFAULT_MSG_COUNT_PER_CLIENT_def)
qed

end
