(* ===== verification/Test_Claims.thy ===== *)
theory Test_Claims
  imports Test_World Test_E2e
begin

text \<open>
  What the framework of the integration tests promises: its loops of waiting end, and what \<^verbatim>\<open>verify_all\<close>
  looks at. The contracts of the services the framework calls are the locales \<open>ticking\<close> (the clock and
  sleeping) and \<open>quiet\<close> (the reads of Redis); the Redis of \<^verbatim>\<open>Test_World\<close> meets both.
\<close>

section \<open>Waiting\<close>

text \<open>A wait returns, with something good or with the timeout after the time is over.\<close>

definition in_time ::
    "('w, 'j) services \<Rightarrow> nat \<Rightarrow> 'w \<Rightarrow> ('a \<Rightarrow> bool) \<Rightarrow> ('a test_result \<times> 'w) option \<Rightarrow> bool" where
  "in_time sv limit w good res \<longleftrightarrow>
     (\<exists>r w'. res = Some (r, w') \<and>
       (case r of Inl e \<Rightarrow> e = ErrTimeout limit \<and> sv_now sv w + limit < sv_now sv w' | Inr a \<Rightarrow> good a))"

text \<open>An attempt that always returns, does not turn the clock back, and answers with something good.\<close>

definition steady :: "('w, 'j) services \<Rightarrow> ('w, 'a) test \<Rightarrow> ('a \<Rightarrow> bool) \<Rightarrow> bool" where
  "steady sv m good \<longleftrightarrow>
     (\<forall>w. \<exists>r w'. m w = Some (r, w') \<and> sv_now sv w \<le> sv_now sv w' \<and> (\<forall>a. r = Inr a \<longrightarrow> good a))"

lemma steadyE:
  assumes "steady sv m good"
  obtains r w' where "m w = Some (r, w')" "sv_now sv w \<le> sv_now sv w'" "\<forall>a. r = Inr a \<longrightarrow> good a"
  using assms unfolding steady_def by meson

locale ticking =
  fixes sv :: "('w, 'j) services"
  assumes sleeps: "sv_now sv w + ms \<le> sv_now sv (sv_sleep sv ms w)"
    and hgetall_clock: "sv_now sv w \<le> sv_now sv (snd (sv_hgetall sv key w))"
    and zrevrange_clock: "sv_now sv w \<le> sv_now sv (snd (sv_zrevrange sv key i j w))"
    and get_clock: "sv_now sv w \<le> sv_now sv (snd (sv_get sv key w))"
begin

lemma steady_ask:
  assumes "\<And>w. sv_now sv w \<le> sv_now sv (snd (f w))"
  shows "steady sv (ask_redis f) (\<lambda>_. True)"
  unfolding steady_def
proof
  fix w
  show "\<exists>r w'. ask_redis f w = Some (r, w') \<and> sv_now sv w \<le> sv_now sv w' \<and> (\<forall>a. r = Inr a \<longrightarrow> True)"
    using assms [of w] by (cases "f w"; cases "fst (f w)") (auto simp: ask_redis_def)
qed

lemma steady_tbind:
  assumes "steady sv m good" "\<And>a. good a \<Longrightarrow> steady sv (f a) better"
  shows "steady sv (tbind m f) better"
  unfolding steady_def
proof
  fix w
  obtain r w' where m: "m w = Some (r, w')" "sv_now sv w \<le> sv_now sv w'" "\<forall>a. r = Inr a \<longrightarrow> good a"
    by (rule steadyE [OF assms(1), of w])
  show "\<exists>r w'. tbind m f w = Some (r, w') \<and> sv_now sv w \<le> sv_now sv w' \<and> (\<forall>a. r = Inr a \<longrightarrow> better a)"
  proof (cases r)
    case (Inl e)
    then show ?thesis using m by (simp add: tbind_def)
  next
    case (Inr a)
    obtain r' w'' where "f a w' = Some (r', w'')" "sv_now sv w' \<le> sv_now sv w''" "\<forall>b. r' = Inr b \<longrightarrow> better b"
      by (rule steadyE [OF assms(2) [OF m(3) [rule_format, OF Inr]], of w'])
    then show ?thesis using m Inr by (auto simp: tbind_def)
  qed
qed

lemma steady_tret: "good a \<Longrightarrow> steady sv (tret a) good"
  by (simp add: steady_def tret_def)

lemma steady_tlift: "(\<And>a. r = Inr a \<Longrightarrow> good a) \<Longrightarrow> steady sv (tlift r) good"
  by (simp add: steady_def tlift_def)

lemmas steady_asks = steady_ask [OF hgetall_clock] steady_ask [OF zrevrange_clock] steady_ask [OF get_clock]

lemma steady_balance: "steady sv (redis_get_balance sv u a) (\<lambda>b. rb_user_id b = u \<and> rb_asset_id b = a)"
  unfolding redis_get_balance_def
  by (rule steady_tbind [OF steady_asks(1)]) (auto intro: steady_tret steady_tlift)

lemma steady_order: "steady sv (redis_get_order sv n) (\<lambda>_. True)"
  unfolding redis_get_order_def by (rule steady_tbind [OF steady_asks(1)]) (auto intro: steady_tret)

lemma steady_trades: "steady sv (redis_get_trades sv m n) (\<lambda>_. True)"
  unfolding redis_get_trades_def by (rule steady_tbind [OF steady_asks(2)]) (auto intro: steady_tret)

lemma steady_book: "steady sv (redis_get_orderbook sv m) (\<lambda>_. True)"
  unfolding redis_get_orderbook_def
  by (rule steady_tbind [OF steady_asks(3)]) (auto split: option.split intro: steady_tret steady_tlift)

lemma poll_in_time:
  assumes "steady sv attempt (\<lambda>r. \<forall>a. r = Some a \<longrightarrow> good a)"
  shows "\<exists>r w'. poll sv attempt start limit w = Some (r, w') \<and>
    (case r of Inl e \<Rightarrow> e = ErrTimeout limit \<and> start + limit < sv_now sv w' | Inr a \<Rightarrow> good a)"
proof (induction "start + limit + 1 - sv_now sv w" arbitrary: w rule: less_induct)
  case less
  obtain r w' where a: "attempt w = Some (r, w')" "sv_now sv w \<le> sv_now sv w'"
    "\<forall>a. r = Inr a \<longrightarrow> (\<forall>b. a = Some b \<longrightarrow> good b)" by (rule steadyE [OF assms, of w])
  show ?case
  proof (cases "\<exists>a. r = Inr (Some a)")
    case True
    then show ?thesis using a by (auto simp: poll.simps)
  next
    case False
    then have once: "poll sv attempt start limit w =
        (if limit < sv_now sv w' - start then Some (Inl (ErrTimeout limit), w')
         else poll sv attempt start limit (sv_sleep sv 50 w'))"
      using a(1) by (subst poll.simps) (auto split: sum.split option.split)
    show ?thesis
    proof (cases "limit < sv_now sv w' - start")
      case True
      then show ?thesis using once by auto
    next
      case False
      then have "start + limit + 1 - sv_now sv (sv_sleep sv 50 w') < start + limit + 1 - sv_now sv w"
        using sleeps [of w' 50] a(2) by linarith
      with less show ?thesis using once False by simp
    qed
  qed
qed

lemma wait_until_in_time:
  "steady sv attempt (\<lambda>r. \<forall>a. r = Some a \<longrightarrow> good a) \<Longrightarrow> in_time sv limit w good (wait_until sv attempt limit w)"
  using poll_in_time by (simp add: in_time_def wait_until_def)

lemma balance_in_time:
  "in_time sv limit w (\<lambda>b. rb_user_id b = u \<and> rb_asset_id b = a) (wait_for_balance_update sv u a limit w)"
  unfolding wait_for_balance_update_def
  by (rule wait_until_in_time) (auto intro: steady_tbind [OF steady_balance] steady_tret)

lemma order_in_time: "in_time sv limit w (\<lambda>_. True) (wait_for_order sv n limit w)"
  unfolding wait_for_order_def by (rule wait_until_in_time) (simp add: steady_order)

lemma trade_in_time: "in_time sv limit w (tc_matches c) (wait_for_trade sv m c limit w)"
  unfolding wait_for_trade_def
  by (rule wait_until_in_time) (auto intro!: steady_tbind [OF steady_trades] steady_tret simp: find_Some_iff)

lemma await_in_time:
  "\<exists>r w'. await_orderbook sv m deadline limit w = Some (r, w') \<and>
    (case r of Inl e \<Rightarrow> e = ErrTimeout limit \<and> deadline < sv_now sv w' | Inr ob \<Rightarrow> 0 < rob_timestamp ob)"
proof (induction "deadline + 1 - sv_now sv w" arbitrary: w rule: less_induct)
  case less
  obtain r w' where a: "redis_get_orderbook sv m w = Some (r, w')" "sv_now sv w \<le> sv_now sv w'"
    by (rule steadyE [OF steady_book [of m], of w])
  show ?case
  proof (cases "deadline < sv_now sv w' \<or> (\<exists>ob. r = Inr ob \<and> 0 < rob_timestamp ob)")
    case True
    then show ?thesis using a by (auto simp: await_orderbook.simps)
  next
    case False
    then have once: "await_orderbook sv m deadline limit w =
        (if deadline < sv_now sv (sv_sleep sv 50 w') then Some (Inl (ErrTimeout limit), sv_sleep sv 50 w')
         else await_orderbook sv m deadline limit (sv_sleep sv 50 w'))"
      using a(1) by (subst await_orderbook.simps) (auto simp: Let_def split: sum.split)
    have "deadline + 1 - sv_now sv (sv_sleep sv 50 w') < deadline + 1 - sv_now sv w"
      using sleeps [of w' 50] a(2) False by linarith
    with less show ?thesis using once by simp
  qed
qed

lemma orderbook_in_time:
  "in_time sv limit w (\<lambda>ob. 0 < rob_timestamp ob) (wait_for_orderbook_update sv m limit w)"
  using await_in_time by (simp add: in_time_def wait_for_orderbook_update_def)

end

interpretation live: ticking redis_only
  by unfold_locales (simp_all add: redis_simps)

section \<open>What verify\_all looks at\<close>

text \<open>A check that reads: it returns, leaves the world, and passes exactly when something holds.\<close>

definition probes :: "('w, unit) test \<Rightarrow> 'w \<Rightarrow> bool \<Rightarrow> bool" where
  "probes m w P \<longleftrightarrow> (\<exists>r. m w = Some (r, w) \<and> (r = Inr () \<longleftrightarrow> P))"

lemma probes_steps:
  "probes (steps []) w True"
  "probes m w P \<Longrightarrow> probes (steps ms) w Q \<Longrightarrow> probes (steps (m # ms)) w (P \<and> Q)"
  by (auto simp: probes_def tret_def tbind_def split: sum.split)

lemma probes_for_all:
  "(\<And>x. x \<in> set xs \<Longrightarrow> probes (f x) w (P x)) \<Longrightarrow> probes (for_all f xs) w (\<forall>x\<in>set xs. P x)"
proof (induction xs)
  case Nil
  show ?case by (simp add: for_all_def tret_def probes_def)
next
  case (Cons x xs)
  from probes_steps(2) [OF Cons.prems [of x] Cons.IH [unfolded for_all_def]] Cons.prems show ?case
    by (simp add: for_all_def)
qed

lemma sorted_windows:
  "(\<forall>(x, y)\<in>set (windows2 xs). \<not> f y < f x) \<longleftrightarrow> sorted (map f xs)" for f :: "'a \<Rightarrow> 'b::linorder"
  by (induction xs rule: induct_list012) (auto simp: windows2_def not_less intro: order_trans)

lemma timestamps_ascend_iff: "timestamps_ascend ts = Inr () \<longleftrightarrow> sorted (map rt_timestamp ts)"
  using sorted_windows [where f = rt_timestamp and xs = ts] by (auto simp: timestamps_ascend_def)

lemma checks_only:
  "\<forall>r\<in>set rs. r = Inr () \<or> r = Inl e \<Longrightarrow> checks rs = Inr () \<or> checks rs = Inl e"
  by (induction rs) (auto simp: rbind_simps)

lemma sorting_only:
  "bids_sorted ob = Inr () \<or> bids_sorted ob = Inl ErrVerification"
  "asks_sorted ob = Inr () \<or> asks_sorted ob = Inl ErrVerification"
  unfolding bids_sorted_def asks_sorted_def by (rule checks_only; auto simp: ensure_def)+

text \<open>What a stored balance and the stored trades have to be.\<close>

definition sound_balance :: "redis_balance \<Rightarrow> bool" where
  "sound_balance b \<longleftrightarrow> rb_available b + rb_locked b = rb_total b \<and> rb_available b \<le> rb_total b \<and> rb_locked b \<le> rb_total b"

definition sound_trades :: "redis_trade list \<Rightarrow> bool" where
  "sound_trades ts \<longleftrightarrow> sorted (map rt_timestamp ts) \<and> list_all (\<lambda>t. rt_size t \<noteq> 0 \<and> rt_price t \<notin> {0, u64_MAX}) ts"

definition balance_of_fields :: "u64 \<Rightarrow> u16 \<Rightarrow> (string \<times> string) list \<Rightarrow> redis_balance option" where
  "balance_of_fields u a fs =
     (if fs = [] then None
      else Some \<lparr>rb_user_id = u, rb_asset_id = a, rb_available = u64_field fs ''available'' 0,
        rb_locked = u64_field fs ''locked'' 0, rb_total = u64_field fs ''total'' 0,
        rb_timestamp = u64_field fs ''timestamp'' 0\<rparr>)"

definition trades_of_json :: "('j \<Rightarrow> json option) \<Rightarrow> 'j list \<Rightarrow> redis_trade list" where
  "trades_of_json parse js = List.map_filter (\<lambda>j. map_option trade_of_json (parse j)) js"

text \<open>Redis as it stands: hashes, sorted sets of trades from the newest on, and one stored book.\<close>

locale quiet =
  fixes sv :: "('w, 'j) services" and w :: 'w
    and hashes :: "string \<Rightarrow> (string \<times> string) list" and newest :: "string \<Rightarrow> 'j list" and book :: "'j option"
    and m :: u32
  assumes hashes: "\<And>key. sv_hgetall sv key w = (Some (hashes key), w)"
    and newest: "\<And>key i j. sv_zrevrange sv key i j w = (Some (take (nat (j - i + 1)) (drop (nat i) (newest key))), w)"
    and book: "sv_get sv (book_key_text m) w = (Some book, w)"
    and parses: "map_option (\<lambda>j. sv_json sv j = None) book \<noteq> Some True"
begin

lemma reads_trades:
  "redis_get_trades sv m n w = Some (Inr (trades_of_json (sv_json sv) (take n (newest (trades_key_text m)))), w)"
  by (simp add: redis_get_trades_def ask_redis_def tbind_def tret_def newest trades_of_json_def)

lemma reads_balance:
  "redis_get_balance sv u a w =
     Some (case balance_of_fields u a (hashes (balance_key_text u a)) of None \<Rightarrow> Inl ErrVerification | Some b \<Rightarrow> Inr b, w)"
  by (simp add: redis_get_balance_def ask_redis_def tbind_def tret_def tlift_def hashes balance_of_fields_def)

lemma reads_book: "\<exists>ob. redis_get_orderbook sv m w = Some (Inr ob, w)"
  using parses
  by (cases book) (auto simp: redis_get_orderbook_def ask_redis_def tbind_def tret_def book split: option.split)

lemma balances_probed:
  "probes (each_balance f sv users assets) w
     (\<forall>u\<in>set users. \<forall>a\<in>set assets. pred_option (\<lambda>b. f b = Inr ()) (balance_of_fields u a (hashes (balance_key_text u a))))"
  unfolding each_balance_def
  by (intro probes_for_all) (auto simp: probes_def reads_balance split: option.split)

lemma trades_probed:
  "probes (tbind (redis_get_trades sv m n) (\<lambda>ts. tlift (f ts))) w
     (f (trades_of_json (sv_json sv) (take n (newest (trades_key_text m)))) = Inr ())"
  by (simp add: probes_def tbind_def reads_trades tlift_def)

lemma book_not_probed:
  assumes "\<And>ob. f ob = Inr () \<or> f ob = Inl ErrVerification"
  shows "probes (unless_verification (check_book sv m f)) w True"
proof -
  from reads_book obtain ob where "redis_get_orderbook sv m w = Some (Inr ob, w)" by blast
  with assms [of ob] show ?thesis
    by (auto simp: probes_def unless_verification_def check_book_def tbind_def tlift_def)
qed

lemma ordering_not_probed: "probes (unless_verification (verify_orderbook_ordering sv m)) w True"
  unfolding verify_orderbook_ordering_def
proof (rule book_not_probed)
  fix ob
  show "checks [bids_sorted ob, asks_sorted ob] = Inr () \<or> checks [bids_sorted ob, asks_sorted ob] = Inl ErrVerification"
    by (rule checks_only) (use sorting_only [of ob] in auto)
qed

lemma crossing_not_probed: "probes (unless_verification (verify_orderbook_no_cross sv m)) w True"
  unfolding verify_orderbook_no_cross_def by (rule book_not_probed) (auto simp: ensure_def split: list.split)

lemma trade_checks_probed:
  "probes (\<lambda>w. Option.bind (redis_get_trades sv m 1 w) (\<lambda>(r, w').
        case r of
          Inr (_ # _) \<Rightarrow>
            steps [verify_trade_timestamp_ordering sv m, verify_trade_sizes_positive sv m, verify_trade_prices_valid sv m] w'
        | _ \<Rightarrow> Some (Inr (), w'))) w
     (case trades_of_json (sv_json sv) (take 1 (newest (trades_key_text m))) of
        [] \<Rightarrow> True | _ # _ \<Rightarrow> sound_trades (trades_of_json (sv_json sv) (take 1000 (newest (trades_key_text m)))))"
proof -
  let ?ts = "trades_of_json (sv_json sv) (take 1000 (newest (trades_key_text m)))"
  have "probes (steps [verify_trade_timestamp_ordering sv m, verify_trade_sizes_positive sv m,
      verify_trade_prices_valid sv m]) w (sorted (map rt_timestamp ?ts) \<and>
      checks (map (\<lambda>t. ensure (rt_size t \<noteq> 0) ErrVerification) ?ts) = Inr () \<and>
      checks (map (\<lambda>t. ensure (\<not> (rt_price t = 0 \<or> rt_price t = u64_MAX)) ErrVerification) ?ts) = Inr () \<and> True)"
    unfolding verify_trade_timestamp_ordering_def verify_trade_sizes_positive_def verify_trade_prices_valid_def
      timestamps_ascend_iff [symmetric]
    by (intro probes_steps trades_probed)
  then show ?thesis
    by (auto simp: probes_def reads_trades sound_trades_def list_all_iff split: list.split simp del: steps.simps)
qed

lemma verify_all_probed:
  "probes (verify_all sv m users assets) w
     ((\<forall>u\<in>set users. \<forall>a\<in>set assets. pred_option sound_balance (balance_of_fields u a (hashes (balance_key_text u a)))) \<and>
      (case trades_of_json (sv_json sv) (take 1 (newest (trades_key_text m))) of
        [] \<Rightarrow> True | _ # _ \<Rightarrow> sound_trades (trades_of_json (sv_json sv) (take 1000 (newest (trades_key_text m))))))"
proof -
  note parts = probes_steps(2) [OF balances_probed probes_steps(2) [OF balances_probed probes_steps(2)
    [OF ordering_not_probed probes_steps(2) [OF crossing_not_probed probes_steps(2)
    [OF trade_checks_probed probes_steps(1)]]]]]
  show ?thesis
    unfolding verify_all_def verify_balance_consistency_def verify_no_negative_balances_def
    using parts
    by (rule back_subst [where P = "probes _ w"])
      (auto simp: sound_balance_def option.pred_set verify_invariant_def ensure_def not_less)
qed

end

interpretation shown: quiet redis_only w "rs_hashes w" "rs_trades w" "rs_books w (book_key_text m)" m
  by unfold_locales (simp_all add: redis_simps)

section \<open>Claims\<close>

text \<open>A world whose book is crossed, with its bids out of order.\<close>

definition crossed_world :: "json list \<Rightarrow> redis_state" where
  "crossed_world ts = redis_start
     \<lparr>rs_books := [book_key_text 7 \<mapsto> book_json 7 [(5, 1), (9, 1)] [(3, 1)] 1], rs_trades := (\<lambda>_. ts)\<rparr>"

text \<open>The loops that wait for a balance, an order, a trade or an order book end, when sleeping moves the clock on
and reading does not turn it back. They give the balance of that user and asset, a trade that matches the
criteria, a book with a timestamp, or the timeout, and then the time is over.\<close>

lemma waits_end:
  fixes sv :: "('w, 'j) services"
  assumes "\<forall>w ms. sv_now sv w + ms \<le> sv_now sv (sv_sleep sv ms w)"
    and "\<forall>w key. sv_now sv w \<le> sv_now sv (snd (sv_hgetall sv key w))"
    and "\<forall>w key i j. sv_now sv w \<le> sv_now sv (snd (sv_zrevrange sv key i j w))"
    and "\<forall>w key. sv_now sv w \<le> sv_now sv (snd (sv_get sv key w))"
  shows "in_time sv limit w (\<lambda>b. rb_user_id b = u \<and> rb_asset_id b = a) (wait_for_balance_update sv u a limit w) \<and>
    in_time sv limit w (\<lambda>_. True) (wait_for_order sv n limit w) \<and>
    in_time sv limit w (tc_matches c) (wait_for_trade sv m c limit w) \<and>
    in_time sv limit w (\<lambda>ob. 0 < rob_timestamp ob) (wait_for_orderbook_update sv m limit w)"
proof -
  have "ticking sv" using assms by unfold_locales auto
  then show ?thesis
    by (simp add: ticking.balance_in_time ticking.order_in_time ticking.trade_in_time ticking.orderbook_in_time)
qed

text \<open>C39. When Redis answers, \<^verbatim>\<open>verify_all\<close> passes exactly when every balance that is there adds up, and, where the
newest trade is there and parses, the newest thousand are in the order of their timestamps with sizes above 0 and
prices that are limits. The order book has no part in it, although two of its steps read it: whatever
is stored there, crossed or out of order, the result is the same.\<close>

theorem verify_all_ignores_book:
  fixes sv :: "('w, 'j) services"
  assumes "\<forall>key. sv_hgetall sv key w = (Some (hashes key), w)"
    and "\<forall>key i j. sv_zrevrange sv key i j w = (Some (take (nat (j - i + 1)) (drop (nat i) (newest key))), w)"
    and "sv_get sv (book_key_text m) w = (Some book, w)"
    and "map_option (\<lambda>j. sv_json sv j = None) book \<noteq> Some True"
  shows "\<exists>r. verify_all sv m users assets w = Some (r, w) \<and>
    (r = Inr () \<longleftrightarrow>
      (\<forall>u\<in>set users. \<forall>a\<in>set assets. pred_option sound_balance (balance_of_fields u a (hashes (balance_key_text u a)))) \<and>
      (case trades_of_json (sv_json sv) (take 1 (newest (trades_key_text m))) of
        [] \<Rightarrow> True | _ # _ \<Rightarrow> sound_trades (trades_of_json (sv_json sv) (take 1000 (newest (trades_key_text m))))))"
proof -
  have "quiet sv w hashes newest book m" using assms by unfold_locales auto
  from quiet.verify_all_probed [OF this] show ?thesis unfolding probes_def by blast
qed

text \<open>The crossed book passes; two trades, the newer first as Redis lists them, do not.\<close>

definition sample_trade :: "u64 \<Rightarrow> json" where
  "sample_trade t = JObject [(''price'', num 5), (''size'', num 1), (''timestamp'', num t)]"

theorem verify_all_ignores_book_witness:
  "verify_all redis_only 7 [1] [2] (crossed_world []) = Some (Inr (), crossed_world []) \<and>
   (\<exists>e. verify_all redis_only 7 [1] [2] (crossed_world [sample_trade 2, sample_trade 1]) =
     Some (Inl e, crossed_world [sample_trade 2, sample_trade 1]))"
proof -
  note run = verify_all_ignores_book [of redis_only _ "\<lambda>_. []", where m = 7 and users = "[1]" and assets = "[2]"]
  have "\<exists>r. verify_all redis_only 7 [1] [2] (crossed_world []) = Some (r, crossed_world []) \<and> r = Inr ()"
    using run [of "crossed_world []" "\<lambda>_. []" "Some (book_json 7 [(5, 1), (9, 1)] [(3, 1)] 1)"]
    by (simp add: redis_simps crossed_world_def redis_start_def balance_of_fields_def trades_of_json_def List.map_filter_simps)
  moreover have "\<exists>r. verify_all redis_only 7 [1] [2] (crossed_world [sample_trade 2, sample_trade 1]) =
      Some (r, crossed_world [sample_trade 2, sample_trade 1]) \<and> r \<noteq> Inr ()"
    using run [of "crossed_world [sample_trade 2, sample_trade 1]" "\<lambda>_. [sample_trade 2, sample_trade 1]"
        "Some (book_json 7 [(5, 1), (9, 1)] [(3, 1)] 1)"]
    by (simp add: redis_simps crossed_world_def redis_start_def balance_of_fields_def trades_of_json_def List.map_filter_simps
        sound_trades_def trade_of_json_def sample_trade_def json_u64_def num_def or_else_def word_le_nat_alt)
  ultimately show ?thesis by (metis sum.exhaust old.unit.exhaust)
qed

text \<open>C40. The verdict on an integration run whose context and clean-up came about: where the suite gives results, the
run is a success exactly when no section failed; where the suite itself breaks off with an error, for
instance because the core does not answer the first deposit, the run is a success exactly when \<^verbatim>\<open>fail_fast\<close> is
not set, as then nothing was counted as failed.\<close>

theorem integration_verdict:
  assumes "with_config sv docker_config w = Some (Inr cx, w1)"
    and "run_suite_tests sv suite cx = Some (outcome, cx2)"
    and "cleanup sv cx2 = Some (cleaned, cx3)"
  shows "\<exists>v. run_integration_tests sv suite fail_fast w = Some (v, tx_world cx3) \<and>
    (v = Inr () \<longleftrightarrow> (case outcome of Inl e \<Rightarrow> \<not> fail_fast | Inr results \<Rightarrow> list_all sr_success results))"
  using assms
  by (cases outcome) (auto simp: run_integration_tests_def cleanup_ctx_def verdict_new verdict_results Let_def)

text \<open>No core takes the commands: every test is broken off, and the run is a success.\<close>

theorem integration_verdict_witness:
  "\<exists>w. run_integration_tests redis_only SuiteGtc False redis_start = Some (Inr (), w)"
proof -
  obtain cx where cx: "with_config redis_only docker_config redis_start = Some (Inr cx, redis_start)"
      "tx_users cx = []" "tx_world cx = redis_start"
    by (simp add: with_config_def test_client_new_def tbind_def redis_new_def ask_redis_def redis_simps)
  have run: "run_suite_tests redis_only SuiteGtc cx = Some (Inl ErrNetwork, cx)"
    using cx(3) by (simp add: gtc_run_all_def after_def fund_all_def tbind_def fund_user_def execute_command_def
        outside_def send_and_recv_def client_send_def redis_simps)
  obtain r cx3 where "cleanup redis_only cx = Some (r, cx3)"
    using cx by (simp add: cleanup_def tbind_def outside_def drain_responses.simps redis_simps
        redis_start_def for_all_def tret_def cleanup_test_data_def scan_and_delete.simps ask_redis_def)
  from integration_verdict [OF cx(1) run this, of False] show ?thesis by auto
qed

end
