(* ===== verification/Spec2Isabelle.thy ===== *)
theory Spec2Isabelle
  imports Pipeline_Claims Config_Claims Disruptor Server_Claims Test_Claims
begin

text \<open>
  The VEX core, an exchange in Rust: limit order books, a risk engine that holds user balances, and the
  pipeline, network and configuration around them. This library models the program function by function
  and proves what makes it correct; this theory imports all the others, states the invariant of the whole
  engine and holds the properties that span components.

  \<^bold>\<open>How the program is put together.\<close> A gateway connects by a handshake (\<^verbatim>\<open>GatewayManager\<close>), gets ports and
  a session of its own, and sends commands as 64 byte SBE messages. A fragment handler decodes a command
  and puts it on a ring buffer. From there each command passes five stages: journaling (stamp an order id,
  copy to the archive) and R1 (four risk shards reserve funds), then matching (four routers own the books
  of the markets), then R2 (the risk shards settle trades and release funds), then events (Kafka messages
  and the response to the gateway). At start-up the archive can be replayed through the same pipeline.

  \<^bold>\<open>Which theory models what.\<close>
  \<^item> \<open>Vex_Prelude\<close>: machine integers, outcomes (a value, an \<open>Err\<close>, a panic), shared lemmas and the
    collections \<open>wordsimps\<close>, \<open>outsimps\<close>. \<open>Wire_Text\<close>: Rust strings, UTF-8, number parsing and printing.
  \<^item> \<open>Vex_Types\<close>, \<open>Vex_Data\<close>: the enums and records of \<^verbatim>\<open>common/src\<close> and \<^verbatim>\<open>order/src\<close>; an \<open>order_command\<close>
    is the record every stage updates, its trades a linked list \<open>event_chain\<close>.
  \<^item> \<open>Market_Spec\<close>, \<open>Balance_Store\<close>, \<open>Price_Cache\<close>: specifications and cost arithmetic
    (\<^verbatim>\<open>market_specification.rs\<close>), the balances (\<^verbatim>\<open>user_profile.rs\<close>), the top-of-book cache (\<^verbatim>\<open>order.rs\<close>).
    The operations of the store share one contract, a locale interpreted for each of them.
  \<^item> \<open>Book_Side\<close>, \<open>Book_Side_Laws\<close>: price levels and the trait \<^verbatim>\<open>BookSide\<close> with its two trees
    (\<^verbatim>\<open>orderbook/src/tree.rs\<close>); the laws of a side are a locale, interpreted for asks and for bids.
  \<^item> \<open>Order_Book\<close>: matching, placing, cancelling, snapshots (\<^verbatim>\<open>orderbook/src/lib.rs\<close>). \<open>Match_Spec\<close> is the
    abstract specification of matching on a flat queue, \<open>Order_Book_Match\<close> shows that the loops implement
    it, \<open>Order_Book_Inv\<close> has the invariant \<open>book_wf\<close>, \<open>Order_Book_Place\<close> the abstract book with the
    refinement of placing and cancelling, \<open>Order_Book_Props\<close> and \<open>Order_Book_Claims\<close> the properties.
  \<^item> \<open>Matching_Router\<close>, \<open>Risk_Engine\<close>, \<open>Settlement\<close>: the processors of \<^verbatim>\<open>processors/src\<close> and the R1 and R2
    handlers of \<^verbatim>\<open>server/src/utils.rs\<close>. \<open>Reservation\<close> relates a reservation to what settlement takes from
    it; \<open>Risk_Claims\<close> has the properties and the places where arithmetic and error paths break them.
  \<^item> \<open>Sbe_Codec\<close>: buffers, header and message codecs, \<^verbatim>\<open>encode_order_command\<close> and \<^verbatim>\<open>decode_order_command\<close>.
  \<^item> \<open>Snowflake_Ids\<close>, \<open>Publications\<close>, \<open>Journaling\<close>, \<open>Kafka_Events\<close>: order ids (\<^verbatim>\<open>snowflake.rs\<close>), the table of
    outgoing publications, the journaling processor, the events handler. A Kafka message is a task the
    handler spawns (\<open>kafka_message\<close>); \<open>run_task\<close> is what the task does, and the tasks finish in any order.
  \<^item> \<open>Pipeline\<close>: \<open>core_state\<close> (engines, routers, prices), \<^verbatim>\<open>build_engine\<close>, the stages, \<open>core_step\<close> (R1,
    matching and R2 of one command) and \<open>process_command\<close> (all five stages) of \<^verbatim>\<open>server/src/engine.rs\<close>.
    \<open>Engine_Invariant\<close>: the invariant \<open>core_wf\<close> of the whole engine and that a transaction keeps it.
  \<^item> \<open>Backing\<close>, \<open>Solvency\<close>, \<open>Exact_Settlement\<close>: what a command, a resting order and a book claim of the
    locked funds, and that settlement takes no more. \<open>Interleaving\<close>, \<open>Pipeline_Claims\<close>: the ring with many
    commands in flight, each handler at a position of its own, as runs of handler actions; journaling panics
    when the id generator refuses, the events handler when a snapshot is broken. The properties hold of
    the runs in the bounds of \<open>fits\<close>, which the code does not check.
  \<^item> \<open>Command_Core\<close>, \<open>Replay\<close>, \<open>Recovery\<close>: what the transaction reads of a command; fragment handlers,
    recordings, \<^verbatim>\<open>start_replay\<close> and \<^verbatim>\<open>start_recording\<close>; schedules of one command after the other and the
    replay of their archive. \<open>Disruptor\<close>: the pipeline with the journaling processor in it, live or replaying,
    and that its runs without overlap are those schedules.
  \<^item> \<open>Port_Allocation\<close>, \<open>Gateway_Sessions\<close>, \<open>Gateway_Invariant\<close>, \<open>Gateway_Client\<close>, \<open>Gateway_Claims\<close>: the
    allocators and channels, the gateway manager with its polls (which decode what arrives and panic on a
    short fragment), the step relation of everything that changes it with
    the invariant of its reachable states, the gateway's own side, and what the two agree on.
  \<^item> \<open>Network_Config\<close>, \<open>Vex_Config\<close>, \<open>Config_Loader\<close>, \<open>Config_Claims\<close>: the crate \<^verbatim>\<open>vex-config\<close>.
  \<^item> \<open>Core_Server\<close>, \<open>Server_Claims\<close>: start-up, polling loop and shutdown of \<^verbatim>\<open>VexCoreServer\<close>, the thread
    that runs it, \<^verbatim>\<open>start\<close>, and what \<^verbatim>\<open>main\<close> does to the configuration.
  \<^item> \<open>Test_Types\<close>, \<open>Test_Builders\<close>, \<open>Test_Client\<close>, \<open>Test_Verifiers\<close>: the framework of the integration tests
    (\<^verbatim>\<open>xtask/src\<close>): its data, the builders of commands, client, Redis reader and context over a record of
    services, the verifiers. \<open>Test_Gtc\<close>, \<open>Test_Ioc_Fok\<close>, \<open>Test_Sessions\<close>: the six suites, section by section;
    \<open>Test_Driver\<close>: the command that runs one; \<open>Test_E2e\<close>: the client of the end-to-end test and its check.
    \<open>Test_World\<close> is an instance of the services with a Redis that holds given data and no engine behind it;
    \<open>Test_Claims\<close> has the properties. The suites are modelled and not run: what they see depends on the
    services that write to Redis, which are not part of this repository.

  \<^bold>\<open>What is shown.\<close> Placing and cancelling refine an abstract book of priority queues; matching respects
  price, time and self-trade prevention and conserves size; fill-or-kill is all or nothing. R1 reserves
  exactly what it must or rejects, the reservation covers settlement, a trade moves funds and takes only
  the fees. The transaction returns for every admissible command, keeps the invariant \<open>core_wf\<close>, and its
  result does not depend on the order in which the parallel handlers run. With any number of commands in
  flight the locked funds cover every claim on them and settlement never runs short, though the outcome of
  the commands depends on how the handlers interleave. Commands survive the wire,
  order ids increase, each trade has one message however the Kafka tasks run, the response reaches the gateway. The archive of a run
  without overlapping commands reproduces its final state. Gateways share no port or session, a gateway
  and the core open the same channels, the server stops when told unless a short fragment kills it. Several properties state where the code does less than it means to: a hidden ask
  that cannot be cancelled, costs cut to 64 bits, lost payments, rounding, capacity, replays that lose or
  renumber commands, test verdicts and checks that let failures pass.

  \<^bold>\<open>Conventions and bounds.\<close> Integers have their width and wrap around as in a release build; a panic is
  \<open>Panic\<close> or \<open>None\<close>, an \<open>Err\<close> is a value. A \<^verbatim>\<open>BTreeMap\<close> is a sorted association list, a hash map a map, or
  an association list where it is iterated. \<open>core_step\<close> and \<open>process_command\<close> take one command at
  a time; \<open>Interleaving\<close> has many in flight, each handler taking its next command when the barriers of the
  disruptor let it. A handler is atomic on a command, and the order of the handlers is a parameter;
  journaling shares its stage with R1 and may come anywhere among the R1 handlers (\<open>live_step\<close>). The
  clocks, random draws, what Aeron and its archive answer, and whether the ring accepts a command are parameters. Fuel is used nowhere; the
  busy wait of the id generator is a \<open>partial_function\<close> shown to return when the clock advances (64 spins
  between two looks at the deadline, as in the code), and loops over messages, polls and turns recurse on
  the list of what arrives, \<open>None\<close> meaning that the loop is still running when the list ends.

  \<^bold>\<open>Not modelled.\<close> The ring buffer, Aeron, Kafka, the schema registry, the tokio runtime and the crate
  \<^verbatim>\<open>config\<close>, which are libraries; threads, core affinity and signals; log output; the
  accessors of the generated codec for types no message uses; of
  \<^verbatim>\<open>xtask\<close> the processes and containers it starts, network emulation, benchmarks and the server binaries in \<^verbatim>\<open>bin\<close>;
  unit tests and examples.
\<close>

section \<open>The engine and its transaction\<close>

text \<open>C24. The initial engine: for any set of markets the engine starts without a panic in a state that
  satisfies the invariant; every configured market has an empty book, in the router that owns it, and a
  price entry, no other market has either; every risk shard knows all specifications and every balance
  is zero.\<close>

theorem build_engine_wf:
  "\<exists>cs. build_engine symbols specs = Some cs \<and> core_wf cs \<and>
     (\<forall>m. book_of cs m = (if m \<in> set symbols then Some (order_book_new bid_new ask_new m) else None)) \<and>
     (\<forall>u a. balance_of cs u a = balance_default) \<and>
     map re_symbol_specs (cs_engines cs) = replicate NUM_RISK_ENGINES specs \<and>
     dom (cs_prices cs) = set symbols"
proof -
  obtain cs where cs: "build_engine symbols specs = Some cs" "core_wf cs"
    "\<forall>m. book_of cs m = (if m \<in> set symbols then Some (order_book_new bid_new ask_new m) else None)"
    "\<forall>u a. balance_of cs u a = balance_default" "\<forall>i<4. re_symbol_specs (cs_engines cs ! i) = specs"
    "\<forall>m. m \<in> dom (cs_prices cs) \<longleftrightarrow> m \<in> set symbols"
    using initial_state [of symbols specs] by blast
  then have "length (cs_engines cs) = 4" by (simp add: core_wf_def engines_wf_def)
  with cs(5) have "map re_symbol_specs (cs_engines cs) = replicate NUM_RISK_ENGINES specs"
    by (intro nth_equalityI) (simp_all add: NUM_RISK_ENGINES_def)
  with cs show ?thesis by blast
qed

text \<open>C6. The order of the shards does not matter: within a stage the four R1 handlers, the four routers
  and the four R2 handlers may run in any order, and the result of the transaction is the same.\<close>

theorem stage_order_irrelevant:
  assumes "core_wf cs"
    and "shards r1" "shards mt" "shards r2" "shards r1'" "shards mt'" "shards r2'"
  shows "core_step now (r1, mt, r2) cs cmd = core_step now (r1', mt', r2') cs cmd"
proof -
  obtain re cmd1 where p: "pre_process_command (cs_engines cs ! owner_of (c_user_id cmd)) cmd (cs_prices cs) = (re, cmd1)"
    by (rule prod.exhaust)
  have wf: "engines_wf (cs_engines cs)" "routers_wf (cs_routers cs)"
    using assms(1) by (simp_all add: core_wf_def)
  have "r1_stage r1 (cs_prices cs) (cs_engines cs, cmd) = r1_stage r1' (cs_prices cs) (cs_engines cs, cmd)"
    using r1_stage_owner [OF wf(1) _ p] assms(2,5) by simp
  moreover have "matching_stage now mt (cs_routers cs, c, pc) = matching_stage now mt' (cs_routers cs, c, pc)" for c pc
    by (simp only: matching_stage_value [OF wf(2) assms(3)] matching_stage_value [OF wf(2) assms(6)])
  moreover have "r2_stage r2 s = r2_stage r2' s" for s
    by (rule r2_stage_order [OF assms(4,7)])
  ultimately show ?thesis by (simp add: core_step_def cong: option.case_cong)
qed

theorem stage_order_irrelevant_witness:
  "\<exists>cs. build_engine [131073] [131073 \<mapsto> sample_spec] = Some cs \<and>
     core_step 7 ([0, 1, 2, 3], [0, 1, 2, 3], [0, 1, 2, 3]) cs (mk_place_order Gtc 1 5 3 Ask 131073 0) =
     core_step 7 ([3, 1, 0, 2], [1, 0, 2, 3], [3, 2, 1, 0]) cs (mk_place_order Gtc 1 5 3 Ask 131073 0)"
proof -
  obtain cs where "build_engine [131073] [131073 \<mapsto> sample_spec] = Some cs" "core_wf cs"
    using initial_state [of "[131073]" "[131073 \<mapsto> sample_spec]"] by blast
  moreover have "shards [0, 1, 2, 3]" "shards [3, 1, 0, 2]" "shards [1, 0, 2, 3]" "shards [3, 2, 1, 0]"
    by (auto simp: shards_def)
  ultimately show ?thesis using stage_order_irrelevant by blast
qed

text \<open>C1. The engine never panics and keeps its invariant: for every admissible command the transaction
  returns, whatever order the handlers of a stage run in, and the state it returns satisfies the
  invariant again, so every book stays well formed and every shard keeps its place.\<close>

theorem core_step_total:
  assumes "core_wf cs" "admissible cs cmd" "shards r1" "shards mt" "shards r2"
  shows "\<exists>cs' cmd'. core_step now (r1, mt, r2) cs cmd = Some (cs', cmd') \<and> core_wf cs'"
  by (rule core_step_ok [OF assms])

theorem core_step_total_witness:
  "\<exists>cs cs' cmd'. build_engine [131073] [131073 \<mapsto> sample_spec] = Some cs \<and>
     core_step 7 ([0, 1, 2, 3], [0, 1, 2, 3], [0, 1, 2, 3]) cs (mk_place_order Gtc 1 5 3 Ask 131073 0) =
       Some (cs', cmd') \<and> core_wf cs'"
proof -
  obtain cs where cs: "build_engine [131073] [131073 \<mapsto> sample_spec] = Some cs" "core_wf cs"
    "\<forall>m. book_of cs m = (if m \<in> set [131073] then Some (order_book_new bid_new ask_new m) else None)"
    using initial_state [of "[131073]" "[131073 \<mapsto> sample_spec]"] by blast
  have "abs_book (order_book_new bid_new ask_new m) sd = []" for m sd
    by (cases sd) (simp_all add: abs_book_def side_orders_def order_book_new_def bid_new_def ask_new_def
        bid_iter_def ask_iter_def)
  then have "admissible cs (mk_place_order Gtc 1 5 3 Ask 131073 0)"
    using cs(3) by (simp add: admissible_def mk_place_order_def fresh_id_def volume_def)
  moreover have "shards [0, 1, 2, 3]" by (auto simp: shards_def)
  ultimately show ?thesis using core_step_total cs(1,2) by metis
qed

section \<open>A command through all the stages\<close>

lemma core_step_place:
  assumes wf: "core_wf cs" and sh: "shards r1" "shards mt" "shards r2"
    and p: "pre_process_command (cs_engines cs ! owner_of (c_user_id cmd)) cmd (cs_prices cs) = (re, cmd1)"
    and h: "router_handler now (cs_routers cs ! market_owner (c_market_id cmd)) cmd1 (cs_prices cs) = Some (mr', cmd2, pc')"
  shows "core_step now (r1, mt, r2) cs cmd =
    map_option (\<lambda>(es, c). (\<lparr>cs_engines = es,
        cs_routers = (cs_routers cs)[market_owner (c_market_id cmd) := mr'], cs_prices = pc'\<rparr>, c))
      (r2_stage r2 ((cs_engines cs)[owner_of (c_user_id cmd) := re], cmd2))"
proof -
  have w: "engines_wf (cs_engines cs)" "routers_wf (cs_routers cs)" using wf by (simp_all add: core_wf_def)
  have mk: "c_market_id cmd1 = c_market_id cmd" using pre_process_frame [OF p] by simp
  show ?thesis
    using r1_stage_owner [OF w(1) sh(1) p] matching_stage_owner(1) [OF w(2) sh(2) h [folded mk]]
    by (simp add: core_step_def mk split: option.split)
qed

lemma r2_stage_skip:
  assumes "c_status cmd \<in> {Rejected, Processed}"
  shows "r2_stage is (engines, cmd) = Some (engines, cmd)"
proof (induction "is")
  case (Cons i "is")
  have "r2_handler i engines cmd = Some (engines, cmd)" using assms by (auto simp: r2_handler_def)
  with Cons show ?case by (simp add: r2_stage_def)
qed (simp add: r2_stage_def)

lemma balance_of_update:
  "length es = 4 \<Longrightarrow> engine_balance (es[owner_of u := re] ! owner_of v) v a =
     (if owner_of v = owner_of u then engine_balance re v a else engine_balance (es ! owner_of v) v a)"
  by (simp add: nth_list_update)

text \<open>C11. A refused order leaves no trace: when R1 cannot reserve its funds, the order comes out of the
  whole transaction Rejected, and no balance of any user, no book and no price has changed.\<close>

theorem refused_order_is_inert:
  assumes "core_wf cs" "shards r1" "shards mt" "shards r2" "c_command cmd = PlaceOrder"
    and "case reservation_of (cs_engines cs ! owner_of (c_user_id cmd)) cmd (cs_prices cs) of
      Some (a, n, p) \<Rightarrow> available (balance_of cs (c_user_id cmd) a) < n | None \<Rightarrow> True"
  shows "\<exists>cs' cmd'. core_step now (r1, mt, r2) cs cmd = Some (cs', cmd') \<and> c_status cmd' = Rejected \<and>
    (\<forall>v a. balance_of cs' v a = balance_of cs v a) \<and>
    cs_routers cs' = cs_routers cs \<and> cs_prices cs' = cs_prices cs"
proof -
  let ?o = "owner_of (c_user_id cmd)"
  let ?re = "cs_engines cs ! ?o"
  have w: "engines_wf (cs_engines cs)" using assms(1) by (simp add: core_wf_def)
  then have len: "length (cs_engines cs) = 4" by (simp add: engines_wf_def)
  have own: "user_id_for_this_handler ?re (c_user_id cmd)" using handler_iff [OF w] by simp
  obtain re cmd1 where p: "pre_process_command ?re cmd (cs_prices cs) = (re, cmd1)" "c_status cmd1 = Rejected"
    "\<forall>u c. engine_balance re u c = engine_balance ?re u c"
    using place_cases [OF own assms(5), of "cs_prices cs"] assms(6)
    by (auto simp: balance_of_def not_le [symmetric] split: option.splits)
  have h: "router_handler now (cs_routers cs ! market_owner (c_market_id cmd)) cmd1 (cs_prices cs) =
      Some (cs_routers cs ! market_owner (c_market_id cmd), cmd1, cs_prices cs)"
    using p(2) by (simp add: router_handler_def)
  have "core_step now (r1, mt, r2) cs cmd =
      Some (\<lparr>cs_engines = (cs_engines cs)[?o := re], cs_routers = cs_routers cs, cs_prices = cs_prices cs\<rparr>, cmd1)"
    using core_step_place [OF assms(1-4) p(1) h] r2_stage_skip [of cmd1] p(2) by simp
  moreover have "engine_balance ((cs_engines cs)[?o := re] ! owner_of v) v a = engine_balance (cs_engines cs ! owner_of v) v a" for v a
    using p(3) by (simp add: balance_of_update [OF len])
  ultimately show ?thesis using p(2) by (simp add: balance_of_def)
qed

theorem refused_order_is_inert_witness:
  "\<exists>cs cs' cmd'. build_engine [131073] [131073 \<mapsto> sample_spec] = Some cs \<and>
     core_step 7 ([0, 1, 2, 3], [0, 1, 2, 3], [0, 1, 2, 3]) cs (mk_place_order Gtc 1 5 3 Ask 131073 0) =
       Some (cs', cmd') \<and> c_status cmd' = Rejected \<and> cs_routers cs' = cs_routers cs"
proof -
  obtain cs where cs: "build_engine [131073] [131073 \<mapsto> sample_spec] = Some cs" "core_wf cs"
    "\<forall>u a. balance_of cs u a = balance_default" "\<forall>i<4. re_symbol_specs (cs_engines cs ! i) = [131073 \<mapsto> sample_spec]"
    using initial_state [of "[131073]" "[131073 \<mapsto> sample_spec]"] by blast
  let ?cmd = "mk_place_order Gtc 1 5 3 Ask 131073 0"
  have c: "c_command ?cmd = PlaceOrder" "c_user_id ?cmd = 1" "c_side ?cmd = Ask" "c_market_id ?cmd = 131073"
    "c_size ?cmd = 3" by (simp_all add: mk_place_order_def)
  have "reservation_of (cs_engines cs ! owner_of 1) ?cmd (cs_prices cs) = Some (1, 3, c_price ?cmd)"
    using cs(4) by (simp add: reservation_of_def c)
  moreover have "shards [0, 1, 2, 3]" by (auto simp: shards_def)
  ultimately show ?thesis
    using refused_order_is_inert [OF cs(2), of "[0, 1, 2, 3]" "[0, 1, 2, 3]" "[0, 1, 2, 3]" ?cmd 7] cs(1,3)
    by (auto simp: c balance_default_def)
qed

text \<open>C10. Place and cancel through the whole engine: a limit order (GTC) that R1 can reserve and that does
  not trade is Placed, and cancelling it by its id, whoever sends the request, is Cancelled in the
  name of its owner; after the two transactions every balance of every user is what it was and the
  queues of the book are what they were.\<close>

theorem place_cancel_restores:
  fixes cmd req
  defines "m \<equiv> c_market_id cmd" and "u \<equiv> c_user_id cmd"
  assumes "core_wf cs" "shards r1" "shards mt" "shards r2" "book_of cs m = Some ob"
    and order: "c_command cmd = PlaceOrder" "c_time_in_force cmd = Gtc" "c_events cmd = None" "c_size cmd \<noteq> 0"
      "c_status cmd = Processing" "fresh_id (c_order_id cmd) (abs_book ob)" "reach cmd (abs_book ob) = []"
      "volume (abs_book ob (op_side (c_side cmd))) < 2 ^ 64" "c_side cmd = Bid \<Longrightarrow> c_price cmd \<noteq> u64_MAX"
    and funded: "reservation_of (cs_engines cs ! owner_of u) cmd (cs_prices cs) = Some (a, n, p)"
      "n \<le> available (balance_of cs u a)" "solvent (balance_of cs u (paid_asset m (c_side cmd)))"
    and request: "c_command req = CancelOrder" "c_order_id req = c_order_id cmd" "c_market_id req = m"
      "c_status req = Processing" "c_events req = None"
  shows "\<exists>cs1 cmd1 cs2 cmd2 ob2. core_step now (r1, mt, r2) cs cmd = Some (cs1, cmd1) \<and> c_status cmd1 = Placed \<and>
    core_step later (r1, mt, r2) cs1 req = Some (cs2, cmd2) \<and> c_status cmd2 = Cancelled \<and> c_user_id cmd2 = u \<and>
    (\<forall>v a. balance_of cs2 v a = balance_of cs v a) \<and> book_of cs2 m = Some ob2 \<and> abs_book ob2 = abs_book ob"
proof -
  let ?o = "owner_of u" and ?k = "market_owner m"
  let ?re = "cs_engines cs ! ?o" and ?mr = "cs_routers cs ! ?k"
  have w: "engines_wf (cs_engines cs)" "routers_wf (cs_routers cs)" using assms(3) by (simp_all add: core_wf_def)
  then have len: "length (cs_engines cs) = 4" "length (cs_routers cs) = 4"
    by (simp_all add: engines_wf_def routers_wf_def)
  note b = core_wfD [OF assms(3,7)]
  have own: "user_id_for_this_handler ?re u" using handler_iff [OF w(1)] by simp
  \<comment> \<open>R1 reserves.\<close>
  obtain re cmd1 where p1: "pre_process_command ?re cmd (cs_prices cs) = (re, cmd1)" "c_status cmd1 \<noteq> Rejected"
    using place_cases [OF own [unfolded u_def] order(1), of "cs_prices cs"] funded(1,2) order(5)
    by (auto simp: u_def balance_of_def)
  have s: "solvent (engine_balance ?re (c_user_id cmd) (paid_asset (c_market_id cmd) (c_side cmd)))"
    using funded(3) by (simp add: m_def u_def balance_of_def)
  have rel: "cmd1 = cmd \<and> engine_balance (handle_cancellation re cmd1) v c = engine_balance ?re v c" for v c
    using place_release [OF own [unfolded u_def] order(1) order(9) s [unfolded u_def] p1 [unfolded u_def]]
    unfolding u_def .
  then have same: "cmd1 = cmd" and restored: "\<And>v c. engine_balance (handle_cancellation re cmd1) v c = engine_balance ?re v c"
    by blast+
  \<comment> \<open>The order rests, and the request finds it.\<close>
  obtain ob1 cmd2 pc1 ob2 cmd3 pc2 where book:
    "place_order now ob cmd (cs_prices cs) = Some (ob1, cmd2, pc1)"
    "cmd2 = record_snapshot now ob1 (cmd\<lparr>c_status := Placed, c_events := c_events (with_events [] cmd),
      c_price := reported_price (with_events [] cmd)\<rparr>)"
    "cancel_order later ob1 req pc1 = Some (ob2, cmd3, pc2)"
    "cmd3 = record_snapshot later ob2 (copy_order_to_command (residual cmd (c_size cmd)) req)"
    "abs_book ob2 = abs_book ob"
    using place_then_cancel [OF b(1) order(6,4,8) _ _ order(2,7) request(2), of "cs_prices cs" now later]
      order(5) b(2,3) request(4) by auto
  have f2: "c_user_id cmd2 = u" "c_market_id cmd2 = m" "c_status cmd2 = Placed" "c_events cmd2 = None"
    using order(3) by (simp_all add: book(2) record_snapshot_def Let_def m_def u_def)
  have f3: "c_user_id cmd3 = u" "c_market_id cmd3 = m" "c_status cmd3 = Cancelled" "c_events cmd3 = None"
    "c_side cmd3 = c_side cmd" "c_price cmd3 = c_price cmd" "c_size cmd3 = c_size cmd"
    using request(3,5) by (simp_all add: book(4) record_snapshot_def copy_order_to_command_def residual_def Let_def u_def)
  have here: "market_for_this_handler ?mr (ucast m)" using market_handler_iff [OF w(2)] by simp
  \<comment> \<open>The first transaction.\<close>
  let ?mr1 = "?mr\<lparr>mr_order_books := (mr_order_books ?mr)(m \<mapsto> ob1)\<rparr>"
  have h1: "router_handler now ?mr cmd1 (cs_prices cs) = Some (?mr1, cmd2, pc1)"
    using here assms(7) book(1) order(1,5)
    by (simp add: same router_handler_def process_order_def book_of_def m_def)
  let ?es1 = "(cs_engines cs)[?o := re]" and ?rs1 = "(cs_routers cs)[?k := ?mr1]"
  have t1: "taker_engine (?es1 ! owner_of (c_user_id cmd2)) cmd2 = re"
    using len by (simp add: taker_engine_def should_handle_cancellation_def f2)
  obtain cmd4 where r2: "r2_stage r2 (?es1, cmd2) = Some (?es1, cmd4)" "c_status cmd4 = Placed"
    using r2_stage_owner [OF _ assms(6) f2(4) _ t1 [symmetric]] len f2
    by (auto simp: record_balances_def)
  let ?cs1 = "\<lparr>cs_engines = ?es1, cs_routers = ?rs1, cs_prices = pc1\<rparr>"
  have step1: "core_step now (r1, mt, r2) cs cmd = Some (?cs1, cmd4)"
    using core_step_place [OF assms(3-6) p1(1) [unfolded u_def] h1 [unfolded m_def]] r2(1)
    by (simp add: m_def u_def)
  \<comment> \<open>The second transaction.\<close>
  have wf1: "core_wf ?cs1"
  proof -
    have "admissible cs cmd" using order assms(7) by (simp add: admissible_def m_def)
    from core_step_ok [OF assms(3) this assms(4-6), of now] step1 show ?thesis by auto
  qed
  let ?o2 = "owner_of (c_user_id req)"
  have p2: "pre_process_command (?es1 ! ?o2) req pc1 = (?es1 ! ?o2, req)"
    using request(1) by (simp add: pre_process_command_def)
  have here1: "market_for_this_handler ?mr1 (ucast m)" using here by (simp add: market_for_this_handler_def)
  let ?mr2 = "?mr1\<lparr>mr_order_books := (mr_order_books ?mr1)(m \<mapsto> ob2)\<rparr>"
  have h2: "router_handler later (?rs1 ! ?k) req pc1 = Some (?mr2, cmd3, pc2)"
    using here1 book(3) request(1,3,4) len by (simp add: router_handler_def process_order_def)
  have t2: "taker_engine (?es1 ! owner_of (c_user_id cmd3)) cmd3 = handle_cancellation re cmd1"
    using len f3 by (simp add: taker_engine_def should_handle_cancellation_def handle_cancellation_def same m_def u_def)
  let ?es2 = "?es1[?o := handle_cancellation re cmd1]"
  obtain cmd5 where r2': "r2_stage r2 (?es1, cmd3) = Some (?es2, cmd5)" "c_status cmd5 = Cancelled" "c_user_id cmd5 = u"
    using r2_stage_owner [OF _ assms(6) f3(4) _ t2 [symmetric]] len f3
    by (auto simp: record_balances_def)
  let ?cs2 = "\<lparr>cs_engines = ?es2, cs_routers = ?rs1[?k := ?mr2], cs_prices = pc2\<rparr>"
  have step2: "core_step later (r1, mt, r2) ?cs1 req = Some (?cs2, cmd5)"
    using core_step_place [OF wf1 assms(4-6), of req "?es1 ! ?o2" req later ?mr2 cmd3 pc2] p2 h2 r2'(1)
    by (simp add: request(3))
  have "balance_of ?cs2 v x = balance_of cs v x" for v x
    using restored len by (simp add: balance_of_def nth_list_update)
  moreover have "book_of ?cs2 m = Some ob2" using len by (simp add: book_of_def)
  ultimately show ?thesis using step1 step2 r2(2) r2'(2,3) book(5) by blast
qed

theorem place_cancel_restores_witness:
  "\<exists>cs cs1 cmd1 cs2 cmd2. balance_of cs 1 1 = \<lparr>available = 9, locked = 0\<rparr> \<and>
     core_step 7 ([0, 1, 2, 3], [0, 1, 2, 3], [0, 1, 2, 3]) cs
       ((mk_place_order Gtc 1 5 3 Ask 131073 0)\<lparr>c_order_id := 6\<rparr>) = Some (cs1, cmd1) \<and> c_status cmd1 = Placed \<and>
     core_step 8 ([0, 1, 2, 3], [0, 1, 2, 3], [0, 1, 2, 3]) cs1 (mk_cancel_order 6 Ask 131073) = Some (cs2, cmd2) \<and>
     c_status cmd2 = Cancelled \<and> balance_of cs2 1 1 = \<lparr>available = 9, locked = 0\<rparr>"
proof -
  obtain cs0 where cs0: "core_wf cs0"
    "\<forall>m. book_of cs0 m = (if m \<in> set [131073] then Some (order_book_new bid_new ask_new m) else None)"
    "\<forall>u a. balance_of cs0 u a = balance_default" "\<forall>i<4. re_symbol_specs (cs_engines cs0 ! i) = [131073 \<mapsto> sample_spec]"
    using initial_state [of "[131073]" "[131073 \<mapsto> sample_spec]"] by blast
  have o: "owner_of 1 = 1" by (simp add: owner_of_def)
  let ?e = "set_balance 1 1 \<lparr>available = 9, locked = 0\<rparr> (cs_engines cs0 ! 1)"
  let ?cs = "cs0\<lparr>cs_engines := (cs_engines cs0)[1 := ?e]\<rparr>"
  have len: "length (cs_engines cs0) = 4" using cs0(1) by (simp add: core_wf_def engines_wf_def)
  have "same_shard (cs_engines cs0 ! 1) ?e" by (simp add: same_shard_def)
  then have wf: "core_wf ?cs" using cs0(1) engines_wf_update by (simp add: core_wf_def)
  have bal: "balance_of ?cs 1 1 = \<lparr>available = 9, locked = 0\<rparr>" by (simp add: balance_of_def o len)
  have book: "book_of ?cs 131073 = Some (order_book_new bid_new ask_new 131073)"
    using cs0(2) by (simp add: book_of_def)
  have empty: "abs_book (order_book_new bid_new ask_new m) sd = []" for m sd
    by (cases sd) (simp_all add: abs_book_def side_orders_def order_book_new_def bid_new_def ask_new_def
        bid_iter_def ask_iter_def)
  let ?cmd = "(mk_place_order Gtc 1 5 3 Ask 131073 0)\<lparr>c_order_id := 6\<rparr>"
  have c: "c_command ?cmd = PlaceOrder" "c_user_id ?cmd = 1" "c_side ?cmd = Ask" "c_market_id ?cmd = 131073"
    "c_size ?cmd = 3" "c_time_in_force ?cmd = Gtc" "c_events ?cmd = None" "c_status ?cmd = Processing"
    "c_order_id ?cmd = 6" by (simp_all add: mk_place_order_def)
  have r: "c_command (mk_cancel_order 6 Ask 131073) = CancelOrder" "c_order_id (mk_cancel_order 6 Ask 131073) = 6"
    "c_market_id (mk_cancel_order 6 Ask 131073) = 131073" "c_status (mk_cancel_order 6 Ask 131073) = Processing"
    "c_events (mk_cancel_order 6 Ask 131073) = None" by (simp_all add: mk_cancel_order_def)
  have res: "reservation_of (cs_engines ?cs ! owner_of 1) ?cmd (cs_prices ?cs) = Some (1, 3, c_price ?cmd)"
    using cs0(4) by (simp add: reservation_of_def c o len)
  have sh: "shards [0, 1, 2, 3]" by (auto simp: shards_def)
  from place_cancel_restores [OF wf sh sh sh, of ?cmd "order_book_new bid_new ask_new 131073" 1 3 "c_price ?cmd"
      "mk_cancel_order 6 Ask 131073" 7 8]
  obtain cs1 cmd1 cs2 cmd2 where
    "core_step 7 ([0, 1, 2, 3], [0, 1, 2, 3], [0, 1, 2, 3]) ?cs ?cmd = Some (cs1, cmd1)" "c_status cmd1 = Placed"
    "core_step 8 ([0, 1, 2, 3], [0, 1, 2, 3], [0, 1, 2, 3]) cs1 (mk_cancel_order 6 Ask 131073) = Some (cs2, cmd2)"
    "c_status cmd2 = Cancelled" "balance_of cs2 1 1 = balance_of ?cs 1 1"
    using book bal res by (auto simp: c r empty fresh_id_def reach_def volume_def solvent_def assets_cases)
  with bal show ?thesis by metis
qed

section \<open>Recovery\<close>

text \<open>C12. The archive reproduces the engine when commands are not pipelined: take commands that came in from the
  gateways and a run of the disruptor that published each of them when all handlers had done the one
  before (\<open>idle\<close>), journaling included, with the handlers of a command interleaved in any way the barriers
  allow, until it came to rest, and the recording of what it archived. If the ring has room for every
  replayed command, \<^verbatim>\<open>start_replay\<close> succeeds, reports the recording to extend and puts as many commands on
  the ring; with the replay flag set the disruptor can process them in that pace, and every run that does
  so brings the state before the live run to exactly the state after it, archives nothing again and does
  not ask the order id generator. Nothing is claimed for commands that overlap in the disruptor, in the
  live run or in the replay: there the outcome depends on the interleaving (see \<open>Pipeline_Claims\<close>).\<close>

theorem replay_reproduces:
  fixes jp :: "'p journaling_processor" and jp2 :: "'q journaling_processor"
  assumes "engine_ready cs" "pubs_wf (jp_publications jp)" "jp_publications jp ! MAX_GATEWAYS = Some pub"
    and "ingest fragments = Some cmds"
    and "disruptor_run clock False idle (disruptor_new cs jp k) cmds live" "idle (ds_pipe live)"
    and "archive_holds ae rec (ds_log live) (replicate (length (ds_log live)) True)"
  shows "\<exists>extended rcs. start_replay ae = Some (Ok (Some extended, rcs)) \<and>
    er_recording_id extended = ri_recording_id rec \<and> length rcs = length cmds \<and>
    (\<exists>e. disruptor_run clock2 True idle (disruptor_new cs jp2 k2) rcs e \<and> idle (ds_pipe e)) \<and>
    (\<forall>e. disruptor_run clock2 True idle (disruptor_new cs jp2 k2) rcs e \<longrightarrow> idle (ds_pipe e) \<longrightarrow>
       p_core (ds_pipe e) = p_core (ds_pipe live) \<and> ds_journal e = jp2 \<and> ds_log e = [] \<and> ds_calls e = k2)"
proof -
  obtain ss where ss: "length ss = length cmds" "\<forall>s\<in>set ss. orders_ok (sc_orders s)"
    "engine_run clock False (zip ss cmds) jp cs k = Some (ds_journal live, p_core (ds_pipe live), ds_log live, ds_calls live)"
    using paced_run_schedules [OF assms(5,1,6)] by (auto simp: list_all_iff)
  have "\<forall>c\<in>set cmds. fresh_command c" using ingest_fresh [OF assms(4)] by blast
  from log_replays [where 'q = 'q, OF assms(1-3) this ss]
  obtain rcs where rcs: "map (handle_replay_fragment True) (ds_log live) = map (\<lambda>rc. Some [rc]) rcs"
    "length rcs = length cmds"
    "\<And>ss2 clock2 jp2 k2. length ss2 = length rcs \<Longrightarrow> \<forall>s\<in>set ss2. orders_ok (sc_orders s) \<Longrightarrow>
       engine_run clock2 True (zip ss2 rcs) jp2 cs k2 =
         Some ((jp2 :: 'q journaling_processor), p_core (ds_pipe live), [], k2)" by blast
  have "length rcs = length (ds_log live)" using arg_cong [OF rcs(1), of length] by simp
  then have "map fst (filter snd (zip rcs (replicate (length (ds_log live)) True))) = rcs"
    by (simp add: zip_replicate2 filter_map o_def)
  then obtain extended where start: "start_replay ae = Some (Ok (Some extended, rcs))"
    "er_recording_id extended = ri_recording_id rec"
    using start_replay_reads [OF assms(7) rcs(1)] by auto
  have "\<exists>e. disruptor_run clock2 True idle (disruptor_new cs jp2 k2) rcs e \<and> idle (ds_pipe e)"
    using schedules_run [OF rcs(3) [of ss clock2 jp2 k2]] ss(1,2) rcs(2) by (auto simp: list_all_iff)
  moreover have "p_core (ds_pipe e) = p_core (ds_pipe live) \<and> ds_journal e = jp2 \<and> ds_log e = [] \<and> ds_calls e = k2"
    if "disruptor_run clock2 True idle (disruptor_new cs jp2 k2) rcs e" "idle (ds_pipe e)" for e
    using paced_run_schedules [OF that(1) assms(1) that(2)] rcs(3) by (auto simp: list_all_iff)
  ultimately show ?thesis using start rcs(2) by blast
qed

text \<open>A generator, its archive and the way a command is scheduled, for the examples.\<close>

definition sample_journal :: "u16 \<Rightarrow> unit journaling_processor" where
  "sample_journal n = \<lparr>jp_snowflake = \<lparr>start_system_ns = 5, epoch_ns = 5, last_tick = 0, sequence_no = n\<rparr>,
     jp_publications = publications_new[MAX_GATEWAYS := Some ()]\<rparr>"

definition sample_schedule :: schedule where
  "sample_schedule = \<lparr>sc_before = 0, sc_wall = Some 5, sc_now = 7,
     sc_orders = ([0, 1, 2, 3], [0, 1, 2, 3], [0, 1, 2, 3])\<rparr>"

definition sample_recording :: "i64 \<Rightarrow> recording_info" where
  "sample_recording stop = \<lparr>ri_control_session_id = 0, ri_correlation_id = 0, ri_recording_id = 4, ri_start_timestamp = 0,
     ri_stop_timestamp = 0, ri_start_position = 0, ri_stop_position = stop, ri_initial_term_id = 0,
     ri_segment_file_length = 0, ri_term_buffer_length = 65536, ri_mtu_length = 1408, ri_session_id = 1,
     ri_stream_id = 2001, ri_stripped_channel_length = 9, ri_original_channel_length = 9,
     ri_source_identity_length = 9\<rparr>"

definition sample_archive :: "i64 \<Rightarrow> (u8 list \<times> bool) list \<Rightarrow> archive_env" where
  "sample_archive stop frames = \<lparr>ar_recordings = Inr [sample_recording stop], ar_start_replay = (\<lambda>_ _ _. Inr 8),
     ar_add_subscription = (\<lambda>_ _. Inr ()), ar_shutdown = (\<lambda>_. False),
     ar_polls = Inr None # map (\<lambda>f. Inr (Some f)) frames, ar_build_uri = (\<lambda>_ _ _. Inr RECORDING_CHANNEL),
     ar_close = Inr (), ar_extend_recording = (\<lambda>_ _ _. Inr 1), ar_start_recording = (\<lambda>_ _. Inr 1),
     ar_show_code = (\<lambda>_. [])\<rparr>"

lemma journal_table:
  "pubs_wf (jp_publications (sample_journal n))" "jp_publications (sample_journal n) ! MAX_GATEWAYS = Some ()"
proof -
  have len: "length (publications_new :: unit publications) = MAX_GATEWAYS + 1"
    using pubs_wf_new by (simp add: pubs_wf_def)
  then show "pubs_wf (jp_publications (sample_journal n))" by (simp add: sample_journal_def pubs_wf_def)
  show "jp_publications (sample_journal n) ! MAX_GATEWAYS = Some ()" using len by (simp add: sample_journal_def)
qed

lemma sample_archive_holds:
  assumes "length log = 2" "length takes = 2"
  shows "archive_holds (sample_archive 192 (zip log takes)) (sample_recording 192) log takes"
proof -
  have "polled (map (\<lambda>f. Inr (Some f)) fs) = fs" for fs by (induction fs) simp_all
  moreover have "list_all (\<lambda>p. case p of Inl _ \<Rightarrow> False | Inr _ \<Rightarrow> True) (map (\<lambda>f. Inr (Some f) :: replay_poll) fs)" for fs
    by (induction fs) simp_all
  ultimately show ?thesis
    using assms by (simp add: archive_holds_def sample_archive_def sample_recording_def read_descriptor_def word_sless_alt)
qed

lemma transfer_runs:
  assumes "core_wf cs" "c_command cmd = DepositFunds \<or> c_command cmd = WithdrawFunds" "c_route_gateway_id cmd = 3"
    and "n = 0 \<or> n = 1" "k = 0 \<or> k = 1"
  shows "\<exists>cs' cmd' bytes. live_step (sc_before sample_schedule) (\<lambda>k. 700 * k) (sc_wall sample_schedule) False
      (sc_now sample_schedule) (sc_orders sample_schedule) (sample_journal n) cs cmd k =
      Some (Ok (sample_journal (n + 1), cs', cmd', [((), bytes)], Suc k)) \<and> core_wf cs'"
proof -
  let ?i = "create_id 0 (n + 1) 3"
  let ?cmd = "cmd\<lparr>c_order_id := ?i, c_timestamp := 5\<rparr>"
  have n: "\<not> STEP_MAX < n + 1"
    using assms(4) by (auto simp: STEP_MAX_val)
  have g: "generate (\<lambda>k. 700 * k) 3 (jp_snowflake (sample_journal n)) k =
      Some (Inr ?i, jp_snowflake (sample_journal (n + 1)), Suc k)"
    using assms(5) n by (auto simp: generate_def current_tick_def sample_journal_def STEP_MAX_val TIME_GRANULARITY_SHIFT_def Let_def)
  obtain bytes where b: "publish_to_archive (jp_publications (sample_journal n)) ?cmd = Some [((), bytes)]"
    using publish_to_archive_result [OF journal_table(1), of n ?cmd] journal_table(2) [of n] by auto
  have "journal_command (\<lambda>k. 700 * k) (Some 5) False (sample_journal n) cmd k =
      Some (Ok (sample_journal (n + 1), ?cmd, [((), bytes)], Suc k))"
    using g b assms(2,3) by (auto simp: journal_command_def is_enabled_def stamp_and_archive_def snowflake_timestamp_def
        or_panic_def sample_journal_def)
  moreover have "admissible cs ?cmd" using assms(2) by (auto simp: admissible_def)
  moreover have "shards [0, 1, 2, 3]" by (auto simp: shards_def)
  ultimately show ?thesis
    using core_step_ok [OF assms(1), of ?cmd "[0, 1, 2, 3]" "[0, 1, 2, 3]" "[0, 1, 2, 3]" 7]
    by (auto simp: sample_schedule_def intro: live_step_first)
qed

theorem replay_reproduces_witness:
  "\<exists>cs fragments cmds live extended rcs e. build_engine [131073] [131073 \<mapsto> sample_spec] = Some cs \<and>
     ingest fragments = Some cmds \<and> map c_command cmds = [DepositFunds, WithdrawFunds] \<and>
     disruptor_run (\<lambda>k. 700 * k) False idle (disruptor_new cs (sample_journal 0) 0) cmds live \<and> idle (ds_pipe live) \<and>
     ds_calls live = 2 \<and> start_replay (sample_archive 192 (zip (ds_log live) [True, True])) = Some (Ok (Some extended, rcs)) \<and>
     disruptor_run (\<lambda>k. 0) True idle (disruptor_new cs (sample_journal 0) 0) rcs e \<and> idle (ds_pipe e) \<and>
     p_core (ds_pipe e) = p_core (ds_pipe live) \<and> ds_calls e = 0"
proof -
  obtain cs where cs: "build_engine [131073] [131073 \<mapsto> sample_spec] = Some cs" "core_wf cs"
    using initial_state [of "[131073]" "[131073 \<mapsto> sample_spec]"] by blast
  let ?d = "mk_deposit_funds 1 9 1" and ?w = "mk_withdraw_funds 1 4 1"
  obtain bd bw where buf: "decode_order_command bd = Ok (wire_view ?d)" "decode_order_command bw = Ok (wire_view ?w)"
    by (metis encode_fresh)
  define d where "d = wire_view ?d\<lparr>c_status := Processing, c_route_gateway_id := 3\<rparr>"
  define w where "w = wire_view ?w\<lparr>c_status := Processing, c_route_gateway_id := 3\<rparr>"
  have c: "c_command d = DepositFunds" "c_command w = WithdrawFunds" "c_route_gateway_id d = 3" "c_route_gateway_id w = 3"
    by (simp_all add: d_def w_def wire_view_def mk_deposit_funds_def mk_withdraw_funds_def)
  have inp: "ingest [(3, True, bd), (3, True, bw)] = Some [d, w]"
    by (simp add: handle_fragment_def buf d_def w_def Let_def)
  obtain cs1 c1 b1 where s1: "live_step (sc_before sample_schedule) (\<lambda>k. 700 * k) (sc_wall sample_schedule) False
      (sc_now sample_schedule) (sc_orders sample_schedule) (sample_journal 0) cs d 0 =
      Some (Ok (sample_journal 1, cs1, c1, [((), b1)], 1))" "core_wf cs1"
    using transfer_runs [OF cs(2), of d 0 0] c by auto
  obtain cs2 c2 b2 where s2: "live_step (sc_before sample_schedule) (\<lambda>k. 700 * k) (sc_wall sample_schedule) False
      (sc_now sample_schedule) (sc_orders sample_schedule) (sample_journal 1) cs1 w 1 =
      Some (Ok (sample_journal 2, cs2, c2, [((), b2)], 2))"
    using transfer_runs [OF s1(2), of w 1 1] c by (auto simp: numeral_2_eq_2)
  have run: "engine_run (\<lambda>k. 700 * k) False (zip [sample_schedule, sample_schedule] [d, w]) (sample_journal 0) cs 0 =
      Some (sample_journal 2, cs2, [b1, b2], 2)"
    using s1(1) s2 by simp
  have ok: "engine_ready cs" "orders_ok (sc_orders sample_schedule)"
    using cs(2) by (auto simp: engine_ready_def core_wf_def orders_ok_def sample_schedule_def shards_def)
  have "list_all fresh_command [d, w]" using ingest_fresh [OF inp] by (simp add: list_all_iff)
  with schedules_run [OF run] ok journal_table [of 0] obtain live where live:
    "disruptor_run (\<lambda>k. 700 * k) False idle (disruptor_new cs (sample_journal 0) 0) [d, w] live" "idle (ds_pipe live)"
    "ds_log live = [b1, b2]" "ds_calls live = 2" by auto
  have "archive_holds (sample_archive 192 (zip (ds_log live) [True, True])) (sample_recording 192) (ds_log live)
      (replicate (length (ds_log live)) True)"
    using sample_archive_holds [of "[b1, b2]" "[True, True]"] by (simp add: live(3) numeral_2_eq_2)
  from replay_reproduces [where ?clock2.0 = "\<lambda>k. 0" and ?jp2.0 = "sample_journal 0" and ?k2.0 = 0,
      OF ok(1) journal_table inp live(1,2) this]
  obtain extended rcs e where
    "start_replay (sample_archive 192 (zip (ds_log live) [True, True])) = Some (Ok (Some extended, rcs))"
    "disruptor_run (\<lambda>k. 0) True idle (disruptor_new cs (sample_journal 0) 0) rcs e" "idle (ds_pipe e)"
    "p_core (ds_pipe e) = p_core (ds_pipe live)" "ds_calls e = 0" by blast
  moreover have "map c_command [d, w] = [DepositFunds, WithdrawFunds]" using c(1,2) by simp
  ultimately show ?thesis
    using cs(1) inp live(1,2,4)
    by (intro exI [of _ cs] exI [of _ "[(3, True, bd), (3, True, bw)]"] exI [of _ "[d, w]"] exI [of _ live]
        exI [of _ extended] exI [of _ rcs] exI [of _ e]) simp
qed

text \<open>C34. A replay loses what the ring refuses: the recording of any log of commands is read to its end
  and \<^verbatim>\<open>start_replay\<close> succeeds whatever the ring answers, but only the commands the ring had room for are
  published; those refused by \<^verbatim>\<open>try_publish\<close> are skipped without an error and are not tried again.\<close>

theorem replay_loses_refused:
  assumes "archive_holds ae rec log takes" "list_all (\<lambda>bytes. \<exists>cmd. decode_order_command bytes = Ok cmd) log"
  shows "\<exists>extended rcs. start_replay ae = Some (Ok (Some extended, map fst (filter snd (zip rcs takes)))) \<and>
    er_recording_id extended = ri_recording_id rec \<and>
    map (\<lambda>rc. Some [rc]) rcs = map (handle_replay_fragment True) log"
proof -
  have "\<exists>rcs. map (handle_replay_fragment True) log = map (\<lambda>rc. Some [rc]) rcs"
    using assms(2)
  proof (induction log)
    case (Cons bytes log)
    then obtain cmd rcs where "decode_order_command bytes = Ok cmd"
      "map (handle_replay_fragment True) log = map (\<lambda>rc. Some [rc]) rcs" by auto
    then have "map (handle_replay_fragment True) (bytes # log) =
        map (\<lambda>rc. Some [rc]) (cmd\<lparr>c_status := Processing\<rparr> # rcs)"
      by (simp add: handle_replay_fragment_def Let_def)
    then show ?case by blast
  qed simp
  then obtain rcs where "map (handle_replay_fragment True) log = map (\<lambda>rc. Some [rc]) rcs" by blast
  with start_replay_reads [OF assms(1)] show ?thesis by metis
qed

theorem replay_loses_refused_witness:
  "\<exists>b1 b2 extended rc. decode_order_command b1 = Ok (wire_view (mk_deposit_funds 1 9 1)) \<and>
     decode_order_command b2 = Ok (wire_view (mk_withdraw_funds 1 4 1)) \<and>
     start_replay (sample_archive 192 [(b1, False), (b2, True)]) = Some (Ok (Some extended, [rc])) \<and>
     c_command rc = WithdrawFunds"
proof -
  obtain b1 b2 where b: "decode_order_command b1 = Ok (wire_view (mk_deposit_funds 1 9 1))"
    "decode_order_command b2 = Ok (wire_view (mk_withdraw_funds 1 4 1))"
    by (metis encode_fresh)
  have "archive_holds (sample_archive 192 (zip [b1, b2] [False, True])) (sample_recording 192) [b1, b2] [False, True]"
    by (rule sample_archive_holds) simp_all
  moreover have "list_all (\<lambda>bytes. \<exists>cmd. decode_order_command bytes = Ok cmd) [b1, b2]" using b by simp
  ultimately obtain extended rcs where
    r: "start_replay (sample_archive 192 (zip [b1, b2] [False, True])) =
      Some (Ok (Some extended, map fst (filter snd (zip rcs [False, True]))))"
    "map (\<lambda>rc. Some [rc]) rcs = map (handle_replay_fragment True) [b1, b2]"
    using replay_loses_refused by blast
  then obtain rc1 rc2 where "rcs = [rc1, rc2]" by (cases rcs; cases "tl rcs") auto
  with r b have "start_replay (sample_archive 192 [(b1, False), (b2, True)]) = Some (Ok (Some extended, [rc2]))"
    "c_command rc2 = WithdrawFunds"
    by (auto simp: handle_replay_fragment_def Let_def wire_view_def mk_withdraw_funds_def)
  with b show ?thesis by blast
qed

text \<open>C35. A late command of a replay gets another id: the replay flag is taken away when the recording has
  been read, while commands of it may still be on the ring. A replayed command other than a cancellation
  that reaches journaling after that is archived a second time, under a new order id that names gateway 0;
  if the order had come from another gateway its id has changed, and the user's cancellation of it will
  not find it.\<close>

theorem late_replay_renumbers:
  assumes "mono clock" "\<And>n. \<exists>j. n < clock j" "sequence_no (jp_snowflake jp) \<le> STEP_MAX"
    and "pubs_wf (jp_publications jp)" "jp_publications jp ! MAX_GATEWAYS = Some pub"
    and "handle_replay_fragment True bytes = Some [rc]" "c_command rc \<noteq> CancelOrder"
    and "journal_command clock wall False jp rc k = Some (Ok (jp', cmd', archived, k'))"
  shows "gateway_from_id (c_order_id cmd') = 0 \<and>
    (gateway_from_id (c_order_id rc) \<noteq> 0 \<longrightarrow> c_order_id cmd' \<noteq> c_order_id rc) \<and>
    (\<exists>bytes'. archived = [(pub, bytes')] \<and> decode_order_command bytes' = Ok (wire_view cmd'))"
proof -
  have "c_route_gateway_id rc = 0"
    using assms(6) by (auto simp: handle_replay_fragment_def Let_def dest!: decoded_fields split: outcome.splits)
  moreover obtain i where i: "generate clock (ucast (c_route_gateway_id rc)) (jp_snowflake jp) k = Some (Inr i, jp_snowflake jp', k')"
    "c_order_id cmd' = i"
    using assms(7,8) by (auto simp: journal_command_def is_enabled_def stamp_and_archive_def Let_def or_panic_def
        split: option.splits sum.splits)
  ultimately have "gateway_from_id (c_order_id cmd') = 0"
    using generate_result [OF assms(1-3), of "ucast (c_route_gateway_id rc)" k] by auto
  with journal_stamp [OF assms(4,5,8)] show ?thesis by auto
qed

theorem late_replay_renumbers_witness:
  "\<exists>bytes rc jp' cmd' archived k'. handle_replay_fragment True bytes = Some [rc] \<and>
     c_order_id rc = create_id 0 1 3 \<and> gateway_from_id (c_order_id rc) = 3 \<and>
     journal_command (\<lambda>k. 700 * k) (Some 5) False (sample_journal 0) rc 0 = Some (Ok (jp', cmd', archived, k')) \<and>
     gateway_from_id (c_order_id cmd') = 0"
proof -
  let ?c = "(mk_deposit_funds 1 9 1)\<lparr>c_order_id := create_id 0 1 3\<rparr>"
  obtain bytes where b: "decode_order_command bytes = Ok (wire_view ?c)"
    using encode_fresh [of ?c] by blast
  let ?rc = "wire_view ?c\<lparr>c_status := Processing\<rparr>"
  have rc: "handle_replay_fragment True bytes = Some [?rc]" by (rule handle_replay_archived [OF b])
  have f: "c_order_id ?rc = create_id 0 1 3" "c_command ?rc = DepositFunds" "c_route_gateway_id ?rc = 0"
    by (simp_all add: wire_view_def mk_deposit_funds_def)
  have g: "generate (\<lambda>k. 700 * k) 0 (jp_snowflake (sample_journal 0)) 0 =
      Some (Inr (create_id 0 1 0), jp_snowflake (sample_journal 1), 1)"
    by (simp add: generate_def current_tick_def sample_journal_def STEP_MAX_val TIME_GRANULARITY_SHIFT_def Let_def)
  obtain offers where "publish_to_archive (jp_publications (sample_journal 0))
      (?rc\<lparr>c_order_id := create_id 0 1 0, c_timestamp := 5\<rparr>) = Some offers"
    using publish_to_archive_result [OF journal_table(1)] by blast
  then obtain jp' cmd' archived k' where
    j: "journal_command (\<lambda>k. 700 * k) (Some 5) False (sample_journal 0) ?rc 0 = Some (Ok (jp', cmd', archived, k'))"
    using g f(2,3) by (auto simp: journal_command_def is_enabled_def stamp_and_archive_def snowflake_timestamp_def or_panic_def)
  have grows: "\<exists>j. n < 700 * j" for n :: nat
    by (rule exI [of _ "Suc n"]) simp
  have mono: "mono (\<lambda>k::nat. 700 * k)" by (simp add: mono_def)
  have sq: "sequence_no (jp_snowflake (sample_journal 0)) \<le> STEP_MAX" by (simp add: sample_journal_def)
  have "c_command ?rc \<noteq> CancelOrder" using f(2) by simp
  from late_replay_renumbers [OF mono grows sq journal_table rc this j]
  have "gateway_from_id (c_order_id cmd') = 0" by blast
  moreover have "gateway_from_id (c_order_id ?rc) = 3"
    unfolding f(1) by (simp add: gateway_from_id_def create_id_def snowflake_consts)
  ultimately show ?thesis using rc f(1) j by blast
qed

end
